(* ===== verification/Prelude.thy ===== *)
theory Prelude
  imports Complex_Main "HOL-Library.AList"
begin

text \<open>
  Shared vocabulary of the development: Python exceptions as values, the state-and-exception
  programs in which every stateful operation of the engine is written, Python dictionaries
  (insertion-ordered association lists), the JSON-like values an event payload holds, and the
  few string operations the engine uses.  The lemmas are generic facts about these, collected
  in \<open>prog_simps\<close> (programs) and \<open>dict_simps\<close> (dictionaries).

  A Python exception leaves every mutation made before it in place, so a program returns the
  new state on the error path too: its type is \<open>'s \<Rightarrow> ('e + 'a) \<times> 's\<close>.
\<close>

named_theorems prog_simps \<open>evaluation of state-and-exception programs\<close>
named_theorems dict_simps \<open>dictionary lookups and updates\<close>

section \<open>Exceptions\<close>

text \<open>
  The exception classes the engine raises, one constructor per class (the message is left out).
  \<open>ReplayIntegrityError\<close> exists once per module in the source; the module is the argument.
\<close>

datatype module_tag = ESM | OM | PM | PF

datatype exc =
    ValueError | TypeError | KeyError | OSError | StructError | JSONDecodeError | InvalidOperation
  | MalformedEventError | CorruptEventStoreError | EventStoreLockError | EventStoreClosedError
  | IllegalTransitionError
  | ReplayIntegrityError module_tag
  | ExchangeAdapterError | ExchangeConnectionError | ExchangeTimeoutError
  | ExchangeAuthenticationError | RateLimitExceededError "rat option" | OrderUnknownError
  | ExchangeRejectedOrderError | StaleSnapshotError | SequenceGapError | ReconciliationMismatchError
  | OrderNotFoundError | IllegalOrderTransitionError | OrderStateInconsistencyError
  | PositionNotFoundError | IllegalPositionTransitionError | PositionStateInconsistencyError
  | InsufficientFundsError | InsufficientMarginError | AccountingInvariantError
  | RiskManagerConfigurationError | ExecutionError | SizingError
  | PayloadTooLargeError | SecretRevokedError | UnknownSecretReferenceError
  | SecretsConfigurationError | SecretsStartupError | RuntimeError
  | StrategyError | PortfolioConstructionError | SchedulingError | MonitoringError
  | UnknownVenueEventError | EmergencyStopActive
  | DuplicateExperimentError | ExperimentNotFoundError | AlreadySealedError | InvalidSpecificationError
  | ExperimentNotSealedError | EvidenceAlreadyAttachedError | IllegalLifecycleTransitionError
  | LifecycleGuardError | GovernanceRequiredError | RegistryLockError | MalformedRegistryLogError
  | AttributeError | ZeroDivisionError | IndexError | OverflowError | OrchestrationError
  | CandidateError | ExecutionBridgeError | FeatureError | HistoricalDataError | PortfolioError
  | DegradationError | GovernanceError | ValidationError | ConfigFileError | ConfigValidationError

section \<open>Programs with state and exceptions\<close>

type_synonym ('s, 'e, 'a) prog = "'s \<Rightarrow> ('e + 'a) \<times> 's"

definition bindP :: "('s, 'e, 'a) prog \<Rightarrow> ('a \<Rightarrow> ('s, 'e, 'b) prog) \<Rightarrow> ('s, 'e, 'b) prog" where
  "bindP m f s = (case m s of (Inl e, s') \<Rightarrow> (Inl e, s') | (Inr x, s') \<Rightarrow> f x s')"

definition bindE :: "'e + 'a \<Rightarrow> ('a \<Rightarrow> 'e + 'b) \<Rightarrow> 'e + 'b" where
  "bindE m f = (case m of Inl e \<Rightarrow> Inl e | Inr x \<Rightarrow> f x)"

lemma bindE_simps [simp, prog_simps]:
  "bindE (Inl e) f = Inl e"
  "bindE (Inr x) f = f x"
  by (simp_all add: bindE_def)

lemma bindE_eq_Inr [prog_simps]: "bindE m f = Inr y \<longleftrightarrow> (\<exists>x. m = Inr x \<and> f x = Inr y)"
  by (cases m) simp_all

lemma bindP_Inl [prog_simps]: "m s = (Inl e, s') \<Longrightarrow> bindP m f s = (Inl e, s')"
  by (simp add: bindP_def)

lemma bindP_Inr [prog_simps]: "m s = (Inr x, s') \<Longrightarrow> bindP m f s = f x s'"
  by (simp add: bindP_def)

section \<open>Values of a payload and dictionaries\<close>

text \<open>
  \<open>VDec d\<close> is the text \<open>str(d)\<close> of the Decimal \<open>d\<close>: the engine writes every amount into a
  payload as such a text and reads it back with \<open>Decimal(text)\<close>, which is exact.
\<close>

datatype pyval =
    VNone
  | VBool bool
  | VInt int
  | VStr string
  | VDec rat
  | VList "pyval list"
  | VDict "(string \<times> pyval) list"

type_synonym dict = "(string \<times> pyval) list"

text \<open>\<open>d.get(k)\<close>: a missing key reads as \<open>None\<close>.\<close>

definition dget :: "dict \<Rightarrow> string \<Rightarrow> pyval" where
  "dget d k = (case map_of d k of None \<Rightarrow> VNone | Some v \<Rightarrow> v)"

text \<open>\<open>d.get(k, {})\<close> for a key that holds a dictionary.\<close>

definition dget_dict :: "dict \<Rightarrow> string \<Rightarrow> dict" where
  "dget_dict d k = (case map_of d k of Some (VDict d') \<Rightarrow> d' | _ \<Rightarrow> [])"

lemma dget_Cons [simp, dict_simps]:
  "dget [] k = VNone"
  "dget ((k', v) # d) k = (if k = k' then v else dget d k)"
  by (simp_all add: dget_def)

lemma dget_dict_Cons [simp, dict_simps]:
  "dget_dict [] k = []"
  "dget_dict ((k', VDict d') # d) k = (if k = k' then d' else dget_dict d k)"
  "k \<noteq> k' \<Longrightarrow> dget_dict ((k', v) # d) k = dget_dict d k"
  by (simp_all add: dget_dict_def)

text \<open>
  \<open>d[k]\<close> for a key that should hold a text, an integer, a dictionary or the text of a Decimal:
  \<open>KeyError\<close> when the key is missing.  A value of another type cannot be produced by the engine's
  own writers; reading it ends in \<open>TypeError\<close>.
\<close>

definition req_str :: "dict \<Rightarrow> string \<Rightarrow> exc + string" where
  "req_str d k = (case map_of d k of None \<Rightarrow> Inl KeyError | Some (VStr s) \<Rightarrow> Inr s | _ \<Rightarrow> Inl TypeError)"

definition req_int :: "dict \<Rightarrow> string \<Rightarrow> exc + int" where
  "req_int d k = (case map_of d k of None \<Rightarrow> Inl KeyError | Some (VInt i) \<Rightarrow> Inr i | _ \<Rightarrow> Inl TypeError)"

definition req_bool :: "dict \<Rightarrow> string \<Rightarrow> exc + bool" where
  "req_bool d k = (case map_of d k of None \<Rightarrow> Inl KeyError | Some (VBool b) \<Rightarrow> Inr b | _ \<Rightarrow> Inl TypeError)"

definition req_dict :: "dict \<Rightarrow> string \<Rightarrow> exc + dict" where
  "req_dict d k = (case map_of d k of None \<Rightarrow> Inl KeyError | Some (VDict x) \<Rightarrow> Inr x | _ \<Rightarrow> Inl TypeError)"

text \<open>\<open>Decimal(d[k])\<close>.\<close>

definition req_dec :: "dict \<Rightarrow> string \<Rightarrow> exc + rat" where
  "req_dec d k = (case map_of d k of None \<Rightarrow> Inl KeyError | Some (VDec x) \<Rightarrow> Inr x | _ \<Rightarrow> Inl TypeError)"

lemma req_str_Cons [simp, dict_simps]:
  "req_str [] k = Inl KeyError"
  "req_str ((k', v) # d) k =
     (if k = k' then (case v of VStr s \<Rightarrow> Inr s | _ \<Rightarrow> Inl TypeError) else req_str d k)"
  by (auto simp: req_str_def)

lemma req_int_Cons [simp, dict_simps]:
  "req_int [] k = Inl KeyError"
  "req_int ((k', v) # d) k =
     (if k = k' then (case v of VInt i \<Rightarrow> Inr i | _ \<Rightarrow> Inl TypeError) else req_int d k)"
  by (auto simp: req_int_def)

lemma req_bool_Cons [simp, dict_simps]:
  "req_bool [] k = Inl KeyError"
  "req_bool ((k', v) # d) k =
     (if k = k' then (case v of VBool b \<Rightarrow> Inr b | _ \<Rightarrow> Inl TypeError) else req_bool d k)"
  by (auto simp: req_bool_def)

lemma req_dict_Cons [simp, dict_simps]:
  "req_dict [] k = Inl KeyError"
  "req_dict ((k', v) # d) k =
     (if k = k' then (case v of VDict x \<Rightarrow> Inr x | _ \<Rightarrow> Inl TypeError) else req_dict d k)"
  by (auto simp: req_dict_def)

lemma req_dec_Cons [simp, dict_simps]:
  "req_dec [] k = Inl KeyError"
  "req_dec ((k', v) # d) k =
     (if k = k' then (case v of VDec x \<Rightarrow> Inr x | _ \<Rightarrow> Inl TypeError) else req_dec d k)"
  by (auto simp: req_dec_def)

text \<open>\<open>str(x) if x is not None else None\<close>.\<close>

definition vopt :: "('a \<Rightarrow> pyval) \<Rightarrow> 'a option \<Rightarrow> pyval" where
  "vopt f x = (case x of None \<Rightarrow> VNone | Some y \<Rightarrow> f y)"

lemma vopt_simps [simp, dict_simps]: "vopt f None = VNone" "vopt f (Some x) = f x"
  by (simp_all add: vopt_def)

text \<open>Insertion-ordered dictionaries of the managers (\<open>Dict[str, Snapshot]\<close>).\<close>

lemma map_of_update [simp, dict_simps]:
  "map_of (AList.update k v al) k' = (if k = k' then Some v else map_of al k')"
  by (simp add: AList.update_conv')

section \<open>Strings\<close>

text \<open>
  Characters are code points below 256.  \<open>py_strip_empty s\<close> is \<open>not s.strip()\<close>;
  \<open>py_lower\<close> is \<open>str.lower\<close>; \<open>show_nat\<close> and \<open>show_int\<close> are \<open>str\<close> on integers.
\<close>

definition is_space :: "char \<Rightarrow> bool" where
  "is_space c = (let n = (of_char c :: nat) in
     (9 \<le> n \<and> n \<le> 13) \<or> (28 \<le> n \<and> n \<le> 32) \<or> n = 133 \<or> n = 160)"

definition py_strip_empty :: "string \<Rightarrow> bool" where
  "py_strip_empty s = list_all is_space s"

definition lower_char :: "char \<Rightarrow> char" where
  "lower_char c = (let n = (of_char c :: nat) in
     if (65 \<le> n \<and> n \<le> 90) \<or> (192 \<le> n \<and> n \<le> 222 \<and> n \<noteq> 215) then char_of (n + 32) else c)"

definition py_lower :: "string \<Rightarrow> string" where
  "py_lower s = map lower_char s"

text \<open>\<open>p in s\<close> on strings.\<close>

fun is_infix :: "string \<Rightarrow> string \<Rightarrow> bool" where
  "is_infix p [] = (p = [])"
| "is_infix p (c # s) = (take (length p) (c # s) = p \<or> is_infix p s)"

fun show_nat :: "nat \<Rightarrow> string" where
  "show_nat n = (if n < 10 then [char_of (48 + n)]
                 else show_nat (n div 10) @ [char_of (48 + n mod 10)])"

declare show_nat.simps [simp del]

definition show_int :: "int \<Rightarrow> string" where
  "show_int i = (if i < 0 then CHR ''-'' # show_nat (nat (- i)) else show_nat (nat i))"

definition is_digit :: "char \<Rightarrow> bool" where
  "is_digit c = (48 \<le> (of_char c :: nat) \<and> (of_char c :: nat) \<le> 57)"

text \<open>Reading a numeral back: used only to show that \<open>show_nat\<close> loses nothing.\<close>

definition read_nat :: "string \<Rightarrow> nat" where
  "read_nat s = foldl (\<lambda>n c. 10 * n + (of_char c - 48)) 0 s"

lemma of_char_digit [simp]: "d < 10 \<Longrightarrow> of_char (char_of (48 + d) :: char) = (48 + d :: nat)"
  by simp

lemma read_show_nat [simp]: "read_nat (show_nat n) = n"
proof (induction n rule: show_nat.induct)
  case (1 n)
  show ?case
  proof (cases "n < 10")
    case True
    then show ?thesis by (subst show_nat.simps) (simp add: read_nat_def)
  next
    case False
    with 1 have "read_nat (show_nat (n div 10)) = n div 10" by simp
    with False show ?thesis by (subst show_nat.simps) (simp add: read_nat_def)
  qed
qed

lemma is_digit_char_of [simp]: "(d :: nat) < 10 \<Longrightarrow> is_digit (char_of (48 + d))"
  by (simp add: is_digit_def)

lemma show_nat_digits: "list_all is_digit (show_nat n)"
proof (induction n rule: show_nat.induct)
  case (1 n)
  then show ?case by (subst show_nat.simps) simp
qed

lemma show_nat_inj [simp]: "show_nat m = show_nat n \<longleftrightarrow> m = n"
  by (metis read_show_nat)

text \<open>
  A decimal numeral followed by a non-digit determines where the numeral ends.  This is what
  makes length-prefixed keys unambiguous.
\<close>

lemma digits_sep_eq:
  assumes "list_all is_digit xs" "list_all is_digit ys" "\<not> is_digit c"
    and "xs @ c # us = ys @ c # vs"
  shows "xs = ys \<and> us = vs"
  using assms
proof (induction xs arbitrary: ys)
  case Nil
  then show ?case by (cases ys) auto
next
  case (Cons x xs)
  then show ?case by (cases ys) auto
qed

lemma show_nat_sep_eq:
  assumes "\<not> is_digit c" and "show_nat m @ c # us = show_nat n @ c # vs"
  shows "m = n \<and> us = vs"
  using digits_sep_eq [OF show_nat_digits show_nat_digits assms] by simp

text \<open>The length-prefixed field \<open>"{len(s)}:{s}"\<close> of a key, followed by anything.\<close>

definition len_field :: "string \<Rightarrow> string" where
  "len_field s = show_nat (length s) @ '':'' @ s"

lemma len_field_append_eq: "len_field s @ us = len_field t @ vs \<longleftrightarrow> s = t \<and> us = vs"
proof
  assume "len_field s @ us = len_field t @ vs"
  then have "show_nat (length s) @ CHR '':'' # (s @ us) = show_nat (length t) @ CHR '':'' # (t @ vs)"
    by (simp add: len_field_def)
  then have "length s = length t \<and> s @ us = t @ vs"
    by (rule show_nat_sep_eq [rotated]) (simp add: is_digit_def)
  then show "s = t \<and> us = vs" using append_eq_append_conv by blast
qed simp

section \<open>Folding a log\<close>

text \<open>
  Every manager rebuilds its state the same way:
  \<^verbatim>\<open>for event in store.replay(): if not own(event): continue; self._apply_event(event)\<close>.
  The first exception aborts the construction.
\<close>

fun fold_log :: "('ev \<Rightarrow> bool) \<Rightarrow> ('ev \<Rightarrow> 's \<Rightarrow> ('e + 'r) \<times> 's) \<Rightarrow> 'ev list \<Rightarrow> 's \<Rightarrow> 'e + 's" where
  "fold_log own app [] s = Inr s"
| "fold_log own app (ev # evs) s =
     (if own ev
      then (case app ev s of (Inl e, _) \<Rightarrow> Inl e | (Inr _, s') \<Rightarrow> fold_log own app evs s')
      else fold_log own app evs s)"

lemma fold_log_append:
  "fold_log own app (xs @ ys) s = bindE (fold_log own app xs s) (fold_log own app ys)"
proof (induction xs arbitrary: s)
  case (Cons x xs)
  then show ?case by (auto split: prod.splits sum.splits)
qed simp

lemma fold_log_snoc_foreign: "\<not> own ev \<Longrightarrow> fold_log own app (xs @ [ev]) s = fold_log own app xs s"
  by (cases "fold_log own app xs s") (simp_all add: fold_log_append)

lemma fold_log_snoc_own:
  "own ev \<Longrightarrow> fold_log own app xs s = Inr s1 \<Longrightarrow> app ev s1 = (Inr r, s2) \<Longrightarrow>
   fold_log own app (xs @ [ev]) s = Inr s2"
  by (simp add: fold_log_append)

lemma fold_log_snoc_error:
  "own ev \<Longrightarrow> fold_log own app xs s = Inr s1 \<Longrightarrow> app ev s1 = (Inl e, s2) \<Longrightarrow>
   fold_log own app (xs @ [ev]) s = Inl e"
  by (simp add: fold_log_append)

lemma fold_log_foreign: "list_all (\<lambda>ev. \<not> own ev) ys \<Longrightarrow> fold_log own app ys s = Inr s"
  by (induction ys) simp_all

text \<open>An invariant of the application step is an invariant of the whole replay.\<close>

lemma fold_log_invariant:
  assumes "fold_log own app evs s = Inr t" and "P s"
    and "\<And>ev s r s'. P s \<Longrightarrow> own ev \<Longrightarrow> app ev s = (Inr r, s') \<Longrightarrow> P s'"
  shows "P t"
  using assms(1,2)
proof (induction evs arbitrary: s)
  case (Cons ev evs)
  then show ?case
    using assms(3) by (auto split: if_splits prod.splits sum.splits)
qed simp

end
