(* ===== verification/Codec.thy ===== *)
theory Codec
  imports Prelude "HOL-Library.Word"
begin

text \<open>
  The binary record framing of the event log, \<^verbatim>\<open>event_store/codec.py\<close>: magic bytes, a
  header packed with \<^verbatim>\<open>struct.Struct(">BQI")\<close>, the payload and a SHA-256 checksum.
  \<^verbatim>\<open>hashlib.sha256\<close> is a parameter \<open>h\<close>; all that is used of it is that a digest has 32
  bytes.  The lemmas are the round trip at any offset of a file, and that every proper prefix of a
  record is reported as incomplete, never as corruption.
\<close>

type_synonym byte = "8 word"
type_synonym bytes = "byte list"

section \<open>Big-endian unsigned integers and slices\<close>

fun to_be :: "nat \<Rightarrow> nat \<Rightarrow> bytes" where
  "to_be 0 n = []"
| "to_be (Suc k) n = to_be k (n div 256) @ [of_nat (n mod 256)]"

definition from_be :: "bytes \<Rightarrow> nat" where
  "from_be bs = foldl (\<lambda>a b. 256 * a + unat b) 0 bs"

text \<open>\<open>buf[a:b]\<close>.\<close>

definition pyslice :: "'a list \<Rightarrow> nat \<Rightarrow> nat \<Rightarrow> 'a list" where
  "pyslice xs a b = take (b - a) (drop a xs)"

section \<open>Records\<close>

definition MAGIC :: bytes where
  "MAGIC = [0x54, 0x51, 0x45, 0x56]"

definition FORMAT_VERSION :: nat where "FORMAT_VERSION = 1"
definition CHECKSUM_SIZE :: nat where "CHECKSUM_SIZE = 32"
definition HEADER_SIZE :: nat where "HEADER_SIZE = 17"

text \<open>
  \<open>_HEADER_TAIL_STRUCT.pack\<close>: one byte, eight bytes, four bytes; \<open>None\<close> is \<open>struct.error\<close>.
\<close>

definition header_tail_pack :: "nat \<Rightarrow> nat \<Rightarrow> nat \<Rightarrow> bytes option" where
  "header_tail_pack v i l =
     (if v < 256 \<and> i < 256 ^ 8 \<and> l < 256 ^ 4 then Some (to_be 1 v @ to_be 8 i @ to_be 4 l) else None)"

definition header_tail_unpack :: "bytes \<Rightarrow> nat \<times> nat \<times> nat" where
  "header_tail_unpack bs = (from_be (pyslice bs 0 1), from_be (pyslice bs 1 9), from_be (pyslice bs 9 13))"

definition encode_record :: "(bytes \<Rightarrow> bytes) \<Rightarrow> nat \<Rightarrow> bytes \<Rightarrow> bytes option" where
  "encode_record h event_id payload_bytes =
     (case header_tail_pack FORMAT_VERSION event_id (length payload_bytes) of
        None \<Rightarrow> None
      | Some tail \<Rightarrow>
          let header = MAGIC @ tail; checksum = h (header @ payload_bytes)
          in Some (header @ payload_bytes @ checksum))"

record decoded_record =
  dr_event_id :: nat
  dr_payload_bytes :: bytes
  dr_consumed_bytes :: nat

datatype record_decode_error =
    RecordDecodeIncomplete
  | RecordDecodeBadMagic
  | RecordDecodeUnsupportedVersion
  | RecordDecodeChecksumMismatch nat \<comment> \<open>\<open>end_offset\<close>\<close>

definition decode_record :: "(bytes \<Rightarrow> bytes) \<Rightarrow> bytes \<Rightarrow> nat \<Rightarrow> record_decode_error + decoded_record" where
  "decode_record h buf offset =
     (let available = length buf - offset in
      if available < length MAGIC then Inl RecordDecodeIncomplete
      else if pyslice buf offset (offset + length MAGIC) \<noteq> MAGIC then Inl RecordDecodeBadMagic
      else if available < HEADER_SIZE then Inl RecordDecodeIncomplete
      else
        (case header_tail_unpack (drop (offset + length MAGIC) buf) of
          (format_version, event_id, payload_length) \<Rightarrow>
            if format_version \<noteq> FORMAT_VERSION then Inl RecordDecodeUnsupportedVersion
            else
              let payload_start = offset + HEADER_SIZE;
                  payload_end = payload_start + payload_length;
                  checksum_end = payload_end + CHECKSUM_SIZE
              in if length buf < checksum_end then Inl RecordDecodeIncomplete
                 else
                   let payload_bytes = pyslice buf payload_start payload_end;
                       checksum = pyslice buf payload_end checksum_end;
                       header = pyslice buf offset payload_start
                   in if checksum \<noteq> h (header @ payload_bytes)
                      then Inl (RecordDecodeChecksumMismatch checksum_end)
                      else Inr \<lparr>dr_event_id = event_id, dr_payload_bytes = payload_bytes,
                                dr_consumed_bytes = checksum_end - offset\<rparr>))"

section \<open>Round trip\<close>

lemma length_to_be [simp]: "length (to_be k n) = k"
  by (induction k arbitrary: n) simp_all

lemma from_be_to_be: "n < 256 ^ k \<Longrightarrow> from_be (to_be k n) = n"
proof (induction k arbitrary: n)
  case (Suc k)
  then have "n div 256 < 256 ^ k" by (simp add: less_mult_imp_div_less mult.commute)
  with Suc.IH have "from_be (to_be k (n div 256)) = n div 256" by blast
  moreover have "unat (of_nat (n mod 256) :: byte) = n mod 256"
    by (simp add: unat_of_nat)
  ultimately show ?case by (simp add: from_be_def)
qed (simp add: from_be_def)

text \<open>Everything before the offset is irrelevant, up to the absolute end offset in the error.\<close>

lemma pyslice_shift [simp]: "pyslice (pre @ buf) (length pre + a) (length pre + b) = pyslice buf a b"
  by (simp add: pyslice_def)

fun shift_error :: "nat \<Rightarrow> record_decode_error \<Rightarrow> record_decode_error" where
  "shift_error k (RecordDecodeChecksumMismatch e) = RecordDecodeChecksumMismatch (k + e)"
| "shift_error k e = e"

lemma decode_record_shift:
  "decode_record h (pre @ buf) (length pre) = map_sum (shift_error (length pre)) id (decode_record h buf 0)"
proof -
  have s: "pyslice (pre @ buf) (length pre) (length pre + b) = pyslice buf 0 b" for b
    using pyslice_shift [of pre buf 0 b] by simp
  show ?thesis
    by (simp add: decode_record_def Let_def s add.assoc split: prod.splits)
qed

lemma length_MAGIC [simp]: "length MAGIC = 4"
  by (simp add: MAGIC_def)

definition record_header :: "nat \<Rightarrow> nat \<Rightarrow> bytes" where
  "record_header i l = MAGIC @ to_be 1 FORMAT_VERSION @ to_be 8 i @ to_be 4 l"

lemma length_record_header [simp]: "length (record_header i l) = 17"
  by (simp add: record_header_def)

lemma encode_record_eq:
  "encode_record h i p =
     (if i < 256 ^ 8 \<and> length p < 256 ^ 4
      then Some (record_header i (length p) @ p @ h (record_header i (length p) @ p)) else None)"
  by (simp add: encode_record_def header_tail_pack_def FORMAT_VERSION_def record_header_def Let_def)

lemma length_encode_record:
  "encode_record h i p = Some r \<Longrightarrow> (\<And>x. length (h x) = 32) \<Longrightarrow> length r = 49 + length p"
  by (auto simp: encode_record_eq split: if_splits)

lemma header_tail_unpack_header:
  assumes "i < 256 ^ 8" "l < 256 ^ 4"
  shows "header_tail_unpack (drop 4 (record_header i l @ rest)) = (FORMAT_VERSION, i, l)"
proof -
  let ?v = "to_be 1 FORMAT_VERSION"
  have d: "drop 4 (record_header i l @ rest) = ?v @ to_be 8 i @ to_be 4 l @ rest"
    by (simp add: record_header_def)
  have "pyslice (?v @ to_be 8 i @ to_be 4 l @ rest) 0 1 = ?v"
    by (simp add: pyslice_def del: to_be.simps)
  moreover have "pyslice (?v @ to_be 8 i @ to_be 4 l @ rest) 1 9 = to_be 8 i"
    using pyslice_shift [of ?v "to_be 8 i @ to_be 4 l @ rest" 0 8] by (simp add: pyslice_def del: to_be.simps)
  moreover have "pyslice (?v @ to_be 8 i @ to_be 4 l @ rest) 9 13 = to_be 4 l"
    using pyslice_shift [of "?v @ to_be 8 i" "to_be 4 l @ rest" 0 4] by (simp add: pyslice_def del: to_be.simps)
  moreover have "from_be ?v = FORMAT_VERSION"
    by (rule from_be_to_be) (simp add: FORMAT_VERSION_def)
  ultimately show ?thesis
    unfolding header_tail_unpack_def d by (simp only: from_be_to_be assms)
qed

text \<open>Decoding at the start of a buffer, by the parts of the buffer.\<close>

lemma decode_record_parts:
  assumes "i < 256 ^ 8" "length p < 256 ^ 4" "length c = 32"
  shows "decode_record h (record_header i (length p) @ p @ c @ post) 0 =
    (if c = h (record_header i (length p) @ p)
     then Inr \<lparr>dr_event_id = i, dr_payload_bytes = p, dr_consumed_bytes = 49 + length p\<rparr>
     else Inl (RecordDecodeChecksumMismatch (49 + length p)))"
proof -
  let ?hd = "record_header i (length p)"
  have m: "take 4 ?hd = MAGIC" by (simp add: record_header_def)
  have p: "pyslice (?hd @ p @ d) 17 (17 + length p) = p" for d
    using pyslice_shift [of ?hd "p @ d" 0 "length p"] by (simp add: pyslice_def)
  have c: "pyslice (?hd @ p @ c @ post) (17 + length p) (49 + length p) = c"
    using pyslice_shift [of "?hd @ p" "c @ post" 0 32] assms(3) by (simp add: pyslice_def)
  let ?buf = "?hd @ p @ c @ post"
  have h: "pyslice ?buf 0 17 = ?hd" and m': "pyslice ?buf 0 4 = MAGIC"
    using m by (simp_all add: pyslice_def)
  have l: "length ?buf = 49 + length p + length post" using assms(3) by simp
  show ?thesis
    unfolding decode_record_def HEADER_SIZE_def CHECKSUM_SIZE_def Let_def length_MAGIC l
    using header_tail_unpack_header [OF assms(1,2), of "p @ c @ post"] m' h p c
    by (simp del: drop_append)
qed

lemma decode_encode_record:
  assumes "encode_record h i p = Some r" "\<And>x. length (h x) = 32"
  shows "decode_record h (pre @ r @ post) (length pre) =
    Inr \<lparr>dr_event_id = i, dr_payload_bytes = p, dr_consumed_bytes = length r\<rparr>"
proof -
  from assms(1) have b: "i < 256 ^ 8" "length p < 256 ^ 4"
    and r: "r = record_header i (length p) @ p @ h (record_header i (length p) @ p)"
    by (auto simp: encode_record_eq split: if_splits)
  have "decode_record h (r @ post) 0 =
      Inr \<lparr>dr_event_id = i, dr_payload_bytes = p, dr_consumed_bytes = 49 + length p\<rparr>"
    using decode_record_parts [OF b assms(2), of h _ post] by (simp add: r)
  then show ?thesis
    using length_encode_record [OF assms] by (simp add: decode_record_shift)
qed

text \<open>A torn write: every proper prefix of a record is incomplete, whatever comes before it.\<close>

lemma decode_record_prefix:
  assumes "encode_record h i p = Some (a @ b)" "b \<noteq> []" "\<And>x. length (h x) = 32"
  shows "decode_record h (pre @ a) (length pre) = Inl RecordDecodeIncomplete"
proof -
  from assms(1) have b: "i < 256 ^ 8" "length p < 256 ^ 4"
    and r: "a @ b = record_header i (length p) @ p @ h (record_header i (length p) @ p)"
    by (auto simp: encode_record_eq split: if_splits)
  have len: "length a < 49 + length p"
    using length_encode_record [OF assms(1,3)] assms(2) by (cases b) auto
  have "decode_record h a 0 = Inl RecordDecodeIncomplete"
  proof (cases "length a < 17")
    case True
    have "4 \<le> length a \<Longrightarrow> take 4 a = MAGIC"
      using arg_cong [OF r, of "take 4"] by (simp add: record_header_def)
    then show ?thesis using True
      by (simp add: decode_record_def HEADER_SIZE_def pyslice_def Let_def not_less)
  next
    case False
    have "take 17 a = record_header i (length p)"
      using arg_cong [OF r, of "take 17"] False by simp
    then obtain a' where a': "a = record_header i (length p) @ a'" by (metis append_take_drop_id)
    have "pyslice a 0 4 = MAGIC" by (simp add: a' pyslice_def record_header_def)
    with False len show ?thesis
      using header_tail_unpack_header [OF b, of a']
      by (simp add: decode_record_def HEADER_SIZE_def CHECKSUM_SIZE_def Let_def flip: a')
  qed
  then show ?thesis by (simp add: decode_record_shift)
qed

text \<open>What a successful decode says about the buffer: it consumed a whole record of it.\<close>

lemma decode_record_consumed:
  assumes "decode_record h buf off = Inr d"
  shows "0 < dr_consumed_bytes d" and "off + dr_consumed_bytes d \<le> length buf"
  using assms
  by (auto simp: decode_record_def Let_def CHECKSUM_SIZE_def HEADER_SIZE_def split: if_splits prod.splits)

end
