(* ===== verification/Event_Store.thy ===== *)
theory Event_Store
  imports Codec
begin

text \<open>
  The append-only event log and idempotency ledger, \<^verbatim>\<open>event_store/store.py\<close> and
  \<^verbatim>\<open>event_store/types.py\<close>.  The state is the log file (its bytes and the offset of the
  descriptor) together with the in-memory index.  What lies outside the program is the parameter
  \<open>env\<close>: SHA-256, the JSON library, and for each append the clock reading, the results of the
  successive \<^verbatim>\<open>os.write\<close> calls and whether \<^verbatim>\<open>os.fsync\<close> succeeds.

  Payload dictionaries are only ever read by key, and the JSON text sorts the keys, so a
  dictionary is represented by its items in key order.
\<close>

section \<open>Events\<close>

datatype event_type =
    ORDER_SUBMITTED | ORDER_ACKNOWLEDGED | ORDER_FILLED | ORDER_CANCELLED
  | POSITION_OPENED | POSITION_UPDATED | POSITION_CLOSED | STOP_UPDATED | TAKE_PROFIT_UPDATED
  | KILL_SWITCH_TRIGGERED | HEALTH_ALERT | SYSTEM_STARTED | SYSTEM_STOPPED

fun event_type_value :: "event_type \<Rightarrow> string" where
  "event_type_value ORDER_SUBMITTED = ''ORDER_SUBMITTED''"
| "event_type_value ORDER_ACKNOWLEDGED = ''ORDER_ACKNOWLEDGED''"
| "event_type_value ORDER_FILLED = ''ORDER_FILLED''"
| "event_type_value ORDER_CANCELLED = ''ORDER_CANCELLED''"
| "event_type_value POSITION_OPENED = ''POSITION_OPENED''"
| "event_type_value POSITION_UPDATED = ''POSITION_UPDATED''"
| "event_type_value POSITION_CLOSED = ''POSITION_CLOSED''"
| "event_type_value STOP_UPDATED = ''STOP_UPDATED''"
| "event_type_value TAKE_PROFIT_UPDATED = ''TAKE_PROFIT_UPDATED''"
| "event_type_value KILL_SWITCH_TRIGGERED = ''KILL_SWITCH_TRIGGERED''"
| "event_type_value HEALTH_ALERT = ''HEALTH_ALERT''"
| "event_type_value SYSTEM_STARTED = ''SYSTEM_STARTED''"
| "event_type_value SYSTEM_STOPPED = ''SYSTEM_STOPPED''"

definition all_event_types :: "event_type list" where
  "all_event_types = [ORDER_SUBMITTED, ORDER_ACKNOWLEDGED, ORDER_FILLED, ORDER_CANCELLED,
     POSITION_OPENED, POSITION_UPDATED, POSITION_CLOSED, STOP_UPDATED, TAKE_PROFIT_UPDATED,
     KILL_SWITCH_TRIGGERED, HEALTH_ALERT, SYSTEM_STARTED, SYSTEM_STOPPED]"

text \<open>\<open>EventType(raw)\<close>.\<close>

definition parse_event_type :: "string \<Rightarrow> event_type option" where
  "parse_event_type raw = find (\<lambda>t. event_type_value t = raw) all_event_types"

record event =
  event_id :: nat
  ev_type :: event_type
  timestamp_utc :: string
  schema_version :: int
  idempotency_key :: "string option"
  payload :: dict

record recovery_report =
  valid_event_count :: nat
  tail_truncated :: bool
  discarded_byte_count :: nat

section \<open>The outside world\<close>

record io_call =
  io_now :: string
  io_writes :: "int list"
  io_fsync :: bool

record env =
  sha256 :: "bytes \<Rightarrow> bytes"
  json_dumps :: "pyval \<Rightarrow> bytes"
  json_loads :: "bytes \<Rightarrow> pyval option"
  io_calls :: "nat \<Rightarrow> io_call"

text \<open>
  An open file in append mode.  \<open>os.write\<close> puts the data at the end of the file and leaves the
  descriptor's offset there; \<open>os.ftruncate\<close> cuts or zero-extends the file and does not move the
  offset.
\<close>

record fd =
  fd_data :: bytes
  fd_pos :: nat

definition os_write :: "fd \<Rightarrow> bytes \<Rightarrow> fd" where
  "os_write f bs = (let d = fd_data f @ bs in \<lparr>fd_data = d, fd_pos = length d\<rparr>)"

definition os_ftruncate :: "fd \<Rightarrow> nat \<Rightarrow> fd" where
  "os_ftruncate f n = f\<lparr>fd_data := take n (fd_data f) @ replicate (n - length (fd_data f)) 0\<rparr>"

definition os_seek_end :: "fd \<Rightarrow> fd" where
  "os_seek_end f = f\<lparr>fd_pos := length (fd_data f)\<rparr>"

section \<open>Validation and encoding\<close>

definition MAX_PAYLOAD_BYTES :: nat where "MAX_PAYLOAD_BYTES = 256 * 1024"
definition MAX_IDEMPOTENCY_KEY_LENGTH :: nat where "MAX_IDEMPOTENCY_KEY_LENGTH = 200"

definition FORBIDDEN_KEY_SUBSTRINGS :: "string list" where
  "FORBIDDEN_KEY_SUBSTRINGS =
     [''secret'', ''private_key'', ''priv_key'', ''password'', ''passphrase'',
      ''api_key'', ''signing_key'', ''mnemonic'', ''seed_phrase'']"

definition forbidden_key :: "string \<Rightarrow> bool" where
  "forbidden_key k = list_ex (\<lambda>bad. is_infix bad (py_lower k)) FORBIDDEN_KEY_SUBSTRINGS"

definition join_path :: "string \<Rightarrow> string \<Rightarrow> string" where
  "join_path path k = (if path \<noteq> [] then path @ ''.'' @ k else k)"

fun scan_forbidden_keys :: "pyval \<Rightarrow> string \<Rightarrow> string option"
  and scan_items :: "(string \<times> pyval) list \<Rightarrow> string \<Rightarrow> string option"
  and scan_elems :: "pyval list \<Rightarrow> nat \<Rightarrow> string \<Rightarrow> string option" where
  "scan_forbidden_keys (VDict d) path = scan_items d path"
| "scan_forbidden_keys (VList l) path = scan_elems l 0 path"
| "scan_forbidden_keys _ path = None"
| "scan_items [] path = None"
| "scan_items ((k, v) # d) path =
     (if forbidden_key k then Some (join_path path k)
      else case scan_forbidden_keys v (join_path path k) of
             Some found \<Rightarrow> if found \<noteq> [] then Some found else scan_items d path
           | None \<Rightarrow> scan_items d path)"
| "scan_elems [] i path = None"
| "scan_elems (v # vs) i path =
     (case scan_forbidden_keys v (path @ ''['' @ show_nat i @ '']'') of
        Some found \<Rightarrow> if found \<noteq> [] then Some found else scan_elems vs (Suc i) path
      | None \<Rightarrow> scan_elems vs (Suc i) path)"

definition canonical_json :: "env \<Rightarrow> pyval \<Rightarrow> bytes" where
  "canonical_json E v = json_dumps E v"

definition validate_new_event :: "env \<Rightarrow> dict \<Rightarrow> string option \<Rightarrow> int \<Rightarrow> exc + unit" where
  "validate_new_event E pl key sv =
     (if sv < 1 \<or> (case key of None \<Rightarrow> False
                     | Some k \<Rightarrow> py_strip_empty k \<or> length k > MAX_IDEMPOTENCY_KEY_LENGTH)
      then Inl MalformedEventError
      else if (case scan_forbidden_keys (VDict pl) [] of Some f \<Rightarrow> f \<noteq> [] | None \<Rightarrow> False)
      then Inl MalformedEventError
      else if length (canonical_json E (VDict pl)) > MAX_PAYLOAD_BYTES
      then Inl MalformedEventError
      else Inr ())"

text \<open>The envelope dictionary that is written to disk, in key order.\<close>

definition envelope :: "event_type \<Rightarrow> string \<Rightarrow> int \<Rightarrow> string option \<Rightarrow> dict \<Rightarrow> dict" where
  "envelope ty now sv key pl =
     [(''event_type'', VStr (event_type_value ty)),
      (''idempotency_key'', vopt VStr key),
      (''payload'', VDict pl),
      (''schema_version'', VInt sv),
      (''timestamp_utc'', VStr now)]"

text \<open>
  \<open>_envelope_to_event\<close>.  A field that is missing raises \<open>KeyError\<close>, an unknown event type
  \<open>ValueError\<close>; a field of another JSON type, which the source would carry along unchecked, is
  outside the typed model and stops the scan with \<open>TypeError\<close>.
\<close>

definition envelope_to_event :: "nat \<Rightarrow> pyval \<Rightarrow> exc + event" where
  "envelope_to_event i v =
     (case v of
        VDict env \<Rightarrow>
          bindE (req_str env ''event_type'') (\<lambda>raw.
          bindE (case parse_event_type raw of None \<Rightarrow> Inl ValueError | Some t \<Rightarrow> Inr t) (\<lambda>t.
          bindE (req_str env ''timestamp_utc'') (\<lambda>now.
          bindE (req_int env ''schema_version'') (\<lambda>sv.
          bindE (case dget env ''idempotency_key'' of
                   VNone \<Rightarrow> Inr None | VStr k \<Rightarrow> Inr (Some k) | _ \<Rightarrow> Inl TypeError) (\<lambda>key.
          bindE (req_dict env ''payload'') (\<lambda>pl.
          Inr \<lparr>event_id = i, ev_type = t, timestamp_utc = now, schema_version = sv,
               idempotency_key = key, payload = pl\<rparr>))))))
      | _ \<Rightarrow> Inl TypeError)"

definition event_envelope :: "event \<Rightarrow> dict" where
  "event_envelope e =
     envelope (ev_type e) (timestamp_utc e) (schema_version e) (idempotency_key e) (payload e)"

definition encode_event :: "env \<Rightarrow> event \<Rightarrow> bytes option" where
  "encode_event E e = encode_record (sha256 E) (event_id e) (canonical_json E (VDict (event_envelope e)))"

section \<open>Scanning a log file\<close>

text \<open>
  The \<open>while offset < len(data)\<close> loop of \<open>_scan_file\<close>.  The result is the events, whether a torn
  tail was found, and the offset of the first byte that is not part of a valid event.
\<close>

function scan_loop :: "env \<Rightarrow> bytes \<Rightarrow> nat \<Rightarrow> nat option \<Rightarrow> event list \<Rightarrow> exc + event list \<times> bool \<times> nat" where
  "scan_loop E data offset last_id evs =
     (if offset < length data
      then case decode_record (sha256 E) data offset of
             Inl RecordDecodeIncomplete \<Rightarrow> Inr (evs, True, offset)
           | Inl RecordDecodeBadMagic \<Rightarrow> Inl CorruptEventStoreError
           | Inl RecordDecodeUnsupportedVersion \<Rightarrow> Inl CorruptEventStoreError
           | Inl (RecordDecodeChecksumMismatch end_offset) \<Rightarrow>
               if end_offset = length data then Inr (evs, True, offset) else Inl CorruptEventStoreError
           | Inr rec \<Rightarrow>
               (case json_loads E (dr_payload_bytes rec) of
                  None \<Rightarrow> Inl JSONDecodeError
                | Some v \<Rightarrow>
                    (case envelope_to_event (dr_event_id rec) v of
                       Inl x \<Rightarrow> Inl x
                     | Inr e \<Rightarrow>
                         if (case last_id of None \<Rightarrow> False | Some l \<Rightarrow> event_id e \<le> l)
                         then Inl CorruptEventStoreError
                         else scan_loop E data (offset + dr_consumed_bytes rec)
                                (Some (event_id e)) (evs @ [e])))
      else Inr (evs, False, offset))"
  by pat_completeness auto
termination
proof (relation "measure (\<lambda>(E, data, offset, last_id, evs). length data - offset)", goal_cases)
  case (2 E data offset last_id evs rec v e)
  then show ?case
    using decode_record_consumed [of "sha256 E" data offset rec] by auto
qed simp

declare scan_loop.simps [simp del]

definition scan_file :: "env \<Rightarrow> bytes option \<Rightarrow> exc + event list \<times> recovery_report \<times> nat" where
  "scan_file E file =
     (case file of
        None \<Rightarrow> Inr ([], \<lparr>valid_event_count = 0, tail_truncated = False, discarded_byte_count = 0\<rparr>, 0)
      | Some data \<Rightarrow>
          bindE (scan_loop E data 0 None []) (\<lambda>(evs, torn, offset).
            Inr (evs, \<lparr>valid_event_count = length evs, tail_truncated = torn,
                       discarded_byte_count = length data - offset\<rparr>, offset)))"

definition read_events :: "env \<Rightarrow> bytes option \<Rightarrow> exc + event list \<times> recovery_report" where
  "read_events E file = bindE (scan_file E file) (\<lambda>(evs, report, _). Inr (evs, report))"

section \<open>The store\<close>

record event_store =
  es_fd :: fd
  es_closed :: bool
  es_events :: "event list"
  es_by_id :: "nat \<rightharpoonup> event"
  es_idempotency_index :: "string \<rightharpoonup> nat"
  es_next_event_id :: nat
  es_recovery_report :: recovery_report
  es_tick :: nat

text \<open>Dictionary comprehensions over the events: the last event with a key wins.\<close>

definition index_by_id :: "event list \<Rightarrow> (nat \<rightharpoonup> event)" where
  "index_by_id evs = foldl (\<lambda>m e. m(event_id e \<mapsto> e)) Map.empty evs"

definition index_by_key :: "event list \<Rightarrow> (string \<rightharpoonup> nat)" where
  "index_by_key evs = foldl (\<lambda>m e. case idempotency_key e of None \<Rightarrow> m | Some k \<Rightarrow> m(k \<mapsto> event_id e))
     Map.empty evs"

text \<open>
  \<open>EventStore(path)\<close>: \<open>locked\<close> says that another holder has the exclusive lock, \<open>data\<close> is the
  content of the file (\<open>O_CREAT\<close> makes an absent file empty).  The second component is what is on
  disk afterwards.
\<close>

definition open_store :: "env \<Rightarrow> bool \<Rightarrow> bytes \<Rightarrow> (exc + event_store) \<times> bytes" where
  "open_store E locked data =
     (if locked then (Inl EventStoreLockError, data)
      else case scan_file E (Some data) of
             Inl x \<Rightarrow> (Inl x, data)
           | Inr (evs, report, last_valid_offset) \<Rightarrow>
               let f = \<lparr>fd_data = data, fd_pos = 0\<rparr>;
                   f' = (if tail_truncated report \<and> discarded_byte_count report > 0
                         then os_ftruncate f last_valid_offset else f)
               in (Inr \<lparr>es_fd = os_seek_end f', es_closed = False, es_events = evs,
                        es_by_id = index_by_id evs, es_idempotency_index = index_by_key evs,
                        es_next_event_id = (if evs = [] then 1 else event_id (last evs) + 1),
                        es_recovery_report = report, es_tick = 0\<rparr>,
                   fd_data f'))"

text \<open>
  \<open>_write_full\<close>: \<open>ws\<close> are the results of the successive \<open>os.write\<close> calls; when they run out the
  call raises \<open>OSError\<close>.  The flag says whether all bytes were written.
\<close>

fun write_full :: "int list \<Rightarrow> bytes \<Rightarrow> fd \<Rightarrow> bool \<times> fd" where
  "write_full ws data f =
     (if data = [] then (True, f)
      else case ws of
             [] \<Rightarrow> (False, f)
           | w # ws' \<Rightarrow>
               if w \<le> 0 then (False, f)
               else write_full ws' (drop (nat w) data) (os_write f (take (nat w) data)))"

declare write_full.simps [simp del]

definition append_event :: "env \<Rightarrow> event_type \<Rightarrow> dict \<Rightarrow> string option \<Rightarrow> int \<Rightarrow> (event_store, exc, event) prog" where
  "append_event E ty pl key sv s =
     (if es_closed s then (Inl EventStoreClosedError, s)
      else case validate_new_event E pl key sv of
        Inl x \<Rightarrow> (Inl x, s)
      | Inr _ \<Rightarrow>
        (case (case key of None \<Rightarrow> None | Some k \<Rightarrow> es_idempotency_index s k) of
           Some i \<Rightarrow> (case es_by_id s i of Some e \<Rightarrow> (Inr e, s) | None \<Rightarrow> (Inl KeyError, s))
         | None \<Rightarrow>
           let eid = es_next_event_id s;
               io = io_calls E (es_tick s);
               s = s\<lparr>es_tick := es_tick s + 1\<rparr>;
               e = \<lparr>event_id = eid, ev_type = ty, timestamp_utc = io_now io, schema_version = sv,
                    idempotency_key = key, payload = pl\<rparr>
           in case encode_event E e of
                None \<Rightarrow> (Inl StructError, s)
              | Some record_bytes \<Rightarrow>
                  let pre_write_offset = fd_pos (es_fd s)
                  in case write_full (io_writes io) record_bytes (es_fd s) of
                       (ok, f) \<Rightarrow>
                         if ok \<and> io_fsync io
                         then (Inr e, s\<lparr>es_fd := f, es_events := es_events s @ [e],
                                        es_by_id := (es_by_id s)(eid \<mapsto> e),
                                        es_idempotency_index :=
                                          (case key of None \<Rightarrow> es_idempotency_index s
                                           | Some k \<Rightarrow> (es_idempotency_index s)(k \<mapsto> eid)),
                                        es_next_event_id := eid + 1\<rparr>)
                         else (Inl OSError, s\<lparr>es_fd := os_ftruncate f pre_write_offset\<rparr>)))"

definition replay :: "nat \<Rightarrow> event_store \<Rightarrow> exc + event list" where
  "replay from_event_id s =
     (if es_closed s then Inl EventStoreClosedError
      else Inr (filter (\<lambda>e. from_event_id \<le> event_id e) (es_events s)))"

definition has_idempotency_key :: "event_store \<Rightarrow> string \<Rightarrow> bool" where
  "has_idempotency_key s k = (es_idempotency_index s k \<noteq> None)"

definition get_by_idempotency_key :: "event_store \<Rightarrow> string \<Rightarrow> event option" where
  "get_by_idempotency_key s k =
     (case es_idempotency_index s k of None \<Rightarrow> None | Some i \<Rightarrow> es_by_id s i)"

definition event_count :: "event_store \<Rightarrow> nat" where
  "event_count s = length (es_events s)"

definition close_store :: "event_store \<Rightarrow> event_store" where
  "close_store s = s\<lparr>es_closed := True\<rparr>"

section \<open>Scanning what was written\<close>

lemma parse_event_type_value [simp]: "parse_event_type (event_type_value t) = Some t"
  by (cases t) (simp_all add: parse_event_type_def all_event_types_def)

lemma envelope_to_event_envelope [simp]:
  "envelope_to_event i (VDict (event_envelope e)) = Inr (e\<lparr>event_id := i\<rparr>)"
  by (cases "idempotency_key e") (simp_all add: envelope_to_event_def event_envelope_def envelope_def)

text \<open>The bytes of a list of events, and what the proofs use of the JSON library.\<close>

fun log_bytes :: "env \<Rightarrow> event list \<Rightarrow> bytes option" where
  "log_bytes E [] = Some []"
| "log_bytes E (e # es) =
     (case (encode_event E e, log_bytes E es) of (Some a, Some b) \<Rightarrow> Some (a @ b) | _ \<Rightarrow> None)"

definition json_round_trip :: "env \<Rightarrow> event \<Rightarrow> bool" where
  "json_round_trip E e \<longleftrightarrow>
     json_loads E (canonical_json E (VDict (event_envelope e))) = Some (VDict (event_envelope e))"

lemma log_bytes_append:
  "log_bytes E (xs @ ys) =
     (case (log_bytes E xs, log_bytes E ys) of (Some a, Some b) \<Rightarrow> Some (a @ b) | _ \<Rightarrow> None)"
  by (induction xs) (simp_all split: option.splits)

lemma log_bytes_snoc:
  "log_bytes E (xs @ [e]) = Some d \<longleftrightarrow> (\<exists>a b. log_bytes E xs = Some a \<and> encode_event E e = Some b \<and> d = a @ b)"
  by (auto simp: log_bytes_append split: option.splits)

text \<open>The ids that follow the last one seen are increasing.\<close>

fun ids_after :: "nat option \<Rightarrow> event list \<Rightarrow> bool" where
  "ids_after l [] = True"
| "ids_after l (e # es) = ((case l of None \<Rightarrow> True | Some i \<Rightarrow> i < event_id e) \<and> ids_after (Some (event_id e)) es)"

definition last_id :: "nat option \<Rightarrow> event list \<Rightarrow> nat option" where
  "last_id l es = (if es = [] then l else Some (event_id (last es)))"

lemma scan_loop_log:
  assumes sha: "\<And>x. length (sha256 E x) = 32"
    and "log_bytes E es = Some bs" "ids_after l es" "\<forall>e\<in>set es. json_round_trip E e"
  shows "scan_loop E (pre @ bs @ rest) (length pre) l acc =
         scan_loop E (pre @ bs @ rest) (length pre + length bs) (last_id l es) (acc @ es)"
  using assms(2-)
proof (induction es arbitrary: pre bs l acc)
  case (Cons e es)
  then obtain a b where a: "encode_event E e = Some a" and b: "log_bytes E es = Some b" and bs: "bs = a @ b"
    by (auto split: option.splits)
  have len: "0 < length a"
    using length_encode_record [OF _ sha] a by (auto simp: encode_event_def)
  have dec: "decode_record (sha256 E) (pre @ a @ b @ rest) (length pre) =
      Inr \<lparr>dr_event_id = event_id e, dr_payload_bytes = canonical_json E (VDict (event_envelope e)),
           dr_consumed_bytes = length a\<rparr>"
    using decode_encode_record [OF _ sha] a by (simp add: encode_event_def)
  have "scan_loop E (pre @ bs @ rest) (length pre) l acc =
        scan_loop E (pre @ bs @ rest) (length pre + length a) (Some (event_id e)) (acc @ [e])"
    using Cons.prems len
    by (subst scan_loop.simps) (auto simp: bs dec json_round_trip_def split: option.splits)
  also have "\<dots> = scan_loop E ((pre @ a) @ b @ rest) (length (pre @ a)) (Some (event_id e)) (acc @ [e])"
    by (simp add: bs)
  also have "\<dots> = scan_loop E ((pre @ a) @ b @ rest) (length (pre @ a) + length b)
      (last_id (Some (event_id e)) es) ((acc @ [e]) @ es)"
    using Cons.prems b by (intro Cons.IH) simp_all
  also have "\<dots> = scan_loop E (pre @ bs @ rest) (length pre + length bs) (last_id l (e # es)) (acc @ e # es)"
    by (simp add: bs last_id_def add.assoc)
  finally show ?case .
qed (simp add: last_id_def)

end
