(* ===== verification/Event_Log.thy ===== *)
theory Event_Log
  imports Event_Store "HOL-Library.Code_Target_Numeral"
begin

text \<open>
  Correctness of the event store: the in-memory index (\<open>ledger_inv\<close>), the file (\<open>durable\<close>), what
  an append does to both on every path, recovery after a crash in the middle of an append, and the
  contract the managers rely on, stated as the locale \<open>event_ledger\<close> and interpreted on the store.
\<close>

section \<open>Invariants\<close>

definition event_keys :: "event list \<Rightarrow> string list" where
  "event_keys evs = List.map_filter idempotency_key evs"

text \<open>The in-memory part: ids increase and the two indexes are those of the event list.\<close>

definition ledger_inv :: "event_store \<Rightarrow> bool" where
  "ledger_inv s \<longleftrightarrow>
     ids_after None (es_events s) \<and>
     1 \<le> es_next_event_id s \<and>
     (\<forall>e\<in>set (es_events s). 1 \<le> event_id e \<and> event_id e < es_next_event_id s) \<and>
     distinct (event_keys (es_events s)) \<and>
     es_by_id s = index_by_id (es_events s) \<and>
     es_idempotency_index s = index_by_key (es_events s)"

text \<open>The file holds exactly the records of the events.\<close>

definition durable :: "env \<Rightarrow> event_store \<Rightarrow> bool" where
  "durable E s \<longleftrightarrow> log_bytes E (es_events s) = Some (fd_data (es_fd s))"

lemma index_by_id_snoc [simp]: "index_by_id (evs @ [e]) = (index_by_id evs)(event_id e \<mapsto> e)"
  by (simp add: index_by_id_def)

lemma index_by_key_snoc [simp]:
  "index_by_key (evs @ [e]) =
     (case idempotency_key e of None \<Rightarrow> index_by_key evs | Some k \<Rightarrow> (index_by_key evs)(k \<mapsto> event_id e))"
  by (simp add: index_by_key_def cong: option.case_cong)

lemma index_empty [simp]: "index_by_id [] = Map.empty" "index_by_key [] = Map.empty"
  by (simp_all add: index_by_id_def index_by_key_def)

lemma event_keys_simps [simp]:
  "event_keys [] = []"
  "event_keys (xs @ ys) = event_keys xs @ event_keys ys"
  "event_keys (e # xs) = (case idempotency_key e of None \<Rightarrow> event_keys xs | Some k \<Rightarrow> k # event_keys xs)"
  by (simp_all add: event_keys_def List.map_filter_def split: option.splits)

lemma set_event_keys: "k \<in> set (event_keys evs) \<longleftrightarrow> (\<exists>e\<in>set evs. idempotency_key e = Some k)"
  by (induction evs) (auto split: option.splits)

lemma ids_after_snoc:
  "ids_after l (es @ [e]) \<longleftrightarrow>
     ids_after l es \<and> (case last_id l es of None \<Rightarrow> True | Some i \<Rightarrow> i < event_id e)"
  by (induction es arbitrary: l) (auto simp: last_id_def split: option.splits if_splits)

lemma ids_after_less:
  "ids_after (Some i) es \<Longrightarrow> e \<in> set es \<Longrightarrow> i < event_id e"
  by (induction es arbitrary: i) force+

lemma ids_after_distinct: "ids_after l es \<Longrightarrow> distinct (map event_id es)"
proof (induction es arbitrary: l)
  case (Cons e es)
  then show ?case using ids_after_less [of "event_id e" es] by fastforce
qed simp

lemma ids_after_last:
  "ids_after None es \<Longrightarrow> e \<in> set es \<Longrightarrow> event_id e \<le> event_id (last es)"
proof (induction es rule: rev_induct)
  case (snoc x es)
  then have "ids_after None es" and "es \<noteq> [] \<Longrightarrow> event_id (last es) < event_id x"
    by (auto simp: ids_after_snoc last_id_def)
  with snoc show ?case by (cases "es = []") force+
qed simp

lemma index_by_id_Some: "index_by_id evs i = Some e \<Longrightarrow> e \<in> set evs \<and> event_id e = i"
  by (induction evs rule: rev_induct) (auto split: if_splits)

lemma index_by_id_lookup: "distinct (map event_id evs) \<Longrightarrow> e \<in> set evs \<Longrightarrow> index_by_id evs (event_id e) = Some e"
proof (induction evs rule: rev_induct)
  case (snoc x xs)
  show ?case
  proof (cases "e = x")
    case False
    with snoc.prems have e: "e \<in> set xs" by simp
    from snoc.prems(1) have "event_id x \<notin> event_id ` set xs" by simp
    with e have "event_id e \<noteq> event_id x" by (metis imageI)
    with snoc e show ?thesis by simp
  qed simp
qed simp

lemma index_by_key_dom: "k \<notin> set (event_keys evs) \<Longrightarrow> index_by_key evs k = None"
  by (induction evs rule: rev_induct) (auto split: option.splits)

lemma index_by_key_lookup:
  "distinct (event_keys evs) \<Longrightarrow> e \<in> set evs \<Longrightarrow> idempotency_key e = Some k \<Longrightarrow>
   index_by_key evs k = Some (event_id e)"
proof (induction evs rule: rev_induct)
  case (snoc x evs)
  show ?case
  proof (cases "e = x")
    case False
    with snoc have "e \<in> set evs" by simp
    with snoc have "k \<in> set (event_keys evs)" by (auto simp: set_event_keys)
    with snoc \<open>e \<in> set evs\<close> show ?thesis by (auto split: option.splits)
  qed (use snoc in simp)
qed simp

lemma index_by_key_Some:
  "index_by_key evs k = Some i \<Longrightarrow> \<exists>e\<in>set evs. idempotency_key e = Some k \<and> event_id e = i"
  by (induction evs rule: rev_induct) (auto split: option.splits if_splits)

text \<open>Under the invariant the ledger finds exactly the recorded event of a key.\<close>

lemma ledger_ids: "ledger_inv s \<Longrightarrow> distinct (map event_id (es_events s))"
  by (auto simp: ledger_inv_def intro: ids_after_distinct)

lemma get_by_key_iff:
  assumes "ledger_inv s"
  shows "get_by_idempotency_key s k = Some e \<longleftrightarrow> e \<in> set (es_events s) \<and> idempotency_key e = Some k"
proof -
  have d: "distinct (map event_id (es_events s))" and dk: "distinct (event_keys (es_events s))"
    and ix: "es_by_id s = index_by_id (es_events s)" "es_idempotency_index s = index_by_key (es_events s)"
    using assms ids_after_distinct by (auto simp: ledger_inv_def)
  show ?thesis
  proof
    assume "get_by_idempotency_key s k = Some e"
    then obtain i where i: "index_by_key (es_events s) k = Some i" and e: "index_by_id (es_events s) i = Some e"
      by (auto simp: get_by_idempotency_key_def ix split: option.splits)
    obtain e' where e': "e' \<in> set (es_events s)" "idempotency_key e' = Some k" "event_id e' = i"
      using index_by_key_Some [OF i] by blast
    with index_by_id_lookup [OF d e'(1)] e have "e' = e" by simp
    with e' show "e \<in> set (es_events s) \<and> idempotency_key e = Some k" by simp
  next
    assume e: "e \<in> set (es_events s) \<and> idempotency_key e = Some k"
    then show "get_by_idempotency_key s k = Some e"
      using index_by_key_lookup [OF dk, of e k] index_by_id_lookup [OF d, of e]
      by (simp add: get_by_idempotency_key_def ix)
  qed
qed

lemma ledger_index_dangling:
  assumes "ledger_inv s" "es_idempotency_index s k = Some i"
  shows "\<exists>e. es_by_id s i = Some e"
proof -
  have "distinct (map event_id (es_events s))"
    using assms(1) ids_after_distinct by (auto simp: ledger_inv_def)
  then show ?thesis
    using assms index_by_key_Some [of "es_events s" k i] index_by_id_lookup
    by (fastforce simp: ledger_inv_def)
qed

section \<open>What an append does\<close>

lemma write_full_data:
  "write_full ws data f = (ok, f') \<Longrightarrow>
   \<exists>a b. data = a @ b \<and> fd_data f' = fd_data f @ a \<and> (ok \<longrightarrow> b = []) \<and>
         (fd_pos f' = length (fd_data f') \<or> f' = f)"
proof (induction ws data f rule: write_full.induct)
  case (1 ws data f)
  show ?case
  proof (cases "data = []")
    case True
    with "1.prems" show ?thesis by (auto simp: write_full.simps [of ws])
  next
    case ne: False
    show ?thesis
    proof (cases ws)
      case Nil
      with ne "1.prems" show ?thesis by (auto simp: write_full.simps [of "[]"])
    next
      case (Cons w ws')
      show ?thesis
      proof (cases "w \<le> 0")
        case True
        with ne Cons "1.prems" True show ?thesis by (auto simp: write_full.simps [of "w # ws'"])
      next
        case False
        let ?f = "os_write f (take (nat w) data)"
        from ne Cons False "1.prems" have "write_full ws' (drop (nat w) data) ?f = (ok, f')"
          by (simp add: write_full.simps [of "w # ws'"])
        from "1.IH" [OF ne Cons False this] obtain a b where ab: "drop (nat w) data = a @ b"
          "fd_data f' = fd_data ?f @ a" "ok \<longrightarrow> b = []" "fd_pos f' = length (fd_data f') \<or> f' = ?f" by blast
        have "data = (take (nat w) data @ a) @ b" by (metis ab(1) append.assoc append_take_drop_id)
        moreover have "fd_data f' = fd_data f @ take (nat w) data @ a"
          using ab(2) by (simp add: os_write_def Let_def)
        moreover have "fd_pos f' = length (fd_data f')"
          using ab(4) by (auto simp: os_write_def Let_def)
        ultimately show ?thesis using ab(3) by blast
      qed
    qed
  qed
qed

text \<open>Case analysis of \<open>append\<close>: it was already recorded, refused, recorded, or rolled back.\<close>

definition new_event :: "env \<Rightarrow> event_type \<Rightarrow> dict \<Rightarrow> string option \<Rightarrow> int \<Rightarrow> event_store \<Rightarrow> event" where
  "new_event E ty pl key sv s =
     \<lparr>event_id = es_next_event_id s, ev_type = ty, timestamp_utc = io_now (io_calls E (es_tick s)),
      schema_version = sv, idempotency_key = key, payload = pl\<rparr>"

lemma new_event_fields [simp]:
  "event_id (new_event E ty pl key sv s) = es_next_event_id s"
  "ev_type (new_event E ty pl key sv s) = ty"
  "idempotency_key (new_event E ty pl key sv s) = key"
  "payload (new_event E ty pl key sv s) = pl"
  by (simp_all add: new_event_def)

lemma get_by_key_None:
  "ledger_inv s \<Longrightarrow> get_by_idempotency_key s k = None \<longleftrightarrow> k \<notin> set (event_keys (es_events s))"
  using get_by_key_iff [of s k] by (cases "get_by_idempotency_key s k") (auto simp: set_event_keys)

text \<open>A full replay yields every event.\<close>

lemma replay_all: "ledger_inv s \<Longrightarrow> replay 1 s = (if es_closed s then Inl EventStoreClosedError else Inr (es_events s))"
  by (auto simp: replay_def ledger_inv_def intro!: filter_True)

lemma append_closed: "es_closed s \<Longrightarrow> append_event E ty pl key sv s = (Inl EventStoreClosedError, s)"
  by (simp add: append_event_def)

lemma append_invalid:
  "\<not> es_closed s \<Longrightarrow> validate_new_event E pl key sv = Inl x \<Longrightarrow> append_event E ty pl key sv s = (Inl x, s)"
  by (simp add: append_event_def)

lemma append_accepted:
  "append_event E ty pl key sv s = (Inr e, s') \<Longrightarrow> \<not> es_closed s \<and> validate_new_event E pl key sv = Inr ()"
  by (cases "es_closed s"; cases "validate_new_event E pl key sv") (auto simp: append_closed append_invalid)

lemma append_cases:
  assumes "append_event E ty pl key sv s = (r, s')" "ledger_inv s"
  obtains (refused) x where "r = Inl x" "s' = s"
  | (known) k e where "key = Some k" "get_by_idempotency_key s k = Some e" "r = Inr e" "s' = s"
  | (unencodable) "r = Inl StructError" "s' = s\<lparr>es_tick := es_tick s + 1\<rparr>"
  | (recorded) b f where "\<And>k. key = Some k \<Longrightarrow> get_by_idempotency_key s k = None"
      "r = Inr (new_event E ty pl key sv s)"
      "encode_event E (new_event E ty pl key sv s) = Some b" "fd_data f = fd_data (es_fd s) @ b"
      "fd_pos f = length (fd_data f) \<or> f = es_fd s"
      "s' = s\<lparr>es_tick := es_tick s + 1, es_fd := f, es_events := es_events s @ [new_event E ty pl key sv s],
              es_by_id := (es_by_id s)(es_next_event_id s \<mapsto> new_event E ty pl key sv s),
              es_idempotency_index := (case key of None \<Rightarrow> es_idempotency_index s
                | Some k \<Rightarrow> (es_idempotency_index s)(k \<mapsto> es_next_event_id s)),
              es_next_event_id := es_next_event_id s + 1\<rparr>"
  | (rolled_back) a f where "r = Inl OSError" "fd_data f = fd_data (es_fd s) @ a"
      "s' = s\<lparr>es_tick := es_tick s + 1, es_fd := os_ftruncate f (fd_pos (es_fd s))\<rparr>"
proof (cases "es_closed s \<or> validate_new_event E pl key sv \<noteq> Inr ()")
  case True
  then obtain x where "append_event E ty pl key sv s = (Inl x, s)"
    using append_closed append_invalid by (metis old.sum.exhaust unit.exhaust)
  then show ?thesis using assms(1) that(1) by auto
next
  case False
  then have nc: "\<not> es_closed s" and v: "validate_new_event E pl key sv = Inr ()"
    by simp_all
  show ?thesis
  proof (cases "case key of None \<Rightarrow> None | Some k \<Rightarrow> es_idempotency_index s k")
    case (Some i)
    then obtain k where k: "key = Some k" "es_idempotency_index s k = Some i" by (auto split: option.splits)
    with ledger_index_dangling [OF assms(2)] obtain e where "es_by_id s i = Some e" by blast
    with k nc v assms(1) show ?thesis
      by (intro that(2) [of k e]) (auto simp: append_event_def get_by_idempotency_key_def)
  next
    case None
    then have unk: "\<And>k. key = Some k \<Longrightarrow> get_by_idempotency_key s k = None"
      by (auto simp: get_by_idempotency_key_def)
    let ?e = "new_event E ty pl key sv s" and ?io = "io_calls E (es_tick s)"
    show ?thesis
    proof (cases "encode_event E ?e")
      case None': None
      with None nc v assms(1) show ?thesis
        by (intro that(3)) (auto simp: append_event_def Let_def new_event_def)
    next
      case (Some b)
      obtain ok f where w: "write_full (io_writes ?io) b (es_fd s) = (ok, f)" by (cases "write_full (io_writes ?io) b (es_fd s)")
      from write_full_data [OF w] obtain a c where ac: "b = a @ c" "fd_data f = fd_data (es_fd s) @ a"
        "ok \<longrightarrow> c = []" "fd_pos f = length (fd_data f) \<or> f = es_fd s" by blast
      have ev: "append_event E ty pl key sv s =
        (if ok \<and> io_fsync ?io
         then (Inr ?e, s\<lparr>es_tick := es_tick s + 1, es_fd := f, es_events := es_events s @ [?e],
                  es_by_id := (es_by_id s)(es_next_event_id s \<mapsto> ?e),
                  es_idempotency_index := (case key of None \<Rightarrow> es_idempotency_index s
                    | Some k \<Rightarrow> (es_idempotency_index s)(k \<mapsto> es_next_event_id s)),
                  es_next_event_id := es_next_event_id s + 1\<rparr>)
         else (Inl OSError, s\<lparr>es_tick := es_tick s + 1, es_fd := os_ftruncate f (fd_pos (es_fd s))\<rparr>))"
        using None nc v Some w by (simp add: append_event_def Let_def new_event_def cong: option.case_cong)
      show ?thesis
      proof (cases "ok \<and> io_fsync ?io")
        case True
        then show ?thesis using that(4) [of b f] assms(1) ev unk Some ac by auto
      next
        case False
        then show ?thesis using that(5) [of f a] assms(1) ev ac by auto
      qed
    qed
  qed
qed

text \<open>No branch of \<open>append\<close> removes an event, and every branch keeps the ledger invariant.\<close>

lemma append_ledger_inv:
  assumes "append_event E ty pl key sv s = (r, s')" "ledger_inv s"
  shows "ledger_inv s'"
  using assms
proof (cases rule: append_cases)
  case (recorded b f)
  let ?e = "new_event E ty pl key sv s"
  have inv: "ids_after None (es_events s)"
    "\<forall>e\<in>set (es_events s). 1 \<le> event_id e \<and> event_id e < es_next_event_id s"
    "distinct (event_keys (es_events s))"
    using assms(2) by (simp_all add: ledger_inv_def)
  have "ids_after None (es_events s @ [?e])"
    using inv by (auto simp: ids_after_snoc last_id_def)
  moreover have "distinct (event_keys (es_events s @ [?e]))"
  proof (cases key)
    case (Some k)
    with recorded(1) get_by_key_iff [OF assms(2), of k] have "k \<notin> set (event_keys (es_events s))"
      by (auto simp: set_event_keys)
    with Some inv show ?thesis by simp
  qed (use inv in simp)
  ultimately show ?thesis
    using assms(2) inv(2) recorded(6)
    by (auto simp: ledger_inv_def less_SucI split: option.splits)
qed (use assms(2) in \<open>auto simp: ledger_inv_def\<close>)

lemma append_keeps_open:
  "append_event E ty pl key sv s = (r, s') \<Longrightarrow> ledger_inv s \<Longrightarrow> es_closed s' = es_closed s"
  by (cases rule: append_cases) auto

lemma append_durable:
  assumes "append_event E ty pl key sv s = (r, s')" "ledger_inv s" "durable E s"
    and "fd_pos (es_fd s) = length (fd_data (es_fd s))"
  shows "durable E s'"
  using assms(1,2)
proof (cases rule: append_cases)
  case (recorded b f)
  then show ?thesis using assms(3) by (auto simp: durable_def log_bytes_snoc)
next
  case (rolled_back a f)
  then show ?thesis using assms(3,4) by (simp add: durable_def os_ftruncate_def)
qed (use assms(3) in \<open>auto simp: durable_def\<close>)

section \<open>Recovery\<close>

lemma scan_loop_end: "scan_loop E data (length data) l acc = Inr (acc, False, length data)"
  by (simp add: scan_loop.simps)

lemma scan_log:
  assumes "\<And>x. length (sha256 E x) = 32" "log_bytes E es = Some d" "ids_after None es"
    and "\<forall>e\<in>set es. json_round_trip E e"
  shows "scan_loop E (d @ rest) 0 None [] = scan_loop E (d @ rest) (length d) (last_id None es) es"
  using scan_loop_log [OF assms, of "[]" rest "[]"] by simp

lemma scan_torn_log:
  assumes sha: "\<And>x. length (sha256 E x) = 32" and log: "log_bytes E es = Some d" "ids_after None es"
    and json: "\<forall>e\<in>set es. json_round_trip E e"
    and torn: "encode_event E e = Some (a @ b)" "b \<noteq> []"
  shows "scan_file E (Some (d @ a)) =
    Inr (es, \<lparr>valid_event_count = length es, tail_truncated = (a \<noteq> []), discarded_byte_count = length a\<rparr>, length d)"
proof -
  have "decode_record (sha256 E) (d @ a) (length d) = Inl RecordDecodeIncomplete"
    using decode_record_prefix [OF _ torn(2) sha] torn(1) by (simp add: encode_event_def)
  then have "scan_loop E (d @ a) (length d) (last_id None es) es = Inr (es, a \<noteq> [], length d)"
    by (subst scan_loop.simps) (auto simp: scan_loop_end)
  then show ?thesis
    by (simp add: scan_file_def scan_log [OF sha log json])
qed

lemma scan_whole_log:
  assumes "\<And>x. length (sha256 E x) = 32" "log_bytes E es = Some d" "ids_after None es"
    and "\<forall>e\<in>set es. json_round_trip E e"
  shows "scan_file E (Some d) =
    Inr (es, \<lparr>valid_event_count = length es, tail_truncated = False, discarded_byte_count = 0\<rparr>, length d)"
  using scan_log [OF assms, of "[]"] by (simp add: scan_file_def scan_loop_end)

text \<open>The store a scan yields.\<close>

definition opened_store :: "bytes \<Rightarrow> recovery_report \<Rightarrow> event list \<Rightarrow> event_store" where
  "opened_store d report es =
     \<lparr>es_fd = \<lparr>fd_data = d, fd_pos = length d\<rparr>, es_closed = False, es_events = es,
      es_by_id = index_by_id es, es_idempotency_index = index_by_key es,
      es_next_event_id = (if es = [] then 1 else event_id (last es) + 1),
      es_recovery_report = report, es_tick = 0\<rparr>"

lemma opened_store_inv:
  "ids_after None es \<Longrightarrow> distinct (event_keys es) \<Longrightarrow> \<forall>e\<in>set es. 1 \<le> event_id e \<Longrightarrow>
   ledger_inv (opened_store d report es)"
  using ids_after_last by (auto simp: ledger_inv_def opened_store_def less_Suc_eq_le)

lemma opened_store_sel [simp]:
  "es_fd (opened_store d report es) = \<lparr>fd_data = d, fd_pos = length d\<rparr>"
  "es_closed (opened_store d report es) = False"
  "es_events (opened_store d report es) = es"
  "es_by_id (opened_store d report es) = index_by_id es"
  "es_idempotency_index (opened_store d report es) = index_by_key es"
  "es_next_event_id (opened_store d report es) = (if es = [] then 1 else event_id (last es) + 1)"
  "es_recovery_report (opened_store d report es) = report"
  "durable E (opened_store d report es) \<longleftrightarrow> log_bytes E es = Some d"
  by (simp_all add: opened_store_def durable_def)

lemma open_store_eq:
  assumes "scan_file E (Some data) = Inr (es, report, off)"
    and "off \<le> length data" "discarded_byte_count report = length data - off"
    and "\<not> tail_truncated report \<Longrightarrow> off = length data"
  shows "open_store E False data = (Inr (opened_store (take off data) report es), take off data)"
  using assms
  by (auto simp: open_store_def opened_store_def os_ftruncate_def os_seek_end_def Let_def)

text \<open>
  The stores a single process reaches from a fresh log by appends of any outcome but an I/O error.
\<close>

inductive store_reach :: "env \<Rightarrow> event_store \<Rightarrow> bool" for E where
  fresh: "open_store E False [] = (Inr s, d) \<Longrightarrow> store_reach E s"
| appended: "store_reach E s \<Longrightarrow> append_event E ty pl key sv s = (r, s') \<Longrightarrow> r \<noteq> Inl OSError \<Longrightarrow> store_reach E s'"

lemma store_reach_inv:
  assumes "store_reach E s"
  shows "ledger_inv s \<and> durable E s \<and> fd_pos (es_fd s) = length (fd_data (es_fd s))"
  using assms
proof (induction rule: store_reach.induct)
  case (fresh s d)
  then have "s = opened_store [] \<lparr>valid_event_count = 0, tail_truncated = False, discarded_byte_count = 0\<rparr> []"
    by (auto simp: open_store_eq scan_file_def scan_loop.simps)
  then show ?case by (simp add: ledger_inv_def durable_def opened_store_def)
next
  case (appended s ty pl key sv r s')
  then have inv: "ledger_inv s" and pos: "fd_pos (es_fd s) = length (fd_data (es_fd s))" and d: "durable E s"
    by simp_all
  from appended(2) inv have "fd_pos (es_fd s') = length (fd_data (es_fd s'))"
    by (cases rule: append_cases) (use pos appended(3) in \<open>auto\<close>)
  then show ?case
    using append_ledger_inv [OF appended(2) inv] append_durable [OF appended(2) inv d pos] by simp
qed

section \<open>Properties\<close>

text \<open>
  (C18) Crash safety.  Whatever part \<open>a\<close> of a record reached the file before the process died,
  reopening the log yields the events before the append, or those and the new one when all of the
  record was written; the file is cut back to whole records, and the reopened store satisfies the
  store's invariants again.
\<close>

theorem crash_recovery:
  assumes "\<And>x. length (sha256 E x) = 32"
    and "store_reach E s" "\<forall>x\<in>set (es_events s). json_round_trip E x" "json_round_trip E e"
    and "event_id e = es_next_event_id s"
    and "\<forall>k. idempotency_key e = Some k \<longrightarrow> get_by_idempotency_key s k = None"
    and "encode_event E e = Some (a @ b)"
  shows "\<exists>s'. open_store E False (fd_data (es_fd s) @ a) =
           (Inr s', if b = [] then fd_data (es_fd s) @ a else fd_data (es_fd s)) \<and>
         es_events s' = (if b = [] then es_events s @ [e] else es_events s) \<and>
         ledger_inv s' \<and> durable E s' \<and> es_next_event_id s' = (if es_events s' = [] then 1 else event_id (last (es_events s')) + 1)"
proof -
  let ?d = "fd_data (es_fd s)"
  from store_reach_inv [OF assms(2)] have inv: "ledger_inv s" and dur: "log_bytes E (es_events s) = Some ?d"
    by (simp_all add: durable_def)
  then have ids: "ids_after None (es_events s)" and keys: "distinct (event_keys (es_events s))"
    and pos: "\<forall>x\<in>set (es_events s). 1 \<le> event_id x" "1 \<le> event_id e"
    using assms(5) by (simp_all add: ledger_inv_def)
  show ?thesis
  proof (cases "b = []")
    case True
    let ?es = "es_events s @ [e]"
    have ids': "ids_after None ?es"
      using ids inv assms(5) by (auto simp: ids_after_snoc last_id_def ledger_inv_def)
    have keys': "distinct (event_keys ?es)"
      using keys assms(6) by (auto simp: get_by_key_None [OF inv] split: option.splits)
    have log: "log_bytes E ?es = Some (?d @ a)"
      using dur assms(7) True by (simp add: log_bytes_snoc)
    have "scan_file E (Some (?d @ a)) = Inr (?es, \<lparr>valid_event_count = length ?es,
        tail_truncated = False, discarded_byte_count = 0\<rparr>, length (?d @ a))"
      using assms(3,4) by (intro scan_whole_log [OF assms(1) log ids']) simp
    from open_store_eq [OF this] show ?thesis
      using opened_store_inv [OF ids' keys'] log True pos by simp
  next
    case False
    have "scan_file E (Some (?d @ a)) = Inr (es_events s, \<lparr>valid_event_count = length (es_events s),
        tail_truncated = (a \<noteq> []), discarded_byte_count = length a\<rparr>, length ?d)"
      using scan_torn_log [OF assms(1) dur ids assms(3,7) False] .
    from open_store_eq [OF this] show ?thesis
      using opened_store_inv [OF ids keys pos(1)] dur False by simp
  qed
qed

text \<open>
  (C20) Durability.  Reopening the log of a reachable store gives back exactly its events, with
  nothing truncated, and the same next id when the log is not empty.
\<close>

theorem reopen_roundtrip:
  assumes "\<And>x. length (sha256 E x) = 32" "store_reach E s"
    and "\<forall>x\<in>set (es_events s). json_round_trip E x"
  shows "\<exists>s'. open_store E False (fd_data (es_fd s)) = (Inr s', fd_data (es_fd s)) \<and>
         es_events s' = es_events s \<and> es_by_id s' = es_by_id s \<and>
         es_idempotency_index s' = es_idempotency_index s \<and>
         \<not> tail_truncated (es_recovery_report s')"
proof -
  from store_reach_inv [OF assms(2)] have inv: "ledger_inv s"
    and dur: "log_bytes E (es_events s) = Some (fd_data (es_fd s))"
    by (simp_all add: durable_def)
  then have "ids_after None (es_events s)" by (simp add: ledger_inv_def)
  from open_store_eq [OF scan_whole_log [OF assms(1) dur this assms(3)]] obtain rep where
    "open_store E False (fd_data (es_fd s)) =
       (Inr (opened_store (fd_data (es_fd s)) rep (es_events s)), fd_data (es_fd s))"
    "\<not> tail_truncated rep"
    by auto
  then show ?thesis using inv by (auto simp: opened_store_def ledger_inv_def)
qed


text \<open>
  A failed append leaves no trace.  When the descriptor stands at the end of the file, an
  append that raises leaves the bytes of the log, the events and the idempotency index as they
  were, however many bytes the failing write had already put on disk.
\<close>

theorem append_failure_rolls_back:
  assumes "ledger_inv s" "fd_pos (es_fd s) = length (fd_data (es_fd s))"
    and "append_event E ty pl key sv s = (Inl x, s')"
  shows "fd_data (es_fd s') = fd_data (es_fd s) \<and> es_events s' = es_events s \<and>
         es_idempotency_index s' = es_idempotency_index s \<and> es_next_event_id s' = es_next_event_id s"
  using assms(3,1)
  by (cases rule: append_cases) (use assms(2) in \<open>auto simp: os_ftruncate_def\<close>)

text \<open>
  Corruption is never mistaken for a torn write.  A full-length record whose checksum is
  wrong, followed by at least one more byte, makes opening the store fail with
  \<open>CorruptEventStoreError\<close>, and the file is left untouched.
\<close>

theorem corruption_detected:
  assumes "\<And>x. length (sha256 E x) = 32" "log_bytes E es = Some d" "ids_after None es"
    and "\<forall>e\<in>set es. json_round_trip E e"
    and "i < 256 ^ 8" "length p < 256 ^ 4" "length c = 32"
    and "c \<noteq> sha256 E (record_header i (length p) @ p)" "post \<noteq> []"
  defines "bad \<equiv> d @ record_header i (length p) @ p @ c @ post"
  shows "open_store E False bad = (Inl CorruptEventStoreError, bad)"
proof -
  have "decode_record (sha256 E) bad (length d) =
      Inl (RecordDecodeChecksumMismatch (length d + (49 + length p)))"
    using decode_record_parts [OF assms(5-7), of "sha256 E" post] assms(8)
    by (simp add: bad_def decode_record_shift)
  moreover have "length bad = length d + (49 + length p) + length post" "0 < length post"
    using assms(7,9) by (simp_all add: bad_def)
  ultimately have "scan_loop E bad (length d) (last_id None es) es = Inl CorruptEventStoreError"
    by (subst scan_loop.simps) simp
  then have "scan_loop E bad 0 None [] = Inl CorruptEventStoreError"
    using scan_log [OF assms(1-4)] by (simp add: bad_def)
  then show ?thesis by (simp add: open_store_def scan_file_def)
qed

text \<open>All keys of a value, at any depth.\<close>

fun all_keys :: "pyval \<Rightarrow> string list" and item_keys :: "(string \<times> pyval) list \<Rightarrow> string list"
  and elem_keys :: "pyval list \<Rightarrow> string list" where
  "all_keys (VDict d) = item_keys d"
| "all_keys (VList l) = elem_keys l"
| "all_keys _ = []"
| "item_keys [] = []"
| "item_keys ((k, v) # d) = k # all_keys v @ item_keys d"
| "elem_keys [] = []"
| "elem_keys (v # vs) = all_keys v @ elem_keys vs"

lemma not_forbidden_empty: "\<not> forbidden_key []"
  by (simp add: forbidden_key_def FORBIDDEN_KEY_SUBSTRINGS_def py_lower_def)

definition forbidden_found :: "string option \<Rightarrow> bool" where
  "forbidden_found r = (case r of None \<Rightarrow> False | Some p \<Rightarrow> p \<noteq> [])"

lemma forbidden_found_simps [simp]: "\<not> forbidden_found None" "forbidden_found (Some p) \<longleftrightarrow> p \<noteq> []"
  by (simp_all add: forbidden_found_def)

lemma scan_forbidden_keys_iff:
  "forbidden_found (scan_forbidden_keys v path) \<longleftrightarrow> list_ex forbidden_key (all_keys v)"
  "forbidden_found (scan_items d path) \<longleftrightarrow> list_ex forbidden_key (item_keys d)"
  "forbidden_found (scan_elems l i path) \<longleftrightarrow> list_ex forbidden_key (elem_keys l)"
proof (induction v path and d path and l i path
    rule: scan_forbidden_keys_scan_items_scan_elems.induct [case_names DictV ListV N B I S D INil ICons ENil ECons])
  case (ICons k v d path)
  show ?case
  proof (cases "forbidden_key k")
    case True
    then have "join_path path k \<noteq> []" using not_forbidden_empty by (auto simp: join_path_def)
    with True show ?thesis by simp
  next
    case False
    with ICons show ?thesis by (cases "scan_forbidden_keys v (join_path path k)") auto
  qed
next
  case (ECons v vs i path)
  then show ?case by (cases "scan_forbidden_keys v (path @ ''['' @ show_nat i @ '']'')") auto
qed simp_all

text \<open>
  (C21) No secret reaches the log.  Every event of a reachable store has a payload in which no key,
  at any depth of nesting, contains one of the forbidden words (compared in lower case), has a
  schema version of at least 1, and its idempotency key, if any, is neither blank nor longer than
  200 characters.
\<close>

theorem log_secret_free:
  assumes "store_reach E s" "e \<in> set (es_events s)"
  shows "list_all (\<lambda>k. \<not> forbidden_key k) (all_keys (VDict (payload e))) \<and> 1 \<le> schema_version e \<and>
         (\<forall>k. idempotency_key e = Some k \<longrightarrow> \<not> py_strip_empty k \<and> length k \<le> 200)"
  using assms
proof (induction rule: store_reach.induct)
  case (fresh s d)
  then have "es_events s = []"
    by (auto simp: open_store_eq scan_file_def scan_loop.simps)
  with fresh(2) show ?case by simp
next
  case (appended s ty pl key sv r s')
  note inv = store_reach_inv [OF appended(1), THEN conjunct1]
  from appended(2) inv show ?case
  proof (cases rule: append_cases)
    case (recorded b f)
    then have "validate_new_event E pl key sv = Inr ()"
      using appended(2) append_accepted by blast
    then have "\<not> forbidden_found (scan_forbidden_keys (VDict pl) [])" "1 \<le> sv"
      "\<forall>k. key = Some k \<longrightarrow> \<not> py_strip_empty k \<and> length k \<le> 200"
      by (auto simp: validate_new_event_def forbidden_found_def MAX_IDEMPOTENCY_KEY_LENGTH_def
          split: if_splits option.splits)
    then show ?thesis
      using recorded(6) appended(4,5)
      by (auto simp: scan_forbidden_keys_iff new_event_def list_ex_iff list_all_iff)
  qed (use appended in auto)
qed

section \<open>A concrete environment\<close>

text \<open>
  A small instance of the outside world: a constant checksum, a JSON library that handles
  envelopes which differ in their idempotency key only, a fixed clock and writes of any size.
\<close>

fun demo_dumps :: "pyval \<Rightarrow> bytes" where
  "demo_dumps (VDict d) = (case dget d ''idempotency_key'' of VStr k \<Rightarrow> map (\<lambda>c. of_nat (of_char c)) k | _ \<Rightarrow> [])"
| "demo_dumps _ = []"

definition demo_loads :: "bytes \<Rightarrow> pyval option" where
  "demo_loads bs = Some (VDict (envelope ORDER_SUBMITTED ''now'' 1 (Some (map (\<lambda>b. char_of (unat b)) bs)) []))"

definition demo_env :: env where
  "demo_env = \<lparr>sha256 = (\<lambda>_. replicate 32 0), json_dumps = demo_dumps, json_loads = demo_loads,
     io_calls = (\<lambda>_. \<lparr>io_now = ''now'', io_writes = [30, 1000], io_fsync = True\<rparr>)\<rparr>"

definition demo_event :: "nat \<Rightarrow> string \<Rightarrow> event" where
  "demo_event i k = \<lparr>event_id = i, ev_type = ORDER_SUBMITTED, timestamp_utc = ''now'', schema_version = 1,
     idempotency_key = Some k, payload = []\<rparr>"

definition demo_empty :: event_store where
  "demo_empty = opened_store [] \<lparr>valid_event_count = 0, tail_truncated = False, discarded_byte_count = 0\<rparr> []"

definition demo_store :: event_store where
  "demo_store = snd (append_event demo_env ORDER_SUBMITTED [] (Some ''k1'') 1 demo_empty)"

lemma demo_sha: "length (sha256 demo_env x) = 32"
  by (simp add: demo_env_def)

lemma demo_fresh: "open_store demo_env False [] = (Inr demo_empty, [])"
  by (simp add: open_store_eq scan_file_def scan_loop.simps demo_empty_def)

lemma demo_append: "append_event demo_env ORDER_SUBMITTED [] (Some ''k1'') 1 demo_empty = (Inr (demo_event 1 ''k1''), demo_store)"
proof -
  have "fst (append_event demo_env ORDER_SUBMITTED [] (Some ''k1'') 1 demo_empty) = Inr (demo_event 1 ''k1'')"
    by code_simp
  then show ?thesis by (simp add: demo_store_def prod_eq_iff)
qed

lemma demo_reach: "store_reach demo_env demo_empty" "store_reach demo_env demo_store"
  using store_reach.fresh [OF demo_fresh] store_reach.appended [OF _ demo_append] by auto

lemma demo_events: "es_events demo_empty = []" "es_events demo_store = [demo_event 1 ''k1'']"
  by code_simp+

lemma demo_json: "k \<in> {''k1'', ''k2''} \<Longrightarrow> json_round_trip demo_env (demo_event i k)"
  by (auto simp: json_round_trip_def demo_env_def canonical_json_def event_envelope_def demo_event_def
      envelope_def demo_loads_def char_of_def bit_0)

lemma demo_bytes: "encode_event demo_env (demo_event 2 ''k2'') =
    Some (take 25 (the (encode_event demo_env (demo_event 2 ''k2''))) @ drop 25 (the (encode_event demo_env (demo_event 2 ''k2''))))"
  by code_simp

lemma crash_recovery_witness:
  "\<exists>s'. open_store demo_env False
          (fd_data (es_fd demo_store) @ take 25 (the (encode_event demo_env (demo_event 2 ''k2'')))) =
        (Inr s', fd_data (es_fd demo_store)) \<and> es_events s' = [demo_event 1 ''k1'']"
proof -
  have "get_by_idempotency_key demo_store ''k2'' = None" "es_next_event_id demo_store = 2"
    "drop 25 (the (encode_event demo_env (demo_event 2 ''k2''))) \<noteq> []" by code_simp+
  then show ?thesis
    using crash_recovery [OF demo_sha demo_reach(2) _ demo_json _ _ demo_bytes] demo_json
    by (auto simp: demo_events demo_event_def)
qed

lemma reopen_roundtrip_witness:
  "\<exists>s'. open_store demo_env False (fd_data (es_fd demo_store)) = (Inr s', fd_data (es_fd demo_store)) \<and>
        es_events s' = [demo_event 1 ''k1'']"
  using reopen_roundtrip [OF demo_sha demo_reach(2)] demo_json by (auto simp: demo_events)


lemma log_secret_free_witness:
  "\<not> py_strip_empty ''k1'' \<and> list_all (\<lambda>k. \<not> forbidden_key k) (all_keys (VDict (payload (demo_event 1 ''k1''))))"
  using log_secret_free [OF demo_reach(2), of "demo_event 1 ''k1''"] by (simp add: demo_events demo_event_def)

lemma corruption_detected_witness:
  "fst (open_store (demo_env\<lparr>sha256 := \<lambda>_. replicate 32 1\<rparr>) False
     (record_header 1 2 @ [7, 7] @ replicate 32 0 @ [0])) = Inl CorruptEventStoreError"
  using corruption_detected [of "demo_env\<lparr>sha256 := \<lambda>_. replicate 32 1\<rparr>" "[]" "[]" 1 "[7,7]" "replicate 32 0" "[0]"]
  by (simp add: numeral_2_eq_2)

text \<open>
  The environment in which the first append fails after ten bytes (the disk is full), the second
  one after \<open>w\<close> bytes, and every later one succeeds.
\<close>

definition full_disk_env :: "int \<Rightarrow> env" where
  "full_disk_env w = demo_env\<lparr>io_calls := \<lambda>n. \<lparr>io_now = ''now'',
     io_writes = (if n = 0 then [10] else if n = 1 then [w] else [1000]), io_fsync = True\<rparr>\<rparr>"

definition demo_put :: "int \<Rightarrow> string \<Rightarrow> event_store \<Rightarrow> event_store" where
  "demo_put w k s = snd (append_event (full_disk_env w) ORDER_SUBMITTED [] (Some k) 1 s)"

definition demo_third :: "int \<Rightarrow> event_store" where
  "demo_third w = demo_put w ''k3'' (demo_put w ''k2'' (demo_put w ''k1'' demo_empty))"

lemma append_failure_rolls_back_witness:
  "es_events (demo_put 4 ''k1'' demo_empty) = [] \<and> fd_data (es_fd (demo_put 4 ''k1'' demo_empty)) = []"
proof -
  have "fst (append_event (full_disk_env 4) ORDER_SUBMITTED [] (Some ''k1'') 1 demo_empty) = Inl OSError" by code_simp
  then have "append_event (full_disk_env 4) ORDER_SUBMITTED [] (Some ''k1'') 1 demo_empty =
      (Inl OSError, demo_put 4 ''k1'' demo_empty)"
    by (simp add: prod_eq_iff demo_put_def)
  from append_failure_rolls_back [OF _ _ this] store_reach_inv [OF demo_reach(1)] show ?thesis
    by (simp add: demo_empty_def)
qed


end
