(* ===== verification/Ledger.thy ===== *)
theory Ledger
  imports Event_Log
begin

text \<open>
  The contract the managers rely on.  The execution state machine, the order, position and
  portfolio managers never look inside the event store: they append an event under an idempotency
  key, look an event up by its key, and rebuild themselves from the log.  \<open>event_ledger\<close> states
  what the store promises them, \<open>event_sourced\<close> what follows for a component that keeps its memory
  in step with the log by applying every event it has persisted; the store of
  \<^verbatim>\<open>event_store/store.py\<close> is then shown to keep the promise.
\<close>

locale event_ledger =
  fixes inv :: "'s \<Rightarrow> bool"
    and log_of :: "'s \<Rightarrow> event list"
    and find_key :: "'s \<Rightarrow> string \<Rightarrow> event option"
    and put :: "event_type \<Rightarrow> dict \<Rightarrow> string option \<Rightarrow> ('s, exc, event) prog"
  assumes put_inv: "inv s \<Longrightarrow> put ty pl key s = (r, s') \<Longrightarrow> inv s'"
    and put_fail: "inv s \<Longrightarrow> put ty pl key s = (Inl x, s') \<Longrightarrow> log_of s' = log_of s"
    and put_hit: "inv s \<Longrightarrow> put ty pl (Some k) s = (Inr e, s') \<Longrightarrow> find_key s k = Some e' \<Longrightarrow>
                    e = e' \<and> log_of s' = log_of s"
    and put_miss: "inv s \<Longrightarrow> put ty pl key s = (Inr e, s') \<Longrightarrow> (\<And>k'. key = Some k' \<Longrightarrow> find_key s k' = None) \<Longrightarrow>
                    log_of s' = log_of s @ [e] \<and> ev_type e = ty \<and> payload e = pl \<and> idempotency_key e = key"
    and find_iff: "inv s \<Longrightarrow> find_key s k = Some e \<longleftrightarrow> e \<in> set (log_of s) \<and> idempotency_key e = Some k"
begin

text \<open>After a successful append the key is bound to the event that was returned.\<close>

lemma put_then_find:
  assumes "inv s" "put ty pl (Some k) s = (Inr e, s')"
  shows "find_key s' k = Some e"
proof (cases "find_key s k")
  case None
  with put_miss [OF assms] put_inv [OF assms] show ?thesis by (simp add: find_iff)
next
  case (Some e')
  with put_hit [OF assms Some] find_iff [OF assms(1), of k e] put_inv [OF assms] show ?thesis
    by (simp add: find_iff)
qed

lemma put_log_grows:
  assumes "inv s" "put ty pl k s = (r, s')"
  shows "\<exists>new. log_of s' = log_of s @ new \<and> length new \<le> 1 \<and>
           (\<forall>e\<in>set new. r = Inr e \<and> ev_type e = ty \<and> payload e = pl \<and> idempotency_key e = k)"
proof (cases r)
  case (Inl x)
  with put_fail assms show ?thesis by (intro exI [of _ "[]"]) auto
next
  case (Inr e)
  show ?thesis
  proof (cases "\<exists>k' e'. k = Some k' \<and> find_key s k' = Some e'")
    case False
    with put_miss [OF assms(1), of ty pl k e s'] assms(2) Inr show ?thesis
      by (intro exI [of _ "[e]"]) auto
  next
    case True
    with put_hit assms Inr show ?thesis by (intro exI [of _ "[]"]) auto
  qed
qed

text \<open>A key stays bound to its event for ever.\<close>

lemma put_keeps_keys:
  assumes "inv s" "put ty pl k s = (r, s')" "find_key s k' = Some e"
  shows "find_key s' k' = Some e"
  using put_log_grows [OF assms(1,2)] put_inv [OF assms(1,2)] assms(3) find_iff [OF assms(1)]
  by (auto simp: find_iff)

end

text \<open>
  A component whose memory is the fold of its own events over the log: \<open>own\<close> selects its events,
  \<open>app\<close> applies one to the memory and \<open>m0\<close> is the memory before any event.
\<close>

locale event_sourced = event_ledger inv log_of find_key put
  for inv :: "'s \<Rightarrow> bool" and log_of and find_key and put +
  fixes own :: "event \<Rightarrow> bool"
    and app :: "event \<Rightarrow> ('m, exc, 'r) prog"
    and m0 :: 'm
begin

definition recovered :: "'s \<Rightarrow> 'm \<Rightarrow> bool" where
  "recovered s m \<longleftrightarrow> fold_log own app (log_of s) m0 = Inr m"

lemma persist_then_apply:
  assumes "inv s" "recovered s m" "put ty pl (Some k) s = (Inr e, s')" "find_key s k = None"
    and "own e" "app e m = (Inr r, m')"
  shows "recovered s' m'"
  using put_miss [OF assms(1,3)] assms(2,4-) by (simp add: recovered_def fold_log_append)

lemma persist_poison:
  assumes "inv s" "recovered s m" "put ty pl (Some k) s = (Inr e, s')" "find_key s k = None"
    and "own e" "app e m = (Inl x, m')"
  shows "fold_log own app (log_of s') m0 = Inl x"
  using put_miss [OF assms(1,3)] assms(2,4-) by (simp add: recovered_def fold_log_append)

lemma persist_failed:
  "inv s \<Longrightarrow> recovered s m \<Longrightarrow> put ty pl k s = (Inl x, s') \<Longrightarrow> recovered s' m"
  by (simp add: recovered_def put_fail)

lemma persist_known:
  "inv s \<Longrightarrow> recovered s m \<Longrightarrow> put ty pl (Some k) s = (Inr e, s') \<Longrightarrow> find_key s k = Some e' \<Longrightarrow>
   recovered s' m"
  by (simp add: recovered_def put_hit)

text \<open>Events of the other components sharing the store leave the memory as it is.\<close>

lemma persist_foreign:
  assumes "inv s" "recovered s m" "put ty pl k s = (r, s')" "\<And>e. payload e = pl \<Longrightarrow> \<not> own e"
  shows "recovered s' m"
proof -
  from put_log_grows [OF assms(1,3)] obtain new where "log_of s' = log_of s @ new"
    "\<forall>e\<in>set new. payload e = pl" by blast
  moreover from this assms(4) have "list_all (\<lambda>e. \<not> own e) new" by (auto simp: list_all_iff)
  ultimately show ?thesis using assms(2) by (simp add: recovered_def fold_log_append fold_log_foreign)
qed

end

text \<open>The event store keeps the contract, whatever the operating system does to its writes.\<close>

interpretation es: event_ledger ledger_inv es_events get_by_idempotency_key
  "\<lambda>ty pl k. append_event E ty pl k sv" for E sv
proof
  fix s s' ty pl k r
  assume "ledger_inv s" "append_event E ty pl k sv s = (r, s')"
  then show "ledger_inv s'" by (rule append_ledger_inv [rotated])
next
  fix s s' ty pl k x
  assume "ledger_inv s" "append_event E ty pl k sv s = (Inl x, s')"
  from this(2,1) show "es_events s' = es_events s" by (cases rule: append_cases) simp_all
next
  fix s s' ty pl k e e'
  assume inv: "ledger_inv s" and a: "append_event E ty pl (Some k) sv s = (Inr e, s')"
    and "get_by_idempotency_key s k = Some e'"
  from a inv this(3) show "e = e' \<and> es_events s' = es_events s" by (cases rule: append_cases) simp_all
next
  fix s s' ty pl k e
  assume inv: "ledger_inv s" and a: "append_event E ty pl k sv s = (Inr e, s')"
    and "\<And>k'. k = Some k' \<Longrightarrow> get_by_idempotency_key s k' = None"
  from a inv this(3) show "es_events s' = es_events s @ [e] \<and> ev_type e = ty \<and> payload e = pl \<and>
      idempotency_key e = k"
    by (cases rule: append_cases) (simp_all add: new_event_def)
qed (rule get_by_key_iff)

end
