(* ===== verification/Execution_State_Machine.thy ===== *)
theory Execution_State_Machine
  imports Ledger
begin

text \<open>
  The execution state machine, \<^verbatim>\<open>execution_state_machine/{states,transitions,machine}.py\<close>: its
  states and triggers, the transition table, the machine (its identifier and its current state,
  next to the store it shares with the other components), construction by replay and
  \<open>transition\<close>.
\<close>

section \<open>States and triggers\<close>

datatype state =
    S_INITIALIZING | S_RECONCILING | S_READY | S_SIGNAL_PENDING | S_ORDER_PENDING |
    S_PARTIALLY_FILLED | S_POSITION_OPEN | S_POSITION_CLOSING | S_FLAT | S_SOFT_KILL |
    S_HARD_KILL | S_EMERGENCY_KILL | S_STOPPED

fun state_value :: "state \<Rightarrow> string" where
  "state_value S_INITIALIZING = ''INITIALIZING''"
| "state_value S_RECONCILING = ''RECONCILING''"
| "state_value S_READY = ''READY''"
| "state_value S_SIGNAL_PENDING = ''SIGNAL_PENDING''"
| "state_value S_ORDER_PENDING = ''ORDER_PENDING''"
| "state_value S_PARTIALLY_FILLED = ''PARTIALLY_FILLED''"
| "state_value S_POSITION_OPEN = ''POSITION_OPEN''"
| "state_value S_POSITION_CLOSING = ''POSITION_CLOSING''"
| "state_value S_FLAT = ''FLAT''"
| "state_value S_SOFT_KILL = ''SOFT_KILL''"
| "state_value S_HARD_KILL = ''HARD_KILL''"
| "state_value S_EMERGENCY_KILL = ''EMERGENCY_KILL''"
| "state_value S_STOPPED = ''STOPPED''"

definition all_states :: "state list" where
  "all_states =
     [S_INITIALIZING, S_RECONCILING, S_READY, S_SIGNAL_PENDING, S_ORDER_PENDING,
      S_PARTIALLY_FILLED, S_POSITION_OPEN, S_POSITION_CLOSING, S_FLAT, S_SOFT_KILL,
      S_HARD_KILL, S_EMERGENCY_KILL, S_STOPPED]"

datatype trigger =
    T_STARTED | T_RECONCILED | T_RECONCILIATION_FAILED | T_SIGNAL_RECEIVED |
    T_SIGNAL_REJECTED | T_ORDER_PLACED | T_ORDER_REJECTED | T_ORDER_CANCELLED |
    T_PARTIAL_FILL_RECEIVED | T_FULLY_FILLED | T_REMAINDER_FILLED | T_STOP_ADJUSTED |
    T_PARTIAL_TAKE_PROFIT_FILLED | T_CLOSE_INITIATED | T_PARTIAL_CLOSE_FILLED |
    T_CLOSE_COMPLETED | T_READY_FOR_NEXT | T_SOFT_KILL_TRIGGERED | T_HARD_KILL_TRIGGERED |
    T_EMERGENCY_KILL_TRIGGERED | T_FLATTEN_FILL_RECEIVED | T_RESUME | T_SHUTDOWN

fun trigger_value :: "trigger \<Rightarrow> string" where
  "trigger_value T_STARTED = ''STARTED''"
| "trigger_value T_RECONCILED = ''RECONCILED''"
| "trigger_value T_RECONCILIATION_FAILED = ''RECONCILIATION_FAILED''"
| "trigger_value T_SIGNAL_RECEIVED = ''SIGNAL_RECEIVED''"
| "trigger_value T_SIGNAL_REJECTED = ''SIGNAL_REJECTED''"
| "trigger_value T_ORDER_PLACED = ''ORDER_PLACED''"
| "trigger_value T_ORDER_REJECTED = ''ORDER_REJECTED''"
| "trigger_value T_ORDER_CANCELLED = ''ORDER_CANCELLED''"
| "trigger_value T_PARTIAL_FILL_RECEIVED = ''PARTIAL_FILL_RECEIVED''"
| "trigger_value T_FULLY_FILLED = ''FULLY_FILLED''"
| "trigger_value T_REMAINDER_FILLED = ''REMAINDER_FILLED''"
| "trigger_value T_STOP_ADJUSTED = ''STOP_ADJUSTED''"
| "trigger_value T_PARTIAL_TAKE_PROFIT_FILLED = ''PARTIAL_TAKE_PROFIT_FILLED''"
| "trigger_value T_CLOSE_INITIATED = ''CLOSE_INITIATED''"
| "trigger_value T_PARTIAL_CLOSE_FILLED = ''PARTIAL_CLOSE_FILLED''"
| "trigger_value T_CLOSE_COMPLETED = ''CLOSE_COMPLETED''"
| "trigger_value T_READY_FOR_NEXT = ''READY_FOR_NEXT''"
| "trigger_value T_SOFT_KILL_TRIGGERED = ''SOFT_KILL_TRIGGERED''"
| "trigger_value T_HARD_KILL_TRIGGERED = ''HARD_KILL_TRIGGERED''"
| "trigger_value T_EMERGENCY_KILL_TRIGGERED = ''EMERGENCY_KILL_TRIGGERED''"
| "trigger_value T_FLATTEN_FILL_RECEIVED = ''FLATTEN_FILL_RECEIVED''"
| "trigger_value T_RESUME = ''RESUME''"
| "trigger_value T_SHUTDOWN = ''SHUTDOWN''"

definition all_triggers :: "trigger list" where
  "all_triggers =
     [T_STARTED, T_RECONCILED, T_RECONCILIATION_FAILED, T_SIGNAL_RECEIVED, T_SIGNAL_REJECTED,
      T_ORDER_PLACED, T_ORDER_REJECTED, T_ORDER_CANCELLED, T_PARTIAL_FILL_RECEIVED,
      T_FULLY_FILLED, T_REMAINDER_FILLED, T_STOP_ADJUSTED, T_PARTIAL_TAKE_PROFIT_FILLED,
      T_CLOSE_INITIATED, T_PARTIAL_CLOSE_FILLED, T_CLOSE_COMPLETED, T_READY_FOR_NEXT,
      T_SOFT_KILL_TRIGGERED, T_HARD_KILL_TRIGGERED, T_EMERGENCY_KILL_TRIGGERED,
      T_FLATTEN_FILL_RECEIVED, T_RESUME, T_SHUTDOWN]"

section \<open>The transition table\<close>

definition EDGES :: "(state \<times> trigger \<times> state) list" where
  "EDGES =
     [(S_INITIALIZING, T_STARTED, S_RECONCILING),
      (S_INITIALIZING, T_EMERGENCY_KILL_TRIGGERED, S_EMERGENCY_KILL),
      (S_INITIALIZING, T_SHUTDOWN, S_STOPPED),
      (S_RECONCILING, T_RECONCILED, S_READY),
      (S_RECONCILING, T_RECONCILIATION_FAILED, S_SOFT_KILL),
      (S_RECONCILING, T_SOFT_KILL_TRIGGERED, S_SOFT_KILL),
      (S_RECONCILING, T_HARD_KILL_TRIGGERED, S_HARD_KILL),
      (S_RECONCILING, T_EMERGENCY_KILL_TRIGGERED, S_EMERGENCY_KILL),
      (S_RECONCILING, T_SHUTDOWN, S_STOPPED),
      (S_READY, T_SIGNAL_RECEIVED, S_SIGNAL_PENDING),
      (S_READY, T_SOFT_KILL_TRIGGERED, S_SOFT_KILL),
      (S_READY, T_HARD_KILL_TRIGGERED, S_HARD_KILL),
      (S_READY, T_EMERGENCY_KILL_TRIGGERED, S_EMERGENCY_KILL),
      (S_READY, T_SHUTDOWN, S_STOPPED),
      (S_SIGNAL_PENDING, T_ORDER_PLACED, S_ORDER_PENDING),
      (S_SIGNAL_PENDING, T_SIGNAL_REJECTED, S_READY),
      (S_SIGNAL_PENDING, T_SOFT_KILL_TRIGGERED, S_SOFT_KILL),
      (S_SIGNAL_PENDING, T_HARD_KILL_TRIGGERED, S_HARD_KILL),
      (S_SIGNAL_PENDING, T_EMERGENCY_KILL_TRIGGERED, S_EMERGENCY_KILL),
      (S_ORDER_PENDING, T_PARTIAL_FILL_RECEIVED, S_PARTIALLY_FILLED),
      (S_ORDER_PENDING, T_FULLY_FILLED, S_POSITION_OPEN),
      (S_ORDER_PENDING, T_ORDER_REJECTED, S_READY),
      (S_ORDER_PENDING, T_ORDER_CANCELLED, S_READY),
      (S_ORDER_PENDING, T_SOFT_KILL_TRIGGERED, S_SOFT_KILL),
      (S_ORDER_PENDING, T_HARD_KILL_TRIGGERED, S_HARD_KILL),
      (S_ORDER_PENDING, T_EMERGENCY_KILL_TRIGGERED, S_EMERGENCY_KILL),
      (S_PARTIALLY_FILLED, T_PARTIAL_FILL_RECEIVED, S_PARTIALLY_FILLED),
      (S_PARTIALLY_FILLED, T_REMAINDER_FILLED, S_POSITION_OPEN),
      (S_PARTIALLY_FILLED, T_SOFT_KILL_TRIGGERED, S_SOFT_KILL),
      (S_PARTIALLY_FILLED, T_HARD_KILL_TRIGGERED, S_HARD_KILL),
      (S_PARTIALLY_FILLED, T_EMERGENCY_KILL_TRIGGERED, S_EMERGENCY_KILL),
      (S_POSITION_OPEN, T_STOP_ADJUSTED, S_POSITION_OPEN),
      (S_POSITION_OPEN, T_PARTIAL_TAKE_PROFIT_FILLED, S_POSITION_OPEN),
      (S_POSITION_OPEN, T_CLOSE_INITIATED, S_POSITION_CLOSING),
      (S_POSITION_OPEN, T_SOFT_KILL_TRIGGERED, S_SOFT_KILL),
      (S_POSITION_OPEN, T_HARD_KILL_TRIGGERED, S_HARD_KILL),
      (S_POSITION_OPEN, T_EMERGENCY_KILL_TRIGGERED, S_EMERGENCY_KILL),
      (S_POSITION_CLOSING, T_PARTIAL_CLOSE_FILLED, S_POSITION_CLOSING),
      (S_POSITION_CLOSING, T_CLOSE_COMPLETED, S_FLAT),
      (S_POSITION_CLOSING, T_SOFT_KILL_TRIGGERED, S_SOFT_KILL),
      (S_POSITION_CLOSING, T_HARD_KILL_TRIGGERED, S_HARD_KILL),
      (S_POSITION_CLOSING, T_EMERGENCY_KILL_TRIGGERED, S_EMERGENCY_KILL),
      (S_FLAT, T_READY_FOR_NEXT, S_READY),
      (S_FLAT, T_SOFT_KILL_TRIGGERED, S_SOFT_KILL),
      (S_FLAT, T_HARD_KILL_TRIGGERED, S_HARD_KILL),
      (S_FLAT, T_EMERGENCY_KILL_TRIGGERED, S_EMERGENCY_KILL),
      (S_FLAT, T_SHUTDOWN, S_STOPPED),
      (S_SOFT_KILL, T_RESUME, S_RECONCILING),
      (S_SOFT_KILL, T_HARD_KILL_TRIGGERED, S_HARD_KILL),
      (S_SOFT_KILL, T_EMERGENCY_KILL_TRIGGERED, S_EMERGENCY_KILL),
      (S_SOFT_KILL, T_SHUTDOWN, S_STOPPED),
      (S_HARD_KILL, T_FLATTEN_FILL_RECEIVED, S_HARD_KILL),
      (S_HARD_KILL, T_RESUME, S_RECONCILING),
      (S_HARD_KILL, T_EMERGENCY_KILL_TRIGGERED, S_EMERGENCY_KILL),
      (S_HARD_KILL, T_SHUTDOWN, S_STOPPED),
      (S_EMERGENCY_KILL, T_SHUTDOWN, S_STOPPED)]"

fun TRIGGER_EVENT_TYPE :: "trigger \<Rightarrow> event_type" where
  "TRIGGER_EVENT_TYPE T_STARTED = SYSTEM_STARTED"
| "TRIGGER_EVENT_TYPE T_RECONCILED = POSITION_UPDATED"
| "TRIGGER_EVENT_TYPE T_RECONCILIATION_FAILED = HEALTH_ALERT"
| "TRIGGER_EVENT_TYPE T_SIGNAL_RECEIVED = ORDER_SUBMITTED"
| "TRIGGER_EVENT_TYPE T_SIGNAL_REJECTED = ORDER_CANCELLED"
| "TRIGGER_EVENT_TYPE T_ORDER_PLACED = ORDER_SUBMITTED"
| "TRIGGER_EVENT_TYPE T_ORDER_REJECTED = ORDER_CANCELLED"
| "TRIGGER_EVENT_TYPE T_ORDER_CANCELLED = ORDER_CANCELLED"
| "TRIGGER_EVENT_TYPE T_PARTIAL_FILL_RECEIVED = ORDER_FILLED"
| "TRIGGER_EVENT_TYPE T_FULLY_FILLED = POSITION_OPENED"
| "TRIGGER_EVENT_TYPE T_REMAINDER_FILLED = POSITION_OPENED"
| "TRIGGER_EVENT_TYPE T_STOP_ADJUSTED = STOP_UPDATED"
| "TRIGGER_EVENT_TYPE T_PARTIAL_TAKE_PROFIT_FILLED = TAKE_PROFIT_UPDATED"
| "TRIGGER_EVENT_TYPE T_CLOSE_INITIATED = POSITION_UPDATED"
| "TRIGGER_EVENT_TYPE T_PARTIAL_CLOSE_FILLED = ORDER_FILLED"
| "TRIGGER_EVENT_TYPE T_CLOSE_COMPLETED = POSITION_CLOSED"
| "TRIGGER_EVENT_TYPE T_READY_FOR_NEXT = POSITION_UPDATED"
| "TRIGGER_EVENT_TYPE T_SOFT_KILL_TRIGGERED = KILL_SWITCH_TRIGGERED"
| "TRIGGER_EVENT_TYPE T_HARD_KILL_TRIGGERED = KILL_SWITCH_TRIGGERED"
| "TRIGGER_EVENT_TYPE T_EMERGENCY_KILL_TRIGGERED = KILL_SWITCH_TRIGGERED"
| "TRIGGER_EVENT_TYPE T_FLATTEN_FILL_RECEIVED = ORDER_FILLED"
| "TRIGGER_EVENT_TYPE T_RESUME = POSITION_UPDATED"
| "TRIGGER_EVENT_TYPE T_SHUTDOWN = SYSTEM_STOPPED"

definition TRANSITION_TABLE :: "state \<times> trigger \<rightharpoonup> state" where
  "TRANSITION_TABLE = map_of (rev (map (\<lambda>(frm, trig, to). ((frm, trig), to)) EDGES))"

definition LEGAL_TRIGGERS_BY_STATE :: "state \<Rightarrow> trigger set" where
  "LEGAL_TRIGGERS_BY_STATE s = fold (\<lambda>(frm, trig, _) ts. if frm = s then ts \<union> {trig} else ts) EDGES {}"

definition is_legal :: "state \<Rightarrow> trigger \<Rightarrow> bool" where
  "is_legal from_state trig = (TRANSITION_TABLE (from_state, trig) \<noteq> None)"

definition next_state :: "state \<Rightarrow> trigger \<Rightarrow> exc + state" where
  "next_state from_state trig =
     (case TRANSITION_TABLE (from_state, trig) of None \<Rightarrow> Inl KeyError | Some to \<Rightarrow> Inr to)"

section \<open>The machine\<close>

definition ESM_SOURCE_TAG :: string where "ESM_SOURCE_TAG = ''execution_state_machine''"
definition MAX_MACHINE_ID_LENGTH :: nat where "MAX_MACHINE_ID_LENGTH = 60"
definition MAX_REQUEST_ID_LENGTH :: nat where "MAX_REQUEST_ID_LENGTH = 60"

definition namespaced_key :: "string \<Rightarrow> string \<Rightarrow> string" where
  "namespaced_key machine_id request_id =
     ESM_SOURCE_TAG @ '':'' @ len_field machine_id @ '':'' @ len_field request_id"

definition is_own_event :: "event \<Rightarrow> string \<Rightarrow> bool" where
  "is_own_event e machine_id =
     (dget (payload e) ''source'' = VStr ESM_SOURCE_TAG \<and> dget (payload e) ''machine_id'' = VStr machine_id)"

definition parse_state :: "pyval \<Rightarrow> exc + state" where
  "parse_state raw =
     (case raw of
        VStr r \<Rightarrow> (case find (\<lambda>s. state_value s = r) all_states of
                     Some s \<Rightarrow> Inr s | None \<Rightarrow> Inl (ReplayIntegrityError ESM))
      | _ \<Rightarrow> Inl (ReplayIntegrityError ESM))"

definition parse_trigger :: "pyval \<Rightarrow> exc + trigger" where
  "parse_trigger raw =
     (case raw of
        VStr r \<Rightarrow> (case find (\<lambda>t. trigger_value t = r) all_triggers of
                     Some t \<Rightarrow> Inr t | None \<Rightarrow> Inl (ReplayIntegrityError ESM))
      | _ \<Rightarrow> Inl (ReplayIntegrityError ESM))"

record transition_result =
  tr_event_id :: nat
  tr_trigger :: trigger
  tr_from_state :: state
  tr_to_state :: state
  tr_timestamp_utc :: string
  tr_request_id :: string
  tr_context :: dict
  tr_replayed :: bool

record esm =
  esm_machine_id :: string
  esm_current_state :: state

text \<open>One round of the replay loop of \<open>__init__\<close>, on the current state.\<close>

definition esm_apply :: "event \<Rightarrow> (state, exc, unit) prog" where
  "esm_apply e current =
     (case bindE (parse_trigger (dget (payload e) ''trigger'')) (\<lambda>trig.
           bindE (parse_state (dget (payload e) ''from_state'')) (\<lambda>from_state.
           bindE (parse_state (dget (payload e) ''to_state'')) (\<lambda>to_state.
             if from_state \<noteq> current then Inl (ReplayIntegrityError ESM)
             else if \<not> is_legal from_state trig \<or> next_state from_state trig \<noteq> Inr to_state
             then Inl (ReplayIntegrityError ESM)
             else Inr to_state))) of
        Inl x \<Rightarrow> (Inl x, current)
      | Inr to_state \<Rightarrow> (Inr (), to_state))"

definition ExecutionStateMachine :: "event_store \<Rightarrow> string \<Rightarrow> exc + esm" where
  "ExecutionStateMachine store machine_id =
     (if py_strip_empty machine_id then Inl ValueError
      else if length machine_id > MAX_MACHINE_ID_LENGTH then Inl ValueError
      else bindE (replay 1 store) (\<lambda>evs.
           bindE (fold_log (\<lambda>e. is_own_event e machine_id) esm_apply evs S_INITIALIZING) (\<lambda>current.
             Inr \<lparr>esm_machine_id = machine_id, esm_current_state = current\<rparr>)))"

definition legal_triggers :: "esm \<Rightarrow> trigger set" where
  "legal_triggers m = LEGAL_TRIGGERS_BY_STATE (esm_current_state m)"

definition result_from_event :: "event \<Rightarrow> string \<Rightarrow> bool \<Rightarrow> exc + transition_result" where
  "result_from_event e request_id replayed =
     bindE (parse_trigger (dget (payload e) ''trigger'')) (\<lambda>trig.
     bindE (parse_state (dget (payload e) ''from_state'')) (\<lambda>from_state.
     bindE (parse_state (dget (payload e) ''to_state'')) (\<lambda>to_state.
       Inr \<lparr>tr_event_id = event_id e, tr_trigger = trig, tr_from_state = from_state,
            tr_to_state = to_state, tr_timestamp_utc = timestamp_utc e, tr_request_id = request_id,
            tr_context = dget_dict (payload e) ''context'', tr_replayed = replayed\<rparr>)))"

text \<open>The payload \<open>transition\<close> records, in key order.\<close>

definition transition_payload :: "string \<Rightarrow> trigger \<Rightarrow> state \<Rightarrow> state \<Rightarrow> dict \<Rightarrow> dict" where
  "transition_payload machine_id trig from_state to_state context =
     [(''context'', VDict context),
      (''from_state'', VStr (state_value from_state)),
      (''machine_id'', VStr machine_id),
      (''source'', VStr ESM_SOURCE_TAG),
      (''to_state'', VStr (state_value to_state)),
      (''trigger'', VStr (trigger_value trig))]"

definition transition :: "env \<Rightarrow> trigger \<Rightarrow> string \<Rightarrow> dict option \<Rightarrow> (event_store \<times> esm, exc, transition_result) prog" where
  "transition E trig request_id context_arg sm =
     (case sm of (store, m) \<Rightarrow>
        if py_strip_empty request_id then (Inl ValueError, sm)
        else if length request_id > MAX_REQUEST_ID_LENGTH then (Inl ValueError, sm)
        else
          let context = (case context_arg of None \<Rightarrow> [] | Some c \<Rightarrow> c);
              key = namespaced_key (esm_machine_id m) request_id
          in case get_by_idempotency_key store key of
               Some existing \<Rightarrow>
                 if \<not> is_own_event existing (esm_machine_id m) then (Inl ValueError, sm)
                 else (result_from_event existing request_id True, sm)
             | None \<Rightarrow>
                 let from_state = esm_current_state m
                 in if \<not> is_legal from_state trig then (Inl IllegalTransitionError, sm)
                    else case next_state from_state trig of
                      Inl x \<Rightarrow> (Inl x, sm)
                    | Inr to_state \<Rightarrow>
                       (case append_event E (TRIGGER_EVENT_TYPE trig)
                               (transition_payload (esm_machine_id m) trig from_state to_state context)
                               (Some key) 1 store of
                          (Inl x, store') \<Rightarrow> (Inl x, (store', m))
                        | (Inr e, store') \<Rightarrow>
                            (result_from_event e request_id False,
                             (store', m\<lparr>esm_current_state := to_state\<rparr>))))"

section \<open>The table\<close>

lemma all_states: "set all_states = UNIV"
  by (auto simp: all_states_def intro: state.exhaust)

lemma all_triggers: "set all_triggers = UNIV"
  by (auto simp: all_triggers_def intro: trigger.exhaust)

lemma parse_state_value [simp]: "parse_state (VStr (state_value s)) = Inr s"
  by (cases s) (simp_all add: parse_state_def all_states_def)

lemma parse_trigger_value [simp]: "parse_trigger (VStr (trigger_value t)) = Inr t"
  by (cases t) (simp_all add: parse_trigger_def all_triggers_def)

lemma next_state_legal: "is_legal s t \<longleftrightarrow> (\<exists>s'. next_state s t = Inr s')"
  by (auto simp: is_legal_def next_state_def split: option.splits)

lemma next_state_edge: "next_state s t = Inr s' \<Longrightarrow> (s, t, s') \<in> set EDGES"
  by (auto simp: next_state_def TRANSITION_TABLE_def split: option.splits dest!: map_of_SomeD)

lemma EDGES_functional: "distinct (map (\<lambda>x. (fst x, fst (snd x))) EDGES)"
  by code_simp

lemma edge_next_state:
  assumes "(s, t, s') \<in> set EDGES"
  shows "next_state s t = Inr s'"
proof -
  have "TRANSITION_TABLE (s, t) = Some s'"
    unfolding TRANSITION_TABLE_def
  proof (rule map_of_is_SomeI)
    show "distinct (map fst (rev (map (\<lambda>(frm, trig, to). ((frm, trig), to)) EDGES)))"
      using EDGES_functional by (simp add: rev_map [symmetric] comp_def case_prod_beta)
    show "((s, t), s') \<in> set (rev (map (\<lambda>(frm, trig, to). ((frm, trig), to)) EDGES))"
      using assms by force
  qed
  then show ?thesis by (simp add: next_state_def)
qed

section \<open>Recovery\<close>

lemma transition_payload_parts [simp]:
  "dget (transition_payload mid t s s' c) ''trigger'' = VStr (trigger_value t)"
  "dget (transition_payload mid t s s' c) ''from_state'' = VStr (state_value s)"
  "dget (transition_payload mid t s s' c) ''to_state'' = VStr (state_value s')"
  "dget (transition_payload mid t s s' c) ''source'' = VStr ESM_SOURCE_TAG"
  "dget (transition_payload mid t s s' c) ''machine_id'' = VStr mid"
  "dget_dict (transition_payload mid t s s' c) ''context'' = c"
  by (simp_all add: transition_payload_def)

lemma esm_apply_recorded:
  "payload e = transition_payload mid t s s' c \<Longrightarrow> next_state s t = Inr s' \<Longrightarrow> esm_apply e s = (Inr (), s')"
  using next_state_legal [of s t] by (simp add: esm_apply_def)

lemma result_recorded:
  "payload e = transition_payload mid t s s' c \<Longrightarrow>
   result_from_event e rid b =
     Inr \<lparr>tr_event_id = event_id e, tr_trigger = t, tr_from_state = s, tr_to_state = s',
          tr_timestamp_utc = timestamp_utc e, tr_request_id = rid, tr_context = c, tr_replayed = b\<rparr>"
  by (simp add: result_from_event_def)

interpretation esm: event_sourced ledger_inv es_events get_by_idempotency_key
  "\<lambda>ty pl k. append_event E ty pl k sv" "\<lambda>e. is_own_event e mid" esm_apply S_INITIALIZING for E sv mid
  by unfold_locales

text \<open>The outcomes of \<open>transition\<close>.\<close>

lemma transition_cases:
  assumes "transition E trig rid ctx (s, m) = (r, (s', m'))"
  obtains (refused) x where "r = Inl x" "s' = s" "m' = m"
  | (replayed) e where "get_by_idempotency_key s (namespaced_key (esm_machine_id m) rid) = Some e"
      "is_own_event e (esm_machine_id m)" "r = result_from_event e rid True" "s' = s" "m' = m"
  | (unrecorded) x ty pl k where "append_event E ty pl (Some k) 1 s = (Inl x, s')" "r = Inl x" "m' = m"
  | (recorded) e to c where
      "get_by_idempotency_key s (namespaced_key (esm_machine_id m) rid) = None"
      "next_state (esm_current_state m) trig = Inr to"
      "c = (case ctx of None \<Rightarrow> [] | Some c \<Rightarrow> c)"
      "append_event E (TRIGGER_EVENT_TYPE trig)
         (transition_payload (esm_machine_id m) trig (esm_current_state m) to c)
         (Some (namespaced_key (esm_machine_id m) rid)) 1 s = (Inr e, s')"
      "r = result_from_event e rid False" "m' = m\<lparr>esm_current_state := to\<rparr>"
proof (cases "py_strip_empty rid \<or> length rid > MAX_REQUEST_ID_LENGTH")
  case True
  with assms show ?thesis by (intro refused [of ValueError]) (auto simp: transition_def split: if_splits)
next
  case guards: False
  let ?key = "namespaced_key (esm_machine_id m) rid"
  show ?thesis
  proof (cases "get_by_idempotency_key s ?key")
    case (Some e)
    show ?thesis
    proof (cases "is_own_event e (esm_machine_id m)")
      case True
      with guards Some assms show ?thesis by (intro replayed [of e]) (auto simp: transition_def)
    next
      case False
      with guards Some assms show ?thesis by (intro refused [of ValueError]) (auto simp: transition_def)
    qed
  next
    case None
    show ?thesis
    proof (cases "next_state (esm_current_state m) trig")
      case (Inl x)
      with guards None assms show ?thesis
        by (intro refused [of IllegalTransitionError]) (auto simp: transition_def next_state_legal Let_def)
    next
      case (Inr to)
      let ?c = "case ctx of None \<Rightarrow> [] | Some c \<Rightarrow> c"
      obtain q s1 where put: "append_event E (TRIGGER_EVENT_TYPE trig)
          (transition_payload (esm_machine_id m) trig (esm_current_state m) to ?c) (Some ?key) 1 s = (q, s1)"
        by (meson surj_pair)
      have eq: "transition E trig rid ctx (s, m) = (case q of Inl x \<Rightarrow> (Inl x, (s1, m))
          | Inr e \<Rightarrow> (result_from_event e rid False, (s1, m\<lparr>esm_current_state := to\<rparr>)))"
        using guards None Inr put next_state_legal by (simp add: transition_def Let_def split: sum.split)
      show ?thesis
      proof (cases q)
        case (Inl x)
        with eq put assms show ?thesis by (intro unrecorded [of _ _ _ x]) auto
      next
        case Inr': (Inr e)
        with eq put assms None Inr show ?thesis by (intro recorded [of to ?c e]) auto
      qed
    qed
  qed
qed

text \<open>
  A machine over its life: it is constructed on a store with a sound index, attempts transitions
  of any outcome, and shares the store with components that append events of their own.
\<close>

inductive esm_step :: "env \<Rightarrow> string \<Rightarrow> event_store \<times> esm \<Rightarrow> event_store \<times> esm \<Rightarrow> bool" for E mid where
  attempt: "transition E trig rid ctx (s, m) = (r, (s', m')) \<Longrightarrow> esm_step E mid (s, m) (s', m')"
| foreign: "append_event E ty pl key sv s = (r, s') \<Longrightarrow>
    dget pl ''source'' \<noteq> VStr ESM_SOURCE_TAG \<or> dget pl ''machine_id'' \<noteq> VStr mid \<Longrightarrow>
    esm_step E mid (s, m) (s', m)"

inductive_cases esm_stepE: "esm_step E mid (s, m) (s', m')"

definition esm_run :: "env \<Rightarrow> string \<Rightarrow> event_store \<times> esm \<Rightarrow> bool" where
  "esm_run E mid sm \<longleftrightarrow> (\<exists>s0 m0. ledger_inv s0 \<and> ExecutionStateMachine s0 mid = Inr m0 \<and>
     (esm_step E mid)\<^sup>*\<^sup>* (s0, m0) sm)"

definition esm_sound :: "string \<Rightarrow> event_store \<Rightarrow> esm \<Rightarrow> bool" where
  "esm_sound mid s m \<longleftrightarrow> ledger_inv s \<and> \<not> es_closed s \<and> esm_machine_id m = mid \<and>
     \<not> py_strip_empty mid \<and> length mid \<le> MAX_MACHINE_ID_LENGTH \<and> esm.recovered mid s (esm_current_state m)"

lemma construct_iff:
  "ledger_inv s \<Longrightarrow> ExecutionStateMachine s mid = Inr m \<longleftrightarrow> esm_sound mid s m"
  by (cases m) (auto simp: ExecutionStateMachine_def esm_sound_def replay_all [simplified] esm.recovered_def prog_simps)

lemma transition_sound:
  assumes "transition E trig rid ctx (s, m) = (r, (s', m'))" "esm_sound mid s m"
  shows "esm_sound mid s' m'"
proof -
  have inv: "ledger_inv s" and op: "\<not> es_closed s" and mid: "esm_machine_id m = mid"
    and rec: "esm.recovered mid s (esm_current_state m)"
    using assms(2) by (simp_all add: esm_sound_def)
  show ?thesis using assms(1)
  proof (cases rule: transition_cases)
    case (unrecorded x ty pl k)
    then show ?thesis
      using assms(2) es.put_inv [OF inv unrecorded(1)] append_keeps_open [OF unrecorded(1) inv]
        esm.persist_failed [OF inv rec unrecorded(1)]
      by (simp add: esm_sound_def)
  next
    case (recorded e to c)
    note put = es.put_miss [OF inv recorded(4)]
    have "is_own_event e mid" "esm_apply e (esm_current_state m) = (Inr (), to)"
      using put recorded(1,2) esm_apply_recorded mid by (auto simp: is_own_event_def)
    then show ?thesis
      using assms(2) recorded(6) es.put_inv [OF inv recorded(4)] append_keeps_open [OF recorded(4) inv]
        esm.persist_then_apply [OF inv rec recorded(4,1)]
      by (simp add: esm_sound_def)
  qed (use assms(2) in simp_all)
qed

lemma foreign_sound:
  assumes "append_event E ty pl key sv s = (r, s')" "esm_sound mid s m"
    and "dget pl ''source'' \<noteq> VStr ESM_SOURCE_TAG \<or> dget pl ''machine_id'' \<noteq> VStr mid"
  shows "esm_sound mid s' m"
proof -
  have inv: "ledger_inv s" and rec: "esm.recovered mid s (esm_current_state m)"
    using assms(2) by (simp_all add: esm_sound_def)
  then show ?thesis
    using assms es.put_inv [OF inv assms(1)] append_keeps_open [OF assms(1) inv]
      esm.persist_foreign [OF inv rec assms(1)]
    by (auto simp: esm_sound_def is_own_event_def)
qed

lemma esm_step_sound: "esm_step E mid (s, m) (s', m') \<Longrightarrow> esm_sound mid s m \<Longrightarrow> esm_sound mid s' m'"
  by (erule esm_stepE) (auto intro: transition_sound foreign_sound)

lemma esm_steps_sound:
  "(esm_step E mid)\<^sup>*\<^sup>* (s, m) (s', m') \<Longrightarrow> esm_sound mid s m \<Longrightarrow> esm_sound mid s' m'"
  by (induction rule: rtranclp_induct2) (auto intro: esm_step_sound)

lemma esm_run_sound: "esm_run E mid (s, m) \<Longrightarrow> esm_sound mid s m"
  using esm_steps_sound by (fastforce simp: esm_run_def construct_iff)

text \<open>Keys stay bound along a run.\<close>

lemma esm_step_keeps_keys:
  assumes "esm_step E mid (s, m) (s', m')" "ledger_inv s" "get_by_idempotency_key s k = Some e"
  shows "get_by_idempotency_key s' k = Some e"
proof (rule esm_stepE [OF assms(1)])
  fix trig rid ctx r
  assume "transition E trig rid ctx (s, m) = (r, s', m')"
  then show ?thesis
    by (cases rule: transition_cases) (use assms(2,3) es.put_keeps_keys in auto)
next
  fix ty pl key sv r
  assume "append_event E ty pl key sv s = (r, s')"
  from es.put_keeps_keys [OF assms(2) this assms(3)] show ?thesis .
qed

lemma esm_steps_keep_keys:
  assumes "(esm_step E mid)\<^sup>*\<^sup>* (s, m) (s', m')" "esm_sound mid s m" "get_by_idempotency_key s k = Some e"
  shows "get_by_idempotency_key s' k = Some e \<and> esm_sound mid s' m'"
  using assms
proof (induction rule: rtranclp_induct2)
  case (step s1 m1 s2 m2)
  then show ?case
    using esm_step_keeps_keys [OF step(2)] esm_step_sound [OF step(2)] by (simp add: esm_sound_def)
qed simp

text \<open>A recorded request answers every later request with the same id.\<close>

lemma transition_known:
  assumes "get_by_idempotency_key s (namespaced_key (esm_machine_id m) rid) = Some e"
    and "is_own_event e (esm_machine_id m)" "\<not> py_strip_empty rid" "length rid \<le> MAX_REQUEST_ID_LENGTH"
  shows "transition E trig rid ctx (s, m) = (result_from_event e rid True, (s, m))"
  using assms by (simp add: transition_def)

lemma transition_rid:
  "transition E trig rid ctx sm = (Inr r, sm') \<Longrightarrow> \<not> py_strip_empty rid \<and> length rid \<le> MAX_REQUEST_ID_LENGTH"
  by (auto simp: transition_def split: if_splits prod.splits)

lemma result_replayed: "result_from_event e rid True = Inr r \<Longrightarrow> r\<lparr>tr_replayed := True\<rparr> = r"
  by (auto simp: result_from_event_def prog_simps)

lemma transition_binds_key:
  assumes "transition E trig rid ctx (s, m) = (Inr r, (s', m'))" "esm_sound mid s m"
  shows "\<exists>e. get_by_idempotency_key s' (namespaced_key mid rid) = Some e \<and> is_own_event e mid \<and>
             result_from_event e rid True = Inr (r\<lparr>tr_replayed := True\<rparr>)"
proof -
  have inv: "ledger_inv s" and mid: "esm_machine_id m = mid"
    using assms(2) by (simp_all add: esm_sound_def)
  show ?thesis using assms(1)
  proof (cases rule: transition_cases)
    case (replayed e)
    then show ?thesis using mid result_replayed [of e rid r] by auto
  next
    case (recorded e to c)
    with es.put_miss [OF inv recorded(4)] es.put_then_find [OF inv recorded(4)] mid show ?thesis
      by (auto simp: is_own_event_def result_recorded)
  qed simp_all
qed

section \<open>Properties\<close>

text \<open>
  Recovery.  At any point of a machine's life, whatever transitions were attempted, refused,
  repeated or failed to be recorded, and whatever the other components appended meanwhile, a machine
  constructed anew from the store is the machine in memory: construction does not fail and yields
  the same state.
\<close>

theorem esm_recovery:
  assumes "esm_run E mid (s, m)"
  shows "ExecutionStateMachine s mid = Inr m"
  using esm_run_sound [OF assms] construct_iff by (simp add: esm_sound_def)

text \<open>
  Retries are safe.  Once a request has succeeded, repeating its id at any later point, with
  whatever trigger and context, returns the recorded outcome marked as replayed and changes
  neither the log nor the machine.
\<close>

theorem transition_idempotent:
  assumes "esm_run E mid (s, m)" "transition E trig rid ctx (s, m) = (Inr r, (s1, m1))"
    and "(esm_step E mid)\<^sup>*\<^sup>* (s1, m1) (s2, m2)"
  shows "transition E trig' rid ctx' (s2, m2) = (Inr (r\<lparr>tr_replayed := True\<rparr>), (s2, m2))"
proof -
  note sound = esm_run_sound [OF assms(1)]
  from transition_binds_key [OF assms(2) sound] obtain e where
    e: "get_by_idempotency_key s1 (namespaced_key mid rid) = Some e" "is_own_event e mid"
       "result_from_event e rid True = Inr (r\<lparr>tr_replayed := True\<rparr>)" by blast
  from esm_steps_keep_keys [OF assms(3) transition_sound [OF assms(2) sound] e(1)]
  have "get_by_idempotency_key s2 (namespaced_key mid rid) = Some e" "esm_machine_id m2 = mid"
    by (simp_all add: esm_sound_def)
  then show ?thesis using transition_known [of s2 m2 rid e] e transition_rid [OF assms(2)] by simp
qed

text \<open>
  What a new request does.  A transition with a request id not seen before either fails and
  leaves the machine and the log as they were, or moves the machine along an edge of the table and
  appends exactly one event, which records that edge.
\<close>

theorem transition_new_request:
  assumes "esm_run E mid (s, m)" "transition E trig rid ctx (s, m) = (r, (s', m'))"
    and "get_by_idempotency_key s (namespaced_key mid rid) = None"
  shows "case r of
      Inl x \<Rightarrow> m' = m \<and> es_events s' = es_events s
    | Inr t \<Rightarrow> (esm_current_state m, trig, esm_current_state m') \<in> set EDGES \<and>
        tr_from_state t = esm_current_state m \<and> tr_to_state t = esm_current_state m' \<and>
        \<not> tr_replayed t \<and>
        (\<exists>e. es_events s' = es_events s @ [e] \<and> event_id e = tr_event_id t \<and> is_own_event e mid)"
proof -
  have inv: "ledger_inv s" and mid: "esm_machine_id m = mid"
    using esm_run_sound [OF assms(1)] by (simp_all add: esm_sound_def)
  show ?thesis using assms(2)
  proof (cases rule: transition_cases)
    case (unrecorded x ty pl k)
    with es.put_fail [OF inv] show ?thesis by auto
  next
    case (recorded e to c)
    with es.put_miss [OF inv recorded(4)] mid next_state_edge show ?thesis
      by (simp add: is_own_event_def result_recorded)
  qed (use assms(3) mid in auto)
qed

text \<open>Facts about the table, by evaluation over all states.\<close>

definition kill_state :: "state \<Rightarrow> bool" where
  "kill_state s \<longleftrightarrow> s \<in> {S_SOFT_KILL, S_HARD_KILL, S_EMERGENCY_KILL}"

definition in_flight :: "state \<Rightarrow> bool" where
  "in_flight s \<longleftrightarrow> s \<in> {S_SIGNAL_PENDING, S_ORDER_PENDING, S_PARTIALLY_FILLED, S_POSITION_OPEN, S_POSITION_CLOSING}"

lemma edge_kill:
  "(s, t, s') \<in> set EDGES \<Longrightarrow> kill_state s \<Longrightarrow> kill_state s' \<or> s' = S_STOPPED \<or> s' = S_RECONCILING"
  "(s, t, s') \<in> set EDGES \<Longrightarrow> s \<noteq> S_STOPPED"
  "(s, t, s') \<in> set EDGES \<Longrightarrow> s = S_EMERGENCY_KILL \<Longrightarrow> s' = S_STOPPED"
  by (auto simp: EDGES_def kill_state_def)

lemma esm_step_edge:
  assumes "esm_step E mid (s, m) (s', m')"
  shows "m' = m \<or> (\<exists>t. (esm_current_state m, t, esm_current_state m') \<in> set EDGES)"
proof (rule esm_stepE [OF assms])
  fix trig rid ctx r
  assume "transition E trig rid ctx (s, m) = (r, s', m')"
  then show ?thesis by (cases rule: transition_cases) (auto dest: next_state_edge)
qed simp

text \<open>
  (C5) The kill switch.  From a kill state the machine cannot come back to trading except through
  \<open>RECONCILING\<close>: as long as it does not enter \<open>RECONCILING\<close> it stays in a kill state or stops.  From
  \<open>EMERGENCY_KILL\<close> the only state it can ever reach is \<open>STOPPED\<close>.
\<close>

theorem kill_one_way:
  assumes "kill_state (esm_current_state m)"
  shows "((\<lambda>a b. esm_step E mid a b \<and> esm_current_state (snd b) \<noteq> S_RECONCILING)\<^sup>*\<^sup>* (s, m) (s', m') \<longrightarrow>
            kill_state (esm_current_state m') \<or> esm_current_state m' = S_STOPPED) \<and>
         (esm_current_state m = S_EMERGENCY_KILL \<and> (esm_step E mid)\<^sup>*\<^sup>* (s, m) (s', m') \<longrightarrow>
            esm_current_state m' \<in> {S_EMERGENCY_KILL, S_STOPPED})"
proof (intro conjI impI)
  assume "(\<lambda>a b. esm_step E mid a b \<and> esm_current_state (snd b) \<noteq> S_RECONCILING)\<^sup>*\<^sup>* (s, m) (s', m')"
  then show "kill_state (esm_current_state m') \<or> esm_current_state m' = S_STOPPED"
    using assms by (induction rule: rtranclp_induct2) (auto dest!: esm_step_edge dest: edge_kill)
next
  assume "esm_current_state m = S_EMERGENCY_KILL \<and> (esm_step E mid)\<^sup>*\<^sup>* (s, m) (s', m')"
  then have "(esm_step E mid)\<^sup>*\<^sup>* (s, m) (s', m')" "esm_current_state m = S_EMERGENCY_KILL" by simp_all
  then show "esm_current_state m' \<in> {S_EMERGENCY_KILL, S_STOPPED}"
    by (induction rule: rtranclp_induct2) (auto dest!: esm_step_edge dest: edge_kill)
qed

lemma kill_graph_eval:
  "list_all (\<lambda>s. (s \<notin> {S_EMERGENCY_KILL, S_STOPPED} \<longrightarrow> next_state s T_EMERGENCY_KILL_TRIGGERED = Inr S_EMERGENCY_KILL) \<and>
     (\<not> kill_state s \<and> s \<notin> {S_INITIALIZING, S_STOPPED} \<longrightarrow>
        next_state s T_SOFT_KILL_TRIGGERED = Inr S_SOFT_KILL \<and> next_state s T_HARD_KILL_TRIGGERED = Inr S_HARD_KILL) \<and>
     (is_legal s T_SHUTDOWN \<longleftrightarrow> \<not> in_flight s \<and> s \<noteq> S_STOPPED)) all_states"
  by code_simp

text \<open>
  (C6) The kill switch can always fire.  The emergency kill is legal from every state but
  \<open>EMERGENCY_KILL\<close> and \<open>STOPPED\<close>, the soft and the hard kill from every state in which the engine
  reconciles or trades, and \<open>SHUTDOWN\<close> from exactly the states in which no signal, order or position
  is in flight.
\<close>

theorem kill_always_available:
  "(s \<noteq> S_EMERGENCY_KILL \<and> s \<noteq> S_STOPPED \<longrightarrow> next_state s T_EMERGENCY_KILL_TRIGGERED = Inr S_EMERGENCY_KILL) \<and>
   (\<not> kill_state s \<and> s \<noteq> S_INITIALIZING \<and> s \<noteq> S_STOPPED \<longrightarrow>
      next_state s T_SOFT_KILL_TRIGGERED = Inr S_SOFT_KILL \<and> next_state s T_HARD_KILL_TRIGGERED = Inr S_HARD_KILL) \<and>
   (is_legal s T_SHUTDOWN \<longleftrightarrow> \<not> in_flight s \<and> s \<noteq> S_STOPPED)"
  using kill_graph_eval unfolding list_all_iff all_states by auto

lemma length_show_nat: "n < 100 \<Longrightarrow> length (show_nat n) \<le> 2"
  by (subst show_nat.simps, cases "n < 10") (simp_all add: show_nat.simps [of "n div 10"] less_mult_imp_div_less)

text \<open>
  (C7) Idempotency keys of machines never collide: the key determines the machine id and the
  request id, whatever characters they contain, and for admissible ids it is short enough for the
  store to accept it.
\<close>

theorem namespaced_key_unambiguous:
  "(namespaced_key m r = namespaced_key m' r' \<longleftrightarrow> m = m' \<and> r = r') \<and>
   (length m \<le> MAX_MACHINE_ID_LENGTH \<and> length r \<le> MAX_REQUEST_ID_LENGTH \<longrightarrow>
      \<not> py_strip_empty (namespaced_key m r) \<and> length (namespaced_key m r) \<le> MAX_IDEMPOTENCY_KEY_LENGTH)"
proof -
  have "namespaced_key m r = namespaced_key m' r' \<longleftrightarrow> m = m' \<and> r = r'"
    using len_field_append_eq [of r "[]" r' "[]"] by (auto simp: namespaced_key_def len_field_append_eq)
  moreover have "\<not> py_strip_empty (namespaced_key m r)"
    by (simp add: namespaced_key_def ESM_SOURCE_TAG_def py_strip_empty_def is_space_def)
  moreover have "length (namespaced_key m r) \<le> MAX_IDEMPOTENCY_KEY_LENGTH"
    if "length m \<le> MAX_MACHINE_ID_LENGTH" "length r \<le> MAX_REQUEST_ID_LENGTH"
    using that length_show_nat [of "length m"] length_show_nat [of "length r"]
    by (simp add: namespaced_key_def len_field_def ESM_SOURCE_TAG_def MAX_MACHINE_ID_LENGTH_def
        MAX_REQUEST_ID_LENGTH_def MAX_IDEMPOTENCY_KEY_LENGTH_def)
  ultimately show ?thesis by blast
qed

section \<open>A concrete run\<close>

definition demo_esm :: esm where
  "demo_esm = \<lparr>esm_machine_id = ''BTC'', esm_current_state = S_INITIALIZING\<rparr>"

definition demo_started :: "event_store \<times> esm" where
  "demo_started = snd (transition demo_env T_STARTED ''r1'' None (demo_empty, demo_esm))"

lemma demo_esm_boot: "ExecutionStateMachine demo_empty ''BTC'' = Inr demo_esm"
  by code_simp

lemma demo_esm_run: "esm_run demo_env ''BTC'' (demo_empty, demo_esm)"
  using demo_esm_boot store_reach_inv [OF demo_reach(1)] by (auto simp: esm_run_def)

definition demo_result :: transition_result where
  "demo_result = \<lparr>tr_event_id = 1, tr_trigger = T_STARTED, tr_from_state = S_INITIALIZING,
     tr_to_state = S_RECONCILING, tr_timestamp_utc = ''now'', tr_request_id = ''r1'', tr_context = [],
     tr_replayed = False\<rparr>"

lemma demo_transition:
  "transition demo_env T_STARTED ''r1'' None (demo_empty, demo_esm) =
     (Inr demo_result, (fst demo_started, snd demo_started))"
proof -
  have "fst (transition demo_env T_STARTED ''r1'' None (demo_empty, demo_esm)) = Inr demo_result"
    by code_simp
  then show ?thesis by (simp add: demo_started_def prod_eq_iff)
qed

lemma demo_started_state: "esm_current_state (snd demo_started) = S_RECONCILING"
  by code_simp

lemma demo_started_run: "esm_run demo_env ''BTC'' (fst demo_started, snd demo_started)"
  using demo_esm_run esm_step.attempt [OF demo_transition] unfolding esm_run_def
  by (meson rtranclp.rtrancl_into_rtrancl)

lemma esm_recovery_witness: "ExecutionStateMachine (fst demo_started) ''BTC'' = Inr (snd demo_started)"
  by (rule esm_recovery [OF demo_started_run])

lemma transition_idempotent_witness:
  "transition demo_env T_SHUTDOWN ''r1'' (Some []) demo_started = (Inr (demo_result\<lparr>tr_replayed := True\<rparr>), demo_started)"
  using transition_idempotent [OF demo_esm_run demo_transition rtranclp.rtrancl_refl] by simp

lemma transition_new_request_witness:
  "(S_INITIALIZING, T_STARTED, S_RECONCILING) \<in> set EDGES \<and> (\<exists>e. es_events (fst demo_started) = [e] \<and> is_own_event e ''BTC'')"
proof -
  have "get_by_idempotency_key demo_empty (namespaced_key ''BTC'' ''r1'') = None" by code_simp
  from transition_new_request [OF demo_esm_run demo_transition this] show ?thesis
    by (auto simp: demo_started_state demo_events demo_esm_def)
qed

definition demo_kill :: "event_store \<times> esm" where
  "demo_kill = snd (transition demo_env T_EMERGENCY_KILL_TRIGGERED ''r1'' None (demo_empty, demo_esm))"

lemma demo_step: "esm_step demo_env mid sm (snd (transition demo_env trig rid ctx sm))"
  by (cases sm; cases "transition demo_env trig rid ctx sm") (auto intro: esm_step.attempt)

lemma kill_one_way_witness:
  "esm_current_state (snd demo_kill) = S_EMERGENCY_KILL \<and>
   esm_current_state (snd (snd (transition demo_env T_SHUTDOWN ''r2'' None demo_kill))) \<in> {S_EMERGENCY_KILL, S_STOPPED}"
proof -
  let ?fin = "snd (transition demo_env T_SHUTDOWN ''r2'' None demo_kill)"
  have k: "esm_current_state (snd demo_kill) = S_EMERGENCY_KILL" by code_simp
  then have "kill_state (esm_current_state (snd demo_kill))" by (simp add: kill_state_def)
  from kill_one_way [OF this, of demo_env "''BTC''" "fst demo_kill" "fst ?fin" "snd ?fin"]
  show ?thesis using k demo_step [of "''BTC''" demo_kill] by auto
qed

lemma kill_always_available_witness: "next_state S_POSITION_OPEN T_SOFT_KILL_TRIGGERED = Inr S_SOFT_KILL"
  using kill_always_available [of S_POSITION_OPEN] by (simp add: kill_state_def)

lemma namespaced_key_unambiguous_witness: "length (namespaced_key ''A:B'' ''C'') \<le> MAX_IDEMPOTENCY_KEY_LENGTH"
  using namespaced_key_unambiguous [of "''A:B''" "''C''"]
  by (simp add: MAX_MACHINE_ID_LENGTH_def MAX_REQUEST_ID_LENGTH_def)

end
