(* ===== verification/Decimals.thy ===== *)
theory Decimals
  imports Prelude
begin

text \<open>
  Python's \<^verbatim>\<open>decimal.Decimal\<close>, the number type of every amount, price and quantity of
  the engine.  A finite Decimal is represented by its numerical value, a rational; comparison is
  by value, as in Python.  Addition, subtraction, multiplication and division compute the exact
  result and then round it to the 28 significant digits of the default context, half to even
  (\<open>prec = 28\<close>, \<open>ROUND_HALF_EVEN\<close>; no module of the engine changes the default context, and the
  Risk Manager pins the same values).  The exponent limits of the context (\<open>Emax = 999999\<close>) and
  the special values NaN and Infinity are not represented.

  The lemmas say when an operation is exact (\<open>dround_exact\<close>, \<open>grid_add\<close>), that rounding keeps
  signs, is odd and monotone, and is idempotent.
\<close>

type_synonym decimal = rat

section \<open>Powers of ten and digits\<close>

definition pow10 :: "int \<Rightarrow> rat" where
  "pow10 e = (if 0 \<le> e then 10 ^ nat e else 1 / 10 ^ nat (- e))"

lemma pow10_powi: "pow10 e = 10 powi e"
  by (simp add: pow10_def power_int_def power_one_over inverse_eq_divide)

lemma pow10_pos [simp]: "0 < pow10 e"
  by (simp add: pow10_def)

lemma pow10_neq0 [simp]: "pow10 e \<noteq> 0"
  by (rule less_imp_neq [OF pow10_pos, symmetric])

lemma pow10_ge0 [simp]: "0 \<le> pow10 e"
  by (rule less_imp_le [OF pow10_pos])

lemma pow10_not_neg [simp]: "\<not> pow10 e < 0" "\<not> pow10 e \<le> 0"
  by (simp_all add: not_less not_le)

lemma pow10_0 [simp]: "pow10 0 = 1"
  by (simp add: pow10_def)

lemma pow10_nat: "pow10 (int n) = 10 ^ n"
  by (simp add: pow10_def)

lemma pow10_add: "pow10 (a + b) = pow10 a * pow10 b"
  by (simp add: pow10_powi power_int_add)

lemma pow10_diff: "pow10 (a - b) = pow10 a / pow10 b"
  by (simp add: pow10_powi power_int_diff)

lemma pow10_Suc: "pow10 (e + 1) = 10 * pow10 e"
  by (simp add: pow10_add) (simp add: pow10_def)

lemma pow10_mono: "a \<le> b \<Longrightarrow> pow10 a \<le> pow10 b"
  by (simp add: pow10_powi power_int_increasing)

lemma pow10_strict_mono: "a < b \<Longrightarrow> pow10 a < pow10 b"
  by (simp add: pow10_powi power_int_strict_increasing)

lemma pow10_less_cancel: "pow10 a < pow10 b \<Longrightarrow> a < b"
  using pow10_mono [of b a] by (meson leD not_less)

text \<open>The number of decimal digits of a natural number.\<close>

fun ndigits :: "nat \<Rightarrow> nat" where
  "ndigits n = (if n < 10 then 1 else Suc (ndigits (n div 10)))"

declare ndigits.simps [simp del]

lemma ndigits_bounds: "0 < n \<Longrightarrow> 10 ^ (ndigits n - 1) \<le> n \<and> n < 10 ^ ndigits n"
proof (induction n rule: ndigits.induct)
  case (1 n)
  show ?case
  proof (cases "n < 10")
    case True
    then show ?thesis using 1 by (simp add: ndigits.simps [of n])
  next
    case False
    let ?k = "ndigits (n div 10)"
    from False 1 have ih: "10 ^ (?k - 1) \<le> n div 10" "n div 10 < 10 ^ ?k" by simp_all
    have k: "?k > 0" by (simp add: ndigits.simps [of "n div 10"])
    have "10 ^ ?k \<le> n" using ih(1) k by (cases ?k) auto
    moreover have "n < 10 ^ Suc ?k" using ih(2) by simp
    ultimately show ?thesis using False by (simp add: ndigits.simps [of n])
  qed
qed

text \<open>\<open>d.adjusted()\<close>: the exponent of the leading digit.\<close>

definition adjusted :: "decimal \<Rightarrow> int" where
  "adjusted x = (case quotient_of \<bar>x\<bar> of (n, d) \<Rightarrow>
     let k = int (ndigits (nat n)) - int (ndigits (nat d))
     in if pow10 k \<le> \<bar>x\<bar> then k else k - 1)"

lemma adjusted_bounds:
  assumes "x \<noteq> 0"
  shows "pow10 (adjusted x) \<le> \<bar>x\<bar>" and "\<bar>x\<bar> < pow10 (adjusted x + 1)"
proof -
  obtain n d where q: "quotient_of \<bar>x\<bar> = (n, d)" by (cases "quotient_of \<bar>x\<bar>")
  have d: "0 < d" using quotient_of_denom_pos [OF q] .
  have x: "\<bar>x\<bar> = of_int n / of_int d" using quotient_of_div [OF q] .
  have n: "0 < n"
  proof -
    have "0 < \<bar>x\<bar>" using assms by simp
    then show ?thesis using d unfolding x by (simp add: zero_less_divide_iff)
  qed
  define a b where "a = ndigits (nat n)" and "b = ndigits (nat d)"
  have pos: "0 < a" "0 < b" by (simp_all add: a_def b_def ndigits.simps [of "nat n"] ndigits.simps [of "nat d"])
  have rn: "(of_int n :: rat) = of_nat (nat n)" and rd: "(of_int d :: rat) = of_nat (nat d)"
    using n d by simp_all
  from ndigits_bounds [of "nat n"] n have "10 ^ (a - 1) \<le> nat n" "nat n < 10 ^ a"
    by (simp_all add: a_def)
  then have nb: "(10 :: rat) ^ (a - 1) \<le> of_int n" "of_int n < (10 :: rat) ^ a"
    unfolding rn by (metis of_nat_le_iff of_nat_power of_nat_numeral,
      metis of_nat_less_iff of_nat_power of_nat_numeral)
  from ndigits_bounds [of "nat d"] d have "10 ^ (b - 1) \<le> nat d" "nat d < 10 ^ b"
    by (simp_all add: b_def)
  then have db: "(10 :: rat) ^ (b - 1) \<le> of_int d" "of_int d < (10 :: rat) ^ b"
    unfolding rd by (metis of_nat_le_iff of_nat_power of_nat_numeral,
      metis of_nat_less_iff of_nat_power of_nat_numeral)
  have nb': "pow10 (int a - 1) \<le> of_int n" "of_int n < pow10 (int a)"
    using nb pos pow10_nat [of "a - 1"] by (simp_all add: pow10_nat of_nat_diff)
  have db': "pow10 (int b - 1) \<le> of_int d" "of_int d < pow10 (int b)"
    using db pos pow10_nat [of "b - 1"] by (simp_all add: pow10_nat of_nat_diff)
  have dpos: "0 < (of_int d :: rat)" using d by simp
  have lo: "pow10 (int a - int b - 1) \<le> \<bar>x\<bar>"
  proof -
    have "pow10 (int a - int b - 1) = pow10 (int a - 1) / pow10 (int b)"
      by (simp add: algebra_simps flip: pow10_diff)
    also have "\<dots> \<le> of_int n / of_int d"
      using nb'(1) db'(2) dpos n by (intro frac_le) auto
    finally show ?thesis by (simp add: x)
  qed
  have hi: "\<bar>x\<bar> < pow10 (int a - int b + 1)"
  proof -
    have "of_int n / of_int d < pow10 (int a) / pow10 (int b - 1)"
      using nb'(2) db'(1) n by (intro frac_less) auto
    also have "\<dots> = pow10 (int a - int b + 1)"
      by (simp add: algebra_simps flip: pow10_diff)
    finally show ?thesis by (simp add: x)
  qed
  have adj: "adjusted x = (if pow10 (int a - int b) \<le> \<bar>x\<bar> then int a - int b else int a - int b - 1)"
    by (simp add: adjusted_def q a_def b_def)
  show "pow10 (adjusted x) \<le> \<bar>x\<bar>" using lo by (simp add: adj)
  show "\<bar>x\<bar> < pow10 (adjusted x + 1)" using hi by (simp add: adj)
qed

lemma adjusted_unique:
  assumes "pow10 e \<le> \<bar>x\<bar>" "\<bar>x\<bar> < pow10 (e + 1)"
  shows "adjusted x = e"
proof -
  have "x \<noteq> 0" using assms(1) less_le_trans [OF pow10_pos assms(1)] by auto
  note b = adjusted_bounds [OF this]
  have "e < adjusted x + 1" using assms(1) b(2) by (intro pow10_less_cancel) linarith
  moreover have "adjusted x < e + 1" using assms(2) b(1) by (intro pow10_less_cancel) linarith
  ultimately show ?thesis by simp
qed

lemma adjusted_uminus [simp]: "adjusted (- x) = adjusted x"
  by (simp add: adjusted_def)

lemma adjusted_mono: "x \<noteq> 0 \<Longrightarrow> \<bar>x\<bar> \<le> \<bar>y\<bar> \<Longrightarrow> adjusted x \<le> adjusted y"
proof -
  assume x: "x \<noteq> 0" and le: "\<bar>x\<bar> \<le> \<bar>y\<bar>"
  have "y \<noteq> 0" using x le by auto
  have "pow10 (adjusted x) < pow10 (adjusted y + 1)"
    using adjusted_bounds(1) [OF x] le adjusted_bounds(2) [OF \<open>y \<noteq> 0\<close>] by linarith
  then show ?thesis using pow10_less_cancel by fastforce
qed

section \<open>Rounding\<close>

text \<open>\<open>ROUND_HALF_EVEN\<close> to an integer.\<close>

definition round_half_even :: "rat \<Rightarrow> int" where
  "round_half_even x = (let f = \<lfloor>x\<rfloor>; r = x - of_int f in
     if r < 1 / 2 then f
     else if 1 / 2 < r then f + 1
     else if even f then f else f + 1)"

text \<open>Rounding to 28 significant digits.\<close>

definition dround :: "rat \<Rightarrow> decimal" where
  "dround x = (if x = 0 then 0
     else let e = adjusted x - 27 in of_int (round_half_even (x / pow10 e)) * pow10 e)"

definition dadd :: "decimal \<Rightarrow> decimal \<Rightarrow> decimal" where "dadd x y = dround (x + y)"
definition dsub :: "decimal \<Rightarrow> decimal \<Rightarrow> decimal" where "dsub x y = dround (x - y)"
definition dmul :: "decimal \<Rightarrow> decimal \<Rightarrow> decimal" where "dmul x y = dround (x * y)"

text \<open>Division is used only where the divisor was checked to be non-zero.\<close>

definition ddiv :: "decimal \<Rightarrow> decimal \<Rightarrow> decimal" where "ddiv x y = dround (x / y)"

text \<open>Unary minus and \<open>abs\<close> round too (Python applies the context to them).\<close>

definition dneg :: "decimal \<Rightarrow> decimal" where "dneg x = dround (- x)"
definition dabs :: "decimal \<Rightarrow> decimal" where "dabs x = dround \<bar>x\<bar>"

text \<open>
  Evaluation: the same definitions with every intermediate value an argument, so that it is computed
  before it is used.
\<close>

definition half_even :: "int \<Rightarrow> rat \<Rightarrow> int" where
  "half_even f r = (if r < 1 / 2 then f else if 1 / 2 < r then f + 1 else if even f then f else f + 1)"

lemma round_half_even_code [code]: "round_half_even x = half_even \<lfloor>x\<rfloor> (x - of_int \<lfloor>x\<rfloor>)"
  by (simp add: round_half_even_def half_even_def Let_def)

definition adjust_at :: "int \<Rightarrow> rat \<Rightarrow> int" where
  "adjust_at k x = (if pow10 k \<le> x then k else k - 1)"

fun adjust_of :: "rat \<Rightarrow> int \<times> int \<Rightarrow> int" where
  "adjust_of x (n, d) = adjust_at (int (ndigits (nat n)) - int (ndigits (nat d))) x"

lemma adjusted_code [code]: "adjusted x = adjust_of \<bar>x\<bar> (quotient_of \<bar>x\<bar>)"
  by (simp add: adjusted_def adjust_at_def Let_def split: prod.split)

lemma round_half_even_of_int [simp]: "round_half_even (of_int n) = n"
  by (simp add: round_half_even_def)

fun whole_at :: "int \<Rightarrow> int \<times> int \<Rightarrow> bool" where
  "whole_at e (n, d) = (if e \<le> 0 then (n * 10 ^ nat (- e)) mod d = 0 else n mod (d * 10 ^ nat e) = 0)"

lemma whole_at: "whole_at e (quotient_of x) \<Longrightarrow> \<exists>k. x / pow10 e = of_int k"
proof -
  obtain n d where q: "quotient_of x = (n, d)" by (cases "quotient_of x")
  have d: "0 < d" and x: "x = of_int n / of_int d" using quotient_of_denom_pos [OF q] quotient_of_div [OF q] by simp_all
  assume w: "whole_at e (quotient_of x)"
  show ?thesis
  proof (cases "e \<le> 0")
    case True
    with w q obtain k where k: "n * 10 ^ nat (- e) = d * k" by (auto simp: mod_eq_0_iff_dvd)
    have "x / pow10 e = of_int (n * 10 ^ nat (- e)) / of_int d" using True by (cases "e = 0") (simp_all add: x pow10_def)
    then have "x / pow10 e = of_int k" using d by (simp only: k) simp
    then show ?thesis by blast
  next
    case False
    with w q obtain k where k: "n = d * 10 ^ nat e * k" by (auto simp: mod_eq_0_iff_dvd)
    have "x / pow10 e = of_int k" using False d by (simp add: x pow10_def k)
    then show ?thesis by blast
  qed
qed

definition dround_at :: "int \<Rightarrow> rat \<Rightarrow> rat" where
  "dround_at e x = (if whole_at e (quotient_of x) then x else of_int (round_half_even (x / pow10 e)) * pow10 e)"

lemma dround_code [code]: "dround x = (if x = 0 then 0 else dround_at (adjusted x - 27) x)"
proof (cases "whole_at (adjusted x - 27) (quotient_of x)")
  case True
  from whole_at [OF True] obtain k where k: "x / pow10 (adjusted x - 27) = of_int k" by blast
  then have "x = of_int k * pow10 (adjusted x - 27)" by (simp add: field_simps)
  then have "of_int (round_half_even (x / pow10 (adjusted x - 27))) * pow10 (adjusted x - 27) = x" unfolding k by simp
  with True show ?thesis by (simp add: dround_def dround_at_def Let_def)
qed (simp add: dround_def dround_at_def Let_def)

lemma round_half_even_bounds: "\<lfloor>x\<rfloor> \<le> round_half_even x" "round_half_even x \<le> \<lfloor>x\<rfloor> + 1"
  by (simp_all add: round_half_even_def Let_def)

lemma round_half_even_error: "\<bar>of_int (round_half_even x) - x\<bar> \<le> 1 / 2"
proof -
  have "of_int \<lfloor>x\<rfloor> \<le> x" "x < of_int \<lfloor>x\<rfloor> + 1" by linarith+
  then show ?thesis by (auto simp: round_half_even_def Let_def)
qed

lemma round_half_even_ge: "of_int n \<le> x \<Longrightarrow> n \<le> round_half_even x"
  using round_half_even_bounds(1) [of x] by (meson le_floor_iff order_trans)

lemma round_half_even_le: "x \<le> of_int n \<Longrightarrow> round_half_even x \<le> n"
proof (cases "x = of_int n")
  case False
  assume "x \<le> of_int n"
  with False have "\<lfloor>x\<rfloor> < n" by (simp add: floor_less_iff)
  then show ?thesis using round_half_even_bounds(2) [of x] by linarith
qed simp

lemma round_half_even_mono: "x \<le> y \<Longrightarrow> round_half_even x \<le> round_half_even y"
proof -
  assume le: "x \<le> y"
  show ?thesis
  proof (cases "\<lfloor>x\<rfloor> = \<lfloor>y\<rfloor>")
    case True
    then show ?thesis using le by (auto simp: round_half_even_def Let_def)
  next
    case False
    then have "\<lfloor>x\<rfloor> + 1 \<le> \<lfloor>y\<rfloor>" using floor_mono [OF le] by simp
    then show ?thesis using round_half_even_bounds(2) [of x] round_half_even_bounds(1) [of y] by linarith
  qed
qed

lemma round_half_even_uminus: "round_half_even (- x) = - round_half_even x"
proof (cases "x = of_int \<lfloor>x\<rfloor>")
  case True
  then show ?thesis by (metis of_int_minus round_half_even_of_int)
next
  case False
  have b: "of_int \<lfloor>x\<rfloor> \<le> x" "x < of_int \<lfloor>x\<rfloor> + 1" by linarith+
  have lt: "of_int \<lfloor>x\<rfloor> < x" using b(1) False by (metis order_le_imp_less_or_eq)
  have "\<lfloor>- x\<rfloor> = - \<lfloor>x\<rfloor> - 1"
    using b lt by (intro floor_unique) simp_all
  then show ?thesis by (auto simp: round_half_even_def Let_def)
qed

lemma dround_0 [simp]: "dround 0 = 0"
  by (simp add: dround_def)

lemma dround_uminus [simp]: "dround (- x) = - dround x"
  by (simp add: dround_def round_half_even_uminus Let_def)

text \<open>A number with at most 28 significant digits is left alone.\<close>

lemma dround_exact:
  assumes "x = of_int n * pow10 e" "\<bar>n\<bar> < 10 ^ 28"
  shows "dround x = x"
proof (cases "x = 0")
  case False
  let ?e = "adjusted x - 27"
  have "(of_int \<bar>n\<bar> :: rat) < of_int (10 ^ 28)" using assms(2) of_int_less_iff by blast
  then have n: "\<bar>of_int n :: rat\<bar> < pow10 28" by (simp add: pow10_def)
  have "\<bar>x\<bar> < pow10 28 * pow10 e"
    using n by (simp add: assms(1) abs_mult)
  then have "pow10 (adjusted x) < pow10 (28 + e)"
    using adjusted_bounds(1) [OF False] by (simp add: pow10_add)
  then have "adjusted x < 28 + e" by (rule pow10_less_cancel)
  then have e: "0 \<le> e - ?e" by simp
  have "x / pow10 ?e = of_int n * pow10 (e - ?e)"
    by (simp add: assms(1) pow10_diff)
  also have "pow10 (e - ?e) = of_int (10 ^ nat (e - ?e))"
    using e by (simp add: pow10_def)
  finally have "x / pow10 ?e = of_int (n * 10 ^ nat (e - ?e))" by simp
  then have "of_int (round_half_even (x / pow10 ?e)) * pow10 ?e = x"
    by (metis nonzero_divide_eq_eq pow10_neq0 round_half_even_of_int)
  then show ?thesis using False by (simp add: dround_def)
qed simp

text \<open>The result always has at most 28 significant digits, so rounding twice changes nothing.\<close>

lemma dround_eqI:
  assumes "pow10 e \<le> \<bar>x\<bar>" "\<bar>x\<bar> < pow10 (e + 1)" "of_int (round_half_even (x / pow10 (e - 27))) * pow10 (e - 27) = v"
  shows "dround x = v"
proof -
  have "adjusted x = e" using assms(1,2) by (rule adjusted_unique)
  moreover have "x \<noteq> 0" using assms(1) pow10_pos [of e] by auto
  ultimately show ?thesis using assms(3) by (simp add: dround_def Let_def)
qed

lemma dround_form:
  assumes "x \<noteq> 0"
  shows "\<exists>n. dround x = of_int n * pow10 (adjusted x - 27) \<and> 10 ^ 27 \<le> \<bar>n\<bar> \<and> \<bar>n\<bar> \<le> 10 ^ 28"
proof -
  let ?y = "x / pow10 (adjusted x - 27)" and ?n = "round_half_even (x / pow10 (adjusted x - 27))"
  have ay: "\<bar>?y\<bar> = \<bar>x\<bar> / pow10 (adjusted x - 27)" by (simp add: abs_divide)
  have p: "pow10 (adjusted x) = pow10 (adjusted x - 27) * 10 ^ 27"
    "pow10 (adjusted x + 1) = pow10 (adjusted x - 27) * 10 ^ 28"
    using pow10_add [of "adjusted x - 27" 27] pow10_add [of "adjusted x - 27" 28]
    by (simp_all add: pow10_def [of 27] pow10_def [of 28] add.commute)
  have lo: "10 ^ 27 \<le> \<bar>?y\<bar>" and hi: "\<bar>?y\<bar> \<le> 10 ^ 28"
    using adjusted_bounds [OF assms] unfolding ay p
    by (simp_all add: field_simps)
  have "10 ^ 27 \<le> \<bar>?n\<bar> \<and> \<bar>?n\<bar> \<le> 10 ^ 28"
  proof (cases "0 \<le> ?y")
    case True
    then have "10 ^ 27 \<le> ?n" using lo by (intro round_half_even_ge) simp
    moreover have "?n \<le> 10 ^ 28" using abs_le_D1 [OF hi] by (intro round_half_even_le) simp
    ultimately show ?thesis by simp
  next
    case False
    then have "?n \<le> - (10 ^ 27)" using lo by (intro round_half_even_le) simp
    moreover have "- (10 ^ 28) \<le> ?n" using abs_le_D2 [OF hi] by (intro round_half_even_ge) simp
    ultimately show ?thesis by simp
  qed
  then show ?thesis using assms by (auto simp: dround_def Let_def)
qed

lemma dround_idem [simp]: "dround (dround x) = dround x"
proof (cases "x = 0")
  case False
  then obtain n where n: "dround x = of_int n * pow10 (adjusted x - 27)" "\<bar>n\<bar> \<le> 10 ^ 28"
    using dround_form by blast
  show ?thesis
  proof (cases "\<bar>n\<bar> = 10 ^ 28")
    case True
    then have "n = 10 * 10 ^ 27 \<or> n = - 10 * 10 ^ 27" by (auto simp: abs_if split: if_splits)
    then obtain m :: int where m: "n = 10 * m" "\<bar>m\<bar> < 10 ^ 28"
      by (elim disjE) (auto intro: that [of "10 ^ 27"] that [of "- (10 ^ 27)"])
    have "dround x = of_int m * pow10 (adjusted x - 27 + 1)"
      unfolding n(1) m(1) pow10_Suc by simp
    with m(2) show ?thesis by (intro dround_exact)
  next
    case False
    with n(2) have "\<bar>n\<bar> < 10 ^ 28" by simp
    with n(1) show ?thesis by (rule dround_exact)
  qed
qed simp

lemma dround_nonneg: "0 \<le> x \<Longrightarrow> 0 \<le> dround x"
proof (cases "x = 0")
  case False
  assume "0 \<le> x"
  then have "0 \<le> round_half_even (x / pow10 (adjusted x - 27))"
    by (intro round_half_even_ge) simp
  then show ?thesis using False by (simp add: dround_def Let_def)
qed simp

lemma dround_eq0_iff [simp]: "dround x = 0 \<longleftrightarrow> x = 0"
proof
  assume *: "dround x = 0"
  show "x = 0"
  proof (rule ccontr)
    assume "x \<noteq> 0"
    then obtain n where "dround x = of_int n * pow10 (adjusted x - 27)" "10 ^ 27 \<le> \<bar>n\<bar>"
      using dround_form by blast
    with * show False by simp
  qed
qed simp

lemma dround_pos: "0 < x \<Longrightarrow> 0 < dround x"
  using dround_nonneg [of x] dround_eq0_iff [of x] by linarith

lemma dround_nonpos: "x \<le> 0 \<Longrightarrow> dround x \<le> 0"
  using dround_nonneg [of "- x"] by simp

lemma dround_mono_nonneg:
  assumes "0 \<le> x" "x \<le> y"
  shows "dround x \<le> dround y"
proof (cases "x = 0")
  case True
  then show ?thesis using assms dround_nonneg by simp
next
  case False
  with assms have pos: "0 < x" "0 < y" by simp_all
  have adj: "adjusted x \<le> adjusted y" using assms pos by (intro adjusted_mono) simp_all
  show ?thesis
  proof (cases "adjusted x = adjusted y")
    case True
    have "round_half_even (x / pow10 (adjusted x - 27)) \<le> round_half_even (y / pow10 (adjusted x - 27))"
      using assms by (intro round_half_even_mono divide_right_mono) simp_all
    then show ?thesis using pos True by (simp add: dround_def Let_def)
  next
    case False
    with adj have lt: "adjusted x + 1 \<le> adjusted y" by simp
    obtain m where m: "dround x = of_int m * pow10 (adjusted x - 27)" "\<bar>m\<bar> \<le> 10 ^ 28"
      using pos dround_form [of x] by auto
    obtain n where n: "dround y = of_int n * pow10 (adjusted y - 27)" "10 ^ 27 \<le> \<bar>n\<bar>"
      using pos dround_form [of y] by auto
    have "0 < n" using dround_pos [OF pos(2)] by (simp add: n(1) zero_less_mult_iff)
    with n(2) have n': "(10 ^ 27 :: rat) \<le> of_int n"
      by (metis abs_of_pos of_int_le_iff of_int_numeral of_int_power)
    have m': "(of_int m :: rat) \<le> 10 ^ 28"
      using m(2) by (metis abs_le_D1 of_int_le_iff of_int_numeral of_int_power)
    have "dround x \<le> 10 ^ 28 * pow10 (adjusted x - 27)"
      unfolding m(1) using m' by (intro mult_right_mono) simp_all
    also have "\<dots> = pow10 (adjusted x + 1)"
      using pow10_add [of "adjusted x - 27" 28] by (simp add: pow10_def [of 28] add.commute)
    also have "\<dots> \<le> pow10 (adjusted y)" using lt by (rule pow10_mono)
    also have "\<dots> = 10 ^ 27 * pow10 (adjusted y - 27)"
      using pow10_add [of "adjusted y - 27" 27] by (simp add: pow10_def [of 27])
    also have "\<dots> \<le> dround y"
      unfolding n(1) using n' by (intro mult_right_mono) simp_all
    finally show ?thesis .
  qed
qed

lemma dround_mono: "x \<le> y \<Longrightarrow> dround x \<le> dround y"
proof -
  assume le: "x \<le> y"
  show ?thesis
  proof (cases "0 \<le> x")
    case True
    then show ?thesis using le by (rule dround_mono_nonneg)
  next
    case False
    show ?thesis
    proof (cases "0 \<le> y")
      case True
      then show ?thesis using dround_nonneg [of y] dround_nonpos [of x] False by linarith
    next
      case neg: False
      have "dround (- y) \<le> dround (- x)" using le neg by (intro dround_mono_nonneg) simp_all
      then show ?thesis by simp
    qed
  qed
qed

section \<open>Amounts on a common grid\<close>

text \<open>
  A value with at most \<open>k\<close> decimal places.  As long as sums stay below \<open>10^(28 - k)\<close> no
  rounding happens on such values.
\<close>

definition on_grid :: "nat \<Rightarrow> decimal \<Rightarrow> bool" where
  "on_grid k x \<longleftrightarrow> of_int \<lfloor>x * 10 ^ k\<rfloor> = x * 10 ^ k"

lemma on_grid_Ints: "on_grid k x \<longleftrightarrow> x * 10 ^ k \<in> \<int>"
  unfolding on_grid_def by (metis Ints_cases Ints_of_int floor_of_int)

lemma on_grid_0 [simp]: "on_grid k 0"
  by (simp add: on_grid_def)

lemma on_grid_add [intro]: "on_grid k x \<Longrightarrow> on_grid k y \<Longrightarrow> on_grid k (x + y)"
  by (simp add: on_grid_Ints algebra_simps)

lemma on_grid_diff [intro]: "on_grid k x \<Longrightarrow> on_grid k y \<Longrightarrow> on_grid k (x - y)"
  by (simp add: on_grid_Ints algebra_simps)

lemma on_grid_uminus [simp]: "on_grid k (- x) \<longleftrightarrow> on_grid k x"
  by (simp add: on_grid_Ints)

definition fits :: "nat \<Rightarrow> decimal \<Rightarrow> bool" where
  "fits k x \<longleftrightarrow> on_grid k x \<and> \<bar>x\<bar> * 10 ^ k < 10 ^ 28"

lemma fits_0 [simp]: "fits k 0"
  by (simp add: fits_def)

lemma dround_fits: "fits k x \<Longrightarrow> dround x = x"
proof -
  assume f: "fits k x"
  then obtain n where n: "x * 10 ^ k = of_int n"
    by (auto simp: fits_def on_grid_Ints elim: Ints_cases)
  have "\<bar>x * 10 ^ k\<bar> < 10 ^ 28" using f by (simp add: fits_def abs_mult)
  then have "(of_int \<bar>n\<bar> :: rat) < of_int (10 ^ 28)" by (simp add: n)
  then have "\<bar>n\<bar> < 10 ^ 28" by (simp only: of_int_less_iff)
  moreover have "x = of_int n * pow10 (- int k)"
    using n by (cases "k = 0") (simp_all add: pow10_def field_simps)
  ultimately show ?thesis by (intro dround_exact)
qed

lemma dadd_fits: "fits k (x + y) \<Longrightarrow> dadd x y = x + y"
  by (simp add: dadd_def dround_fits)

lemma dsub_fits: "fits k (x - y) \<Longrightarrow> dsub x y = x - y"
  by (simp add: dsub_def dround_fits)

section \<open>\<open>quantize\<close>\<close>

datatype rounding = ROUND_DOWN | ROUND_FLOOR | ROUND_CEILING | ROUND_HALF_EVEN

fun round_int :: "rounding \<Rightarrow> rat \<Rightarrow> int" where
  "round_int ROUND_DOWN x = (if 0 \<le> x then \<lfloor>x\<rfloor> else \<lceil>x\<rceil>)"
| "round_int ROUND_FLOOR x = \<lfloor>x\<rfloor>"
| "round_int ROUND_CEILING x = \<lceil>x\<rceil>"
| "round_int ROUND_HALF_EVEN x = round_half_even x"

text \<open>
  \<open>x.quantize(Decimal(1).scaleb(e), rounding=mode)\<close>: \<open>None\<close> is the \<open>InvalidOperation\<close> raised
  when the result would need more than 28 digits.
\<close>

definition quantize :: "decimal \<Rightarrow> int \<Rightarrow> rounding \<Rightarrow> decimal option" where
  "quantize x e mode = (let n = round_int mode (x / pow10 e) in
     if \<bar>n\<bar> < 10 ^ 28 then Some (of_int n * pow10 e) else None)"

end
