(* ===== verification/Lifecycle_Table.thy ===== *)
theory Lifecycle_Table
  imports Prelude Decimals
begin

text \<open>
  The shape the lifecycle modules of the order and position managers share: a tuple of edges turned
  into a table \<open>(state, trigger) \<rightarrow> state\<close>, \<open>is_legal\<close> and \<open>next_state\<close> over it, and the terminal
  states, those without an outgoing edge.  The locale states the one thing the tables need (no two
  edges with the same source and trigger) and what follows from it.
\<close>

type_synonym ('s, 't) edge = "'s \<times> 't \<times> 's"

text \<open>\<open>{(frm, trig): to for frm, trig, to in _EDGES}\<close>: a later edge would win.\<close>

definition edge_table :: "('s, 't) edge list \<Rightarrow> 's \<times> 't \<rightharpoonup> 's" where
  "edge_table edges = map_of (rev (map (\<lambda>(frm, trig, to). ((frm, trig), to)) edges))"

definition edge_legal :: "('s, 't) edge list \<Rightarrow> 's \<Rightarrow> 't \<Rightarrow> bool" where
  "edge_legal edges s t \<longleftrightarrow> edge_table edges (s, t) \<noteq> None"

definition edge_next :: "('s, 't) edge list \<Rightarrow> 's \<Rightarrow> 't \<Rightarrow> exc + 's" where
  "edge_next edges s t = (case edge_table edges (s, t) of None \<Rightarrow> Inl KeyError | Some s' \<Rightarrow> Inr s')"

definition legal_from :: "('s, 't) edge list \<Rightarrow> 's \<Rightarrow> 't set" where
  "legal_from edges s = fold (\<lambda>(frm, trig, _) ts. if frm = s then ts \<union> {trig} else ts) edges {}"

definition edge_terminal :: "('s, 't) edge list \<Rightarrow> 's \<Rightarrow> bool" where
  "edge_terminal edges s \<longleftrightarrow> legal_from edges s = {}"

lemma legal_from_eq: "legal_from edges s = {t. \<exists>s'. (s, t, s') \<in> set edges}"
proof -
  have "fold (\<lambda>(frm, trig, _) ts. if frm = s then ts \<union> {trig} else ts) edges A =
      A \<union> {t. \<exists>s'. (s, t, s') \<in> set edges}" for A
  proof (induction edges arbitrary: A)
    case (Cons e edges)
    then show ?case by (cases e) (auto split: if_splits)
  qed simp
  from this [of "{}"] show ?thesis by (simp add: legal_from_def)
qed

locale transition_table =
  fixes edges :: "('s, 't) edge list"
  assumes functional: "distinct (map (\<lambda>x. (fst x, fst (snd x))) edges)"
begin

lemma table_edge: "edge_table edges (s, t) = Some s' \<longleftrightarrow> (s, t, s') \<in> set edges"
proof -
  let ?al = "rev (map (\<lambda>(frm, trig, to). ((frm, trig), to)) edges)"
  have "distinct (map fst ?al)" using functional by (simp add: rev_map [symmetric] comp_def case_prod_beta)
  then have "edge_table edges (s, t) = Some s' \<longleftrightarrow> ((s, t), s') \<in> set ?al"
    unfolding edge_table_def by (rule map_of_eq_Some_iff)
  also have "\<dots> \<longleftrightarrow> (s, t, s') \<in> set edges" by force
  finally show ?thesis .
qed

lemma legal_edge: "edge_legal edges s t \<longleftrightarrow> (\<exists>s'. (s, t, s') \<in> set edges)"
  using table_edge by (auto simp: edge_legal_def)

lemma next_edge: "edge_next edges s t = Inr s' \<longleftrightarrow> (s, t, s') \<in> set edges"
  by (simp add: table_edge [symmetric] edge_next_def split: option.split)

lemma legal_next: "edge_legal edges s t \<longleftrightarrow> (\<exists>s'. edge_next edges s t = Inr s')"
  by (simp add: legal_edge next_edge)

lemma terminal_stuck: "edge_terminal edges s \<longleftrightarrow> (\<forall>t. \<not> edge_legal edges s t)"
  by (auto simp: edge_terminal_def legal_from_eq legal_edge)

end

text \<open>Looking a value up among the members of an enumeration: \<open>Enum(raw)\<close>.\<close>

definition parse_enum :: "('a \<Rightarrow> string) \<Rightarrow> 'a list \<Rightarrow> pyval \<Rightarrow> exc + 'a" where
  "parse_enum val members raw =
     (case raw of
        VStr r \<Rightarrow> (case find (\<lambda>x. val x = r) members of Some x \<Rightarrow> Inr x | None \<Rightarrow> Inl ValueError)
      | _ \<Rightarrow> Inl ValueError)"

lemma parse_enum_value:
  assumes "inj val" "x \<in> set members"
  shows "parse_enum val members (VStr (val x)) = Inr x"
proof -
  have "find (\<lambda>y. val y = val x) members = Some x"
  proof -
    from assms(2) obtain y where y: "find (\<lambda>y. val y = val x) members = Some y"
      by (cases "find (\<lambda>y. val y = val x) members") (auto simp: find_None_iff)
    then have "val y = val x" by (auto simp: find_Some_iff)
    with assms(1) y show ?thesis by (simp add: inj_eq)
  qed
  then show ?thesis by (simp add: parse_enum_def)
qed

section \<open>Reading a payload\<close>

text \<open>\<open>_dec\<close> of a payload field: \<open>None\<close>, or the Decimal written there.\<close>

definition opt_dec :: "pyval \<Rightarrow> exc + decimal option" where
  "opt_dec v = (case v of VNone \<Rightarrow> Inr None | VDec d \<Rightarrow> Inr (Some d) | _ \<Rightarrow> Inl TypeError)"

text \<open>\<open>pl[k]\<close>, and the text under a key; an event without that text is none of the managers'.\<close>

definition req_val :: "dict \<Rightarrow> string \<Rightarrow> exc + pyval" where
  "req_val d k = (case map_of d k of None \<Rightarrow> Inl KeyError | Some v \<Rightarrow> Inr v)"

definition text_at :: "dict \<Rightarrow> string \<Rightarrow> string" where
  "text_at pl k = (case dget pl k of VStr s \<Rightarrow> s | _ \<Rightarrow> [])"

end
