(* ===== verification/Secrets_Boundary.thy ===== *)
theory Secrets_Boundary
  imports Codec
begin

text \<open>
  The signing boundary, \<^verbatim>\<open>secrets_boundary/{domain,backend,boundary}.py\<close>: the domain-separated
  preimage that is signed, the backend that holds secret material read from the environment, and
  the boundary, whose only mutation is revocation.  HMAC-SHA256 is the parameter \<open>mac\<close>.
\<close>

section \<open>Text and bytes\<close>

text \<open>\<open>str.encode("utf-8")\<close> on code points below 256.\<close>

fun utf8 :: "string \<Rightarrow> bytes" where
  "utf8 [] = []"
| "utf8 (c # s) = (let n = (of_char c :: nat) in
     if n < 128 then word_of_nat n # utf8 s
     else word_of_nat (192 + n div 64) # word_of_nat (128 + n mod 64) # utf8 s)"

fun upper_char :: "char \<Rightarrow> char" where
  "upper_char c = (let n = (of_char c :: nat) in if 97 \<le> n \<and> n \<le> 122 then char_of (n - 32) else c)"

text \<open>\<open>str.upper\<close>, used on references only, which are ASCII.\<close>

definition py_upper :: "string \<Rightarrow> string" where
  "py_upper s = map upper_char s"

section \<open>Domain separation\<close>

definition ENGINE_ID :: bytes where "ENGINE_ID = utf8 ''TurtleExecutionEngine''"

definition MAX_SIGNING_PAYLOAD_BYTES :: nat where "MAX_SIGNING_PAYLOAD_BYTES = 64 * 1024"

datatype signing_purpose = SP_ORDER | SP_CANCEL | SP_AMEND | SP_AUTH | SP_FLATTEN | SP_QUERY | SP_NOTIFY

fun purpose_value :: "signing_purpose \<Rightarrow> string" where
  "purpose_value SP_ORDER = ''ORDER''"
| "purpose_value SP_CANCEL = ''CANCEL''"
| "purpose_value SP_AMEND = ''AMEND''"
| "purpose_value SP_AUTH = ''AUTH''"
| "purpose_value SP_FLATTEN = ''FLATTEN''"
| "purpose_value SP_QUERY = ''QUERY''"
| "purpose_value SP_NOTIFY = ''NOTIFY''"

text \<open>\<open>struct.pack(">I", n)\<close> fails beyond 32 bits.\<close>

definition sign_field :: "bytes \<Rightarrow> exc + bytes" where
  "sign_field v = (if length v < 2 ^ 32 then Inr (to_be 4 (length v) @ v) else Inl StructError)"

definition build_preimage :: "string \<Rightarrow> string \<Rightarrow> signing_purpose \<Rightarrow> bytes \<Rightarrow> exc + bytes" where
  "build_preimage engine_version exchange_name purpose msg =
     bindE (sign_field ENGINE_ID) (\<lambda>a.
     bindE (sign_field (utf8 engine_version)) (\<lambda>b.
     bindE (sign_field (utf8 exchange_name)) (\<lambda>c.
     bindE (sign_field (utf8 (purpose_value purpose))) (\<lambda>d.
     bindE (sign_field msg) (\<lambda>e. Inr (a @ b @ c @ d @ e))))))"

section \<open>The backend\<close>

record hmac_backend =
  hb_env :: "string \<rightharpoonup> string"
  hb_materials :: "(string \<times> bytes) list"
  hb_loaded :: bool

definition env_var_name :: "string \<Rightarrow> string" where
  "env_var_name ref = ''TURTLE_SECRET_'' @ py_upper ref"

text \<open>The pairs of references with the same material, one issue each.\<close>

fun find_duplicate_values :: "(string \<times> bytes) list \<Rightarrow> (string \<times> string) list" where
  "find_duplicate_values [] = []"
| "find_duplicate_values ((r, m) # rest) =
     map (\<lambda>(r', _). (r, r')) (filter (\<lambda>(_, m'). m = m') rest) @ find_duplicate_values rest"

datatype load_issue = MissingSecret string | EmptySecret string | DuplicateSecret string string

definition load_ref :: "hmac_backend \<Rightarrow> string \<Rightarrow> load_issue + string \<times> bytes" where
  "load_ref b ref =
     (case hb_env b (env_var_name ref) of
        None \<Rightarrow> Inl (MissingSecret ref)
      | Some raw \<Rightarrow> if raw = [] then Inl (EmptySecret ref) else Inr (ref, utf8 raw))"

text \<open>\<open>refs\<close> is the sorted list of the references.  The result is the list of issues.\<close>

definition validate_and_load :: "string list \<Rightarrow> (hmac_backend, exc, load_issue list) prog" where
  "validate_and_load refs b =
     (if hb_loaded b then (Inl RuntimeError, b)
      else
        let outcomes = map (load_ref b) refs;
            materials = concat (map (\<lambda>x. case x of Inl _ \<Rightarrow> [] | Inr m \<Rightarrow> [m]) outcomes);
            issues = concat (map (\<lambda>x. case x of Inl i \<Rightarrow> [i] | Inr _ \<Rightarrow> []) outcomes) @
                     map (\<lambda>(a, c). DuplicateSecret a c) (find_duplicate_values materials)
        in if issues \<noteq> [] then (Inr issues, b)
           else (Inr [], b\<lparr>hb_materials := materials, hb_loaded := True\<rparr>))"

definition backend_sign :: "(bytes \<Rightarrow> bytes \<Rightarrow> bytes) \<Rightarrow> hmac_backend \<Rightarrow> string \<Rightarrow> bytes \<Rightarrow> exc + bytes" where
  "backend_sign mac b ref msg =
     (case map_of (hb_materials b) ref of None \<Rightarrow> Inl KeyError | Some m \<Rightarrow> Inr (mac m msg))"

definition backend_discard :: "string \<Rightarrow> hmac_backend \<Rightarrow> hmac_backend" where
  "backend_discard ref b = b\<lparr>hb_materials := filter (\<lambda>(r, _). r \<noteq> ref) (hb_materials b)\<rparr>"

section \<open>The boundary\<close>

definition is_ref_char :: "char \<Rightarrow> bool" where
  "is_ref_char c = (let n = (of_char c :: nat) in
     (97 \<le> n \<and> n \<le> 122) \<or> (48 \<le> n \<and> n \<le> 57) \<or> n = 95)"

definition is_lower_ascii :: "char \<Rightarrow> bool" where
  "is_lower_ascii c = (97 \<le> (of_char c :: nat) \<and> (of_char c :: nat) \<le> 122)"

text \<open>A version number \<open>[1-9][0-9]*\<close>.\<close>

definition is_version :: "string \<Rightarrow> bool" where
  "is_version s = (case s of [] \<Rightarrow> False | c # ds \<Rightarrow> is_digit c \<and> c \<noteq> CHR ''0'' \<and> list_all is_digit ds)"

text \<open>\<open>[a-z0-9_]*_v[1-9][0-9]*\<close>.\<close>

fun ref_rest :: "string \<Rightarrow> bool" where
  "ref_rest [] = False"
| "ref_rest (c # s) =
     ((c = CHR ''_'' \<and> (case s of v # ds \<Rightarrow> v = CHR ''v'' \<and> is_version ds | [] \<Rightarrow> False)) \<or>
      (is_ref_char c \<and> ref_rest s))"

text \<open>
  \<open>_REF_PATTERN.match(ref)\<close>: the final \<open>$\<close> also matches just before a newline that ends the text.
\<close>

definition ref_core :: "string \<Rightarrow> bool" where
  "ref_core s = (case s of [] \<Rightarrow> False | c # r \<Rightarrow> is_lower_ascii c \<and> ref_rest r)"

definition REF_PATTERN_match :: "string \<Rightarrow> bool" where
  "REF_PATTERN_match s = (ref_core s \<or> (s \<noteq> [] \<and> last s = char_of (10 :: nat) \<and> ref_core (butlast s)))"

text \<open>The number of issues of \<open>_validate_ref_structure\<close> and of \<open>_validate_domain\<close>.\<close>

fun validate_ref_structure :: "string list \<Rightarrow> string set \<Rightarrow> string list" where
  "validate_ref_structure [] seen = []"
| "validate_ref_structure (ref # refs) seen =
     (if \<not> REF_PATTERN_match ref then ref # validate_ref_structure refs seen
      else (if ref \<in> seen then [ref] else []) @ validate_ref_structure refs (insert ref seen))"

definition validate_domain :: "string \<Rightarrow> string \<Rightarrow> string list" where
  "validate_domain engine_version exchange_name =
     (if py_strip_empty engine_version then [engine_version] else []) @
     (if py_strip_empty exchange_name then [exchange_name] else [])"

record signing_boundary =
  sb_engine_version :: string
  sb_exchange_name :: string
  sb_expected_refs :: "string list"
  sb_backend :: hmac_backend
  sb_revoked :: "string set"

text \<open>
  \<open>SigningBoundary(refs, ...)\<close> with the environment backend.  The frozen set of references is kept
  as the list without duplicates.
\<close>

definition SigningBoundary :: "string list \<Rightarrow> string \<Rightarrow> string \<Rightarrow> (string \<rightharpoonup> string) \<Rightarrow> exc + signing_boundary" where
  "SigningBoundary refs engine_version exchange_name env =
     (if validate_ref_structure refs {} @ validate_domain engine_version exchange_name \<noteq> []
      then Inl SecretsConfigurationError
      else case validate_and_load refs \<lparr>hb_env = env, hb_materials = [], hb_loaded = False\<rparr> of
             (Inl x, _) \<Rightarrow> Inl x
           | (Inr issues, b) \<Rightarrow>
               if issues \<noteq> [] then Inl SecretsStartupError
               else Inr \<lparr>sb_engine_version = engine_version, sb_exchange_name = exchange_name,
                         sb_expected_refs = refs, sb_backend = b, sb_revoked = {}\<rparr>)"

definition has_reference :: "signing_boundary \<Rightarrow> string \<Rightarrow> bool" where
  "has_reference b ref = (ref \<in> set (sb_expected_refs b))"

definition is_revoked :: "signing_boundary \<Rightarrow> string \<Rightarrow> bool" where
  "is_revoked b ref = (ref \<in> sb_revoked b)"

definition sb_sign :: "(bytes \<Rightarrow> bytes \<Rightarrow> bytes) \<Rightarrow> signing_boundary \<Rightarrow> string \<Rightarrow> signing_purpose \<Rightarrow> bytes \<Rightarrow> exc + bytes" where
  "sb_sign mac b ref purpose msg =
     (if length msg > MAX_SIGNING_PAYLOAD_BYTES then Inl PayloadTooLargeError
      else if ref \<notin> set (sb_expected_refs b) then Inl UnknownSecretReferenceError
      else if ref \<in> sb_revoked b then Inl SecretRevokedError
      else bindE (build_preimage (sb_engine_version b) (sb_exchange_name b) purpose msg)
             (backend_sign mac (sb_backend b) ref))"

definition revoke :: "string \<Rightarrow> (signing_boundary, exc, unit) prog" where
  "revoke ref b =
     (if ref \<notin> set (sb_expected_refs b) then (Inl UnknownSecretReferenceError, b)
      else (Inr (), b\<lparr>sb_revoked := insert ref (sb_revoked b),
                     sb_backend := backend_discard ref (sb_backend b)\<rparr>))"

definition revoke_all :: "signing_boundary \<Rightarrow> signing_boundary" where
  "revoke_all b =
     fold (\<lambda>ref b. b\<lparr>sb_revoked := insert ref (sb_revoked b),
                     sb_backend := backend_discard ref (sb_backend b)\<rparr>) (sb_expected_refs b) b"

section \<open>The preimage\<close>

lemma byte_eq: "a < 256 \<Longrightarrow> b < 256 \<Longrightarrow> (word_of_nat a :: byte) = word_of_nat b \<longleftrightarrow> a = b"
  by (simp add: word_of_nat_eq_iff take_bit_nat_def)

lemma char_split: "(of_char c :: nat) div 64 = of_char d div 64 \<Longrightarrow> (of_char c :: nat) mod 64 = of_char d mod 64 \<Longrightarrow> c = d"
  by (metis div_mult_mod_eq of_char_eq_iff)

lemma of_char_less: "(of_char c :: nat) < 256"
  by simp

lemma utf8_inj: "utf8 s = utf8 t \<Longrightarrow> s = t"
proof (induction s arbitrary: t)
  case Nil
  then show ?case by (cases t) (auto simp: Let_def split: if_splits)
next
  case (Cons c s)
  then obtain d t' where t: "t = d # t'" by (cases t) (auto simp: Let_def split: if_splits)
  have c: "192 + (of_char c :: nat) div 64 < 256" "192 + (of_char d :: nat) div 64 < 256"
    "128 + (of_char c :: nat) mod 64 < 256" "128 + (of_char d :: nat) mod 64 < 256"
    using less_mult_imp_div_less [of "of_char c" 64 64] less_mult_imp_div_less [of "of_char d" 64 64]
      of_char_less [of c] of_char_less [of d] by simp_all
  from Cons.prems t c of_char_less [of c] of_char_less [of d] have "c = d \<and> utf8 s = utf8 t'"
    by (auto simp: Let_def byte_eq intro: char_split split: if_splits simp del: of_nat_add)
  with Cons.IH t show ?case by simp
qed

lemma sign_field_inj:
  assumes "sign_field v = Inr a" "sign_field v' = Inr a'" "a @ r = a' @ r'"
  shows "v = v' \<and> r = r'"
proof -
  have l: "length v < 256 ^ 4" "length v' < 256 ^ 4" and a: "a = to_be 4 (length v) @ v" "a' = to_be 4 (length v') @ v'"
    using assms(1,2) by (auto simp: sign_field_def split: if_splits)
  then have "to_be 4 (length v) = to_be 4 (length v')" and rest: "v @ r = v' @ r'"
    using assms(3) by simp_all
  then have "length v = length v'" using from_be_to_be l by metis
  with rest show ?thesis by simp
qed

lemma purpose_value_inj: "purpose_value p = purpose_value q \<Longrightarrow> p = q"
  by (cases p; cases q) simp_all

section \<open>Properties\<close>

text \<open>
  (C23) Domain separation.  Two preimages are equal only if the engine version, the exchange name,
  the purpose and the message are all equal, so a signature made in one context is never a signature
  of another.
\<close>

theorem preimage_injective:
  assumes "build_preimage v x p m = Inr bs" "build_preimage v' x' p' m' = Inr bs"
  shows "v = v' \<and> x = x' \<and> p = p' \<and> m = m'"
proof -
  from assms(1) obtain b c d e where f: "sign_field (utf8 v) = Inr b" "sign_field (utf8 x) = Inr c"
    "sign_field (utf8 (purpose_value p)) = Inr d" "sign_field m = Inr e"
    "\<exists>a. sign_field ENGINE_ID = Inr a \<and> bs = a @ b @ c @ d @ e"
    by (auto simp: build_preimage_def prog_simps)
  from assms(2) obtain b' c' d' e' where f': "sign_field (utf8 v') = Inr b'" "sign_field (utf8 x') = Inr c'"
    "sign_field (utf8 (purpose_value p')) = Inr d'" "sign_field m' = Inr e'"
    "\<exists>a. sign_field ENGINE_ID = Inr a \<and> bs = a @ b' @ c' @ d' @ e'"
    by (auto simp: build_preimage_def prog_simps)
  from f(5) f'(5) have "b @ c @ d @ e = b' @ c' @ d' @ e'" by auto
  with sign_field_inj [OF f(1) f'(1)] have 1: "utf8 v = utf8 v'" "c @ d @ e = c' @ d' @ e'" by blast+
  with sign_field_inj [OF f(2) f'(2)] have 2: "utf8 x = utf8 x'" "d @ e = d' @ e'" by blast+
  with sign_field_inj [OF f(3) f'(3)] have 3: "utf8 (purpose_value p) = utf8 (purpose_value p')" "e = e'" by blast+
  with sign_field_inj [OF f(4) f'(4), of "[]" "[]"] have "m = m'" by simp
  with 1 2 3 show ?thesis using utf8_inj purpose_value_inj by blast
qed

text \<open>
  The boundary over its life: constructed, then revocations; signing does not change it.  The
  references that are not revoked are those with material.
\<close>

inductive sb_step :: "signing_boundary \<Rightarrow> signing_boundary \<Rightarrow> bool" where
  revoke: "revoke ref b = (r, b') \<Longrightarrow> sb_step b b'"
| revoke_all: "sb_step b (revoke_all b)"

definition sb_inv :: "signing_boundary \<Rightarrow> bool" where
  "sb_inv b \<longleftrightarrow> sb_revoked b \<subseteq> set (sb_expected_refs b) \<and>
     dom (map_of (hb_materials (sb_backend b))) = set (sb_expected_refs b) - sb_revoked b"

lemma revoke_all_eq:
  "revoke_all b = b\<lparr>sb_revoked := set (sb_expected_refs b) \<union> sb_revoked b,
     sb_backend := (sb_backend b)\<lparr>hb_materials := filter (\<lambda>(r, _). r \<notin> set (sb_expected_refs b)) (hb_materials (sb_backend b))\<rparr>\<rparr>"
proof -
  have "fold (\<lambda>ref b. b\<lparr>sb_revoked := insert ref (sb_revoked b), sb_backend := backend_discard ref (sb_backend b)\<rparr>) refs b =
    b\<lparr>sb_revoked := set refs \<union> sb_revoked b,
     sb_backend := (sb_backend b)\<lparr>hb_materials := filter (\<lambda>(r, _). r \<notin> set refs) (hb_materials (sb_backend b))\<rparr>\<rparr>" for refs
    by (induction refs arbitrary: b) (simp_all add: backend_discard_def split_def)
  then show ?thesis by (simp add: revoke_all_def)
qed

lemma revokeD:
  "revoke ref b = (r, b') \<Longrightarrow>
     b' = b \<or> ref \<in> set (sb_expected_refs b) \<and>
       b' = b\<lparr>sb_revoked := insert ref (sb_revoked b), sb_backend := backend_discard ref (sb_backend b)\<rparr>"
  by (auto simp: revoke_def split: if_splits)

lemma map_of_filter_key: "map_of (filter (\<lambda>(r, _). P r) al) r = (if P r then map_of al r else None)"
  by (induction al) auto

lemma dom_map_of_filter: "dom (map_of (filter (\<lambda>(r, _). P r) al)) = {r \<in> dom (map_of al). P r}"
  by (auto simp: map_of_filter_key split: if_splits)

lemma sb_step_facts:
  "sb_step b b' \<Longrightarrow>
     sb_expected_refs b' = sb_expected_refs b \<and> sb_engine_version b' = sb_engine_version b \<and>
     sb_exchange_name b' = sb_exchange_name b \<and> sb_revoked b \<subseteq> sb_revoked b' \<and> (sb_inv b \<longrightarrow> sb_inv b')"
proof (induction rule: sb_step.induct)
  case (revoke ref b r b')
  have "sb_inv b \<Longrightarrow> ref \<in> set (sb_expected_refs b) \<Longrightarrow>
      sb_inv (b\<lparr>sb_revoked := insert ref (sb_revoked b), sb_backend := backend_discard ref (sb_backend b)\<rparr>)"
    by (simp add: sb_inv_def backend_discard_def dom_map_of_filter) blast
  with revokeD [OF revoke] show ?case by auto
next
  case (revoke_all b)
  show ?case by (simp add: revoke_all_eq sb_inv_def dom_map_of_filter) blast
qed

lemma sb_steps_facts:
  "sb_step\<^sup>*\<^sup>* b b' \<Longrightarrow>
     sb_expected_refs b' = sb_expected_refs b \<and> sb_engine_version b' = sb_engine_version b \<and>
     sb_exchange_name b' = sb_exchange_name b \<and> sb_revoked b \<subseteq> sb_revoked b' \<and> (sb_inv b \<longrightarrow> sb_inv b')"
  by (induction rule: rtranclp_induct) (auto dest!: sb_step_facts)

lemma load_domain:
  assumes "validate_and_load refs b0 = (Inr [], b)"
  shows "dom (map_of (hb_materials b)) = set refs"
proof -
  let ?mat = "concat (map (\<lambda>x. case x of Inl _ \<Rightarrow> [] | Inr m \<Rightarrow> [m]) (map (load_ref b0) refs))"
  have ok: "concat (map (\<lambda>x. case x of Inl i \<Rightarrow> [i] | Inr _ \<Rightarrow> []) (map (load_ref b0) refs)) = []" and m: "hb_materials b = ?mat"
    using assms by (auto simp: validate_and_load_def Let_def split: if_splits)
  have "\<exists>v. load_ref b0 r = Inr (r, v)" if "r \<in> set refs" for r
    using ok that by (fastforce simp: load_ref_def split: option.splits if_splits sum.splits)
  then have "set (map fst ?mat) = set refs"
  proof (induction refs)
    case (Cons r refs)
    from Cons.prems [of r] obtain v where "load_ref b0 r = Inr (r, v)" by auto
    with Cons show ?case by simp
  qed simp
  with m show ?thesis by (simp add: dom_map_of_conv_image_fst)
qed

lemma SigningBoundary_inv: "SigningBoundary refs v x env = Inr b \<Longrightarrow> sb_inv b \<and> sb_revoked b = {} \<and> set (sb_expected_refs b) = set refs"
  using load_domain [of refs "\<lparr>hb_env = env, hb_materials = [], hb_loaded = False\<rparr>"]
  by (fastforce simp: SigningBoundary_def sb_inv_def split: if_splits prod.splits sum.splits)

text \<open>
  The emergency cut-off.  After a reference has been revoked, alone or with all others, no later
  sequence of revocations makes it sign again: signing with it raises \<open>SecretRevokedError\<close> (or
  \<open>PayloadTooLargeError\<close> for an oversized message), and its material is gone from the backend.
\<close>

theorem revoked_for_good:
  assumes "SigningBoundary refs v x env = Inr b0" "sb_step\<^sup>*\<^sup>* b0 b" "ref \<in> set refs"
    and "b1 = revoke_all b \<or> revoke ref b = (Inr (), b1)" "sb_step\<^sup>*\<^sup>* b1 b2"
  shows "sb_sign mac b2 ref purpose m =
           (if length m > MAX_SIGNING_PAYLOAD_BYTES then Inl PayloadTooLargeError else Inl SecretRevokedError) \<and>
         map_of (hb_materials (sb_backend b2)) ref = None \<and> is_revoked b2 ref"
proof -
  note start = SigningBoundary_inv [OF assms(1)] and steps = sb_steps_facts [OF assms(2)]
  have mid: "ref \<in> sb_revoked b1"
    using assms(3,4) start steps by (auto simp: revoke_all_eq revoke_def split: if_splits)
  have step: "sb_step b b1" using assms(4) sb_step.intros by auto
  note final = sb_steps_facts [OF assms(5)] sb_step_facts [OF step]
  have "ref \<in> sb_revoked b2" "ref \<in> set (sb_expected_refs b2)" "sb_inv b2"
    using mid final start steps assms(3) by auto
  then show ?thesis by (auto simp: sb_sign_def sb_inv_def is_revoked_def domIff)
qed

text \<open>
  Signing works exactly for the registered references that were not revoked: with a message of
  admissible size and a domain of at most 32-bit lengths it returns the MAC of the domain-separated
  preimage under the material of the reference, and an unknown reference is rejected.
\<close>

theorem sign_functional:
  assumes "SigningBoundary refs v x env = Inr b0" "sb_step\<^sup>*\<^sup>* b0 b" "length m \<le> MAX_SIGNING_PAYLOAD_BYTES"
    and "build_preimage v x purpose m = Inr pre"
  shows "case sb_sign mac b ref purpose m of
      Inr sig \<Rightarrow> ref \<in> set refs \<and> ref \<notin> sb_revoked b \<and>
        (\<exists>material. map_of (hb_materials (sb_backend b)) ref = Some material \<and> sig = mac material pre)
    | Inl e \<Rightarrow> (e = UnknownSecretReferenceError \<and> ref \<notin> set refs) \<or> (e = SecretRevokedError \<and> ref \<in> sb_revoked b)"
proof -
  note start = SigningBoundary_inv [OF assms(1)] and steps = sb_steps_facts [OF assms(2)]
  have dom: "sb_engine_version b = v" "sb_exchange_name b = x"
    using steps assms(1) by (auto simp: SigningBoundary_def split: if_splits prod.splits sum.splits)
  have inv: "sb_inv b" "set (sb_expected_refs b) = set refs" using start steps by auto
  show ?thesis
  proof (cases "ref \<in> set refs \<and> ref \<notin> sb_revoked b")
    case True
    with inv have "ref \<in> dom (map_of (hb_materials (sb_backend b)))" by (simp add: sb_inv_def)
    then obtain material where "map_of (hb_materials (sb_backend b)) ref = Some material" by blast
    with True inv dom assms(3,4) show ?thesis by (simp add: sb_sign_def backend_sign_def)
  next
    case False
    with inv assms(3) show ?thesis by (auto simp: sb_sign_def)
  qed
qed

section \<open>Witnesses\<close>

definition demo_secrets :: "string \<rightharpoonup> string" where
  "demo_secrets = [''TURTLE_SECRET_KEY_V1'' \<mapsto> ''alpha'', ''TURTLE_SECRET_KEY_V2'' \<mapsto> ''beta'']"

definition demo_boundary :: signing_boundary where
  "demo_boundary = \<lparr>sb_engine_version = ''1.0.0'', sb_exchange_name = ''hl'',
     sb_expected_refs = [''key_v1'', ''key_v2''],
     sb_backend = \<lparr>hb_env = demo_secrets, hb_materials = [(''key_v1'', utf8 ''alpha''), (''key_v2'', utf8 ''beta'')],
       hb_loaded = True\<rparr>, sb_revoked = {}\<rparr>"

lemma demo_boundary: "SigningBoundary [''key_v1'', ''key_v2''] ''1.0.0'' ''hl'' demo_secrets = Inr demo_boundary"
proof -
  let ?b = "\<lparr>hb_env = demo_secrets, hb_materials = [], hb_loaded = False\<rparr>"
  have a: "validate_ref_structure [''key_v1'', ''key_v2''] {} @ validate_domain ''1.0.0'' ''hl'' = []"
    by code_simp
  have "load_ref ?b ''key_v1'' = Inr (''key_v1'', utf8 ''alpha'')" "load_ref ?b ''key_v2'' = Inr (''key_v2'', utf8 ''beta'')"
    by code_simp+
  moreover have "utf8 ''alpha'' \<noteq> utf8 ''beta''" by code_simp
  ultimately have "validate_and_load [''key_v1'', ''key_v2''] ?b =
      (Inr [], ?b\<lparr>hb_materials := [(''key_v1'', utf8 ''alpha''), (''key_v2'', utf8 ''beta'')], hb_loaded := True\<rparr>)"
    by (simp add: validate_and_load_def del: utf8.simps)
  with a show ?thesis by (simp add: SigningBoundary_def demo_boundary_def del: utf8.simps)
qed

lemma preimage_injective_witness:
  "build_preimage ''1'' ''hl'' SP_ORDER [1] \<noteq> build_preimage ''1'' ''hl'' SP_CANCEL [1]"
proof -
  have "\<exists>a. build_preimage ''1'' ''hl'' SP_ORDER [1] = Inr a"
    by (simp add: build_preimage_def sign_field_def ENGINE_ID_def)
  then show ?thesis using preimage_injective [of "''1''" "''hl''" SP_ORDER "[1]" _ "''1''" "''hl''" SP_CANCEL "[1]"] by force
qed

definition demo_mac :: "bytes \<Rightarrow> bytes \<Rightarrow> bytes" where "demo_mac k msg = k @ msg"

lemma revoked_for_good_witness: "sb_sign demo_mac (revoke_all demo_boundary) ''key_v1'' SP_ORDER [1] = Inl SecretRevokedError"
  using revoked_for_good [OF demo_boundary rtranclp.rtrancl_refl, of "''key_v1''" "revoke_all demo_boundary" "revoke_all demo_boundary" demo_mac SP_ORDER "[1]"]
  by (simp add: MAX_SIGNING_PAYLOAD_BYTES_def)

lemma sign_functional_witness: "\<exists>pre. sb_sign demo_mac demo_boundary ''key_v1'' SP_ORDER [1] = Inr (demo_mac (utf8 ''alpha'') pre)"
proof -
  obtain pre where "build_preimage ''1.0.0'' ''hl'' SP_ORDER [1] = Inr pre"
    by (simp add: build_preimage_def sign_field_def ENGINE_ID_def)
  from sign_functional [OF demo_boundary rtranclp.rtrancl_refl _ this, where mac = demo_mac and ref = "''key_v1''"] show ?thesis
    by (auto simp: MAX_SIGNING_PAYLOAD_BYTES_def demo_boundary_def split: sum.splits)
qed

text \<open>The pattern also accepts a reference followed by a newline.\<close>

lemma ref_pattern_newline: "REF_PATTERN_match (''key_v1'' @ [char_of (10 :: nat)])"
  by code_simp

end
