(* ===== verification/Exchange_Models.thy ===== *)
theory Exchange_Models
  imports Secrets_Boundary Decimals
begin

text \<open>
  The data of the exchange boundary, \<^verbatim>\<open>exchange_adapter/{models,retry,idempotency,audit}.py\<close>:
  requests with the validation of their constructors, orders, positions and reports, the audit
  record of an outbound mutation, the retry policy with its loop, and the first-writer-wins
  idempotency cache.  Delays are rational numbers instead of floats.
\<close>

section \<open>Enumerations\<close>

datatype order_side = BUY | SELL
datatype order_type = MARKET | LIMIT
datatype time_in_force = GTC | IOC | FOK | POST_ONLY
datatype order_status = ST_NEW | ST_ACKNOWLEDGED | ST_PARTIALLY_FILLED | ST_FILLED | ST_CANCELLED | ST_REJECTED | ST_UNKNOWN
datatype connection_state = CS_DISCONNECTED | CS_CONNECTING | CS_CONNECTED | CS_DEGRADED

fun side_value :: "order_side \<Rightarrow> string" where
  "side_value BUY = ''BUY''"
| "side_value SELL = ''SELL''"

fun order_type_value :: "order_type \<Rightarrow> string" where
  "order_type_value MARKET = ''MARKET''"
| "order_type_value LIMIT = ''LIMIT''"

fun tif_value :: "time_in_force \<Rightarrow> string" where
  "tif_value GTC = ''GTC''"
| "tif_value IOC = ''IOC''"
| "tif_value FOK = ''FOK''"
| "tif_value POST_ONLY = ''POST_ONLY''"

text \<open>\<open>OrderSide(raw)\<close>, \<open>OrderType(raw)\<close>, \<open>TimeInForce(raw)\<close>.\<close>

definition parse_side :: "string \<Rightarrow> exc + order_side" where
  "parse_side r = (case find (\<lambda>s. side_value s = r) [BUY, SELL] of None \<Rightarrow> Inl ValueError | Some s \<Rightarrow> Inr s)"

definition parse_order_type :: "string \<Rightarrow> exc + order_type" where
  "parse_order_type r =
     (case find (\<lambda>s. order_type_value s = r) [MARKET, LIMIT] of None \<Rightarrow> Inl ValueError | Some s \<Rightarrow> Inr s)"

definition parse_tif :: "string \<Rightarrow> exc + time_in_force" where
  "parse_tif r =
     (case find (\<lambda>s. tif_value s = r) [GTC, IOC, FOK, POST_ONLY] of None \<Rightarrow> Inl ValueError | Some s \<Rightarrow> Inr s)"

lemma parse_values [simp]:
  "parse_side (side_value s) = Inr s" "parse_order_type (order_type_value t) = Inr t" "parse_tif (tif_value f) = Inr f"
  by (cases s; cases t; cases f; simp add: parse_side_def parse_order_type_def parse_tif_def)+

section \<open>Requests and reports\<close>

text \<open>\<open>Symbol.value\<close>; the constructor rejects a blank text.\<close>

type_synonym symbol = string

definition Symbol_init :: "string \<Rightarrow> exc + symbol" where
  "Symbol_init v = (if py_strip_empty v then Inl ValueError else Inr v)"

record capabilities =
  supports_reduce_only :: bool
  supports_post_only :: bool
  supports_ioc :: bool
  supports_fok :: bool
  supports_market_orders :: bool
  supports_limit_orders :: bool
  supports_trigger_orders :: bool
  supports_partial_fill_notifications :: bool
  supports_funding_rate :: bool
  supports_cross_margin :: bool
  supports_isolated_margin :: bool
  cap_extra :: "(string \<times> bool) list"

record order_request =
  rq_client_order_id :: string
  rq_symbol :: symbol
  rq_side :: order_side
  rq_order_type :: order_type
  rq_quantity :: decimal
  rq_limit_price :: "decimal option"
  rq_time_in_force :: time_in_force
  rq_reduce_only :: bool

definition OrderRequest_post_init :: "order_request \<Rightarrow> exc + order_request" where
  "OrderRequest_post_init r =
     (if py_strip_empty (rq_client_order_id r) then Inl ValueError
      else if rq_quantity r \<le> 0 then Inl ValueError
      else if (case rq_limit_price r of None \<Rightarrow> False | Some p \<Rightarrow> p \<le> 0) then Inl ValueError
      else Inr r)"

record amend_request =
  am_request_id :: string
  am_exchange_order_id :: string
  am_new_quantity :: "decimal option"
  am_new_limit_price :: "decimal option"

definition AmendRequest_post_init :: "amend_request \<Rightarrow> exc + amend_request" where
  "AmendRequest_post_init r =
     (if py_strip_empty (am_request_id r) then Inl ValueError
      else if py_strip_empty (am_exchange_order_id r) then Inl ValueError
      else if am_new_quantity r = None \<and> am_new_limit_price r = None then Inl ValueError
      else Inr r)"

record cancel_request =
  cq_request_id :: string
  cq_exchange_order_id :: string

definition CancelRequest_post_init :: "cancel_request \<Rightarrow> exc + cancel_request" where
  "CancelRequest_post_init r =
     (if py_strip_empty (cq_request_id r) then Inl ValueError
      else if py_strip_empty (cq_exchange_order_id r) then Inl ValueError
      else Inr r)"

record cancel_all_request =
  ca_request_id :: string
  ca_symbol :: "symbol option"

definition CancelAllRequest_post_init :: "cancel_all_request \<Rightarrow> exc + cancel_all_request" where
  "CancelAllRequest_post_init r = (if py_strip_empty (ca_request_id r) then Inl ValueError else Inr r)"

record order =
  od_client_order_id :: string
  od_exchange_order_id :: "string option"
  od_symbol :: symbol
  od_side :: order_side
  od_order_type :: order_type
  od_quantity :: decimal
  od_filled_quantity :: decimal
  od_limit_price :: "decimal option"
  od_status :: order_status
  od_time_in_force :: time_in_force
  od_reduce_only :: bool
  od_created_at_utc :: string
  od_updated_at_utc :: string

record fill =
  fl_fill_id :: string
  fl_client_order_id :: string
  fl_exchange_order_id :: string
  fl_symbol :: symbol
  fl_side :: order_side
  fl_price :: decimal
  fl_quantity :: decimal
  fl_fee :: decimal
  fl_timestamp_utc :: string

record position =
  po_symbol :: symbol
  po_quantity :: decimal
  po_entry_price :: decimal
  po_mark_price :: decimal
  po_unrealized_pnl :: decimal
  po_liquidation_price :: "decimal option"

record balance =
  ba_asset :: symbol
  ba_total :: decimal
  ba_available :: decimal
  ba_reserved :: decimal

record mark_price =
  mp_symbol :: symbol
  mp_price :: decimal
  mp_timestamp_utc :: string

record funding_rate =
  fr_symbol :: symbol
  fr_rate :: decimal
  fr_next_funding_time_utc :: string
  fr_timestamp_utc :: string

record health_status =
  hs_connection_state :: connection_state
  hs_websocket_connected :: bool
  hs_rest_reachable :: bool
  hs_last_message_age_ms :: "rat option"
  hs_sequence_gap_detected :: bool
  hs_checked_at_utc :: string

text \<open>A discrepancy is the triple its text is made of: symbol, local and exchange quantity.\<close>

record reconciliation_report =
  rr_matches :: bool
  rr_local_positions :: "position list"
  rr_exchange_positions :: "position list"
  rr_discrepancies :: "(symbol \<times> decimal \<times> decimal) list"
  rr_checked_at_utc :: string

record audit_record =
  au_request_id :: string
  au_logical_action :: string
  au_exchange_name :: string
  au_adapter_version :: string
  au_timestamp_utc :: string
  au_payload_hash :: string
  au_idempotency_key :: string

section \<open>Audit\<close>

definition order_request_audit_payload :: "order_request \<Rightarrow> dict" where
  "order_request_audit_payload r =
     [(''client_order_id'', VStr (rq_client_order_id r)),
      (''limit_price'', vopt VDec (rq_limit_price r)),
      (''order_type'', VStr (order_type_value (rq_order_type r))),
      (''quantity'', VDec (rq_quantity r)),
      (''reduce_only'', VBool (rq_reduce_only r)),
      (''side'', VStr (side_value (rq_side r))),
      (''symbol'', VStr (rq_symbol r)),
      (''time_in_force'', VStr (tif_value (rq_time_in_force r)))]"

definition amend_request_audit_payload :: "amend_request \<Rightarrow> dict" where
  "amend_request_audit_payload r =
     [(''exchange_order_id'', VStr (am_exchange_order_id r)),
      (''new_limit_price'', vopt VDec (am_new_limit_price r)),
      (''new_quantity'', vopt VDec (am_new_quantity r)),
      (''request_id'', VStr (am_request_id r))]"

definition cancel_request_audit_payload :: "cancel_request \<Rightarrow> dict" where
  "cancel_request_audit_payload r =
     [(''exchange_order_id'', VStr (cq_exchange_order_id r)), (''request_id'', VStr (cq_request_id r))]"

definition cancel_all_request_audit_payload :: "cancel_all_request \<Rightarrow> dict" where
  "cancel_all_request_audit_payload r =
     [(''request_id'', VStr (ca_request_id r)), (''symbol'', vopt VStr (ca_symbol r))]"

definition hex_digit :: "nat \<Rightarrow> char" where
  "hex_digit n = char_of (if n < 10 then 48 + n else 87 + n)"

definition hexdigest :: "bytes \<Rightarrow> string" where
  "hexdigest bs = concat (map (\<lambda>b. [hex_digit (unat b div 16), hex_digit (unat b mod 16)]) bs)"

text \<open>
  What lies outside: SHA-256, HMAC, the JSON library, \<open>str\<close> on a Decimal and the clock reading of
  the call.
\<close>

record adapter_env =
  ax_sha256 :: "bytes \<Rightarrow> bytes"
  ax_mac :: "bytes \<Rightarrow> bytes \<Rightarrow> bytes"
  ax_json :: "pyval \<Rightarrow> bytes"
  ax_str :: "decimal \<Rightarrow> string"
  ax_now :: string

definition compute_audit_record ::
    "adapter_env \<Rightarrow> string \<Rightarrow> string \<Rightarrow> string \<Rightarrow> string \<Rightarrow> string \<Rightarrow> dict \<Rightarrow> audit_record" where
  "compute_audit_record A request_id action exchange_name version key pl =
     \<lparr>au_request_id = request_id, au_logical_action = action, au_exchange_name = exchange_name,
      au_adapter_version = version, au_timestamp_utc = ax_now A,
      au_payload_hash = hexdigest (ax_sha256 A (ax_json A (VDict pl))), au_idempotency_key = key\<rparr>"

section \<open>The idempotency cache\<close>

type_synonym 'a idempotency_cache = "string \<rightharpoonup> 'a"

definition cache_get :: "'a idempotency_cache \<Rightarrow> string \<Rightarrow> 'a option" where
  "cache_get c k = c k"

definition cache_store :: "'a idempotency_cache \<Rightarrow> string \<Rightarrow> 'a \<Rightarrow> 'a \<times> 'a idempotency_cache" where
  "cache_store c k v =
     (let c' = (if k \<notin> dom c then c(k \<mapsto> v) else c) in (the (c' k), c'))"

lemma cache_store_first: "cache_get c k = None \<Longrightarrow> cache_store c k v = (v, c(k \<mapsto> v))"
  by (simp add: cache_get_def cache_store_def domIff)

lemma cache_store_later: "cache_get c k = Some w \<Longrightarrow> cache_store c k v = (w, c)"
  by (auto simp: cache_get_def cache_store_def domIff)

section \<open>Retries\<close>

datatype operation_safety = SAFE_TO_RETRY | UNSAFE_NEVER_AUTO_RETRY

datatype operation =
    OP_CONNECT | OP_DISCONNECT | OP_HEALTH | OP_GET_POSITIONS | OP_GET_ORDERS | OP_GET_BALANCES
  | OP_GET_MARK_PRICE | OP_GET_FUNDING_RATE | OP_PLACE_ORDER | OP_AMEND_ORDER | OP_CANCEL_ORDER
  | OP_CANCEL_ALL | OP_GET_ORDER_STATUS | OP_GET_FILLS | OP_RECONCILE

definition MUTATIONS :: "operation set" where
  "MUTATIONS = {OP_PLACE_ORDER, OP_AMEND_ORDER, OP_CANCEL_ORDER, OP_CANCEL_ALL}"

definition DEFAULT_OPERATION_SAFETY :: "operation \<Rightarrow> operation_safety" where
  "DEFAULT_OPERATION_SAFETY op = (if op \<in> MUTATIONS then UNSAFE_NEVER_AUTO_RETRY else SAFE_TO_RETRY)"

record retry_policy =
  rp_max_attempts :: int
  rp_base_delay :: rat
  rp_max_delay :: rat
  rp_safety :: "operation \<Rightarrow> operation_safety"

definition RetryPolicy :: "int \<Rightarrow> rat \<Rightarrow> rat \<Rightarrow> (operation \<rightharpoonup> operation_safety) option \<Rightarrow> exc + retry_policy" where
  "RetryPolicy max_attempts base_delay max_delay overrides =
     (if max_attempts < 1 then Inl ValueError
      else if base_delay \<le> 0 \<or> max_delay \<le> 0 then Inl ValueError
      else Inr \<lparr>rp_max_attempts = max_attempts, rp_base_delay = base_delay, rp_max_delay = max_delay,
                rp_safety = (\<lambda>op. case overrides of
                    None \<Rightarrow> DEFAULT_OPERATION_SAFETY op
                  | Some m \<Rightarrow> (case m op of None \<Rightarrow> DEFAULT_OPERATION_SAFETY op | Some x \<Rightarrow> x))\<rparr>)"

fun is_adapter_error :: "exc \<Rightarrow> bool" where
  "is_adapter_error ExchangeAdapterError = True"
| "is_adapter_error ExchangeConnectionError = True"
| "is_adapter_error ExchangeTimeoutError = True"
| "is_adapter_error ExchangeAuthenticationError = True"
| "is_adapter_error (RateLimitExceededError _) = True"
| "is_adapter_error OrderUnknownError = True"
| "is_adapter_error ExchangeRejectedOrderError = True"
| "is_adapter_error StaleSnapshotError = True"
| "is_adapter_error SequenceGapError = True"
| "is_adapter_error ReconciliationMismatchError = True"
| "is_adapter_error _ = False"

definition should_retry :: "retry_policy \<Rightarrow> operation \<Rightarrow> int \<Rightarrow> exc \<Rightarrow> bool" where
  "should_retry p op attempt err =
     (if rp_safety p op = UNSAFE_NEVER_AUTO_RETRY then False
      else if attempt \<ge> rp_max_attempts p then False
      else if err = ExchangeAuthenticationError then False
      else case err of
             ExchangeConnectionError \<Rightarrow> True
           | ExchangeTimeoutError \<Rightarrow> True
           | RateLimitExceededError _ \<Rightarrow> True
           | _ \<Rightarrow> False)"

definition backoff_seconds :: "retry_policy \<Rightarrow> int \<Rightarrow> exc \<Rightarrow> rat" where
  "backoff_seconds p attempt err =
     (case err of
        RateLimitExceededError (Some t) \<Rightarrow> t
      | _ \<Rightarrow> min (rp_base_delay p * 2 ^ nat (attempt - 1)) (rp_max_delay p))"

text \<open>
  The \<open>while True\<close> loop; \<open>slept\<close> collects the arguments of \<open>sleep_fn\<close>.
\<close>

function retry_loop :: "('s, exc, 'a) prog \<Rightarrow> operation \<Rightarrow> retry_policy \<Rightarrow> int \<Rightarrow> rat list \<Rightarrow> 's \<Rightarrow> ((exc + 'a) \<times> rat list) \<times> 's" where
  "retry_loop fn op p attempt slept s =
     (let attempt = attempt + 1 in
      case fn s of
        (Inr x, s') \<Rightarrow> ((Inr x, slept), s')
      | (Inl err, s') \<Rightarrow>
          if \<not> is_adapter_error err then ((Inl err, slept), s')
          else if \<not> should_retry p op attempt err then ((Inl err, slept), s')
          else retry_loop fn op p attempt (slept @ [backoff_seconds p attempt err]) s')"
  by pat_completeness auto
termination
  by (relation "measure (\<lambda>(fn, op, p, attempt, slept, s). nat (rp_max_attempts p - attempt))")
    (auto simp: should_retry_def split: if_splits)

declare retry_loop.simps [simp del]

definition execute_with_retry :: "('s, exc, 'a) prog \<Rightarrow> operation \<Rightarrow> retry_policy \<Rightarrow> 's \<Rightarrow> ((exc + 'a) \<times> rat list) \<times> 's" where
  "execute_with_retry fn op p s = retry_loop fn op p 0 [] s"

section \<open>Properties\<close>

text \<open>
  (C24) Mutations are never retried.  With the default safety table, placing, amending or cancelling
  is attempted exactly once, whatever error comes back, and no delay is slept.
\<close>

theorem mutation_attempted_once:
  assumes "op \<in> MUTATIONS" "rp_safety p = DEFAULT_OPERATION_SAFETY"
  shows "execute_with_retry fn op p s = (case fn s of (r, s') \<Rightarrow> ((r, []), s'))"
  using assms
  by (subst execute_with_retry_def, subst retry_loop.simps)
    (auto simp: should_retry_def DEFAULT_OPERATION_SAFETY_def Let_def split: prod.splits sum.splits)

text \<open>How many times \<open>fn\<close> runs: it runs on \<open>s\<close>, then on the state it left, and so on.\<close>

fun iterate :: "('s, exc, 'a) prog \<Rightarrow> nat \<Rightarrow> 's \<Rightarrow> 's" where
  "iterate fn 0 s = s"
| "iterate fn (Suc n) s = iterate fn n (snd (fn s))"

lemma iterate_Suc: "iterate fn (Suc n) s = snd (fn (iterate fn n s))"
  by (induction n arbitrary: s) simp_all

text \<open>What the loop does in terms of the number of attempts.\<close>

lemma retry_loop_spec:
  assumes "retry_loop fn op p attempt slept s = ((r, slept'), s')" "0 \<le> attempt" "attempt < rp_max_attempts p"
  shows "\<exists>n. 0 < n \<and> attempt + int n \<le> rp_max_attempts p \<and> fn (iterate fn (n - 1) s) = (r, s') \<and>
     length slept' = length slept + (n - 1) \<and>
     (\<forall>i<n - 1. \<exists>x. fst (fn (iterate fn i s)) = Inl x \<and> should_retry p op (attempt + int i + 1) x \<and>
        slept' ! (length slept + i) = backoff_seconds p (attempt + int i + 1) x) \<and>
     take (length slept) slept' = slept \<and>
     (\<forall>x. r = Inl x \<longrightarrow> is_adapter_error x \<longrightarrow> \<not> should_retry p op (attempt + int n) x)"
  using assms
proof (induction fn op p attempt slept s rule: retry_loop.induct)
  case (1 fn op p attempt slept s)
  obtain q s1 where fn: "fn s = (q, s1)" by (cases "fn s")
  show ?case
  proof (cases "\<exists>x. q = Inl x \<and> is_adapter_error x \<and> should_retry p op (attempt + 1) x")
    case False
    then have "retry_loop fn op p attempt slept s = ((q, slept), s1)"
      using fn by (subst retry_loop.simps) (auto simp: Let_def split: sum.splits)
    with 1(2-4) fn False show ?thesis by (intro exI [of _ 1]) auto
  next
    case True
    then obtain x where x: "q = Inl x" "is_adapter_error x" "should_retry p op (attempt + 1) x" by blast
    let ?sl = "slept @ [backoff_seconds p (attempt + 1) x]"
    have eq: "retry_loop fn op p attempt slept s = retry_loop fn op p (attempt + 1) ?sl s1"
      using fn x by (subst retry_loop.simps) (simp add: Let_def)
    have lt: "attempt + 1 < rp_max_attempts p" using x(3) by (auto simp: should_retry_def split: if_splits)
    from 1(1) [OF refl fn [symmetric] x(1)] x(2,3) eq 1(2,3) lt obtain n where n:
      "0 < n" "attempt + 1 + int n \<le> rp_max_attempts p" "fn (iterate fn (n - 1) s1) = (r, s')"
      "length slept' = length ?sl + (n - 1)"
      "\<forall>i<n - 1. \<exists>y. fst (fn (iterate fn i s1)) = Inl y \<and> should_retry p op (attempt + 1 + int i + 1) y \<and>
         slept' ! (length ?sl + i) = backoff_seconds p (attempt + 1 + int i + 1) y"
      "take (length ?sl) slept' = ?sl"
      "\<forall>x. r = Inl x \<longrightarrow> is_adapter_error x \<longrightarrow> \<not> should_retry p op (attempt + 1 + int n) x"
      by auto
    have it: "iterate fn i s1 = iterate fn (Suc i) s" for i using fn by simp
    show ?thesis
    proof (intro exI [of _ "Suc n"] conjI allI impI)
      fix i assume i: "i < Suc n - 1"
      show "\<exists>y. fst (fn (iterate fn i s)) = Inl y \<and> should_retry p op (attempt + int i + 1) y \<and>
        slept' ! (length slept + i) = backoff_seconds p (attempt + int i + 1) y"
      proof (cases i)
        case 0
        have "slept' ! length slept = ?sl ! length slept"
          by (metis n(6) length_append_singleton lessI nth_take)
        with 0 fn x show ?thesis by simp
      next
        case (Suc j)
        then have j: "j < n - 1" using i by simp
        have idx: "attempt + 1 + int j + 1 = attempt + int i + 1" "length ?sl + j = length slept + i"
          using Suc by simp_all
        from n(5) [rule_format, OF j] show ?thesis unfolding idx it Suc by simp
      qed
    next
      fix y assume "r = Inl y" "is_adapter_error y"
      with n(7) show "\<not> should_retry p op (attempt + int (Suc n)) y" by (simp add: add.assoc)
    qed (use n it [of "n - 1"] in \<open>auto simp: min_def take_take dest: arg_cong [of _ _ "take (length slept)"]\<close>)
  qed
qed


section \<open>Witnesses\<close>

definition demo_flaky :: "(nat, exc, nat) prog" where
  "demo_flaky n = (if n < 2 then (Inl ExchangeTimeoutError, n + 1) else (Inr n, n + 1))"

definition demo_policy :: retry_policy where
  "demo_policy = \<lparr>rp_max_attempts = 3, rp_base_delay = 1 / 2, rp_max_delay = 10, rp_safety = DEFAULT_OPERATION_SAFETY\<rparr>"

lemma mutation_attempted_once_witness:
  "execute_with_retry demo_flaky OP_PLACE_ORDER demo_policy 0 = ((Inl ExchangeTimeoutError, []), 1)"
  using mutation_attempted_once [of OP_PLACE_ORDER demo_policy demo_flaky 0]
  by (simp add: demo_policy_def MUTATIONS_def demo_flaky_def)

lemma demo_policy: "RetryPolicy 3 (1 / 2) 10 None = Inr demo_policy"
  by (simp add: RetryPolicy_def demo_policy_def fun_eq_iff)


end
