(* ===== verification/Order_Lifecycle.thy ===== *)
theory Order_Lifecycle
  imports Lifecycle_Table Exchange_Models
begin

text \<open>
  The lifecycle of one order, \<^verbatim>\<open>order_manager/{states,ids,snapshot}.py\<close>: states, triggers and the
  frozen table, the rank by which an update is recognised as stale, the ids, and the snapshot.
\<close>

datatype order_state =
    L_NEW | L_SUBMITTED | L_ACKNOWLEDGED | L_PARTIALLY_FILLED | L_FILLED | L_CANCEL_PENDING |
    L_CANCELLED | L_REJECTED | L_EXPIRED | L_FAILED

fun order_state_value :: "order_state \<Rightarrow> string" where
  "order_state_value L_NEW = ''NEW''"
| "order_state_value L_SUBMITTED = ''SUBMITTED''"
| "order_state_value L_ACKNOWLEDGED = ''ACKNOWLEDGED''"
| "order_state_value L_PARTIALLY_FILLED = ''PARTIALLY_FILLED''"
| "order_state_value L_FILLED = ''FILLED''"
| "order_state_value L_CANCEL_PENDING = ''CANCEL_PENDING''"
| "order_state_value L_CANCELLED = ''CANCELLED''"
| "order_state_value L_REJECTED = ''REJECTED''"
| "order_state_value L_EXPIRED = ''EXPIRED''"
| "order_state_value L_FAILED = ''FAILED''"

definition all_order_states :: "order_state list" where
  "all_order_states =
     [L_NEW, L_SUBMITTED, L_ACKNOWLEDGED, L_PARTIALLY_FILLED, L_FILLED, L_CANCEL_PENDING,
      L_CANCELLED, L_REJECTED, L_EXPIRED, L_FAILED]"

datatype order_trigger =
    LT_SUBMIT | LT_ACKNOWLEDGED | LT_REJECTED | LT_SUBMIT_FAILED | LT_PARTIAL_FILL |
    LT_FULL_FILL | LT_CANCEL_REQUESTED | LT_CANCEL_RETRY_ACKNOWLEDGED | LT_CANCEL_CONFIRMED |
    LT_CANCEL_FAILED | LT_EXPIRED

fun order_trigger_value :: "order_trigger \<Rightarrow> string" where
  "order_trigger_value LT_SUBMIT = ''SUBMIT''"
| "order_trigger_value LT_ACKNOWLEDGED = ''ACKNOWLEDGED''"
| "order_trigger_value LT_REJECTED = ''REJECTED''"
| "order_trigger_value LT_SUBMIT_FAILED = ''SUBMIT_FAILED''"
| "order_trigger_value LT_PARTIAL_FILL = ''PARTIAL_FILL''"
| "order_trigger_value LT_FULL_FILL = ''FULL_FILL''"
| "order_trigger_value LT_CANCEL_REQUESTED = ''CANCEL_REQUESTED''"
| "order_trigger_value LT_CANCEL_RETRY_ACKNOWLEDGED = ''CANCEL_RETRY_ACKNOWLEDGED''"
| "order_trigger_value LT_CANCEL_CONFIRMED = ''CANCEL_CONFIRMED''"
| "order_trigger_value LT_CANCEL_FAILED = ''CANCEL_FAILED''"
| "order_trigger_value LT_EXPIRED = ''EXPIRED''"

definition all_order_triggers :: "order_trigger list" where
  "all_order_triggers =
     [LT_SUBMIT, LT_ACKNOWLEDGED, LT_REJECTED, LT_SUBMIT_FAILED, LT_PARTIAL_FILL, LT_FULL_FILL,
      LT_CANCEL_REQUESTED, LT_CANCEL_RETRY_ACKNOWLEDGED, LT_CANCEL_CONFIRMED, LT_CANCEL_FAILED,
      LT_EXPIRED]"

definition OM_EDGES :: "(order_state \<times> order_trigger \<times> order_state) list" where
  "OM_EDGES =
     [(L_NEW, LT_SUBMIT, L_SUBMITTED),
      (L_SUBMITTED, LT_ACKNOWLEDGED, L_ACKNOWLEDGED),
      (L_SUBMITTED, LT_REJECTED, L_REJECTED),
      (L_SUBMITTED, LT_SUBMIT_FAILED, L_FAILED),
      (L_ACKNOWLEDGED, LT_PARTIAL_FILL, L_PARTIALLY_FILLED),
      (L_ACKNOWLEDGED, LT_FULL_FILL, L_FILLED),
      (L_ACKNOWLEDGED, LT_CANCEL_REQUESTED, L_CANCEL_PENDING),
      (L_ACKNOWLEDGED, LT_EXPIRED, L_EXPIRED),
      (L_PARTIALLY_FILLED, LT_PARTIAL_FILL, L_PARTIALLY_FILLED),
      (L_PARTIALLY_FILLED, LT_FULL_FILL, L_FILLED),
      (L_PARTIALLY_FILLED, LT_CANCEL_REQUESTED, L_CANCEL_PENDING),
      (L_PARTIALLY_FILLED, LT_EXPIRED, L_EXPIRED),
      (L_PARTIALLY_FILLED, LT_CANCEL_CONFIRMED, L_CANCELLED),
      (L_CANCEL_PENDING, LT_CANCEL_CONFIRMED, L_CANCELLED),
      (L_CANCEL_PENDING, LT_PARTIAL_FILL, L_PARTIALLY_FILLED),
      (L_CANCEL_PENDING, LT_FULL_FILL, L_FILLED),
      (L_CANCEL_PENDING, LT_CANCEL_RETRY_ACKNOWLEDGED, L_CANCEL_PENDING),
      (L_CANCEL_PENDING, LT_CANCEL_FAILED, L_FAILED)]"

fun state_rank :: "order_state \<Rightarrow> nat" where
  "state_rank L_NEW = 0"
| "state_rank L_SUBMITTED = 1"
| "state_rank L_ACKNOWLEDGED = 2"
| "state_rank L_PARTIALLY_FILLED = 3"
| "state_rank L_CANCEL_PENDING = 3"
| "state_rank L_FILLED = 4"
| "state_rank L_CANCELLED = 4"
| "state_rank L_REJECTED = 4"
| "state_rank L_EXPIRED = 4"
| "state_rank L_FAILED = 4"

definition om_is_legal :: "order_state \<Rightarrow> order_trigger \<Rightarrow> bool" where
  "om_is_legal s t = edge_legal OM_EDGES s t"

definition om_next_state :: "order_state \<Rightarrow> order_trigger \<Rightarrow> exc + order_state" where
  "om_next_state s t = edge_next OM_EDGES s t"

definition om_terminal :: "order_state \<Rightarrow> bool" where
  "om_terminal s = edge_terminal OM_EDGES s"

text \<open>\<open>min\<close> of the ranks of the targets of a trigger.\<close>

definition trigger_min_target_rank :: "order_trigger \<Rightarrow> exc + nat" where
  "trigger_min_target_rank t =
     (case map (\<lambda>(_, _, to). state_rank to) (filter (\<lambda>(_, trig, _). trig = t) OM_EDGES) of
        [] \<Rightarrow> Inl ValueError
      | r # rs \<Rightarrow> Inr (fold min rs r))"

definition make_id :: "string \<Rightarrow> int \<Rightarrow> string \<Rightarrow> string" where
  "make_id om_id seq suffix = ''om:'' @ om_id @ '':'' @ show_int seq @ '':'' @ suffix"

record order_snapshot =
  os_client_order_id :: string
  os_lifecycle_state :: order_state
  os_exchange_order_id :: "string option"
  os_symbol :: symbol
  os_side :: order_side
  os_order_type :: order_type
  os_quantity :: decimal
  os_filled_quantity :: decimal
  os_limit_price :: "decimal option"
  os_time_in_force :: time_in_force
  os_reduce_only :: bool
  os_created_at_utc :: string
  os_updated_at_utc :: string
  os_reject_reason :: "string option"

section \<open>The table\<close>

interpretation oml: transition_table OM_EDGES
  by unfold_locales code_simp

lemma om_next_edge: "om_next_state s t = Inr s' \<longleftrightarrow> (s, t, s') \<in> set OM_EDGES"
  by (simp add: om_next_state_def oml.next_edge)

lemma om_legal_next: "om_is_legal s t \<longleftrightarrow> (\<exists>s'. om_next_state s t = Inr s')"
  by (simp add: om_is_legal_def om_next_state_def oml.legal_next)

lemma om_terminal_iff: "om_terminal s \<longleftrightarrow> s \<in> {L_FILLED, L_CANCELLED, L_REJECTED, L_EXPIRED, L_FAILED}"
  by (cases s) (simp_all add: om_terminal_def edge_terminal_def legal_from_eq OM_EDGES_def ex_disj_distrib)

lemma om_terminal_stuck: "om_terminal s \<Longrightarrow> \<not> om_is_legal s t"
  by (simp add: om_terminal_def om_is_legal_def oml.terminal_stuck)

lemma order_state_values: "inj order_state_value" "x \<in> set all_order_states"
  by (rule injI, rename_tac a b, case_tac a; case_tac b; simp) (cases x; simp add: all_order_states_def)

lemma order_trigger_values: "inj order_trigger_value" "x \<in> set all_order_triggers"
  by (rule injI, rename_tac a b, case_tac a; case_tac b; simp) (cases x; simp add: all_order_triggers_def)

definition parse_order_state :: "pyval \<Rightarrow> exc + order_state" where
  "parse_order_state raw = parse_enum order_state_value all_order_states raw"

definition parse_order_trigger :: "pyval \<Rightarrow> exc + order_trigger" where
  "parse_order_trigger raw = parse_enum order_trigger_value all_order_triggers raw"

lemma parse_order_values [simp]:
  "parse_order_state (VStr (order_state_value s)) = Inr s"
  "parse_order_trigger (VStr (order_trigger_value t)) = Inr t"
  by (simp_all add: parse_order_state_def parse_order_trigger_def parse_enum_value order_state_values order_trigger_values)

text \<open>Ids of one manager differ as soon as their numbers or suffixes do.\<close>

lemma show_int_inj [simp]: "show_int i = show_int j \<longleftrightarrow> i = j"
proof -
  have "show_nat n \<noteq> CHR ''-'' # xs" for n xs
    using show_nat_digits [of n] by (auto simp: is_digit_def)
  then show ?thesis by (auto simp: show_int_def) metis+
qed

lemma make_id_inj:
  assumes "make_id om i a = make_id om j b" "0 \<le> i" "0 \<le> j"
  shows "i = j \<and> a = b"
proof -
  from assms have "show_nat (nat i) @ CHR '':'' # a = show_nat (nat j) @ CHR '':'' # b"
    by (simp add: make_id_def show_int_def)
  then have "nat i = nat j \<and> a = b" by (rule show_nat_sep_eq [rotated]) (simp add: is_digit_def)
  with assms(2,3) show ?thesis by (simp add: eq_nat_nat_iff)
qed

end
