(* ===== verification/Exchange_Adapter.thy ===== *)
theory Exchange_Adapter
  imports Exchange_Models
begin

text \<open>
  The frozen adapter interface, \<^verbatim>\<open>exchange_adapter/adapter.py\<close>.  A concrete adapter extends the
  record \<open>adapter\<close> as its class extends \<open>ExchangeAdapter\<close>; the four mutating methods are the
  template methods of the base class over the transmission hooks of the concrete one.  What the
  template relies on (hooks leave the cache and the audit log alone) is the locale
  \<open>transmission_hooks\<close>; its lemmas are the guarantees every adapter inherits.

  The cache is shared by the four methods, so a cached answer is an order or a list of orders,
  whichever the call that stored it returned.
\<close>

datatype adapter_result = ROrder order | ROrders "order list"

record adapter =
  ad_signing :: signing_boundary
  ad_exchange_name :: string
  ad_adapter_version :: string
  ad_capabilities :: capabilities
  ad_idempotency :: "adapter_result idempotency_cache"
  ad_audit_log :: "audit_record list"

definition ExchangeAdapter_init :: "signing_boundary \<Rightarrow> string \<Rightarrow> string \<Rightarrow> capabilities \<Rightarrow> exc + adapter" where
  "ExchangeAdapter_init sb exchange_name version caps =
     (if py_strip_empty exchange_name then Inl ValueError
      else if py_strip_empty version then Inl ValueError
      else Inr \<lparr>ad_signing = sb, ad_exchange_name = exchange_name, ad_adapter_version = version,
                ad_capabilities = caps, ad_idempotency = Map.empty, ad_audit_log = []\<rparr>)"

text \<open>The hooks \<open>_transmit_*\<close> and the state they act on.\<close>

record 'z hooks =
  transmit_place_order :: "order_request \<Rightarrow> ('z adapter_scheme, exc, order) prog"
  transmit_amend_order :: "amend_request \<Rightarrow> ('z adapter_scheme, exc, order) prog"
  transmit_cancel_order :: "cancel_request \<Rightarrow> ('z adapter_scheme, exc, order) prog"
  transmit_cancel_all :: "cancel_all_request \<Rightarrow> ('z adapter_scheme, exc, order list) prog"

text \<open>
  The body the four methods share: answer from the cache, or record what is about to be sent,
  transmit it, and cache the answer.
\<close>

definition audited_call ::
    "adapter_env \<Rightarrow> string \<Rightarrow> string \<Rightarrow> dict \<Rightarrow> ('z adapter_scheme, exc, adapter_result) prog \<Rightarrow>
     ('z adapter_scheme, exc, adapter_result) prog" where
  "audited_call A key action pl transmit a =
     (case cache_get (ad_idempotency a) key of
        Some cached \<Rightarrow> (Inr cached, a)
      | None \<Rightarrow>
          let rec = compute_audit_record A key action (ad_exchange_name a) (ad_adapter_version a) key pl;
              a1 = a\<lparr>ad_audit_log := ad_audit_log a @ [rec]\<rparr>
          in case transmit a1 of
               (Inl x, a2) \<Rightarrow> (Inl x, a2)
             | (Inr result, a2) \<Rightarrow>
                 (case cache_store (ad_idempotency a2) key result of
                    (v, c) \<Rightarrow> (Inr v, a2\<lparr>ad_idempotency := c\<rparr>)))"

definition mapP :: "('a \<Rightarrow> 'b) \<Rightarrow> ('s, 'e, 'a) prog \<Rightarrow> ('s, 'e, 'b) prog" where
  "mapP f m s = (case m s of (Inl x, s') \<Rightarrow> (Inl x, s') | (Inr v, s') \<Rightarrow> (Inr (f v), s'))"

definition place_order :: "'z hooks \<Rightarrow> adapter_env \<Rightarrow> order_request \<Rightarrow> ('z adapter_scheme, exc, adapter_result) prog" where
  "place_order H A r =
     audited_call A (rq_client_order_id r) ''PLACE_ORDER'' (order_request_audit_payload r)
       (mapP ROrder (transmit_place_order H r))"

definition amend_order :: "'z hooks \<Rightarrow> adapter_env \<Rightarrow> amend_request \<Rightarrow> ('z adapter_scheme, exc, adapter_result) prog" where
  "amend_order H A r =
     audited_call A (am_request_id r) ''AMEND_ORDER'' (amend_request_audit_payload r)
       (mapP ROrder (transmit_amend_order H r))"

definition cancel_order :: "'z hooks \<Rightarrow> adapter_env \<Rightarrow> cancel_request \<Rightarrow> ('z adapter_scheme, exc, adapter_result) prog" where
  "cancel_order H A r =
     audited_call A (cq_request_id r) ''CANCEL_ORDER'' (cancel_request_audit_payload r)
       (mapP ROrder (transmit_cancel_order H r))"

definition cancel_all :: "'z hooks \<Rightarrow> adapter_env \<Rightarrow> cancel_all_request \<Rightarrow> ('z adapter_scheme, exc, adapter_result) prog" where
  "cancel_all H A r =
     audited_call A (ca_request_id r) ''CANCEL_ALL'' (cancel_all_request_audit_payload r)
       (mapP ROrders (transmit_cancel_all H r))"

text \<open>The default \<open>find_order\<close>, over the orders \<open>get_orders()\<close> returned.\<close>

definition find_order :: "('s, exc, order list) prog \<Rightarrow> order_request \<Rightarrow> ('s, exc, order option) prog" where
  "find_order get_orders r =
     mapP (\<lambda>os. find (\<lambda>od. od_client_order_id od = rq_client_order_id r) os) get_orders"

section \<open>What every adapter inherits\<close>

text \<open>The mutating methods as one type of call.\<close>

datatype mutation =
    Place order_request
  | Amend amend_request
  | Cancel cancel_request
  | CancelAll cancel_all_request

fun mutation_key :: "mutation \<Rightarrow> string" where
  "mutation_key (Place r) = rq_client_order_id r"
| "mutation_key (Amend r) = am_request_id r"
| "mutation_key (Cancel r) = cq_request_id r"
| "mutation_key (CancelAll r) = ca_request_id r"

fun mutation_action :: "mutation \<Rightarrow> string" where
  "mutation_action (Place r) = ''PLACE_ORDER''"
| "mutation_action (Amend r) = ''AMEND_ORDER''"
| "mutation_action (Cancel r) = ''CANCEL_ORDER''"
| "mutation_action (CancelAll r) = ''CANCEL_ALL''"

fun mutation_payload :: "mutation \<Rightarrow> dict" where
  "mutation_payload (Place r) = order_request_audit_payload r"
| "mutation_payload (Amend r) = amend_request_audit_payload r"
| "mutation_payload (Cancel r) = cancel_request_audit_payload r"
| "mutation_payload (CancelAll r) = cancel_all_request_audit_payload r"

fun transmit :: "'z hooks \<Rightarrow> mutation \<Rightarrow> ('z adapter_scheme, exc, adapter_result) prog" where
  "transmit H (Place r) = mapP ROrder (transmit_place_order H r)"
| "transmit H (Amend r) = mapP ROrder (transmit_amend_order H r)"
| "transmit H (Cancel r) = mapP ROrder (transmit_cancel_order H r)"
| "transmit H (CancelAll r) = mapP ROrders (transmit_cancel_all H r)"

fun mutate :: "'z hooks \<Rightarrow> adapter_env \<Rightarrow> mutation \<Rightarrow> ('z adapter_scheme, exc, adapter_result) prog" where
  "mutate H A (Place r) = place_order H A r"
| "mutate H A (Amend r) = amend_order H A r"
| "mutate H A (Cancel r) = cancel_order H A r"
| "mutate H A (CancelAll r) = cancel_all H A r"

lemma mutate_eq: "mutate H A mu = audited_call A (mutation_key mu) (mutation_action mu) (mutation_payload mu) (transmit H mu)"
  by (cases mu) (simp_all add: place_order_def amend_order_def cancel_order_def cancel_all_def)

definition audit_of :: "adapter_env \<Rightarrow> 'z adapter_scheme \<Rightarrow> mutation \<Rightarrow> audit_record" where
  "audit_of A a mu = compute_audit_record A (mutation_key mu) (mutation_action mu) (ad_exchange_name a)
     (ad_adapter_version a) (mutation_key mu) (mutation_payload mu)"

locale transmission_hooks =
  fixes H :: "'z hooks"
  assumes hook_cache: "transmit H mu a = (r, a') \<Longrightarrow> ad_idempotency a' = ad_idempotency a"
    and hook_audit: "transmit H mu a = (r, a') \<Longrightarrow> ad_audit_log a' = ad_audit_log a"
begin

lemma mutate_cached:
  "ad_idempotency a (mutation_key mu) = Some v \<Longrightarrow> mutate H A mu a = (Inr v, a)"
  by (simp add: mutate_eq audited_call_def cache_get_def)

lemma mutate_fresh:
  assumes "mutate H A mu a = (r, a')" "ad_idempotency a (mutation_key mu) = None"
  shows "ad_audit_log a' = ad_audit_log a @ [audit_of A a mu] \<and>
    (\<exists>a2. transmit H mu (a\<lparr>ad_audit_log := ad_audit_log a @ [audit_of A a mu]\<rparr>) = (r, a2) \<and>
      (case r of Inl x \<Rightarrow> a' = a2 \<and> ad_idempotency a' = ad_idempotency a
       | Inr v \<Rightarrow> a' = a2\<lparr>ad_idempotency := (ad_idempotency a)(mutation_key mu \<mapsto> v)\<rparr>))"
proof -
  let ?a1 = "a\<lparr>ad_audit_log := ad_audit_log a @ [audit_of A a mu]\<rparr>"
  obtain q a2 where t: "transmit H mu ?a1 = (q, a2)" by (meson surj_pair)
  note frame = hook_cache [OF t] hook_audit [OF t]
  have eq: "mutate H A mu a = (case q of Inl x \<Rightarrow> (Inl x, a2)
      | Inr v \<Rightarrow> (case cache_store (ad_idempotency a2) (mutation_key mu) v of (w, c) \<Rightarrow> (Inr w, a2\<lparr>ad_idempotency := c\<rparr>)))"
    using t assms(2) by (simp add: mutate_eq audited_call_def cache_get_def Let_def audit_of_def split: sum.split)
  show ?thesis
  proof (cases q)
    case (Inl x)
    with eq assms(1) t frame show ?thesis by auto
  next
    case (Inr v)
    with eq assms t frame cache_store_first [of "ad_idempotency a2" "mutation_key mu" v] show ?thesis
      by (auto simp: cache_get_def)
  qed
qed

lemma mutate_binds: "mutate H A mu a = (Inr v, a') \<Longrightarrow> ad_idempotency a' (mutation_key mu) = Some v"
proof (cases "ad_idempotency a (mutation_key mu)")
  case None
  assume "mutate H A mu a = (Inr v, a')"
  with mutate_fresh [OF this None] show ?thesis by auto
next
  case (Some w)
  assume "mutate H A mu a = (Inr v, a')"
  with mutate_cached [OF Some] Some show ?thesis by simp
qed

lemma mutate_keeps:
  assumes "mutate H A mu a = (r, a')" "ad_idempotency a k = Some v"
  shows "ad_idempotency a' k = Some v"
proof (cases "ad_idempotency a (mutation_key mu)")
  case None
  with mutate_fresh [OF assms(1) None] assms(2) show ?thesis by (cases r) auto
next
  case (Some w)
  with mutate_cached [OF Some] assms show ?thesis by simp
qed

lemma mutate_audit_grows: "mutate H A mu a = (r, a') \<Longrightarrow> \<exists>new. ad_audit_log a' = ad_audit_log a @ new"
  using mutate_cached mutate_fresh by (cases "ad_idempotency a (mutation_key mu)") fastforce+

end

end
