(* ===== verification/Order_Manager.thy ===== *)
theory Order_Manager
  imports Execution_State_Machine Order_Lifecycle Exchange_Adapter
begin

text \<open>
  The order manager, \<^verbatim>\<open>order_manager/manager.py\<close>.  It works on the event store, on the execution
  state machine it drives (which writes to the same store), on the exchange adapter and on its own
  memory; these four are the fields of \<open>om_world\<close>.  The adapter is known to it through the methods
  of \<open>ExchangeAdapter\<close> only, a record of programs over an arbitrary adapter state.

  One lock per order makes the body of each public method one step here.
\<close>

section \<open>State\<close>

definition OM_SOURCE_TAG :: string where "OM_SOURCE_TAG = ''order_manager''"
definition MAX_OM_ID_LENGTH :: nat where "MAX_OM_ID_LENGTH = 60"

fun STATUS_TO_TRIGGER :: "order_status \<Rightarrow> order_trigger option" where
  "STATUS_TO_TRIGGER ST_ACKNOWLEDGED = Some LT_ACKNOWLEDGED"
| "STATUS_TO_TRIGGER ST_CANCELLED = Some LT_CANCEL_CONFIRMED"
| "STATUS_TO_TRIGGER ST_REJECTED = Some LT_REJECTED"
| "STATUS_TO_TRIGGER _ = None"

record order_manager =
  om_id :: string
  om_snapshots :: "(string \<times> order_snapshot) list"
  om_processed_fill_ids :: "string \<rightharpoonup> string set"
  om_applied_event_ids :: "nat set"
  om_next_seq :: int

text \<open>The methods of \<open>ExchangeAdapter\<close> the manager calls, and \<open>str\<close> of an exception it catches.\<close>

record 'ad adapter_api =
  api_place_order :: "order_request \<Rightarrow> ('ad, exc, order) prog"
  api_amend_order :: "amend_request \<Rightarrow> ('ad, exc, order) prog"
  api_cancel_order :: "cancel_request \<Rightarrow> ('ad, exc, order) prog"
  api_cancel_all :: "cancel_all_request \<Rightarrow> ('ad, exc, order list) prog"
  api_find_order :: "order_request \<Rightarrow> ('ad, exc, order option) prog"
  api_get_order_status :: "string \<Rightarrow> ('ad, exc, order) prog"
  api_get_fills :: "('ad, exc, fill list) prog"
  api_exc_str :: "exc \<Rightarrow> string"

record 'ad om_world =
  ow_store :: event_store
  ow_esm :: esm
  ow_adapter :: 'ad
  ow_om :: order_manager

type_synonym ('ad, 'a) om_prog = "('ad om_world, exc, 'a) prog"

definition with_om :: "(order_manager, exc, 'a) prog \<Rightarrow> ('ad, 'a) om_prog" where
  "with_om f w = (case f (ow_om w) of (r, m) \<Rightarrow> (r, w\<lparr>ow_om := m\<rparr>))"

definition with_adapter :: "('ad, exc, 'a) prog \<Rightarrow> ('ad, 'a) om_prog" where
  "with_adapter f w = (case f (ow_adapter w) of (r, ad) \<Rightarrow> (r, w\<lparr>ow_adapter := ad\<rparr>))"

definition om_is_own_event :: "event \<Rightarrow> string \<Rightarrow> bool" where
  "om_is_own_event e omid =
     (dget (payload e) ''source'' = VStr OM_SOURCE_TAG \<and> dget (payload e) ''om_id'' = VStr omid)"

definition om_event_type_for_action :: "string \<Rightarrow> order_state option \<Rightarrow> event_type" where
  "om_event_type_for_action action to_state =
     (if action = ''SUBMIT'' then ORDER_SUBMITTED
      else if action = ''FILL'' then ORDER_FILLED
      else if action = ''AMEND_REQUESTED'' \<or> action = ''AMEND'' then POSITION_UPDATED
      else if action = ''CANCEL_ALL_REQUESTED'' then ORDER_CANCELLED
      else if action = ''STATUS_UPDATE'' then
        (if to_state = Some L_ACKNOWLEDGED then ORDER_ACKNOWLEDGED
         else if to_state \<in> {Some L_CANCELLED, Some L_REJECTED, Some L_EXPIRED, Some L_FAILED} then ORDER_CANCELLED
         else ORDER_ACKNOWLEDGED)
      else HEALTH_ALERT)"

section \<open>Applying an event\<close>

text \<open>\<open>value or default\<close> on an optional text and on an optional Decimal: the empty text and zero are false.\<close>

definition str_or :: "pyval \<Rightarrow> string option \<Rightarrow> string option" where
  "str_or v dflt = (case v of VStr s \<Rightarrow> if s = [] then dflt else Some s | _ \<Rightarrow> dflt)"

definition dec_or :: "decimal option \<Rightarrow> decimal \<Rightarrow> decimal" where
  "dec_or v dflt = (case v of None \<Rightarrow> dflt | Some d \<Rightarrow> if d = 0 then dflt else d)"

definition fills_of :: "order_manager \<Rightarrow> string \<Rightarrow> string set" where
  "fills_of m cid = (case om_processed_fill_ids m cid of None \<Rightarrow> {} | Some s \<Rightarrow> s)"

text \<open>\<open>int(seq)\<close> and the bump of the sequence.\<close>

definition bump_seq :: "pyval \<Rightarrow> (order_manager, exc, unit) prog" where
  "bump_seq seq m =
     (case seq of
        VNone \<Rightarrow> (Inr (), m)
      | VInt i \<Rightarrow> (Inr (), m\<lparr>om_next_seq := max (om_next_seq m) (i + 1)\<rparr>)
      | _ \<Rightarrow> (Inl TypeError, m))"

definition submitted_snapshot :: "string \<Rightarrow> string \<Rightarrow> dict \<Rightarrow> exc + order_snapshot" where
  "submitted_snapshot cid now details =
     bindE (req_str details ''symbol'') (\<lambda>v. bindE (Symbol_init v) (\<lambda>symb.
     bindE (req_str details ''side'') (\<lambda>v. bindE (parse_side v) (\<lambda>sd.
     bindE (req_str details ''order_type'') (\<lambda>v. bindE (parse_order_type v) (\<lambda>ot.
     bindE (req_dec details ''quantity'') (\<lambda>qty.
     bindE (opt_dec (dget details ''limit_price'')) (\<lambda>lim.
     bindE (req_str details ''time_in_force'') (\<lambda>v. bindE (parse_tif v) (\<lambda>tif.
     bindE (req_bool details ''reduce_only'') (\<lambda>ro.
       Inr \<lparr>os_client_order_id = cid, os_lifecycle_state = L_SUBMITTED, os_exchange_order_id = None,
            os_symbol = symb, os_side = sd, os_order_type = ot, os_quantity = qty, os_filled_quantity = 0,
            os_limit_price = lim, os_time_in_force = tif, os_reduce_only = ro,
            os_created_at_utc = now, os_updated_at_utc = now, os_reject_reason = None\<rparr>)))))))))))"

text \<open>The checks of a recorded transition against the snapshot and the table.\<close>

definition recorded_transition :: "dict \<Rightarrow> order_state \<Rightarrow> exc + order_state" where
  "recorded_transition pl current =
     bindE (req_val pl ''trigger'') (\<lambda>v. bindE (parse_order_trigger v) (\<lambda>trig.
     bindE (req_val pl ''from_state'') (\<lambda>v. bindE (parse_order_state v) (\<lambda>from_state.
     bindE (req_val pl ''to_state'') (\<lambda>v. bindE (parse_order_state v) (\<lambda>to_state.
       if from_state \<noteq> current then Inl (ReplayIntegrityError OM)
       else if \<not> om_is_legal from_state trig \<or> om_next_state from_state trig \<noteq> Inr to_state
       then Inl (ReplayIntegrityError OM)
       else Inr to_state))))))"

definition put_snapshot :: "string \<Rightarrow> order_snapshot \<Rightarrow> (order_manager, exc, order_snapshot option) prog" where
  "put_snapshot cid sn m = (Inr (Some sn), m\<lparr>om_snapshots := AList.update cid sn (om_snapshots m)\<rparr>)"

definition om_apply_action :: "string \<Rightarrow> string \<Rightarrow> string \<Rightarrow> dict \<Rightarrow> (order_manager, exc, order_snapshot option) prog" where
  "om_apply_action action cid now pl m =
     (let details = dget_dict pl ''details'' in
      if action = ''SUBMIT'' then
        (case submitted_snapshot cid now details of
           Inl x \<Rightarrow> (Inl x, m)
         | Inr sn \<Rightarrow>
             put_snapshot cid sn (m\<lparr>om_processed_fill_ids := (om_processed_fill_ids m)(cid \<mapsto> fills_of m cid)\<rparr>))
      else if action = ''CANCEL_ALL_REQUESTED'' \<or> action = ''AMEND_REQUESTED'' then
        (Inr (map_of (om_snapshots m) cid), m)
      else case map_of (om_snapshots m) cid of
        None \<Rightarrow> (Inl (ReplayIntegrityError OM), m)
      | Some existing \<Rightarrow>
          if action = ''STATUS_UPDATE'' \<or> action = ''FILL'' then
            (case recorded_transition pl (os_lifecycle_state existing) of
               Inl x \<Rightarrow> (Inl x, m)
             | Inr to_state \<Rightarrow>
                 if action = ''FILL'' then
                   (case req_str details ''fill_id'' of
                      Inl x \<Rightarrow> (Inl x, m)
                    | Inr fid \<Rightarrow>
                        let m = m\<lparr>om_processed_fill_ids := (om_processed_fill_ids m)(cid \<mapsto> insert fid (fills_of m cid))\<rparr>
                        in case req_dec details ''fill_quantity'' of
                             Inl x \<Rightarrow> (Inl x, m)
                           | Inr q \<Rightarrow>
                               put_snapshot cid (existing\<lparr>os_lifecycle_state := to_state,
                                 os_filled_quantity := dadd (os_filled_quantity existing) q, os_updated_at_utc := now\<rparr>) m)
                 else
                   put_snapshot cid (existing\<lparr>os_lifecycle_state := to_state,
                     os_exchange_order_id := str_or (dget details ''exchange_order_id'') (os_exchange_order_id existing),
                     os_reject_reason := str_or (dget details ''reject_reason'') (os_reject_reason existing),
                     os_updated_at_utc := now\<rparr>) m)
          else if action = ''AMEND'' then
            (case bindE (opt_dec (dget details ''new_quantity'')) (\<lambda>q.
                  bindE (if map_of details ''new_limit_price'' \<noteq> None
                         then opt_dec (dget details ''new_limit_price'') else Inr (os_limit_price existing)) (\<lambda>lim.
                  Inr (existing\<lparr>os_quantity := dec_or q (os_quantity existing), os_limit_price := lim,
                                os_updated_at_utc := now\<rparr>))) of
               Inl x \<Rightarrow> (Inl x, m)
             | Inr sn \<Rightarrow> put_snapshot cid sn m)
          else (Inl (ReplayIntegrityError OM), m))"

definition om_apply_event :: "event \<Rightarrow> (order_manager, exc, order_snapshot option) prog" where
  "om_apply_event e m =
     (let cid = text_at (payload e) ''client_order_id'' in
      if event_id e \<in> om_applied_event_ids m then (Inr (map_of (om_snapshots m) cid), m)
      else
        bindP (bump_seq (dget (payload e) ''seq''))
          (\<lambda>_. om_apply_action (text_at (payload e) ''action'') cid (timestamp_utc e) (payload e))
          (m\<lparr>om_applied_event_ids := insert (event_id e) (om_applied_event_ids m)\<rparr>))"

definition om_init :: "string \<Rightarrow> order_manager" where
  "om_init omid = \<lparr>om_id = omid, om_snapshots = [], om_processed_fill_ids = Map.empty,
                   om_applied_event_ids = {}, om_next_seq = 1\<rparr>"

definition OrderManager :: "event_store \<Rightarrow> string \<Rightarrow> exc + order_manager" where
  "OrderManager store omid =
     (if py_strip_empty omid then Inl ValueError
      else if length omid > MAX_OM_ID_LENGTH then Inl ValueError
      else bindE (replay 1 store) (\<lambda>evs.
           fold_log (\<lambda>e. om_is_own_event e omid) om_apply_event evs (om_init omid)))"

section \<open>Persisting\<close>

definition om_key :: "string \<Rightarrow> string \<Rightarrow> string" where
  "om_key omid key = OM_SOURCE_TAG @ '':'' @ omid @ '':'' @ key"

text \<open>The payload, in key order.\<close>

definition om_payload :: "string \<Rightarrow> string \<Rightarrow> string \<Rightarrow> int option \<Rightarrow> order_trigger option \<Rightarrow>
    order_state option \<Rightarrow> order_state option \<Rightarrow> dict \<Rightarrow> dict" where
  "om_payload omid action cid seq trig from_state to_state details =
     [(''action'', VStr action),
      (''client_order_id'', VStr cid),
      (''details'', VDict details),
      (''from_state'', vopt (\<lambda>s. VStr (order_state_value s)) from_state),
      (''om_id'', VStr omid),
      (''seq'', vopt VInt seq),
      (''source'', VStr OM_SOURCE_TAG),
      (''to_state'', vopt (\<lambda>s. VStr (order_state_value s)) to_state),
      (''trigger'', vopt (\<lambda>t. VStr (order_trigger_value t)) trig)]"

definition om_persist :: "env \<Rightarrow> string \<Rightarrow> string \<Rightarrow> int option \<Rightarrow> order_trigger option \<Rightarrow> order_state option \<Rightarrow>
    order_state option \<Rightarrow> dict \<Rightarrow> string \<Rightarrow> ('ad, event) om_prog" where
  "om_persist E action cid seq trig from_state to_state details key w =
     (case append_event E (om_event_type_for_action action to_state)
             (om_payload (om_id (ow_om w)) action cid seq trig from_state to_state details)
             (Some (om_key (om_id (ow_om w)) key)) 1 (ow_store w) of
        (r, store') \<Rightarrow> (r, w\<lparr>ow_store := store'\<rparr>))"

text \<open>The pair of lines \<open>event = self._persist(...)\<close>, \<open>self._apply_event(event)\<close>.\<close>

definition om_record :: "env \<Rightarrow> string \<Rightarrow> string \<Rightarrow> int option \<Rightarrow> order_trigger option \<Rightarrow> order_state option \<Rightarrow>
    order_state option \<Rightarrow> dict \<Rightarrow> string \<Rightarrow> ('ad, order_snapshot option) om_prog" where
  "om_record E action cid seq trig from_state to_state details key =
     bindP (om_persist E action cid seq trig from_state to_state details key) (\<lambda>e. with_om (om_apply_event e))"

definition om_next_id :: "string \<Rightarrow> (order_manager, exc, int \<times> string) prog" where
  "om_next_id suffix m =
     (let seq = om_next_seq m
      in (Inr (seq, make_id (om_id m) seq suffix), m\<lparr>om_next_seq := om_next_seq m + 1\<rparr>))"

section \<open>The execution state machine\<close>

text \<open>The trigger of the machine for a milestone of an order; \<open>None\<close> in place of a trigger is \<open>"SUBMIT"\<close>.\<close>

definition exec_trigger_for :: "order_trigger option \<Rightarrow> order_state \<Rightarrow> order_snapshot option \<Rightarrow> exc + trigger option" where
  "exec_trigger_for trig from_state sn =
     (case trig of
        None \<Rightarrow> Inr (Some T_ORDER_PLACED)
      | Some LT_REJECTED \<Rightarrow> Inr (Some T_ORDER_REJECTED)
      | Some LT_PARTIAL_FILL \<Rightarrow> Inr (Some T_PARTIAL_FILL_RECEIVED)
      | Some LT_FULL_FILL \<Rightarrow>
          Inr (Some (if from_state = L_PARTIALLY_FILLED then T_REMAINDER_FILLED else T_FULLY_FILLED))
      | Some LT_CANCEL_CONFIRMED \<Rightarrow>
          if from_state = L_CANCEL_PENDING then
            (case sn of None \<Rightarrow> Inl AttributeError
             | Some s \<Rightarrow> Inr (if os_filled_quantity s = 0 then Some T_ORDER_CANCELLED else None))
          else Inr None
      | Some _ \<Rightarrow> Inr None)"

definition exec_request_id :: "env \<Rightarrow> string \<Rightarrow> trigger \<Rightarrow> string" where
  "exec_request_id E cid t = take 40 (hexdigest (sha256 E (utf8 (cid @ '':'' @ trigger_value t))))"

definition drive_execution_sm :: "env \<Rightarrow> string \<Rightarrow> order_trigger option \<Rightarrow> order_state \<Rightarrow> order_snapshot option \<Rightarrow>
    ('ad, unit) om_prog" where
  "drive_execution_sm E cid trig from_state sn w =
     (case exec_trigger_for trig from_state sn of
        Inl x \<Rightarrow> (Inl x, w)
      | Inr None \<Rightarrow> (Inr (), w)
      | Inr (Some t) \<Rightarrow>
          (case transition E t (exec_request_id E cid t) (Some [(''client_order_id'', VStr cid)]) (ow_store w, ow_esm w) of
             (r, (store', esm')) \<Rightarrow>
               let w' = w\<lparr>ow_store := store', ow_esm := esm'\<rparr>
               in case r of
                    Inr _ \<Rightarrow> (Inr (), w')
                  | Inl x \<Rightarrow> if x = IllegalTransitionError then (Inr (), w') else (Inl x, w')))"

section \<open>Status updates\<close>

text \<open>\<open>self._snapshots[client_order_id]\<close>.\<close>

definition snapshot_at :: "'ad om_world \<Rightarrow> string \<Rightarrow> exc + order_snapshot" where
  "snapshot_at w cid = (case map_of (om_snapshots (ow_om w)) cid of None \<Rightarrow> Inl KeyError | Some sn \<Rightarrow> Inr sn)"

definition ingest_status :: "env \<Rightarrow> string \<Rightarrow> order_status \<Rightarrow> string option \<Rightarrow> string option \<Rightarrow>
    ('ad, order_snapshot option) om_prog" where
  "ingest_status E cid status xid reason w =
     (case snapshot_at w cid of
        Inl x \<Rightarrow> (Inl x, w)
      | Inr existing \<Rightarrow>
          (case STATUS_TO_TRIGGER status of
             None \<Rightarrow> (Inr (Some existing), w)
           | Some trig \<Rightarrow>
               let current = os_lifecycle_state existing in
               if om_is_legal current trig then
                 (case om_next_state current trig of
                    Inl x \<Rightarrow> (Inl x, w)
                  | Inr to_state \<Rightarrow>
                      bindP (om_record E ''STATUS_UPDATE'' cid None (Some trig) (Some current) (Some to_state)
                               [(''exchange_order_id'', vopt VStr xid), (''reject_reason'', vopt VStr reason)]
                               (cid @ '':status:'' @ order_trigger_value trig @ '':'' @ order_state_value current))
                        (\<lambda>sn. bindP (drive_execution_sm E cid (Some trig) current sn) (\<lambda>_ w. (Inr sn, w))) w)
               else if om_terminal current then (Inr (Some existing), w)
               else case trigger_min_target_rank trig of
                      Inl x \<Rightarrow> (Inl x, w)
                    | Inr rank \<Rightarrow>
                        if state_rank current \<ge> rank then (Inr (Some existing), w)
                        else (Inl OrderStateInconsistencyError, w)))"

text \<open>
  The handler of \<open>ExchangeAdapterError\<close> in \<open>place_order\<close> and \<open>cancel_order\<close>: record the failure
  if the order can still fail, then re-raise.
\<close>

definition fail_and_raise :: "env \<Rightarrow> 'ad adapter_api \<Rightarrow> string \<Rightarrow> order_trigger \<Rightarrow> string \<Rightarrow> exc \<Rightarrow>
    ('ad, order_snapshot option) om_prog" where
  "fail_and_raise E X cid trig key x w =
     (if \<not> is_adapter_error x then (Inl x, w)
      else case snapshot_at w cid of
        Inl y \<Rightarrow> (Inl y, w)
      | Inr sn \<Rightarrow>
          let current = os_lifecycle_state sn in
          if om_is_legal current trig then
            (case om_next_state current trig of
               Inl y \<Rightarrow> (Inl y, w)
             | Inr to_state \<Rightarrow>
                 bindP (om_record E ''STATUS_UPDATE'' cid None (Some trig) (Some current) (Some to_state)
                          [(''error'', VStr (api_exc_str X x))] key) (\<lambda>_ w. (Inl x, w)) w)
          else (Inl x, w))"

section \<open>Public methods\<close>

definition om_place_order :: "env \<Rightarrow> 'ad adapter_api \<Rightarrow> symbol \<Rightarrow> order_side \<Rightarrow> order_type \<Rightarrow> decimal \<Rightarrow>
    decimal option \<Rightarrow> time_in_force \<Rightarrow> bool \<Rightarrow> ('ad, order_snapshot option) om_prog" where
  "om_place_order E X symb sd ot quantity limit_price tif reduce_only =
     bindP (with_om (om_next_id ''place'')) (\<lambda>(seq, cid).
     bindP (om_record E ''SUBMIT'' cid (Some seq) None None None
              [(''limit_price'', vopt VDec limit_price), (''order_type'', VStr (order_type_value ot)),
               (''quantity'', VDec quantity), (''reduce_only'', VBool reduce_only),
               (''side'', VStr (side_value sd)), (''symbol'', VStr symb),
               (''time_in_force'', VStr (tif_value tif))] cid) (\<lambda>sn.
     bindP (drive_execution_sm E cid None L_NEW sn) (\<lambda>_ w.
       case OrderRequest_post_init \<lparr>rq_client_order_id = cid, rq_symbol = symb, rq_side = sd, rq_order_type = ot,
              rq_quantity = quantity, rq_limit_price = limit_price, rq_time_in_force = tif, rq_reduce_only = reduce_only\<rparr> of
         Inl x \<Rightarrow> (Inl x, w)
       | Inr request \<Rightarrow>
           (case with_adapter (api_place_order X request) w of
              (Inl x, w') \<Rightarrow> fail_and_raise E X cid LT_SUBMIT_FAILED (cid @ '':submit_failed'') x w'
            | (Inr od, w') \<Rightarrow>
                ingest_status E cid (if od_status od = ST_REJECTED then ST_REJECTED else ST_ACKNOWLEDGED)
                  (od_exchange_order_id od) None w'))))"

definition om_amend_order :: "env \<Rightarrow> 'ad adapter_api \<Rightarrow> string \<Rightarrow> decimal option \<Rightarrow> decimal option \<Rightarrow>
    ('ad, order_snapshot option) om_prog" where
  "om_amend_order E X cid new_quantity new_limit_price w =
     (if new_quantity = None \<and> new_limit_price = None then (Inl ValueError, w)
      else case map_of (om_snapshots (ow_om w)) cid of
        None \<Rightarrow> (Inl OrderNotFoundError, w)
      | Some existing \<Rightarrow>
          if os_lifecycle_state existing \<notin> {L_ACKNOWLEDGED, L_PARTIALLY_FILLED} then (Inl IllegalOrderTransitionError, w)
          else case os_exchange_order_id existing of
            None \<Rightarrow> (Inl OrderStateInconsistencyError, w)
          | Some xid \<Rightarrow>
              bindP (with_om (om_next_id ''amend'')) (\<lambda>(seq, request_id).
              bindP (om_record E ''AMEND_REQUESTED'' cid (Some seq) None None None
                       [(''new_limit_price'', vopt VDec new_limit_price), (''new_quantity'', vopt VDec new_quantity),
                        (''request_id'', VStr request_id)] (cid @ '':amend_req:'' @ request_id)) (\<lambda>_ w.
                case AmendRequest_post_init \<lparr>am_request_id = request_id, am_exchange_order_id = xid,
                       am_new_quantity = new_quantity, am_new_limit_price = new_limit_price\<rparr> of
                  Inl x \<Rightarrow> (Inl x, w)
                | Inr request \<Rightarrow>
                    bindP (with_adapter (api_amend_order X request)) (\<lambda>od.
                      om_record E ''AMEND'' cid None None None None
                        [(''new_limit_price'', vopt VDec (od_limit_price od)), (''new_quantity'', VDec (od_quantity od))]
                        (cid @ '':amend_applied:'' @ request_id)) w)) w)"

definition om_cancel_order :: "env \<Rightarrow> 'ad adapter_api \<Rightarrow> string \<Rightarrow> ('ad, order_snapshot option) om_prog" where
  "om_cancel_order E X cid w =
     (case map_of (om_snapshots (ow_om w)) cid of
        None \<Rightarrow> (Inl OrderNotFoundError, w)
      | Some existing \<Rightarrow>
          let current = os_lifecycle_state existing in
          if current = L_CANCEL_PENDING then (Inr (Some existing), w)
          else if \<not> om_is_legal current LT_CANCEL_REQUESTED then (Inl IllegalOrderTransitionError, w)
          else case (os_exchange_order_id existing, om_next_state current LT_CANCEL_REQUESTED) of
            (None, _) \<Rightarrow> (Inl OrderStateInconsistencyError, w)
          | (Some xid, Inl x) \<Rightarrow> (Inl x, w)
          | (Some xid, Inr to_state) \<Rightarrow>
              bindP (with_om (om_next_id ''cancel'')) (\<lambda>(seq, request_id).
              bindP (om_record E ''STATUS_UPDATE'' cid (Some seq) (Some LT_CANCEL_REQUESTED) (Some current) (Some to_state)
                       [(''request_id'', VStr request_id)] (cid @ '':cancel:'' @ request_id)) (\<lambda>_ w.
                case CancelRequest_post_init \<lparr>cq_request_id = request_id, cq_exchange_order_id = xid\<rparr> of
                  Inl x \<Rightarrow> (Inl x, w)
                | Inr request \<Rightarrow>
                    (case with_adapter (api_cancel_order X request) w of
                       (Inl x, w') \<Rightarrow> fail_and_raise E X cid LT_CANCEL_FAILED (cid @ '':cancel_failed:'' @ request_id) x w'
                     | (Inr od, w') \<Rightarrow> ingest_status E cid (od_status od) (od_exchange_order_id od) None w'))) w)"

text \<open>One round of the loop of \<open>cancel_all\<close>: first to \<open>CANCEL_PENDING\<close>, then to \<open>CANCELLED\<close>.\<close>

definition cancel_all_pending :: "env \<Rightarrow> string \<Rightarrow> string \<Rightarrow> order_state \<Rightarrow> ('ad, order_state) om_prog" where
  "cancel_all_pending E request_id cid current w =
     (if current \<in> {L_ACKNOWLEDGED, L_PARTIALLY_FILLED} then
        (case om_next_state current LT_CANCEL_REQUESTED of
           Inl x \<Rightarrow> (Inl x, w)
         | Inr pend_state \<Rightarrow>
             bindP (om_record E ''STATUS_UPDATE'' cid None (Some LT_CANCEL_REQUESTED) (Some current) (Some pend_state)
                      [(''request_id'', VStr request_id)] (cid @ '':cancel_all_pending:'' @ request_id))
               (\<lambda>_ w. (Inr pend_state, w)) w)
      else (Inr current, w))"

definition cancel_all_confirm :: "env \<Rightarrow> string \<Rightarrow> string \<Rightarrow> string option \<Rightarrow> order_state \<Rightarrow>
    ('ad, order_snapshot option list) om_prog" where
  "cancel_all_confirm E request_id cid xid current w =
     (if current = L_CANCEL_PENDING then
        (case om_next_state current LT_CANCEL_CONFIRMED of
           Inl x \<Rightarrow> (Inl x, w)
         | Inr conf_state \<Rightarrow>
             bindP (om_record E ''STATUS_UPDATE'' cid None (Some LT_CANCEL_CONFIRMED) (Some current) (Some conf_state)
                      [(''exchange_order_id'', vopt VStr xid)] (cid @ '':cancel_all_confirm:'' @ request_id)) (\<lambda>sn.
             bindP (drive_execution_sm E cid (Some LT_CANCEL_CONFIRMED) L_CANCEL_PENDING sn) (\<lambda>_ w. (Inr [sn], w))) w)
      else (Inr [], w))"

fun cancel_all_orders :: "env \<Rightarrow> string \<Rightarrow> order list \<Rightarrow> ('ad, order_snapshot option list) om_prog" where
  "cancel_all_orders E request_id [] w = (Inr [], w)"
| "cancel_all_orders E request_id (od # ods) w =
     (case map_of (om_snapshots (ow_om w)) (od_client_order_id od) of
        None \<Rightarrow> cancel_all_orders E request_id ods w
      | Some sn \<Rightarrow>
          bindP (cancel_all_pending E request_id (od_client_order_id od) (os_lifecycle_state sn)) (\<lambda>current.
          bindP (cancel_all_confirm E request_id (od_client_order_id od) (od_exchange_order_id od) current) (\<lambda>r.
          bindP (cancel_all_orders E request_id ods) (\<lambda>rs w. (Inr (r @ rs), w)))) w)"

definition om_cancel_all :: "env \<Rightarrow> 'ad adapter_api \<Rightarrow> symbol option \<Rightarrow> ('ad, order_snapshot option list) om_prog" where
  "om_cancel_all E X symb =
     bindP (with_om (om_next_id ''cancel_all'')) (\<lambda>(seq, request_id).
     bindP (om_record E ''CANCEL_ALL_REQUESTED'' ''*'' (Some seq) None None None
              [(''request_id'', VStr request_id), (''symbol'', vopt VStr symb)] (''cancel_all:'' @ request_id)) (\<lambda>_ w.
       case CancelAllRequest_post_init \<lparr>ca_request_id = request_id, ca_symbol = symb\<rparr> of
         Inl x \<Rightarrow> (Inl x, w)
       | Inr request \<Rightarrow>
           bindP (with_adapter (api_cancel_all X request)) (cancel_all_orders E request_id) w))"

definition report_fill :: "env \<Rightarrow> string \<Rightarrow> fill \<Rightarrow> ('ad, order_snapshot option) om_prog" where
  "report_fill E cid f w =
     (case map_of (om_snapshots (ow_om w)) cid of
        None \<Rightarrow> (Inl OrderNotFoundError, w)
      | Some existing \<Rightarrow>
          if fl_fill_id f \<in> fills_of (ow_om w) cid then (Inr (Some existing), w)
          else if om_terminal (os_lifecycle_state existing) then
            (Inr (Some existing),
             w\<lparr>ow_om := (ow_om w)\<lparr>om_processed_fill_ids :=
                 (om_processed_fill_ids (ow_om w))(cid \<mapsto> insert (fl_fill_id f) (fills_of (ow_om w) cid))\<rparr>\<rparr>)
          else
            let new_filled = dadd (os_filled_quantity existing) (fl_quantity f);
                trig = (if new_filled \<ge> os_quantity existing then LT_FULL_FILL else LT_PARTIAL_FILL);
                current = os_lifecycle_state existing
            in if \<not> om_is_legal current trig then (Inl OrderStateInconsistencyError, w)
               else case om_next_state current trig of
                 Inl x \<Rightarrow> (Inl x, w)
               | Inr to_state \<Rightarrow>
                   bindP (om_record E ''FILL'' cid None (Some trig) (Some current) (Some to_state)
                            [(''fill_id'', VStr (fl_fill_id f)), (''fill_price'', VDec (fl_price f)),
                             (''fill_quantity'', VDec (fl_quantity f))] (cid @ '':fill:'' @ fl_fill_id f)) (\<lambda>sn.
                   bindP (drive_execution_sm E cid (Some trig) current sn) (\<lambda>_ w. (Inr sn, w))) w)"

definition report_order_update :: "env \<Rightarrow> string \<Rightarrow> order \<Rightarrow> ('ad, order_snapshot option) om_prog" where
  "report_order_update E cid od w =
     (case map_of (om_snapshots (ow_om w)) cid of
        None \<Rightarrow> (Inl OrderNotFoundError, w)
      | Some _ \<Rightarrow> ingest_status E cid (od_status od) (od_exchange_order_id od) None w)"

definition om_get_order_status :: "string \<Rightarrow> ('ad, order_snapshot) om_prog" where
  "om_get_order_status cid w =
     (case map_of (om_snapshots (ow_om w)) cid of None \<Rightarrow> (Inl OrderNotFoundError, w) | Some sn \<Rightarrow> (Inr sn, w))"

definition om_get_fills :: "'ad adapter_api \<Rightarrow> string option \<Rightarrow> ('ad, fill list) om_prog" where
  "om_get_fills X cid =
     mapP (\<lambda>fs. case cid of None \<Rightarrow> fs | Some c \<Rightarrow> filter (\<lambda>f. fl_client_order_id f = c) fs)
       (with_adapter (api_get_fills X))"

definition in_doubt_client_order_ids :: "order_manager \<Rightarrow> string list" where
  "in_doubt_client_order_ids m =
     map fst (filter (\<lambda>(_, sn). os_lifecycle_state sn \<in> {L_SUBMITTED, L_CANCEL_PENDING}) (om_snapshots m))"

definition resync_order :: "env \<Rightarrow> 'ad adapter_api \<Rightarrow> string \<Rightarrow> ('ad, order_snapshot option) om_prog" where
  "resync_order E X cid w =
     (case map_of (om_snapshots (ow_om w)) cid of
        None \<Rightarrow> (Inl OrderNotFoundError, w)
      | Some existing \<Rightarrow>
          (case os_exchange_order_id existing of
             None \<Rightarrow>
               (case OrderRequest_post_init \<lparr>rq_client_order_id = os_client_order_id existing,
                       rq_symbol = os_symbol existing, rq_side = os_side existing, rq_order_type = os_order_type existing,
                       rq_quantity = os_quantity existing, rq_limit_price = os_limit_price existing,
                       rq_time_in_force = os_time_in_force existing, rq_reduce_only = os_reduce_only existing\<rparr> of
                  Inl x \<Rightarrow> (Inl x, w)
                | Inr request \<Rightarrow>
                    bindP (with_adapter (api_find_order X request)) (\<lambda>found w.
                      case found of
                        None \<Rightarrow> (Inr (Some existing), w)
                      | Some od \<Rightarrow> ingest_status E cid (od_status od) (od_exchange_order_id od) None w) w)
           | Some xid \<Rightarrow>
               bindP (with_adapter (api_get_order_status X xid)) (\<lambda>od.
                 ingest_status E cid (od_status od) (od_exchange_order_id od) None) w))"

end
