(* ===== verification/Live_Component.thy ===== *)
theory Live_Component
  imports Ledger
begin

text \<open>
  A component whose memory holds more than its log: the order and position managers remember which
  events they applied, skip them when the store answers an append with an old event, and keep
  caches and counters that no event records.  \<open>like r m\<close> says that the memory \<open>m\<close> of a running
  component is the memory \<open>r\<close> a restart would rebuild, up to such caches.
\<close>

locale live_component = event_sourced inv log_of find_key put own app m0
  for inv :: "'s \<Rightarrow> bool" and log_of and find_key and put and own and app :: "event \<Rightarrow> ('m, exc, 'r) prog" and m0 +
  fixes applied :: "'m \<Rightarrow> nat set"
    and like :: "'m \<Rightarrow> 'm \<Rightarrow> bool"
    and ns :: "string \<Rightarrow> string"
  assumes log_ids: "inv s \<Longrightarrow> distinct (map event_id (log_of s))"
    and applied_m0: "applied m0 = {}"
    and app_applied: "event_id e \<in> applied m \<Longrightarrow> \<exists>x. app e m = (Inr x, m)"
    and app_marks: "app e m = (Inr x, m') \<Longrightarrow> applied m' = insert (event_id e) (applied m)"
    and app_like: "like r m \<Longrightarrow> app e m = (q, m') \<Longrightarrow> \<exists>r'. app e r = (q, r') \<and> like r' m'"
    and like_applied: "like r m \<Longrightarrow> applied r = applied m"
    and like_refl: "like m m"
begin

text \<open>Whatever is stored under a key of the component is an event of the component.\<close>

definition own_keys :: "'s \<Rightarrow> bool" where
  "own_keys s \<longleftrightarrow> (\<forall>e\<in>set (log_of s). \<forall>k. idempotency_key e = Some (ns k) \<longrightarrow> own e)"

lemma recovered_applied:
  assumes "recovered s r"
  shows "applied r = event_id ` {e \<in> set (log_of s). own e}"
proof -
  have "fold_log own app es m0 = Inr r \<Longrightarrow> applied r = event_id ` {e \<in> set es. own e}" for es
  proof (induction es arbitrary: r rule: rev_induct)
    case (snoc e es)
    then obtain q where q: "fold_log own app es m0 = Inr q" by (auto simp: fold_log_append prog_simps)
    with snoc show ?case
      by (auto simp: fold_log_append split: if_splits prod.splits sum.splits dest!: app_marks)
  qed (simp add: applied_m0)
  with assms show ?thesis by (simp add: recovered_def)
qed

text \<open>Persisting an event and applying it: either the key was known and nothing happens, or one event is new.\<close>

lemma record_step:
  assumes inv: "inv s" and rec: "recovered s r" and like: "like r m" and keys: "own_keys s"
    and put: "put ty pl (Some (ns k)) s = (Inr e, s')"
    and own: "\<And>e. payload e = pl \<Longrightarrow> own e"
    and ok: "\<And>e. payload e = pl \<Longrightarrow> event_id e \<notin> applied m \<Longrightarrow> \<exists>x m'. app e m = (Inr x, m')"
  obtains (known) x where "find_key s (ns k) = Some e" "log_of s' = log_of s" "app e m = (Inr x, m)"
      "recovered s' r" "own_keys s'"
  | (new) x m' r' where "find_key s (ns k) = None" "log_of s' = log_of s @ [e]" "payload e = pl"
      "idempotency_key e = Some (ns k)" "event_id e \<notin> applied m"
      "app e m = (Inr x, m')" "app e r = (Inr x, r')" "like r' m'" "recovered s' r'" "own_keys s'"
proof (cases "find_key s (ns k)")
  case (Some e')
  with put_hit [OF inv put Some] have e: "find_key s (ns k) = Some e" "log_of s' = log_of s" by simp_all
  have "e \<in> set (log_of s)" "own e" using e(1) keys by (auto simp: find_iff [OF inv] own_keys_def)
  then have "event_id e \<in> applied m" using recovered_applied [OF rec] like_applied [OF like] by auto
  from app_applied [OF this] obtain x where "app e m = (Inr x, m)" by blast
  with e show ?thesis using persist_known [OF inv rec put Some] keys by (intro known) (simp_all add: own_keys_def)
next
  case None
  have e: "log_of s' = log_of s @ [e]" "payload e = pl" "idempotency_key e = Some (ns k)"
    using put_miss [OF inv put] None by auto
  have "distinct (map event_id (log_of s @ [e]))" using log_ids [OF put_inv [OF inv put]] e(1) by simp
  then have fresh: "event_id e \<notin> applied m"
    using recovered_applied [OF rec] like_applied [OF like] by auto
  obtain x m' where m': "app e m = (Inr x, m')" using ok [OF e(2) fresh] by blast
  obtain r' where r': "app e r = (Inr x, r')" "like r' m'" using app_like [OF like m'] by blast
  have "recovered s' r'" using persist_then_apply [OF inv rec put None own [OF e(2)] r'(1)] .
  moreover have "own_keys s'" using keys own [OF e(2)] by (auto simp: own_keys_def e(1))
  ultimately show ?thesis using None e fresh m' r' by (intro new)
qed

lemma own_keys_fail: "own_keys s \<Longrightarrow> inv s \<Longrightarrow> put ty pl k s = (Inl x, s') \<Longrightarrow> own_keys s'"
  by (simp add: own_keys_def put_fail)

text \<open>An append of another component, under a key outside the component's name space.\<close>

lemma own_keys_foreign:
  assumes "own_keys s" "inv s" "put ty pl k s = (r, s')" "\<And>j. k \<noteq> Some (ns j)"
  shows "own_keys s'"
  using put_log_grows [OF assms(2,3)] assms(1,4) by (auto simp: own_keys_def)

end

end
