(* ===== verification/Order_Ledger.thy ===== *)
theory Order_Ledger
  imports Order_Manager Live_Component
begin

text \<open>
  The order manager and its log: applying an event reads only the snapshots and the applied ids, so
  a manager that knows more processed fills and has used up more numbers stays in step with the one
  a restart rebuilds.  \<open>om_sound\<close> is the invariant of a running manager and its world; every
  public method, failed ones included, keeps it.
\<close>

section \<open>Applying an event\<close>

definition om_like :: "order_manager \<Rightarrow> order_manager \<Rightarrow> bool" where
  "om_like r m \<longleftrightarrow> om_id r = om_id m \<and> om_snapshots r = om_snapshots m \<and>
     om_applied_event_ids r = om_applied_event_ids m \<and> om_next_seq r \<le> om_next_seq m \<and>
     (\<forall>cid. fills_of r cid \<subseteq> fills_of m cid)"

lemma om_like_trans: "om_like a b \<Longrightarrow> om_like b c \<Longrightarrow> om_like a c"
  unfolding om_like_def by (elim conjE, intro conjI allI; (blast | simp))

lemma fills_of_upd [simp]:
  "fills_of (m\<lparr>om_processed_fill_ids := f\<rparr>) cid = (case f cid of None \<Rightarrow> {} | Some s \<Rightarrow> s)"
  "fills_of (m\<lparr>om_snapshots := sns\<rparr>) cid = fills_of m cid"
  "fills_of (m\<lparr>om_applied_event_ids := ids\<rparr>) cid = fills_of m cid"
  "fills_of (m\<lparr>om_next_seq := n\<rparr>) cid = fills_of m cid"
  by (simp_all add: fills_of_def)

lemma fills_of_fold: "(case om_processed_fill_ids m cid of None \<Rightarrow> {} | Some s \<Rightarrow> s) = fills_of m cid"
  by (simp add: fills_of_def)

lemma put_snapshot_eq: "put_snapshot cid sn m = (Inr (Some sn), m\<lparr>om_snapshots := AList.update cid sn (om_snapshots m)\<rparr>)"
  by (simp add: put_snapshot_def)

lemma om_action_frame:
  "om_id (snd (om_apply_action a cid now pl m)) = om_id m"
  "om_applied_event_ids (snd (om_apply_action a cid now pl m)) = om_applied_event_ids m"
  "om_next_seq (snd (om_apply_action a cid now pl m)) = om_next_seq m"
  by (simp_all add: om_apply_action_def Let_def put_snapshot_eq split: sum.split option.split)

lemma om_action_like:
  assumes "om_like r m"
  shows "fst (om_apply_action a cid now pl r) = fst (om_apply_action a cid now pl m) \<and>
         om_like (snd (om_apply_action a cid now pl r)) (snd (om_apply_action a cid now pl m))"
proof -
  have eq: "om_snapshots r = om_snapshots m" "\<And>c. fills_of r c \<subseteq> fills_of m c" "om_id r = om_id m"
    "om_applied_event_ids r = om_applied_event_ids m" "om_next_seq r \<le> om_next_seq m"
    using assms by (simp_all add: om_like_def)
  have up: "om_like (r\<lparr>om_processed_fill_ids := (om_processed_fill_ids r)(cid \<mapsto> A \<union> fills_of r cid)\<rparr>)
                    (m\<lparr>om_processed_fill_ids := (om_processed_fill_ids m)(cid \<mapsto> A \<union> fills_of m cid)\<rparr>)" for A
    using eq by (auto simp: om_like_def fills_of_fold)
  have sn: "om_like r' m' \<Longrightarrow> om_like (r'\<lparr>om_snapshots := AList.update cid x (om_snapshots r')\<rparr>)
      (m'\<lparr>om_snapshots := AList.update cid x (om_snapshots m')\<rparr>)" for r' m' x
    by (simp add: om_like_def)
  note up0 = up [of "{}", simplified] and up1 = up [of "{_}", simplified]
  show ?thesis
    using assms sn [OF assms] sn [OF up0] sn [OF up1] up1
    unfolding om_apply_action_def Let_def put_snapshot_eq eq(1)
    by (simp add: eq(1) split: sum.split option.split)
qed

lemma bump_seq_like:
  "om_like r m \<Longrightarrow> fst (bump_seq v r) = fst (bump_seq v m) \<and> om_like (snd (bump_seq v r)) (snd (bump_seq v m))"
  by (cases v) (auto simp: bump_seq_def om_like_def)

lemma om_apply_new:
  "event_id e \<notin> om_applied_event_ids m \<Longrightarrow> om_apply_event e m =
     bindP (bump_seq (dget (payload e) ''seq''))
       (\<lambda>_. om_apply_action (text_at (payload e) ''action'') (text_at (payload e) ''client_order_id'') (timestamp_utc e) (payload e))
       (m\<lparr>om_applied_event_ids := insert (event_id e) (om_applied_event_ids m)\<rparr>)"
  by (simp add: om_apply_event_def Let_def)

lemma om_apply_like:
  assumes "om_like r m" "om_apply_event e m = (q, m')"
  shows "\<exists>r'. om_apply_event e r = (q, r') \<and> om_like r' m'"
proof (cases "event_id e \<in> om_applied_event_ids m")
  case True
  with assms show ?thesis by (auto simp: om_apply_event_def om_like_def)
next
  case False
  then have Fr: "event_id e \<notin> om_applied_event_ids r" using assms(1) by (simp add: om_like_def)
  let ?up = "\<lambda>m. m\<lparr>om_applied_event_ids := insert (event_id e) (om_applied_event_ids m)\<rparr>"
  have "om_like (?up r) (?up m)" using assms(1) by (simp add: om_like_def)
  note b = bump_seq_like [OF this, of "dget (payload e) ''seq''"]
  obtain x r1 where r1: "bump_seq (dget (payload e) ''seq'') (?up r) = (x, r1)" by (meson surj_pair)
  obtain m1 where m1: "bump_seq (dget (payload e) ''seq'') (?up m) = (x, m1)" and l: "om_like r1 m1"
    using b r1 by (metis fst_conv snd_conv surj_pair)
  show ?thesis
  proof (cases x)
    case (Inl y)
    with om_apply_new [OF False] om_apply_new [OF Fr] r1 m1 l assms(2) show ?thesis by (auto simp: bindP_def)
  next
    case (Inr y)
    with om_apply_new [OF False] om_apply_new [OF Fr] r1 m1 assms(2) om_action_like [OF l] show ?thesis
      by (auto simp: bindP_def) (metis fst_conv snd_conv surj_pair)
  qed
qed

lemma om_apply_marks:
  assumes "om_apply_event e m = (q, m')"
  shows "om_applied_event_ids m' = insert (event_id e) (om_applied_event_ids m) \<and> om_id m' = om_id m \<and>
         om_next_seq m \<le> om_next_seq m'"
proof (cases "event_id e \<in> om_applied_event_ids m")
  case True
  with assms show ?thesis by (auto simp: om_apply_event_def)
next
  case False
  have b: "om_applied_event_ids (snd (bump_seq v k)) = om_applied_event_ids k \<and> om_id (snd (bump_seq v k)) = om_id k
      \<and> om_next_seq k \<le> om_next_seq (snd (bump_seq v k))" for v k
    by (cases v) (simp_all add: bump_seq_def)
  let ?m0 = "m\<lparr>om_applied_event_ids := insert (event_id e) (om_applied_event_ids m)\<rparr>"
  obtain x m1 where m1: "bump_seq (dget (payload e) ''seq'') ?m0 = (x, m1)" by (meson surj_pair)
  with b [of "dget (payload e) ''seq''" ?m0]
  have f: "om_applied_event_ids m1 = insert (event_id e) (om_applied_event_ids m)" "om_id m1 = om_id m"
    "om_next_seq m \<le> om_next_seq m1" by simp_all
  show ?thesis
  proof (cases x)
    case (Inl y)
    with om_apply_new [OF False] m1 f assms show ?thesis by (simp add: bindP_def)
  next
    case (Inr y)
    let ?act = "om_apply_action (text_at (payload e) ''action'') (text_at (payload e) ''client_order_id'') (timestamp_utc e) (payload e) m1"
    have "om_apply_event e m = ?act" using om_apply_new [OF False] m1 Inr by (simp add: bindP_def)
    then have "m' = snd ?act" using assms by (metis snd_conv)
    with f show ?thesis by (simp add: om_action_frame)
  qed
qed

interpretation om: live_component ledger_inv es_events get_by_idempotency_key
  "\<lambda>ty pl k. append_event E ty pl k sv" "\<lambda>e. om_is_own_event e omid" om_apply_event "om_init omid"
  om_applied_event_ids om_like "om_key omid" for E sv omid
proof
  fix e :: event and m :: order_manager
  assume "event_id e \<in> om_applied_event_ids m"
  then show "\<exists>x. om_apply_event e m = (Inr x, m)" by (simp add: om_apply_event_def)
next
  fix r m :: order_manager and e q m'
  assume "om_like r m" "om_apply_event e m = (q, m')"
  then show "\<exists>r'. om_apply_event e r = (q, r') \<and> om_like r' m'" by (rule om_apply_like)
qed (auto simp: om_init_def ledger_ids om_like_def dest: om_apply_marks)

section \<open>Keys\<close>

definition id_prefix :: "string \<Rightarrow> int \<Rightarrow> string" where
  "id_prefix omid i = ''om:'' @ omid @ '':'' @ show_int i @ '':''"

definition place_id :: "string \<Rightarrow> int \<Rightarrow> string" where "place_id omid i = make_id omid i ''place''"

lemma make_id_prefix: "make_id omid i suf = id_prefix omid i @ suf"
  by (simp add: make_id_def id_prefix_def)

lemma id_prefix_eq:
  assumes "id_prefix omid i @ x = id_prefix omid j @ y" "0 \<le> i" "0 \<le> j"
  shows "i = j \<and> x = y"
  using assms make_id_inj [of omid i x j y] by (simp add: make_id_prefix)

lemma place_id_eq:
  "place_id omid i @ x = place_id omid j @ y \<Longrightarrow> 0 \<le> i \<Longrightarrow> 0 \<le> j \<Longrightarrow> i = j \<and> x = y"
  using id_prefix_eq [of omid i "''place'' @ x" j "''place'' @ y"] by (simp add: place_id_def make_id_prefix)

lemma om_key_inj [simp]: "om_key omid k = om_key omid k' \<longleftrightarrow> k = k'"
  by (simp add: om_key_def)

text \<open>The tags of the keys that end in a fresh request id.\<close>

definition request_tags :: "string set" where
  "request_tags = {'':cancel:'', '':amend_req:'', '':cancel_all_pending:''}"

text \<open>A key that mentions no number from \<open>n\<close> on, as an order id in front or as a request id at the end.\<close>

definition key_below :: "string \<Rightarrow> int \<Rightarrow> string \<Rightarrow> bool" where
  "key_below omid n k \<longleftrightarrow>
     (\<forall>i rest. 0 \<le> i \<longrightarrow> k = id_prefix omid i @ rest \<longrightarrow> i < n) \<and>
     (\<forall>tag\<in>request_tags. \<forall>i j suf. 0 \<le> i \<longrightarrow> 0 \<le> j \<longrightarrow> k = place_id omid i @ tag @ make_id omid j suf \<longrightarrow> j < n) \<and>
     (\<forall>j. 0 \<le> j \<longrightarrow> k = ''cancel_all:'' @ make_id omid j ''cancel_all'' \<longrightarrow> j < n)"

lemma key_below_mono: "key_below omid n k \<Longrightarrow> n \<le> n' \<Longrightarrow> key_below omid n' k"
  unfolding key_below_def by (blast intro: order.strict_trans2)

lemma key_below_place:
  assumes "0 \<le> i" "i < n" "\<And>tag y. tag \<in> request_tags \<Longrightarrow> rest \<noteq> tag @ y"
  shows "key_below omid n (place_id omid i @ rest)"
  unfolding key_below_def
proof (intro conjI allI impI ballI)
  fix i' r assume "0 \<le> i'" "place_id omid i @ rest = id_prefix omid i' @ r"
  then show "i' < n" using id_prefix_eq [of omid i "''place'' @ rest" i' r] assms by (simp add: place_id_def make_id_prefix)
next
  fix tag i' j suf
  assume "tag \<in> request_tags" "0 \<le> i'" "place_id omid i @ rest = place_id omid i' @ tag @ make_id omid j suf"
  then show "j < n" using place_id_eq [of omid i rest i'] assms by blast
next
  fix j assume "place_id omid i @ rest = ''cancel_all:'' @ make_id omid j ''cancel_all''"
  then show "j < n" by (simp add: place_id_def make_id_def)
qed

lemma key_below_request:
  assumes "0 \<le> i" "i < n" "0 \<le> j" "j < n" "tag \<in> request_tags"
  shows "key_below omid n (place_id omid i @ tag @ make_id omid j suf)"
  unfolding key_below_def
proof (intro conjI allI impI ballI)
  fix i' r assume "0 \<le> i'" "place_id omid i @ tag @ make_id omid j suf = id_prefix omid i' @ r"
  then show "i' < n"
    using id_prefix_eq [of omid i "''place'' @ tag @ make_id omid j suf" i' r] assms by (simp add: place_id_def make_id_prefix)
next
  fix tag' i' j' suf'
  assume t: "tag' \<in> request_tags" "0 \<le> i'" "0 \<le> j'"
    "place_id omid i @ tag @ make_id omid j suf = place_id omid i' @ tag' @ make_id omid j' suf'"
  then have "tag @ make_id omid j suf = tag' @ make_id omid j' suf'" using place_id_eq [OF t(4)] assms by blast
  then have "make_id omid j suf = make_id omid j' suf'" using t(1) assms(5) by (auto simp: request_tags_def)
  then show "j' < n" using id_prefix_eq [of omid j suf j' suf'] t(3) assms by (simp add: make_id_prefix)
next
  fix j' assume "place_id omid i @ tag @ make_id omid j suf = ''cancel_all:'' @ make_id omid j' ''cancel_all''"
  then show "j' < n" by (simp add: place_id_def make_id_def)
qed

lemma key_below_cancel_all:
  assumes "0 \<le> j" "j < n"
  shows "key_below omid n (''cancel_all:'' @ make_id omid j ''cancel_all'')"
  using assms make_id_inj [of omid j "''cancel_all''" _ "''cancel_all''"]
  by (auto simp: key_below_def place_id_def id_prefix_def make_id_def request_tags_def)

text \<open>A fresh key, from a fresh number.\<close>

lemma fresh_key:
  assumes "\<forall>e\<in>set (es_events s). \<forall>k. idempotency_key e = Some (om_key omid k) \<longrightarrow> key_below omid n k"
    and "ledger_inv s" "\<not> key_below omid n k"
  shows "get_by_idempotency_key s (om_key omid k) = None"
proof (cases "get_by_idempotency_key s (om_key omid k)")
  case (Some e)
  then have "e \<in> set (es_events s)" "idempotency_key e = Some (om_key omid k)"
    using get_by_key_iff [OF assms(2)] by auto
  with assms(1,3) show ?thesis by blast
qed simp

section \<open>The invariant\<close>

text \<open>The manager a restart would rebuild.\<close>

definition rec_of :: "string \<Rightarrow> event_store \<Rightarrow> order_manager" where
  "rec_of omid s = (case fold_log (\<lambda>e. om_is_own_event e omid) om_apply_event (es_events s) (om_init omid) of
     Inl _ \<Rightarrow> om_init omid | Inr r \<Rightarrow> r)"

lemma rec_of_eq: "om.recovered omid s r \<Longrightarrow> rec_of omid s = r"
  by (simp add: rec_of_def om.recovered_def)

text \<open>
  Every order the manager knows has an id it minted, no key on the log mentions a number that has
  not been used up durably, and submissions and fills are stored under the key of what they record.
\<close>

definition key_matches :: "string \<Rightarrow> event \<Rightarrow> bool" where
  "key_matches omid e \<longleftrightarrow>
     (let cid = text_at (payload e) ''client_order_id''; a = text_at (payload e) ''action'' in
      (a = ''SUBMIT'' \<longrightarrow> idempotency_key e = Some (om_key omid cid)) \<and>
      (a = ''FILL'' \<longrightarrow> (\<exists>fid. req_str (dget_dict (payload e) ''details'') ''fill_id'' = Inr fid \<and>
         idempotency_key e = Some (om_key omid (cid @ '':fill:'' @ fid)))))"

definition om_wf :: "string \<Rightarrow> event_store \<Rightarrow> order_manager \<Rightarrow> bool" where
  "om_wf omid s r \<longleftrightarrow> 1 \<le> om_next_seq r \<and> om_id r = omid \<and>
     (\<forall>cid \<in> fst ` set (om_snapshots r). \<exists>i. 0 \<le> i \<and> i < om_next_seq r \<and> cid = place_id omid i) \<and>
     (\<forall>e\<in>set (es_events s). \<forall>k. idempotency_key e = Some (om_key omid k) \<longrightarrow> key_below omid (om_next_seq r) k) \<and>
     (\<forall>e\<in>set (es_events s). om_is_own_event e omid \<longrightarrow> key_matches omid e)"

definition om_sound :: "string \<Rightarrow> string \<Rightarrow> int \<Rightarrow> 'ad om_world \<Rightarrow> bool" where
  "om_sound omid mid n w \<longleftrightarrow>
     ledger_inv (ow_store w) \<and> \<not> es_closed (ow_store w) \<and> \<not> py_strip_empty omid \<and> length omid \<le> MAX_OM_ID_LENGTH \<and>
     om.own_keys omid (ow_store w) \<and> om.recovered omid (ow_store w) (rec_of omid (ow_store w)) \<and>
     om_like (rec_of omid (ow_store w)) (ow_om w) \<and> om_wf omid (ow_store w) (rec_of omid (ow_store w)) \<and>
     n \<le> om_next_seq (rec_of omid (ow_store w)) \<and> esm_sound mid (ow_store w) (ow_esm w)"

lemma om_soundD:
  assumes "om_sound omid mid n w"
  shows "ledger_inv (ow_store w)" "om_id (ow_om w) = omid" "om_snapshots (ow_om w) = om_snapshots (rec_of omid (ow_store w))"
    "om_next_seq (rec_of omid (ow_store w)) \<le> om_next_seq (ow_om w)" "n \<le> om_next_seq (rec_of omid (ow_store w))"
    "om.own_keys omid (ow_store w)" "om.recovered omid (ow_store w) (rec_of omid (ow_store w))"
    "om_like (rec_of omid (ow_store w)) (ow_om w)" "om_wf omid (ow_store w) (rec_of omid (ow_store w))"
    "esm_sound mid (ow_store w) (ow_esm w)"
  using assms by (auto simp: om_sound_def om_like_def om_wf_def)

lemma om_sound_less: "om_sound omid mid n w \<Longrightarrow> n' \<le> n \<Longrightarrow> om_sound omid mid n' w"
  by (simp add: om_sound_def)

lemma known_id:
  assumes "om_sound omid mid n w" "map_of (om_snapshots (ow_om w)) cid = Some sn"
  obtains i where "0 \<le> i" "i < om_next_seq (rec_of omid (ow_store w))" "cid = place_id omid i"
proof -
  from assms have "cid \<in> fst ` set (om_snapshots (rec_of omid (ow_store w)))"
    using om_soundD(3) [OF assms(1)] by (metis domI dom_map_of_conv_image_fst)
  with om_soundD(9) [OF assms(1)] that show ?thesis by (auto simp: om_wf_def)
qed

text \<open>Changes that the log does not see: the adapter, and memory that stays like the rebuilt one.\<close>

lemma om_sound_adapter [simp]: "om_sound omid mid n (w\<lparr>ow_adapter := ad\<rparr>) = om_sound omid mid n w"
  by (simp add: om_sound_def)

lemma om_sound_memory:
  "om_sound omid mid n w \<Longrightarrow> om_like (ow_om w) m \<Longrightarrow> om_sound omid mid n (w\<lparr>ow_om := m\<rparr>)"
  using om_like_trans by (auto simp: om_sound_def)

text \<open>The key of another manager or machine.\<close>

lemma esm_key_foreign: "namespaced_key a b \<noteq> om_key omid k"
  by (simp add: namespaced_key_def om_key_def ESM_SOURCE_TAG_def OM_SOURCE_TAG_def)

definition om_foreign :: "string \<Rightarrow> string \<Rightarrow> dict \<Rightarrow> string option \<Rightarrow> bool" where
  "om_foreign omid mid pl key \<longleftrightarrow>
     (dget pl ''source'' \<noteq> VStr OM_SOURCE_TAG \<or> dget pl ''om_id'' \<noteq> VStr omid) \<and>
     (dget pl ''source'' \<noteq> VStr ESM_SOURCE_TAG \<or> dget pl ''machine_id'' \<noteq> VStr mid) \<and>
     (\<forall>k. key \<noteq> Some (om_key omid k))"

text \<open>An append that is not the manager's leaves it in step.\<close>

lemma om_sound_append:
  assumes "om_sound omid mid n w" "append_event E ty pl key sv (ow_store w) = (q, s')"
    and "dget pl ''source'' \<noteq> VStr OM_SOURCE_TAG \<or> dget pl ''om_id'' \<noteq> VStr omid" "\<And>k. key \<noteq> Some (om_key omid k)"
    and "esm_sound mid s' esm'"
  shows "om_sound omid mid n (w\<lparr>ow_store := s', ow_esm := esm'\<rparr>) \<and> rec_of omid s' = rec_of omid (ow_store w)"
proof -
  note inv = om_soundD(1) [OF assms(1)]
  have "om.recovered omid s' (rec_of omid (ow_store w))"
    using om.persist_foreign [OF inv om_soundD(7) [OF assms(1)] assms(2)] assms(3)
    by (auto simp: om_is_own_event_def)
  note r = rec_of_eq [OF this] and rec = this
  have keys: "om.own_keys omid s'"
    by (rule om.own_keys_foreign [OF om_soundD(6) [OF assms(1)] inv assms(2,4)])
  obtain new where new: "es_events s' = es_events (ow_store w) @ new" "\<forall>e\<in>set new. idempotency_key e = key \<and> payload e = pl"
    using es.put_log_grows [OF inv assms(2)] by blast
  have "\<forall>e\<in>set new. \<not> om_is_own_event e omid" using new assms(3) by (auto simp: om_is_own_event_def)
  then have "om_wf omid s' (rec_of omid (ow_store w))"
    using om_soundD(9) [OF assms(1)] new assms(4) by (auto simp: om_wf_def)
  with assms(1,5) r rec keys es.put_inv [OF inv assms(2)] append_keeps_open [OF assms(2) inv] show ?thesis
    by (simp add: om_sound_def)
qed

lemma om_sound_failed:
  assumes "om_sound omid mid n w" "append_event E ty pl key sv (ow_store w) = (Inl x, s')" "esm_sound mid s' esm'"
  shows "om_sound omid mid n (w\<lparr>ow_store := s', ow_esm := esm'\<rparr>) \<and> rec_of omid s' = rec_of omid (ow_store w)"
proof -
  note inv = om_soundD(1) [OF assms(1)]
  have log: "es_events s' = es_events (ow_store w)" by (rule es.put_fail [OF inv assms(2)])
  then have "rec_of omid s' = rec_of omid (ow_store w)" by (simp add: rec_of_def)
  with log assms(1,3) es.put_inv [OF inv assms(2)] append_keeps_open [OF assms(2) inv] show ?thesis
    by (simp add: om_sound_def om_wf_def om.own_keys_def om.recovered_def)
qed

lemma drive_sound:
  assumes "drive_execution_sm E cid trig from sn w = (q, w')" "om_sound omid mid n w"
  shows "om_sound omid mid n w' \<and> ow_om w' = ow_om w \<and> ow_adapter w' = ow_adapter w \<and>
         rec_of omid (ow_store w') = rec_of omid (ow_store w)"
proof (cases "\<exists>t. exec_trigger_for trig from sn = Inr (Some t)")
  case False
  with assms show ?thesis by (auto simp: drive_execution_sm_def split: sum.splits option.splits)
next
  case True
  then obtain t where t: "exec_trigger_for trig from sn = Inr (Some t)" by blast
  obtain r s' esm' where tr: "transition E t (exec_request_id E cid t) (Some [(''client_order_id'', VStr cid)])
      (ow_store w, ow_esm w) = (r, (s', esm'))" by (metis surj_pair)
  have w': "w' = w\<lparr>ow_store := s', ow_esm := esm'\<rparr>"
    using assms(1) t tr by (auto simp: drive_execution_sm_def Let_def split: sum.splits if_splits)
  have es: "esm_sound mid s' esm'" by (rule transition_sound [OF tr om_soundD(10) [OF assms(2)]])
  have "om_sound omid mid n (w\<lparr>ow_store := s', ow_esm := esm'\<rparr>) \<and> rec_of omid s' = rec_of omid (ow_store w)"
    using tr
  proof (cases rule: transition_cases)
    case (refused x)
    with assms(2) show ?thesis by simp
  next
    case (replayed e)
    with assms(2) show ?thesis by simp
  next
    case (unrecorded x ty pl k)
    from om_sound_failed [OF assms(2) unrecorded(1) es] show ?thesis .
  next
    case (recorded e to c)
    show ?thesis
      by (rule om_sound_append [OF assms(2) recorded(4) _ _ es])
        (simp_all add: esm_key_foreign ESM_SOURCE_TAG_def OM_SOURCE_TAG_def)
  qed
  with w' show ?thesis by simp
qed

section \<open>Recording an event\<close>

lemma om_payload_parts [simp]:
  "dget (om_payload omid a cid seq t f to d) ''source'' = VStr OM_SOURCE_TAG"
  "dget (om_payload omid a cid seq t f to d) ''om_id'' = VStr omid"
  "dget (om_payload omid a cid seq t f to d) ''seq'' = vopt VInt seq"
  "dget (om_payload omid a cid seq t f to d) ''machine_id'' = VNone"
  "text_at (om_payload omid a cid seq t f to d) ''action'' = a"
  "text_at (om_payload omid a cid seq t f to d) ''client_order_id'' = cid"
  "dget_dict (om_payload omid a cid seq t f to d) ''details'' = d"
  "req_val (om_payload omid a cid seq t f to d) ''trigger'' = Inr (vopt (\<lambda>t. VStr (order_trigger_value t)) t)"
  "req_val (om_payload omid a cid seq t f to d) ''from_state'' = Inr (vopt (\<lambda>s. VStr (order_state_value s)) f)"
  "req_val (om_payload omid a cid seq t f to d) ''to_state'' = Inr (vopt (\<lambda>s. VStr (order_state_value s)) to)"
  by (simp_all add: om_payload_def text_at_def req_val_def)

lemma keys_update: "fst ` set (AList.update k v al) = insert k (fst ` set al)"
  by (induction al) auto

lemma om_action_keys:
  "fst ` set (om_snapshots (snd (om_apply_action a cid now pl m))) \<subseteq>
     (if a = ''SUBMIT'' then {cid} else {}) \<union> fst ` set (om_snapshots m)"
proof (cases "map_of (om_snapshots m) cid")
  case None
  then show ?thesis
    by (simp add: om_apply_action_def Let_def put_snapshot_eq keys_update subset_insertI split: sum.split)
next
  case (Some sn)
  then have "cid \<in> fst ` set (om_snapshots m)" by (metis domI dom_map_of_conv_image_fst)
  then have up: "fst ` set (AList.update cid x (om_snapshots m)) = fst ` set (om_snapshots m)" for x
    by (auto simp: keys_update)
  show ?thesis
    using Some by (simp add: om_apply_action_def Let_def put_snapshot_eq up subset_insertI2 split: sum.split)
qed

text \<open>What applying a payload of the manager does to a memory that has not seen it.\<close>

lemma om_apply_payload:
  assumes "payload e = om_payload omid a cid seq t f to d" "event_id e \<notin> om_applied_event_ids m"
  shows "om_apply_event e m = om_apply_action a cid (timestamp_utc e) (payload e)
    (m\<lparr>om_applied_event_ids := insert (event_id e) (om_applied_event_ids m),
       om_next_seq := (case seq of None \<Rightarrow> om_next_seq m | Some i \<Rightarrow> max (om_next_seq m) (i + 1))\<rparr>)"
  using om_apply_new [OF assms(2)] assms(1) by (cases seq) (simp_all add: bindP_def bump_seq_def)

definition seq_after :: "int option \<Rightarrow> int \<Rightarrow> int" where
  "seq_after seq n = (case seq of None \<Rightarrow> n | Some i \<Rightarrow> max n (i + 1))"

lemma om_record_cases:
  assumes rec: "om_record E a cid seq t f to d k w = (q, w')" and sound: "om_sound omid mid n w"
    and ok: "\<And>e. payload e = om_payload omid a cid seq t f to d \<Longrightarrow> event_id e \<notin> om_applied_event_ids (ow_om w) \<Longrightarrow>
        \<exists>x m'. om_apply_event e (ow_om w) = (Inr x, m')"
    and key: "key_below omid (seq_after seq (om_next_seq (rec_of omid (ow_store w)))) k"
    and submit: "a = ''SUBMIT'' \<Longrightarrow> (\<exists>i\<ge>0. seq = Some i \<and> cid = place_id omid i) \<and> k = cid"
    and filled: "a = ''FILL'' \<Longrightarrow> \<exists>fid. req_str d ''fill_id'' = Inr fid \<and> k = cid @ '':fill:'' @ fid"
  obtains (failed) x where "q = Inl x" "w' = w\<lparr>ow_store := ow_store w'\<rparr>" "es_events (ow_store w') = es_events (ow_store w)"
      "om_sound omid mid n w'"
  | (known) sn e where "q = Inr sn" "w' = w\<lparr>ow_store := ow_store w'\<rparr>" "es_events (ow_store w') = es_events (ow_store w)"
      "get_by_idempotency_key (ow_store w) (om_key omid k) = Some e" "om_sound omid mid n w'"
  | (new) sn e m' where "q = Inr sn" "w' = w\<lparr>ow_store := ow_store w', ow_om := m'\<rparr>"
      "es_events (ow_store w') = es_events (ow_store w) @ [e]" "payload e = om_payload omid a cid seq t f to d"
      "idempotency_key e = Some (om_key omid k)" "get_by_idempotency_key (ow_store w) (om_key omid k) = None"
      "event_id e \<notin> om_applied_event_ids (ow_om w)" "om_apply_event e (ow_om w) = (Inr sn, m')"
      "om_sound omid mid (seq_after seq n) w'"
proof -
  let ?s = "ow_store w" and ?pl = "om_payload omid a cid seq t f to d"
  note D = om_soundD [OF sound]
  obtain p s' where put: "append_event E (om_event_type_for_action a to) ?pl (Some (om_key omid k)) 1 ?s = (p, s')"
    by (meson surj_pair)
  have esm: "esm_sound mid s' (ow_esm w)"
    by (rule foreign_sound [OF put D(10)]) (simp add: ESM_SOURCE_TAG_def OM_SOURCE_TAG_def)
  show ?thesis
  proof (cases p)
    case (Inl x)
    have w': "q = Inl x" "w' = w\<lparr>ow_store := s'\<rparr>"
      using rec put Inl D(2) by (simp_all add: om_record_def om_persist_def bindP_def)
    with om_sound_failed [OF sound put [unfolded Inl] esm] es.put_fail [OF D(1) put [unfolded Inl]] show ?thesis
      by (intro failed) simp_all
  next
    case (Inr e)
    have w': "(q, w') = with_om (om_apply_event e) (w\<lparr>ow_store := s'\<rparr>)"
      using rec put Inr D(2) by (simp add: om_record_def om_persist_def bindP_def)
    have put': "append_event E (om_event_type_for_action a to) ?pl (Some (om_key omid k)) 1 ?s = (Inr e, s')"
      using put Inr by simp
    have inv': "ledger_inv s'" and op: "\<not> es_closed s'"
      using es.put_inv [OF D(1) put'] append_keeps_open [OF put' D(1)] sound by (simp_all add: om_sound_def)
    have own: "payload e = ?pl \<Longrightarrow> om_is_own_event e omid" for e by (simp add: om_is_own_event_def)
    note step = om.record_step [OF D(1,7,8,6) put' own ok]
    show ?thesis
    proof (rule step)
      fix x assume known: "get_by_idempotency_key ?s (om_key omid k) = Some e" "es_events s' = es_events ?s"
        "om_apply_event e (ow_om w) = (Inr x, ow_om w)" "om.recovered omid s' (rec_of omid ?s)" "om.own_keys omid s'"
      from rec_of_eq [OF known(4)] have "rec_of omid s' = rec_of omid ?s" .
      then have "om_sound omid mid n (w\<lparr>ow_store := s'\<rparr>)"
        using sound known inv' op esm by (simp add: om_sound_def om_wf_def)
      with known w' show ?thesis by (intro that(2) [of x e]) (simp_all add: with_om_def)
    next
      fix x m' r' assume new: "get_by_idempotency_key ?s (om_key omid k) = None" "es_events s' = es_events ?s @ [e]"
        "payload e = ?pl" "idempotency_key e = Some (om_key omid k)" "event_id e \<notin> om_applied_event_ids (ow_om w)"
        "om_apply_event e (ow_om w) = (Inr x, m')" "om_apply_event e (rec_of omid ?s) = (Inr x, r')" "om_like r' m'"
        "om.recovered omid s' r'" "om.own_keys omid s'"
      have r': "rec_of omid s' = r'" by (rule rec_of_eq [OF new(9)])
      let ?r = "rec_of omid ?s"
      have fresh: "event_id e \<notin> om_applied_event_ids ?r" using new(5) D(8) by (simp add: om_like_def)
      have act: "(Inr x, r') = om_apply_action a cid (timestamp_utc e) (payload e)
        (?r\<lparr>om_applied_event_ids := insert (event_id e) (om_applied_event_ids ?r),
            om_next_seq := seq_after seq (om_next_seq ?r)\<rparr>)"
        using om_apply_payload [OF new(3) fresh] new(7) by (simp add: seq_after_def)
      let ?r1 = "?r\<lparr>om_applied_event_ids := insert (event_id e) (om_applied_event_ids ?r),
            om_next_seq := seq_after seq (om_next_seq ?r)\<rparr>"
      have r'_eq: "r' = snd (om_apply_action a cid (timestamp_utc e) (payload e) ?r1)" using act by (metis snd_conv)
      have seq: "om_next_seq r' = seq_after seq (om_next_seq ?r)" and oid: "om_id r' = om_id ?r"
        unfolding r'_eq om_action_frame by simp_all
      have ge: "om_next_seq ?r \<le> seq_after seq (om_next_seq ?r)" by (simp add: seq_after_def split: option.split)
      have wf: "om_wf omid ?s ?r" by (rule D(9))
      have "om_wf omid s' r'"
        unfolding om_wf_def
      proof (intro conjI ballI allI impI)
        show "1 \<le> om_next_seq r'" "om_id r' = omid" using wf ge seq oid by (simp_all add: om_wf_def)
      next
        fix c assume "c \<in> fst ` set (om_snapshots r')"
        then have "(a = ''SUBMIT'' \<and> c = cid) \<or> c \<in> fst ` set (om_snapshots ?r)"
          using om_action_keys [of a cid "timestamp_utc e" "payload e" ?r1] unfolding r'_eq
          by (auto split: if_splits)
        then show "\<exists>i\<ge>0. i < om_next_seq r' \<and> c = place_id omid i"
        proof
          assume "a = ''SUBMIT'' \<and> c = cid"
          with submit obtain i where "0 \<le> i" "seq = Some i" "c = place_id omid i" by auto
          with seq show ?thesis by (intro exI [of _ i]) (simp add: seq_after_def)
        next
          assume "c \<in> fst ` set (om_snapshots ?r)"
          with wf obtain i where "0 \<le> i" "i < om_next_seq ?r" "c = place_id omid i" by (auto simp: om_wf_def)
          with seq ge show ?thesis by (intro exI [of _ i]) simp
        qed
      next
        fix e' k' assume "e' \<in> set (es_events s')" "idempotency_key e' = Some (om_key omid k')"
        then have "key_below omid (om_next_seq ?r) k' \<or> k' = k"
          using new(2,4) wf by (auto simp: om_wf_def)
        with key seq ge key_below_mono show "key_below omid (om_next_seq r') k'" by auto
      next
        fix e' assume "e' \<in> set (es_events s')" "om_is_own_event e' omid"
        then have "e' \<in> set (es_events ?s) \<and> key_matches omid e' \<or> e' = e" using new(2) wf by (auto simp: om_wf_def)
        moreover have "key_matches omid e" using new(3,4) submit filled by (simp add: key_matches_def)
        ultimately show "key_matches omid e'" by blast
      qed
      moreover have "seq_after seq n \<le> om_next_seq r'"
        using D(5) seq by (auto simp: seq_after_def split: option.split)
      ultimately have "om_sound omid mid (seq_after seq n) (w\<lparr>ow_store := s', ow_om := m'\<rparr>)"
        using sound new r' inv' op esm by (simp add: om_sound_def)
      with new w' show ?thesis by (intro that(3) [of x m' e]) (simp_all add: with_om_def)
    qed
  qed
qed

section \<open>The effect of each kind of event\<close>

definition seen :: "event \<Rightarrow> int option \<Rightarrow> order_manager \<Rightarrow> order_manager" where
  "seen e seq m = m\<lparr>om_applied_event_ids := insert (event_id e) (om_applied_event_ids m),
     om_next_seq := seq_after seq (om_next_seq m)\<rparr>"

lemma seen_sel [simp]:
  "om_snapshots (seen e seq m) = om_snapshots m" "om_id (seen e seq m) = om_id m"
  "fills_of (seen e seq m) cid = fills_of m cid" "om_processed_fill_ids (seen e seq m) = om_processed_fill_ids m"
  "om_next_seq (seen e seq m) = seq_after seq (om_next_seq m)"
  by (simp_all add: seen_def)

lemma om_apply_seen:
  "payload e = om_payload omid a cid seq t f to d \<Longrightarrow> event_id e \<notin> om_applied_event_ids m \<Longrightarrow>
   om_apply_event e m = om_apply_action a cid (timestamp_utc e) (payload e) (seen e seq m)"
  using om_apply_payload by (simp add: seen_def seq_after_def)

definition submit_details :: "symbol \<Rightarrow> order_side \<Rightarrow> order_type \<Rightarrow> decimal \<Rightarrow> decimal option \<Rightarrow> time_in_force \<Rightarrow> bool \<Rightarrow> dict" where
  "submit_details symb sd ot quantity limit_price tif reduce_only =
     [(''limit_price'', vopt VDec limit_price), (''order_type'', VStr (order_type_value ot)),
      (''quantity'', VDec quantity), (''reduce_only'', VBool reduce_only),
      (''side'', VStr (side_value sd)), (''symbol'', VStr symb),
      (''time_in_force'', VStr (tif_value tif))]"

definition new_snapshot :: "string \<Rightarrow> string \<Rightarrow> symbol \<Rightarrow> order_side \<Rightarrow> order_type \<Rightarrow> decimal \<Rightarrow> decimal option \<Rightarrow>
    time_in_force \<Rightarrow> bool \<Rightarrow> order_snapshot" where
  "new_snapshot cid now symb sd ot quantity limit_price tif reduce_only =
     \<lparr>os_client_order_id = cid, os_lifecycle_state = L_SUBMITTED, os_exchange_order_id = None,
      os_symbol = symb, os_side = sd, os_order_type = ot, os_quantity = quantity, os_filled_quantity = 0,
      os_limit_price = limit_price, os_time_in_force = tif, os_reduce_only = reduce_only,
      os_created_at_utc = now, os_updated_at_utc = now, os_reject_reason = None\<rparr>"

lemma opt_dec_vopt [simp]: "opt_dec (vopt VDec x) = Inr x"
  by (cases x) (simp_all add: opt_dec_def)

lemma apply_submit:
  assumes "payload e = om_payload omid ''SUBMIT'' cid seq t f to (submit_details symb sd ot q lp tif ro)"
    "event_id e \<notin> om_applied_event_ids m" "\<not> py_strip_empty symb"
  shows "om_apply_event e m = (Inr (Some (new_snapshot cid (timestamp_utc e) symb sd ot q lp tif ro)),
    (seen e seq m)\<lparr>om_processed_fill_ids := (om_processed_fill_ids m)(cid \<mapsto> fills_of m cid),
       om_snapshots := AList.update cid (new_snapshot cid (timestamp_utc e) symb sd ot q lp tif ro) (om_snapshots m)\<rparr>)"
  using assms
  by (simp add: om_apply_seen [OF assms(1,2)] om_apply_action_def Let_def submitted_snapshot_def submit_details_def
      Symbol_init_def put_snapshot_eq new_snapshot_def)

lemma apply_intent:
  assumes "payload e = om_payload omid a cid seq t f to d" "event_id e \<notin> om_applied_event_ids m"
    "a = ''CANCEL_ALL_REQUESTED'' \<or> a = ''AMEND_REQUESTED''"
  shows "om_apply_event e m = (Inr (map_of (om_snapshots m) cid), seen e seq m)"
  using assms(3) by (auto simp: om_apply_seen [OF assms(1,2)] om_apply_action_def)

definition status_snapshot :: "order_snapshot \<Rightarrow> order_state \<Rightarrow> dict \<Rightarrow> string \<Rightarrow> order_snapshot" where
  "status_snapshot sn to d now = sn\<lparr>os_lifecycle_state := to,
     os_exchange_order_id := str_or (dget d ''exchange_order_id'') (os_exchange_order_id sn),
     os_reject_reason := str_or (dget d ''reject_reason'') (os_reject_reason sn),
     os_updated_at_utc := now\<rparr>"

lemma recorded_transition_ok:
  assumes "om_next_state f t = Inr to"
  shows "recorded_transition (om_payload omid a cid seq (Some t) (Some f) (Some to) d) f = Inr to"
  using assms om_legal_next [of f t] by (simp add: recorded_transition_def)

lemma apply_status:
  assumes "payload e = om_payload omid ''STATUS_UPDATE'' cid seq (Some t) (Some f) (Some to) d"
    "event_id e \<notin> om_applied_event_ids m" "map_of (om_snapshots m) cid = Some sn"
    "os_lifecycle_state sn = f" "om_next_state f t = Inr to"
  shows "om_apply_event e m = (Inr (Some (status_snapshot sn to d (timestamp_utc e))),
    (seen e seq m)\<lparr>om_snapshots := AList.update cid (status_snapshot sn to d (timestamp_utc e)) (om_snapshots m)\<rparr>)"
  using assms(1,3,4) recorded_transition_ok [OF assms(5)]
  by (simp add: om_apply_seen [OF assms(1,2)] om_apply_action_def put_snapshot_eq status_snapshot_def Let_def)

definition fill_snapshot :: "order_snapshot \<Rightarrow> order_state \<Rightarrow> decimal \<Rightarrow> string \<Rightarrow> order_snapshot" where
  "fill_snapshot sn to q now = sn\<lparr>os_lifecycle_state := to,
     os_filled_quantity := dadd (os_filled_quantity sn) q, os_updated_at_utc := now\<rparr>"

lemma apply_fill:
  assumes "payload e = om_payload omid ''FILL'' cid seq (Some t) (Some f) (Some to)
      [(''fill_id'', VStr fid), (''fill_price'', VDec px), (''fill_quantity'', VDec q)]"
    "event_id e \<notin> om_applied_event_ids m" "map_of (om_snapshots m) cid = Some sn"
    "os_lifecycle_state sn = f" "om_next_state f t = Inr to"
  shows "om_apply_event e m = (Inr (Some (fill_snapshot sn to q (timestamp_utc e))),
    (seen e seq m)\<lparr>om_processed_fill_ids := (om_processed_fill_ids m)(cid \<mapsto> insert fid (fills_of m cid)),
       om_snapshots := AList.update cid (fill_snapshot sn to q (timestamp_utc e)) (om_snapshots m)\<rparr>)"
  using assms(1,3,4) recorded_transition_ok [OF assms(5)]
  by (simp add: om_apply_seen [OF assms(1,2)] om_apply_action_def put_snapshot_eq fill_snapshot_def Let_def)

definition amend_snapshot :: "order_snapshot \<Rightarrow> decimal \<Rightarrow> decimal option \<Rightarrow> string \<Rightarrow> order_snapshot" where
  "amend_snapshot sn q lp now = sn\<lparr>os_quantity := dec_or (Some q) (os_quantity sn), os_limit_price := lp,
     os_updated_at_utc := now\<rparr>"

lemma apply_amend:
  assumes "payload e = om_payload omid ''AMEND'' cid seq t f to
      [(''new_limit_price'', vopt VDec lp), (''new_quantity'', VDec q)]"
    "event_id e \<notin> om_applied_event_ids m" "map_of (om_snapshots m) cid = Some sn"
  shows "om_apply_event e m = (Inr (Some (amend_snapshot sn q lp (timestamp_utc e))),
    (seen e seq m)\<lparr>om_snapshots := AList.update cid (amend_snapshot sn q lp (timestamp_utc e)) (om_snapshots m)\<rparr>)"
proof -
  have "opt_dec (VDec q) = Inr (Some q)" by (simp add: opt_dec_def)
  then show ?thesis
    using assms(1,3)
    by (simp add: om_apply_seen [OF assms(1,2)] om_apply_action_def put_snapshot_eq amend_snapshot_def Let_def)
qed

section \<open>The public methods keep the invariant\<close>

definition om_keeps :: "string \<Rightarrow> string \<Rightarrow> int \<Rightarrow> ('ad, 'a) om_prog \<Rightarrow> bool" where
  "om_keeps omid mid n f \<longleftrightarrow> (\<forall>w. om_sound omid mid n w \<longrightarrow> om_sound omid mid n (snd (f w)))"

lemma om_keepsI: "(\<And>w. om_sound omid mid n w \<Longrightarrow> om_sound omid mid n (snd (f w))) \<Longrightarrow> om_keeps omid mid n f"
  by (simp add: om_keeps_def)

lemma om_keepsD: "om_keeps omid mid n f \<Longrightarrow> om_sound omid mid n w \<Longrightarrow> om_sound omid mid n (snd (f w))"
  by (simp add: om_keeps_def)

lemma om_keeps_bind_at:
  assumes "om_sound omid mid n (snd (f w))" "\<And>x. om_keeps omid mid n (g x)"
  shows "om_sound omid mid n (snd (bindP f g w))"
proof -
  obtain q w1 where f: "f w = (q, w1)" by (meson surj_pair)
  with assms(1) om_keepsD [OF assms(2)] show ?thesis by (cases q) (simp_all add: bindP_def)
qed

lemma om_keeps_bind: "om_keeps omid mid n f \<Longrightarrow> (\<And>x. om_keeps omid mid n (g x)) \<Longrightarrow> om_keeps omid mid n (bindP f g)"
  by (intro om_keepsI om_keeps_bind_at) (simp_all add: om_keepsD)

lemma om_keeps_const: "om_keeps omid mid n (\<lambda>w. (r, w))"
  by (simp add: om_keeps_def)

lemma om_keeps_drive: "om_keeps omid mid n (drive_execution_sm E cid trig from sn)"
  by (rule om_keepsI) (metis drive_sound surj_pair snd_conv)

lemma om_keeps_adapter: "om_keeps omid mid n (with_adapter f)"
  by (rule om_keepsI) (simp add: with_adapter_def split: prod.split)

lemma om_record_sound:
  assumes "om_sound omid mid n w"
    and "\<And>e. payload e = om_payload omid a cid seq t f to d \<Longrightarrow> event_id e \<notin> om_applied_event_ids (ow_om w) \<Longrightarrow>
        \<exists>x m'. om_apply_event e (ow_om w) = (Inr x, m')"
    and "key_below omid (seq_after seq (om_next_seq (rec_of omid (ow_store w)))) k"
    and "a = ''SUBMIT'' \<Longrightarrow> (\<exists>i\<ge>0. seq = Some i \<and> cid = place_id omid i) \<and> k = cid"
    and "a = ''FILL'' \<Longrightarrow> \<exists>fid. req_str d ''fill_id'' = Inr fid \<and> k = cid @ '':fill:'' @ fid"
  shows "om_sound omid mid n (snd (om_record E a cid seq t f to d k w))"
proof -
  obtain q w' where r: "om_record E a cid seq t f to d k w = (q, w')" by (meson surj_pair)
  have le: "n \<le> seq_after seq n" by (simp add: seq_after_def split: option.split)
  from r assms show ?thesis
    by (cases rule: om_record_cases) (auto simp: r intro: om_sound_less [OF _ le])
qed

end
