(* ===== verification/Order_Recovery.thy ===== *)
theory Order_Recovery
  imports Order_Ledger
begin

text \<open>
  Every public method of the order manager keeps it in step with its log, whatever the adapter
  answers and wherever the method stops; hence the manager of any run, crashes and restarts
  included, is the one its log rebuilds.
\<close>

section \<open>Recording a step of an order\<close>

lemma place_rest_plain:
  "tag \<in> request_tags \<Longrightarrow> '':status:'' @ x \<noteq> tag @ y"
  "tag \<in> request_tags \<Longrightarrow> '':fill:'' @ x \<noteq> tag @ y"
  "tag \<in> request_tags \<Longrightarrow> '':submit_failed'' \<noteq> tag @ y"
  "tag \<in> request_tags \<Longrightarrow> '':cancel_failed:'' @ x \<noteq> tag @ y"
  "tag \<in> request_tags \<Longrightarrow> '':amend_applied:'' @ x \<noteq> tag @ y"
  "tag \<in> request_tags \<Longrightarrow> '':cancel_all_confirm:'' @ x \<noteq> tag @ y"
  by (auto simp: request_tags_def)

lemmas plain_rest = place_rest_plain place_rest_plain [simplified]

lemma seq_after_ge: "n \<le> seq_after seq n"
  by (simp add: seq_after_def split: option.split)

text \<open>A key of an order the manager knows, with a tag of its own or ending in a fresh request id.\<close>

lemma known_key:
  assumes "om_sound omid mid n w" "map_of (om_snapshots (ow_om w)) cid = Some sn"
    and "\<And>tag y. tag \<in> request_tags \<Longrightarrow> rest \<noteq> tag @ y"
  shows "key_below omid (seq_after seq (om_next_seq (rec_of omid (ow_store w)))) (cid @ rest)"
proof -
  obtain i where i: "0 \<le> i" "i < om_next_seq (rec_of omid (ow_store w))" "cid = place_id omid i"
    by (rule known_id [OF assms(1,2)])
  with key_below_place [OF i(1,2) assms(3)] show ?thesis by (auto intro: key_below_mono [OF _ seq_after_ge])
qed

lemma known_request_key:
  assumes "om_sound omid mid n w" "map_of (om_snapshots (ow_om w)) cid = Some sn" "tag \<in> request_tags"
    and "0 \<le> j" "j < seq_after seq (om_next_seq (rec_of omid (ow_store w)))"
  shows "key_below omid (seq_after seq (om_next_seq (rec_of omid (ow_store w)))) (cid @ tag @ make_id omid j suf)"
proof -
  obtain i where i: "0 \<le> i" "i < om_next_seq (rec_of omid (ow_store w))" "cid = place_id omid i"
    by (rule known_id [OF assms(1,2)])
  have "i < seq_after seq (om_next_seq (rec_of omid (ow_store w)))" using i(2) seq_after_ge by (rule order.strict_trans2)
  from key_below_request [OF i(1) this assms(4,5,3)] i(3) show ?thesis by simp
qed

lemma status_sound:
  assumes "om_sound omid mid n w" "map_of (om_snapshots (ow_om w)) cid = Some sn"
    and "om_next_state (os_lifecycle_state sn) t = Inr to"
    and "key_below omid (seq_after seq (om_next_seq (rec_of omid (ow_store w)))) k"
  shows "om_sound omid mid n
    (snd (om_record E ''STATUS_UPDATE'' cid seq (Some t) (Some (os_lifecycle_state sn)) (Some to) d k w))"
  by (rule om_record_sound [OF assms(1) _ assms(4)]) (use apply_status [OF _ _ assms(2) refl assms(3)] in auto)

lemma ingest_sound: "om_keeps omid mid n (ingest_status E cid status xid reason)"
proof (rule om_keepsI)
  fix w :: "'ad om_world" assume s: "om_sound omid mid n w"
  show "om_sound omid mid n (snd (ingest_status E cid status xid reason w))"
  proof (cases "map_of (om_snapshots (ow_om w)) cid")
    case None
    with s show ?thesis by (simp add: ingest_status_def snapshot_at_def)
  next
    case (Some sn)
    show ?thesis
    proof (cases "STATUS_TO_TRIGGER status")
      case None
      with Some s show ?thesis by (simp add: ingest_status_def snapshot_at_def)
    next
      case t: (Some t)
      show ?thesis
      proof (cases "om_next_state (os_lifecycle_state sn) t")
        case (Inl x)
        then have "\<not> om_is_legal (os_lifecycle_state sn) t" by (simp add: om_legal_next)
        with Some t s show ?thesis by (simp add: ingest_status_def snapshot_at_def Let_def split: sum.split)
      next
        case (Inr to)
        then have "om_is_legal (os_lifecycle_state sn) t" by (auto simp: om_legal_next)
        with Some t Inr show ?thesis
          by (simp add: ingest_status_def snapshot_at_def Let_def)
            (intro om_keeps_bind_at status_sound [OF s Some Inr] om_keeps_bind om_keeps_drive om_keeps_const
              known_key [OF s Some] plain_rest)
      qed
    qed
  qed
qed

lemma fail_sound:
  assumes "\<And>tag y. tag \<in> request_tags \<Longrightarrow> rest \<noteq> tag @ y"
  shows "om_keeps omid mid n (fail_and_raise E X cid t (cid @ rest) x)"
proof (rule om_keepsI)
  fix w :: "'a om_world" assume s: "om_sound omid mid n w"
  show "om_sound omid mid n (snd (fail_and_raise E X cid t (cid @ rest) x w))"
  proof (cases "map_of (om_snapshots (ow_om w)) cid")
    case None
    with s show ?thesis by (simp add: fail_and_raise_def snapshot_at_def)
  next
    case (Some sn)
    show ?thesis
    proof (cases "om_next_state (os_lifecycle_state sn) t")
      case (Inl y)
      then have "\<not> om_is_legal (os_lifecycle_state sn) t" by (simp add: om_legal_next)
      with Some s show ?thesis by (simp add: fail_and_raise_def snapshot_at_def Let_def)
    next
      case (Inr to)
      then have "om_is_legal (os_lifecycle_state sn) t" by (auto simp: om_legal_next)
      with s show ?thesis
        by (simp add: fail_and_raise_def snapshot_at_def Some Inr Let_def)
          (intro impI om_keeps_bind_at status_sound [OF s Some Inr] om_keeps_const known_key [OF s Some] assms)
    qed
  qed
qed

section \<open>Fresh numbers\<close>

definition take_id :: "'ad om_world \<Rightarrow> 'ad om_world" where
  "take_id w = w\<lparr>ow_om := (ow_om w)\<lparr>om_next_seq := om_next_seq (ow_om w) + 1\<rparr>\<rparr>"

lemma next_id_eq:
  "bindP (with_om (om_next_id suf)) g w = g (om_next_seq (ow_om w), make_id (om_id (ow_om w)) (om_next_seq (ow_om w)) suf) (take_id w)"
  by (simp add: bindP_def with_om_def om_next_id_def take_id_def Let_def)

lemma take_id_sel [simp]:
  "ow_store (take_id w) = ow_store w" "ow_esm (take_id w) = ow_esm w" "ow_adapter (take_id w) = ow_adapter w"
  "om_snapshots (ow_om (take_id w)) = om_snapshots (ow_om w)" "om_id (ow_om (take_id w)) = om_id (ow_om w)"
  "om_applied_event_ids (ow_om (take_id w)) = om_applied_event_ids (ow_om w)"
  "fills_of (ow_om (take_id w)) cid = fills_of (ow_om w) cid"
  by (simp_all add: take_id_def)

lemma take_id_sound: "om_sound omid mid n w \<Longrightarrow> om_sound omid mid n (take_id w)"
  unfolding take_id_def by (rule om_sound_memory) (auto simp: om_like_def)

lemma next_seq_pos: "om_sound omid mid n w \<Longrightarrow> 1 \<le> om_next_seq (ow_om w)"
  using om_soundD(4,9) [of omid mid n w] by (auto simp: om_wf_def)

lemma below_taken:
  assumes "om_sound omid mid n w"
  shows "0 \<le> om_next_seq (ow_om w) \<and> om_next_seq (ow_om w) < seq_after (Some (om_next_seq (ow_om w))) m"
  using next_seq_pos [OF assms] by (simp add: seq_after_def)

lemma place_sound:
  assumes "\<not> py_strip_empty symb"
  shows "om_keeps omid mid n (om_place_order E X symb sd ot q lp tif ro)"
proof (rule om_keepsI)
  fix w :: "'a om_world" assume s: "om_sound omid mid n w"
  let ?i = "om_next_seq (ow_om w)" and ?w = "take_id w"
  have cid: "make_id (om_id (ow_om w)) ?i ''place'' = place_id omid ?i"
    using om_soundD(2) [OF s] by (simp add: place_id_def)
  note b = below_taken [OF s]
  have rec: "om_sound omid mid n (snd (om_record E ''SUBMIT'' (place_id omid ?i) (Some ?i) None None None
      (submit_details symb sd ot q lp tif ro) (place_id omid ?i) ?w))"
  proof (rule om_record_sound [OF take_id_sound [OF s]])
    show "key_below omid (seq_after (Some ?i) (om_next_seq (rec_of omid (ow_store ?w)))) (place_id omid ?i)"
      using key_below_place [of ?i _ "[]" omid] b by (auto simp: request_tags_def)
  qed (use apply_submit assms b in auto)
  show "om_sound omid mid n (snd (om_place_order E X symb sd ot q lp tif ro w))"
    unfolding om_place_order_def next_id_eq cid submit_details_def [symmetric] split_conv
    by (intro om_keeps_bind_at om_keeps_bind rec om_keeps_drive om_keepsI)
      (auto intro!: om_keepsD [OF fail_sound] om_keepsD [OF ingest_sound] plain_rest
        simp: with_adapter_def split: sum.split prod.split)
qed

lemma intent_sound:
  assumes "om_sound omid mid n w" "a = ''CANCEL_ALL_REQUESTED'' \<or> a = ''AMEND_REQUESTED''"
    and "key_below omid (seq_after seq (om_next_seq (rec_of omid (ow_store w)))) k"
  shows "om_sound omid mid n (snd (om_record E a cid seq t f to d k w))"
  by (rule om_record_sound [OF assms(1) _ assms(3)]) (use apply_intent assms(2) in fastforce, use assms(2) in auto)

lemma amend_applied_sound:
  "om_keeps omid mid n (\<lambda>w. if map_of (om_snapshots (ow_om w)) cid = None then (Inl OrderNotFoundError, w)
     else om_record E ''AMEND'' cid None None None None
       [(''new_limit_price'', vopt VDec lp), (''new_quantity'', VDec q)] (cid @ '':amend_applied:'' @ rid) w)"
proof (rule om_keepsI)
  fix w :: "'a om_world" assume s: "om_sound omid mid n w"
  show "om_sound omid mid n (snd (if map_of (om_snapshots (ow_om w)) cid = None then (Inl OrderNotFoundError, w)
     else om_record E ''AMEND'' cid None None None None
       [(''new_limit_price'', vopt VDec lp), (''new_quantity'', VDec q)] (cid @ '':amend_applied:'' @ rid) w))"
  proof (cases "map_of (om_snapshots (ow_om w)) cid")
    case (Some sn)
    have "om_sound omid mid n (snd (om_record E ''AMEND'' cid None None None None
       [(''new_limit_price'', vopt VDec lp), (''new_quantity'', VDec q)] (cid @ '':amend_applied:'' @ rid) w))"
      by (rule om_record_sound [OF s _ known_key [OF s Some place_rest_plain(5)]])
        (use apply_amend [OF _ _ Some] in auto)
    with Some show ?thesis by simp
  qed (use s in simp)
qed

text \<open>Orders are never forgotten.\<close>

lemma om_apply_keeps_orders:
  assumes "om_apply_event e m = (q, m')" "c \<in> fst ` set (om_snapshots m)"
  shows "c \<in> fst ` set (om_snapshots m')"
proof -
  have act: "c \<in> fst ` set (om_snapshots k) \<Longrightarrow> c \<in> fst ` set (om_snapshots (snd (om_apply_action a cid now pl k)))" for a cid now pl k
    by (simp add: om_apply_action_def Let_def put_snapshot_eq keys_update split: sum.split option.split)
  have bump: "om_snapshots (snd (bump_seq v k)) = om_snapshots k" for v k
    by (cases v) (simp_all add: bump_seq_def)
  show ?thesis
  proof (cases "event_id e \<in> om_applied_event_ids m")
    case True
    with assms show ?thesis by (auto simp: om_apply_event_def)
  next
    case False
    let ?m0 = "m\<lparr>om_applied_event_ids := insert (event_id e) (om_applied_event_ids m)\<rparr>"
    obtain x m1 where m1: "bump_seq (dget (payload e) ''seq'') ?m0 = (x, m1)" by (meson surj_pair)
    with bump [of "dget (payload e) ''seq''" ?m0] assms(2) have c: "c \<in> fst ` set (om_snapshots m1)" by simp
    show ?thesis
    proof (cases x)
      case (Inl y)
      with om_apply_new [OF False] m1 c assms(1) show ?thesis by (simp add: bindP_def)
    next
      case (Inr y)
      with om_apply_new [OF False] m1 assms(1)
      have "m' = snd (om_apply_action (text_at (payload e) ''action'') (text_at (payload e) ''client_order_id'')
          (timestamp_utc e) (payload e) m1)" by (simp add: bindP_def) (metis snd_conv)
      with act [OF c] show ?thesis by simp
    qed
  qed
qed

definition has_order :: "string \<Rightarrow> 'ad om_world \<Rightarrow> bool" where
  "has_order cid w \<longleftrightarrow> cid \<in> fst ` set (om_snapshots (ow_om w))"

lemma has_order_iff: "has_order cid w \<longleftrightarrow> (\<exists>sn. map_of (om_snapshots (ow_om w)) cid = Some sn)"
  by (auto simp: has_order_def dom_map_of_conv_image_fst [symmetric])

lemma record_keeps_orders:
  assumes "has_order c w"
  shows "has_order c (snd (om_record E a cid seq t f to d k w))"
proof -
  obtain p w1 where p: "om_persist E a cid seq t f to d k w = (p, w1)" by (meson surj_pair)
  then have w1: "ow_om w1 = ow_om w" by (auto simp: om_persist_def split: prod.splits)
  show ?thesis
  proof (cases p)
    case (Inl x)
    with p w1 assms show ?thesis by (simp add: om_record_def bindP_def has_order_def)
  next
    case (Inr e)
    obtain q m' where a: "om_apply_event e (ow_om w1) = (q, m')" by (meson surj_pair)
    from om_apply_keeps_orders [OF a, of c] p Inr a w1 assms show ?thesis
      by (simp add: om_record_def bindP_def has_order_def with_om_def)
  qed
qed

lemma om_bind_at:
  "f w = (q, w1) \<Longrightarrow> om_sound omid mid n w1 \<Longrightarrow> (\<And>x. om_sound omid mid n (snd (g x w1))) \<Longrightarrow>
   om_sound omid mid n (snd (bindP f g w))"
  by (cases q) (simp_all add: bindP_def)

lemma amend_sound: "om_keeps omid mid n (om_amend_order E X cid nq nl)"
proof (rule om_keepsI)
  fix w :: "'a om_world" assume s: "om_sound omid mid n w"
  let ?i = "om_next_seq (ow_om w)" and ?w = "take_id w"
  let ?rid = "make_id omid ?i ''amend''"
  show "om_sound omid mid n (snd (om_amend_order E X cid nq nl w))"
  proof (cases "map_of (om_snapshots (ow_om w)) cid")
    case None
    with s show ?thesis by (simp add: om_amend_order_def)
  next
    case (Some sn)
    note b = below_taken [OF s]
    have oid: "om_id (ow_om w) = omid" by (rule om_soundD(2) [OF s])
    let ?rec = "om_record E ''AMEND_REQUESTED'' cid (Some ?i) None None None
       [(''new_limit_price'', vopt VDec nl), (''new_quantity'', vopt VDec nq), (''request_id'', VStr ?rid)]
       (cid @ '':amend_req:'' @ ?rid) :: ('a, order_snapshot option) om_prog"
    obtain q w1 where w1: "?rec ?w = (q, w1)" by (meson surj_pair)
    have "om_sound omid mid n (snd (?rec ?w))"
    proof (rule intent_sound [OF take_id_sound [OF s]])
      show "key_below omid (seq_after (Some ?i) (om_next_seq (rec_of omid (ow_store ?w)))) (cid @ '':amend_req:'' @ ?rid)"
        by (rule known_request_key [OF take_id_sound [OF s], of cid sn])
          (use Some b in \<open>auto simp: request_tags_def\<close>)
    qed simp
    then have s1: "om_sound omid mid n w1" unfolding w1 snd_conv .
    have h1: "has_order cid w1"
    proof -
      have "has_order cid ?w" using Some by (simp add: has_order_iff)
      then have "has_order cid (snd (?rec ?w))" by (rule record_keeps_orders)
      then show ?thesis unfolding w1 snd_conv .
    qed
    have cont: "om_sound omid mid n (snd (bindP (with_adapter f) (\<lambda>od. om_record E ''AMEND'' cid None None None None
        [(''new_limit_price'', vopt VDec (od_limit_price od)), (''new_quantity'', VDec (od_quantity od))]
        (cid @ '':amend_applied:'' @ ?rid)) w1))" for f
    proof -
      obtain p ad where p: "f (ow_adapter w1) = (p, ad)" by (meson surj_pair)
      let ?w2 = "w1\<lparr>ow_adapter := ad\<rparr>"
      have "map_of (om_snapshots (ow_om ?w2)) cid \<noteq> None" using h1 by (simp add: has_order_iff)
      then show ?thesis
        using om_keepsD [OF amend_applied_sound, of omid mid n ?w2 cid E] s1 p
        by (cases p) (auto simp: bindP_def with_adapter_def)
    qed
    have body: "om_sound omid mid n (snd (bindP ?rec (\<lambda>_ w.
        case AmendRequest_post_init \<lparr>am_request_id = ?rid, am_exchange_order_id = xid,
               am_new_quantity = nq, am_new_limit_price = nl\<rparr> of
          Inl x \<Rightarrow> (Inl x, w)
        | Inr request \<Rightarrow>
            bindP (with_adapter (api_amend_order X request)) (\<lambda>od.
              om_record E ''AMEND'' cid None None None None
                [(''new_limit_price'', vopt VDec (od_limit_price od)), (''new_quantity'', VDec (od_quantity od))]
                (cid @ '':amend_applied:'' @ ?rid)) w) ?w))" for xid
    proof (rule om_bind_at [where f = ?rec and w = ?w, OF w1 s1])
      fix x show "om_sound omid mid n (snd (case AmendRequest_post_init \<lparr>am_request_id = ?rid, am_exchange_order_id = xid,
               am_new_quantity = nq, am_new_limit_price = nl\<rparr> of
          Inl x \<Rightarrow> (Inl x, w1)
        | Inr request \<Rightarrow>
            bindP (with_adapter (api_amend_order X request)) (\<lambda>od.
              om_record E ''AMEND'' cid None None None None
                [(''new_limit_price'', vopt VDec (od_limit_price od)), (''new_quantity'', VDec (od_quantity od))]
                (cid @ '':amend_applied:'' @ ?rid)) w1))"
      proof (cases "AmendRequest_post_init \<lparr>am_request_id = ?rid, am_exchange_order_id = xid,
               am_new_quantity = nq, am_new_limit_price = nl\<rparr>")
        case (Inl x)
        show ?thesis unfolding Inl sum.case snd_conv by (rule s1)
      next
        case (Inr r)
        show ?thesis unfolding Inr sum.case by (rule cont)
      qed
    qed
    show ?thesis
      unfolding om_amend_order_def next_id_eq split_conv oid Some option.case
      using s body by (simp del: append.simps split: option.split)
  qed
qed

lemma cancel_sound: "om_keeps omid mid n (om_cancel_order E X cid)"
proof (rule om_keepsI)
  fix w :: "'a om_world" assume s: "om_sound omid mid n w"
  let ?i = "om_next_seq (ow_om w)" and ?w = "take_id w"
  let ?rid = "make_id omid ?i ''cancel''"
  show "om_sound omid mid n (snd (om_cancel_order E X cid w))"
  proof (cases "map_of (om_snapshots (ow_om w)) cid")
    case None
    with s show ?thesis by (simp add: om_cancel_order_def)
  next
    case (Some sn)
    have oid: "om_id (ow_om w) = omid" by (rule om_soundD(2) [OF s])
    have key: "key_below omid (seq_after (Some ?i) (om_next_seq (rec_of omid (ow_store ?w)))) (cid @ '':cancel:'' @ ?rid)"
      by (rule known_request_key [OF take_id_sound [OF s], of cid sn])
        (use Some below_taken [OF s] in \<open>auto simp: request_tags_def\<close>)
    have sn: "map_of (om_snapshots (ow_om ?w)) cid = Some sn" using Some by simp
    have body: "om_sound omid mid n (snd (bindP
        (om_record E ''STATUS_UPDATE'' cid (Some ?i) (Some LT_CANCEL_REQUESTED) (Some (os_lifecycle_state sn)) (Some to)
           [(''request_id'', VStr ?rid)] (cid @ '':cancel:'' @ ?rid))
        (\<lambda>_ w. case CancelRequest_post_init \<lparr>cq_request_id = ?rid, cq_exchange_order_id = xid\<rparr> of
             Inl x \<Rightarrow> (Inl x, w)
           | Inr request \<Rightarrow>
               (case with_adapter (api_cancel_order X request) w of
                  (Inl x, w') \<Rightarrow> fail_and_raise E X cid LT_CANCEL_FAILED (cid @ '':cancel_failed:'' @ ?rid) x w'
                | (Inr od, w') \<Rightarrow> ingest_status E cid (od_status od) (od_exchange_order_id od) None w')) ?w))"
      if "om_next_state (os_lifecycle_state sn) LT_CANCEL_REQUESTED = Inr to" for to xid
      by (intro om_keeps_bind_at status_sound [OF take_id_sound [OF s] sn that key] om_keepsI)
        (auto intro!: om_keepsD [OF fail_sound] om_keepsD [OF ingest_sound] plain_rest
          simp: with_adapter_def split: sum.split prod.split)
    show ?thesis
      unfolding om_cancel_order_def next_id_eq split_conv oid Some option.case Let_def
      using s body by (simp del: append.simps split: option.split sum.split)
  qed
qed

lemma fill_sound: "om_keeps omid mid n (report_fill E cid f)"
proof (rule om_keepsI)
  fix w :: "'a om_world" assume s: "om_sound omid mid n w"
  show "om_sound omid mid n (snd (report_fill E cid f w))"
  proof (cases "map_of (om_snapshots (ow_om w)) cid")
    case None
    with s show ?thesis by (simp add: report_fill_def)
  next
    case (Some sn)
    have late: "om_sound omid mid n (w\<lparr>ow_om := (ow_om w)\<lparr>om_processed_fill_ids :=
        (om_processed_fill_ids (ow_om w))(cid \<mapsto> insert (fl_fill_id f) (fills_of (ow_om w) cid))\<rparr>\<rparr>)"
      by (rule om_sound_memory [OF s]) (auto simp: om_like_def fills_of_fold)
    have body: "om_sound omid mid n (snd (bindP
        (om_record E ''FILL'' cid None (Some t) (Some (os_lifecycle_state sn)) (Some to)
           [(''fill_id'', VStr (fl_fill_id f)), (''fill_price'', VDec (fl_price f)),
            (''fill_quantity'', VDec (fl_quantity f))] (cid @ '':fill:'' @ fl_fill_id f)) (\<lambda>sn'.
        bindP (drive_execution_sm E cid (Some t) (os_lifecycle_state sn) sn') (\<lambda>_ w. (Inr sn', w))) w))"
      if "om_next_state (os_lifecycle_state sn) t = Inr to" for t to
      by (intro om_keeps_bind_at om_record_sound [OF s] om_keeps_bind om_keeps_drive om_keeps_const
            known_key [OF s Some] plain_rest)
        (use apply_fill [OF _ _ Some refl that] in auto)
    show ?thesis
      unfolding report_fill_def Some option.case Let_def
      using s late body by (simp del: append.simps split: sum.split)
  qed
qed

lemma update_sound: "om_keeps omid mid n (report_order_update E cid od)"
  by (rule om_keepsI) (simp add: report_order_update_def om_keepsD [OF ingest_sound] split: option.split)

lemma resync_sound: "om_keeps omid mid n (resync_order E X cid)"
proof (rule om_keepsI)
  fix w :: "'a om_world" assume s: "om_sound omid mid n w"
  show "om_sound omid mid n (snd (resync_order E X cid w))"
    unfolding resync_order_def
    by (auto intro!: om_keeps_bind_at om_keepsD [OF om_keeps_adapter] ingest_sound om_keepsI s
        om_keepsD [OF ingest_sound] split: option.split sum.split)
qed

lemma query_sound: "om_keeps omid mid n (om_get_order_status cid)" "om_keeps omid mid n (om_get_fills X c)"
  by (rule om_keepsI, simp add: om_get_order_status_def om_get_fills_def mapP_def with_adapter_def
      split: option.split prod.split sum.split)+

section \<open>Cancelling everything\<close>

text \<open>
  The loop records two transitions per order without looking at the snapshot in between, so the
  first must not be swallowed by the idempotency of the store.  It is not: as long as an order can
  still be cancelled, its key for this request is free.
\<close>

definition pend_free :: "string \<Rightarrow> string \<Rightarrow> 'ad om_world \<Rightarrow> bool" where
  "pend_free omid rid w \<longleftrightarrow> (\<forall>c sn. map_of (om_snapshots (ow_om w)) c = Some sn \<longrightarrow>
     os_lifecycle_state sn \<in> {L_ACKNOWLEDGED, L_PARTIALLY_FILLED} \<longrightarrow>
     get_by_idempotency_key (ow_store w) (om_key omid (c @ '':cancel_all_pending:'' @ rid)) = None)"

lemma find_key_cong:
  "ledger_inv s \<Longrightarrow> ledger_inv s' \<Longrightarrow> es_events s' = es_events s \<Longrightarrow>
   get_by_idempotency_key s' k = get_by_idempotency_key s k"
  using get_by_key_iff [of s k] get_by_key_iff [of s' k] by (cases "get_by_idempotency_key s k") (auto, metis option.exhaust)

lemma find_key_snoc:
  assumes "ledger_inv s" "ledger_inv s'" "es_events s' = es_events s @ [e]" "idempotency_key e \<noteq> Some k"
    "get_by_idempotency_key s k = None"
  shows "get_by_idempotency_key s' k = None"
proof (cases "get_by_idempotency_key s' k")
  case (Some e')
  with get_by_key_iff [OF assms(2)] assms(3,4) have "e' \<in> set (es_events s)" "idempotency_key e' = Some k" by auto
  with get_by_key_iff [OF assms(1), of k e'] assms(5) show ?thesis by simp
qed simp

lemma drive_find_none:
  assumes "drive_execution_sm E cid trig from sn w = (q, w')" "om_sound omid mid n w"
    "get_by_idempotency_key (ow_store w) (om_key omid k) = None"
  shows "get_by_idempotency_key (ow_store w') (om_key omid k) = None"
proof (cases "\<exists>t. exec_trigger_for trig from sn = Inr (Some t)")
  case False
  with assms show ?thesis by (auto simp: drive_execution_sm_def split: sum.splits option.splits)
next
  case True
  then obtain t where t: "exec_trigger_for trig from sn = Inr (Some t)" by blast
  obtain r s' esm' where tr: "transition E t (exec_request_id E cid t) (Some [(''client_order_id'', VStr cid)])
      (ow_store w, ow_esm w) = (r, (s', esm'))" by (metis surj_pair)
  have w': "w' = w\<lparr>ow_store := s', ow_esm := esm'\<rparr>"
    using assms(1) t tr by (auto simp: drive_execution_sm_def Let_def split: sum.splits if_splits)
  have inv: "ledger_inv (ow_store w)" "ledger_inv s'"
    using om_soundD(1) [OF assms(2)] om_soundD(1) [OF drive_sound [OF assms(1,2), THEN conjunct1]] w' by simp_all
  have "get_by_idempotency_key s' (om_key omid k) = None"
    using tr
  proof (cases rule: transition_cases)
    case (unrecorded x ty pl k')
    from find_key_cong [OF inv es.put_fail [OF inv(1) unrecorded(1)]] assms(3) show ?thesis by simp
  next
    case (recorded e to c)
    note put = es.put_miss [OF inv(1) recorded(4)]
    have "idempotency_key e = Some (namespaced_key (esm_machine_id (ow_esm w)) (exec_request_id E cid t))"
      "es_events s' = es_events (ow_store w) @ [e]"
      using put recorded(1) by auto
    then show ?thesis using find_key_snoc [OF inv, of e] assms(3) esm_key_foreign by simp
  qed (use assms(3) in simp_all)
  with w' show ?thesis by simp
qed

lemma drive_pend_free:
  assumes "drive_execution_sm E cid trig from sn w = (q, w')" "om_sound omid mid n w" "pend_free omid rid w"
  shows "pend_free omid rid w'"
  using drive_sound [OF assms(1,2)] drive_find_none [OF assms(1,2)] assms(3) by (simp add: pend_free_def)

text \<open>One transition recorded inside the loop.\<close>

lemma loop_record:
  assumes "om_record E ''STATUS_UPDATE'' cid None (Some t) (Some (os_lifecycle_state sn)) (Some to) d k w = (q, w')"
    "om_sound omid mid n w" "pend_free omid rid w" "map_of (om_snapshots (ow_om w)) cid = Some sn"
    "om_next_state (os_lifecycle_state sn) t = Inr to" "to \<notin> {L_ACKNOWLEDGED, L_PARTIALLY_FILLED}"
    and key: "key_below omid (om_next_seq (rec_of omid (ow_store w))) k"
    and distinct: "\<And>c. c \<noteq> cid \<Longrightarrow> has_order c w \<Longrightarrow> k \<noteq> c @ '':cancel_all_pending:'' @ rid"
  shows "om_sound omid mid n w' \<and> pend_free omid rid w' \<and>
    ((\<exists>x. q = Inl x) \<or> get_by_idempotency_key (ow_store w) (om_key omid k) \<noteq> None \<or>
     (\<exists>sn'. map_of (om_snapshots (ow_om w')) cid = Some sn' \<and> os_lifecycle_state sn' = to))"
proof -
  note inv = om_soundD(1) [OF assms(2)]
  have ok: "\<exists>x m'. om_apply_event e (ow_om w) = (Inr x, m')"
    if "payload e = om_payload omid ''STATUS_UPDATE'' cid None (Some t) (Some (os_lifecycle_state sn)) (Some to) d"
      "event_id e \<notin> om_applied_event_ids (ow_om w)" for e
    using apply_status [OF that assms(4) refl assms(5)] by blast
  have key': "key_below omid (seq_after None (om_next_seq (rec_of omid (ow_store w)))) k"
    using key by (simp add: seq_after_def)
  show ?thesis
  proof (rule om_record_cases [OF assms(1,2)], goal_cases)
    case 1
    then show ?case using ok by blast
  next
    case 2
    show ?case by (rule key')
  next
    case 3
    then show ?case by simp
  next
    case 4
    then show ?case by simp
  next
    case failed: (5 x)
    have om: "ow_om w' = ow_om w" using arg_cong [OF failed(2), of ow_om] by simp
    with failed find_key_cong [OF inv om_soundD(1) [OF failed(4)] failed(3)] assms(3) show ?thesis
      by (simp add: pend_free_def)
  next
    case known: (6 x e)
    have om: "ow_om w' = ow_om w" using arg_cong [OF known(2), of ow_om] by simp
    with known find_key_cong [OF inv om_soundD(1) [OF known(5)] known(3)] assms(3) show ?thesis
      by (simp add: pend_free_def)
  next
    case new: (7 x e m')
    have om: "ow_om w' = m'" using arg_cong [OF new(2), of ow_om] by simp
    have sound: "om_sound omid mid n w'" using new(9) by (simp add: seq_after_def)
    note inv' = om_soundD(1) [OF sound]
    have snaps: "om_snapshots m' = AList.update cid (status_snapshot sn to d (timestamp_utc e)) (om_snapshots (ow_om w))"
      using apply_status [OF new(4,7) assms(4) refl assms(5)] new(8) by simp
    have "pend_free omid rid w'"
      unfolding pend_free_def
    proof (intro allI impI)
      fix c sn' assume c: "map_of (om_snapshots (ow_om w')) c = Some sn'"
        "os_lifecycle_state sn' \<in> {L_ACKNOWLEDGED, L_PARTIALLY_FILLED}"
      have ne: "c \<noteq> cid"
      proof
        assume "c = cid"
        with c snaps om assms(6) show False by (auto simp: status_snapshot_def)
      qed
      with c snaps om have c0: "map_of (om_snapshots (ow_om w)) c = Some sn'" by simp
      from assms(3) [unfolded pend_free_def, rule_format, OF c0 c(2)]
      have "get_by_idempotency_key (ow_store w) (om_key omid (c @ '':cancel_all_pending:'' @ rid)) = None" .
      moreover have "k \<noteq> c @ '':cancel_all_pending:'' @ rid" by (rule distinct [OF ne]) (use c0 in \<open>simp add: has_order_iff\<close>)
      ultimately show "get_by_idempotency_key (ow_store w') (om_key omid (c @ '':cancel_all_pending:'' @ rid)) = None"
        using find_key_snoc [OF inv inv' new(3)] new(5) by simp
    qed
    with sound snaps om show ?thesis by (simp add: status_snapshot_def)
  qed
qed

definition in_loop :: "string \<Rightarrow> string \<Rightarrow> int \<Rightarrow> string \<Rightarrow> 'ad om_world \<Rightarrow> bool" where
  "in_loop omid mid n rid w \<longleftrightarrow> om_sound omid mid n w \<and> pend_free omid rid w"

lemma confirm_in_loop:
  assumes "cancel_all_confirm E rid cid xid current w = (q, w')" "in_loop omid mid n rid w"
    and "current = L_CANCEL_PENDING \<Longrightarrow> \<exists>sn. map_of (om_snapshots (ow_om w)) cid = Some sn \<and> os_lifecycle_state sn = current"
  shows "in_loop omid mid n rid w'"
proof (cases "current = L_CANCEL_PENDING")
  case False
  with assms show ?thesis by (simp add: cancel_all_confirm_def)
next
  case True
  with assms(3) obtain sn where sn: "map_of (om_snapshots (ow_om w)) cid = Some sn" "os_lifecycle_state sn = L_CANCEL_PENDING"
    by auto
  have s: "om_sound omid mid n w" and pf: "pend_free omid rid w" using assms(2) by (simp_all add: in_loop_def)
  obtain i where i: "0 \<le> i" "i < om_next_seq (rec_of omid (ow_store w))" "cid = place_id omid i"
    by (rule known_id [OF s sn(1)])
  have nx: "om_next_state L_CANCEL_PENDING LT_CANCEL_CONFIRMED = Inr L_CANCELLED" by code_simp
  let ?rec = "om_record E ''STATUS_UPDATE'' cid None (Some LT_CANCEL_CONFIRMED) (Some (os_lifecycle_state sn)) (Some L_CANCELLED)
      [(''exchange_order_id'', vopt VStr xid)] (cid @ '':cancel_all_confirm:'' @ rid) :: ('a, order_snapshot option) om_prog"
  obtain p w1 where w1: "?rec w = (p, w1)" by (meson surj_pair)
  have key: "key_below omid (om_next_seq (rec_of omid (ow_store w))) (cid @ '':cancel_all_confirm:'' @ rid)"
    unfolding i(3) by (rule key_below_place [OF i(1,2) place_rest_plain(6)])
  have ne: "cid @ '':cancel_all_confirm:'' @ rid \<noteq> c @ '':cancel_all_pending:'' @ rid" if "has_order c w" for c
  proof
    from that obtain sn' where "map_of (om_snapshots (ow_om w)) c = Some sn'" by (auto simp: has_order_iff)
    then obtain j where "0 \<le> j" "c = place_id omid j" by (rule known_id [OF s])
    moreover assume "cid @ '':cancel_all_confirm:'' @ rid = c @ '':cancel_all_pending:'' @ rid"
    ultimately have "'':cancel_all_confirm:'' @ rid = '':cancel_all_pending:'' @ rid"
      using place_id_eq [of omid i "'':cancel_all_confirm:'' @ rid" j "'':cancel_all_pending:'' @ rid"] i(1,3) by blast
    then show False by simp
  qed
  have l: "om_sound omid mid n w1 \<and> pend_free omid rid w1"
    using loop_record [OF w1 s pf sn(1) _ _ key] sn(2) nx ne by simp
  have eq: "cancel_all_confirm E rid cid xid current w = bindP ?rec (\<lambda>sn.
      bindP (drive_execution_sm E cid (Some LT_CANCEL_CONFIRMED) L_CANCEL_PENDING sn) (\<lambda>_ w. (Inr [sn], w))) w"
    by (simp add: cancel_all_confirm_def True nx sn(2))
  show ?thesis
  proof (cases p)
    case (Inl x)
    then have "w' = w1" using assms(1) w1 unfolding eq by (simp add: bindP_def)
    with l show ?thesis by (simp add: in_loop_def)
  next
    case (Inr x)
    obtain q2 w2 where w2: "drive_execution_sm E cid (Some LT_CANCEL_CONFIRMED) L_CANCEL_PENDING x w1 = (q2, w2)"
      by (meson surj_pair)
    have "w' = w2" using assms(1) w1 w2 Inr unfolding eq by (cases q2) (simp_all add: bindP_def)
    with drive_sound [OF w2 l [THEN conjunct1]] drive_pend_free [OF w2 l [THEN conjunct1] l [THEN conjunct2]] show ?thesis
      by (simp add: in_loop_def)
  qed
qed

lemma pending_in_loop:
  assumes "cancel_all_pending E rid cid (os_lifecycle_state sn) w = (q, w')" "in_loop omid mid n rid w"
    and "map_of (om_snapshots (ow_om w)) cid = Some sn"
    and rid: "rid = make_id omid j ''cancel_all''" "0 \<le> j" "j < n"
  shows "in_loop omid mid n rid w' \<and>
    (\<forall>current. q = Inr current \<longrightarrow> current = L_CANCEL_PENDING \<longrightarrow>
       (\<exists>sn. map_of (om_snapshots (ow_om w')) cid = Some sn \<and> os_lifecycle_state sn = current))"
proof (cases "os_lifecycle_state sn \<in> {L_ACKNOWLEDGED, L_PARTIALLY_FILLED}")
  case False
  with assms show ?thesis by (auto simp: cancel_all_pending_def)
next
  case True
  have s: "om_sound omid mid n w" and pf: "pend_free omid rid w" using assms(2) by (simp_all add: in_loop_def)
  have nx: "om_next_state (os_lifecycle_state sn) LT_CANCEL_REQUESTED = Inr L_CANCEL_PENDING"
  proof -
    have "om_next_state L_ACKNOWLEDGED LT_CANCEL_REQUESTED = Inr L_CANCEL_PENDING"
      "om_next_state L_PARTIALLY_FILLED LT_CANCEL_REQUESTED = Inr L_CANCEL_PENDING" by code_simp+
    with True show ?thesis by auto
  qed
  let ?k = "cid @ '':cancel_all_pending:'' @ rid"
  let ?rec = "om_record E ''STATUS_UPDATE'' cid None (Some LT_CANCEL_REQUESTED) (Some (os_lifecycle_state sn)) (Some L_CANCEL_PENDING)
      [(''request_id'', VStr rid)] ?k :: ('a, order_snapshot option) om_prog"
  obtain p w1 where w1: "?rec w = (p, w1)" by (meson surj_pair)
  have "key_below omid (seq_after None (om_next_seq (rec_of omid (ow_store w)))) ?k"
    unfolding rid(1) using rid(2,3) om_soundD(5) [OF s]
    by (intro known_request_key [OF s assms(3)]) (auto simp: request_tags_def seq_after_def)
  then have key: "key_below omid (om_next_seq (rec_of omid (ow_store w))) ?k" by (simp add: seq_after_def)
  have free: "get_by_idempotency_key (ow_store w) (om_key omid ?k) = None"
    using pf [unfolded pend_free_def, rule_format, OF assms(3) True] .
  have l: "om_sound omid mid n w1 \<and> pend_free omid rid w1 \<and>
      ((\<exists>x. p = Inl x) \<or> (\<exists>sn'. map_of (om_snapshots (ow_om w1)) cid = Some sn' \<and> os_lifecycle_state sn' = L_CANCEL_PENDING))"
    using loop_record [OF w1 s pf assms(3) nx _ key] free by simp
  have eq: "cancel_all_pending E rid cid (os_lifecycle_state sn) w = bindP ?rec (\<lambda>_ w. (Inr L_CANCEL_PENDING, w)) w"
    using True by (simp add: cancel_all_pending_def nx)
  show ?thesis
    using assms(1) w1 l unfolding eq by (cases p) (auto simp: bindP_def in_loop_def)
qed

lemma loop_sound:
  assumes "in_loop omid mid n rid w" "rid = make_id omid j ''cancel_all''" "0 \<le> j" "j < n"
  shows "om_sound omid mid n (snd (cancel_all_orders E rid ods w))"
  using assms(1)
proof (induction ods arbitrary: w)
  case Nil
  then show ?case by (simp add: in_loop_def)
next
  case (Cons od ods)
  let ?cid = "od_client_order_id od"
  show ?case
  proof (cases "map_of (om_snapshots (ow_om w)) ?cid")
    case None
    with Cons show ?thesis by simp
  next
    case (Some sn)
    obtain q1 w1 where p: "cancel_all_pending E rid ?cid (os_lifecycle_state sn) w = (q1, w1)" by (meson surj_pair)
    note l1 = pending_in_loop [OF p Cons.prems Some assms(2-4)]
    show ?thesis
    proof (cases q1)
      case (Inl x)
      with p Some l1 show ?thesis by (simp add: bindP_def in_loop_def)
    next
      case (Inr current)
      obtain q2 w2 where c: "cancel_all_confirm E rid ?cid (od_exchange_order_id od) current w1 = (q2, w2)" by (meson surj_pair)
      have l2: "in_loop omid mid n rid w2" by (rule confirm_in_loop [OF c l1 [THEN conjunct1]]) (use l1 Inr in auto)
      obtain q3 w3 where t: "cancel_all_orders E rid ods w2 = (q3, w3)" by (meson surj_pair)
      from Cons.IH [OF l2] t have "om_sound omid mid n w3" by simp
      with p c t Some Inr l2 show ?thesis
        by (cases q2; cases q3) (simp_all add: bindP_def in_loop_def)
    qed
  qed
qed

lemma not_below_cancel_all:
  assumes "m \<le> j" "0 \<le> j"
  shows "\<not> key_below omid m (''cancel_all:'' @ make_id omid j ''cancel_all'')"
    "tag \<in> request_tags \<Longrightarrow> 0 \<le> i \<Longrightarrow> \<not> key_below omid m (place_id omid i @ tag @ make_id omid j suf)"
    "\<not> key_below omid m (place_id omid j @ rest)"
proof -
  show "\<not> key_below omid m (''cancel_all:'' @ make_id omid j ''cancel_all'')"
  proof
    assume "key_below omid m (''cancel_all:'' @ make_id omid j ''cancel_all'')"
    then have "j < m" using assms(2) unfolding key_below_def by blast
    with assms(1) show False by simp
  qed
  show "\<not> key_below omid m (place_id omid i @ tag @ make_id omid j suf)" if "tag \<in> request_tags" "0 \<le> i"
  proof
    assume "key_below omid m (place_id omid i @ tag @ make_id omid j suf)"
    then have "j < m" using that assms(2) unfolding key_below_def by blast
    with assms(1) show False by simp
  qed
  show "\<not> key_below omid m (place_id omid j @ rest)"
  proof
    assume "key_below omid m (place_id omid j @ rest)"
    then have "j < m" using assms(2) unfolding key_below_def place_id_def make_id_prefix append_assoc by blast
    with assms(1) show False by simp
  qed
qed

lemma om_fresh_key:
  assumes "om_sound omid mid n w" "\<not> key_below omid (om_next_seq (rec_of omid (ow_store w))) k"
  shows "get_by_idempotency_key (ow_store w) (om_key omid k) = None"
  using om_soundD(9) [OF assms(1)]
  by (intro fresh_key [OF _ om_soundD(1) [OF assms(1)] assms(2)]) (simp add: om_wf_def)

lemma cancel_all_sound: "om_keeps omid mid n (om_cancel_all E X symb)"
proof (rule om_keepsI)
  fix w :: "'a om_world" assume s: "om_sound omid mid n w"
  let ?i = "om_next_seq (ow_om w)" and ?w = "take_id w" and ?r = "rec_of omid (ow_store w)"
  let ?rid = "make_id omid ?i ''cancel_all''"
  have oid: "om_id (ow_om w) = omid" by (rule om_soundD(2) [OF s])
  have ge: "om_next_seq ?r \<le> ?i" "0 \<le> ?i" using om_soundD(4) [OF s] next_seq_pos [OF s] by simp_all
  have st: "om_sound omid mid n ?w" by (rule take_id_sound [OF s])
  let ?d = "[(''request_id'', VStr ?rid), (''symbol'', vopt VStr symb)]"
  let ?rec = "om_record E ''CANCEL_ALL_REQUESTED'' ''*'' (Some ?i) None None None ?d (''cancel_all:'' @ ?rid)
      :: ('a, order_snapshot option) om_prog"
  let ?rest = "\<lambda>_ w. case CancelAllRequest_post_init \<lparr>ca_request_id = ?rid, ca_symbol = symb\<rparr> of
         Inl x \<Rightarrow> (Inl x, w)
       | Inr request \<Rightarrow> bindP (with_adapter (api_cancel_all X request)) (cancel_all_orders E ?rid) w"
  obtain q w1 where w1: "?rec ?w = (q, w1)" by (meson surj_pair)
  have fresh: "get_by_idempotency_key (ow_store ?w) (om_key omid (''cancel_all:'' @ ?rid)) = None"
    by (rule om_fresh_key [OF st not_below_cancel_all(1)]) (use ge in simp_all)
  have "om_sound omid mid n (snd (bindP ?rec ?rest ?w))"
  proof (rule om_record_cases [OF w1 st], goal_cases)
    case (1 e)
    show ?case using apply_intent [OF 1] by blast
  next
    case 2
    show ?case by (rule key_below_cancel_all) (use ge in \<open>simp_all add: seq_after_def\<close>)
  next
    case 3
    then show ?case by simp
  next
    case 4
    then show ?case by simp
  next
    case (5 x)
    with w1 show ?case by (simp add: bindP_def)
  next
    case (6 x e)
    with fresh show ?case by simp
  next
    case (7 x e m')
    let ?n = "seq_after (Some ?i) n"
    have om: "ow_om w1 = m'" using arg_cong [OF 7(2), of ow_om] by simp
    have snaps: "om_snapshots m' = om_snapshots (ow_om w)" using apply_intent [OF 7(4,7)] 7(8) by simp
    have pf: "pend_free omid ?rid w1"
      unfolding pend_free_def
    proof (intro allI impI)
      fix c sn assume "map_of (om_snapshots (ow_om w1)) c = Some sn"
      then have "map_of (om_snapshots (ow_om w)) c = Some sn" by (simp add: om snaps)
      then obtain i where i: "0 \<le> i" "c = place_id omid i" by (rule known_id [OF s])
      have ne: "''cancel_all:'' @ ?rid \<noteq> c @ '':cancel_all_pending:'' @ ?rid"
        unfolding i(2) by (simp add: place_id_def make_id_def)
      have "get_by_idempotency_key (ow_store ?w) (om_key omid (c @ '':cancel_all_pending:'' @ ?rid)) = None"
        unfolding i(2)
        by (rule om_fresh_key [OF st not_below_cancel_all(2)]) (use ge i in \<open>simp_all add: request_tags_def\<close>)
      then show "get_by_idempotency_key (ow_store w1) (om_key omid (c @ '':cancel_all_pending:'' @ ?rid)) = None"
        using find_key_snoc [OF om_soundD(1) [OF st] om_soundD(1) [OF 7(9)] 7(3)] 7(5) ne by simp
    qed
    have loop: "om_sound omid mid n (snd (?rest x w1))"
    proof (cases "CancelAllRequest_post_init \<lparr>ca_request_id = ?rid, ca_symbol = symb\<rparr>")
      case (Inl y)
      show ?thesis unfolding Inl sum.case snd_conv by (rule om_sound_less [OF 7(9) seq_after_ge])
    next
      case (Inr request)
      obtain p ad where p: "api_cancel_all X request (ow_adapter w1) = (p, ad)" by (meson surj_pair)
      let ?w2 = "w1\<lparr>ow_adapter := ad\<rparr>"
      have "in_loop omid mid ?n ?rid ?w2" using 7(9) pf by (simp add: in_loop_def pend_free_def)
      then have "om_sound omid mid ?n (snd (cancel_all_orders E ?rid ods ?w2))" for ods
        by (rule loop_sound [OF _ refl]) (use ge in \<open>simp_all add: seq_after_def\<close>)
      then have l: "om_sound omid mid n (snd (cancel_all_orders E ?rid ods ?w2))" for ods
        by (rule om_sound_less [OF _ seq_after_ge])
      show ?thesis
        unfolding Inr sum.case bindP_def with_adapter_def p split_conv
        using l om_sound_less [OF 7(9) seq_after_ge] by (cases p) simp_all
    qed
    have "bindP ?rec ?rest ?w = ?rest x w1" by (rule bindP_Inr) (use w1 7(1) in simp)
    with loop show ?case by simp
  qed
  then show "om_sound omid mid n (snd (om_cancel_all E X symb w))"
    unfolding om_cancel_all_def next_id_eq split_conv oid .
qed

section \<open>Runs\<close>

text \<open>The calls a client can make.\<close>

datatype om_request =
    OM_Place symbol order_side order_type decimal "decimal option" time_in_force bool
  | OM_Amend string "decimal option" "decimal option"
  | OM_Cancel string
  | OM_Cancel_All "symbol option"
  | OM_Fill string fill
  | OM_Update string order
  | OM_Resync string

fun om_exec :: "env \<Rightarrow> 'ad adapter_api \<Rightarrow> om_request \<Rightarrow> 'ad om_world \<Rightarrow> 'ad om_world" where
  "om_exec E X (OM_Place symb sd ot q lp tif ro) w = snd (om_place_order E X symb sd ot q lp tif ro w)"
| "om_exec E X (OM_Amend cid nq nl) w = snd (om_amend_order E X cid nq nl w)"
| "om_exec E X (OM_Cancel cid) w = snd (om_cancel_order E X cid w)"
| "om_exec E X (OM_Cancel_All symb) w = snd (om_cancel_all E X symb w)"
| "om_exec E X (OM_Fill cid f) w = snd (report_fill E cid f w)"
| "om_exec E X (OM_Update cid od) w = snd (report_order_update E cid od w)"
| "om_exec E X (OM_Resync cid) w = snd (resync_order E X cid w)"

text \<open>A \<open>Symbol\<close> is never blank: its constructor refuses such a value.\<close>

fun valid_request :: "om_request \<Rightarrow> bool" where
  "valid_request (OM_Place symb sd ot q lp tif ro) = (\<not> py_strip_empty symb)"
| "valid_request _ = True"

inductive om_step :: "env \<Rightarrow> 'ad adapter_api \<Rightarrow> string \<Rightarrow> string \<Rightarrow> 'ad om_world \<Rightarrow> 'ad om_world \<Rightarrow> bool"
  for E X omid mid where
  call: "valid_request req \<Longrightarrow> om_step E X omid mid w (om_exec E X req w)"
| machine: "transition E t rid ctx (ow_store w, ow_esm w) = (q, (s', esm')) \<Longrightarrow>
    om_step E X omid mid w (w\<lparr>ow_store := s', ow_esm := esm'\<rparr>)"
| foreign: "append_event E ty pl key sv (ow_store w) = (q, s') \<Longrightarrow> om_foreign omid mid pl key \<Longrightarrow>
    om_step E X omid mid w (w\<lparr>ow_store := s'\<rparr>)"
| venue: "om_step E X omid mid w (w\<lparr>ow_adapter := ad\<rparr>)"
| restart: "OrderManager (ow_store w) omid = Inr m \<Longrightarrow> ExecutionStateMachine (ow_store w) mid = Inr esm' \<Longrightarrow>
    om_step E X omid mid w (w\<lparr>ow_om := m, ow_esm := esm'\<rparr>)"

text \<open>The first start, on a log without events or keys of this manager.\<close>

definition om_start :: "string \<Rightarrow> string \<Rightarrow> 'ad om_world \<Rightarrow> bool" where
  "om_start omid mid w \<longleftrightarrow> ledger_inv (ow_store w) \<and>
     (\<forall>e\<in>set (es_events (ow_store w)). \<not> om_is_own_event e omid \<and> (\<forall>k. idempotency_key e \<noteq> Some (om_key omid k))) \<and>
     OrderManager (ow_store w) omid = Inr (ow_om w) \<and> ExecutionStateMachine (ow_store w) mid = Inr (ow_esm w)"

definition om_run :: "env \<Rightarrow> 'ad adapter_api \<Rightarrow> string \<Rightarrow> string \<Rightarrow> 'ad om_world \<Rightarrow> bool" where
  "om_run E X omid mid w \<longleftrightarrow> (\<exists>w0. om_start omid mid w0 \<and> (om_step E X omid mid)\<^sup>*\<^sup>* w0 w)"

lemma om_exec_sound: "om_sound omid mid n w \<Longrightarrow> valid_request req \<Longrightarrow> om_sound omid mid n (om_exec E X req w)"
  by (cases req) (simp_all add: om_keepsD place_sound amend_sound cancel_sound cancel_all_sound fill_sound
      update_sound resync_sound)

lemma om_construct:
  assumes "om_sound omid mid n w"
  shows "OrderManager (ow_store w) omid = Inr (rec_of omid (ow_store w))"
  using assms
  by (simp add: om_sound_def OrderManager_def om.recovered_def replay_all [simplified] prog_simps)

lemma om_step_sound:
  assumes "om_step E X omid mid w w'" "om_sound omid mid n w"
  shows "om_sound omid mid n w'"
  using assms(1)
proof cases
  case (call req)
  with om_exec_sound [OF assms(2)] show ?thesis by simp
next
  case (machine t rid ctx q s' esm')
  have es: "esm_sound mid s' esm'" by (rule transition_sound [OF machine(2) om_soundD(10) [OF assms(2)]])
  show ?thesis using machine(2)
  proof (cases rule: transition_cases)
    case (unrecorded x ty pl k)
    with om_sound_failed [OF assms(2) unrecorded(1) es] machine(1) show ?thesis by simp
  next
    case (recorded e to c)
    from om_sound_append [OF assms(2) recorded(4) _ _ es] machine(1) show ?thesis
      by (simp add: esm_key_foreign ESM_SOURCE_TAG_def OM_SOURCE_TAG_def)
  qed (use machine(1) assms(2) in simp_all)
next
  case (foreign ty pl key sv q s')
  have es: "esm_sound mid s' (ow_esm w)"
    by (rule foreign_sound [OF foreign(2) om_soundD(10) [OF assms(2)]]) (use foreign(3) in \<open>auto simp: om_foreign_def\<close>)
  from om_sound_append [OF assms(2) foreign(2) _ _ es] foreign(1,3) show ?thesis by (simp add: om_foreign_def)
next
  case (restart m esm')
  have m: "m = rec_of omid (ow_store w)" using restart(2) om_construct [OF assms(2)] by simp
  have "esm_sound mid (ow_store w) esm'" using restart(3) construct_iff om_soundD(1) [OF assms(2)] by blast
  with assms(2) restart(1) m show ?thesis by (simp add: om_sound_def om_like_def)
qed (use assms(2) in simp)

lemma om_start_sound:
  assumes "om_start omid mid w"
  shows "om_sound omid mid 1 w"
proof -
  have inv: "ledger_inv (ow_store w)" using assms by (simp add: om_start_def)
  have esm: "esm_sound mid (ow_store w) (ow_esm w)" using assms construct_iff [OF inv] by (simp add: om_start_def)
  have rec: "om.recovered omid (ow_store w) (om_init omid)"
    using assms by (auto simp: om_start_def om.recovered_def intro!: fold_log_foreign simp: list_all_iff)
  note r = rec_of_eq [OF rec]
  have "\<not> es_closed (ow_store w)" using esm by (simp add: esm_sound_def)
  moreover from this have "ow_om w = om_init omid" "\<not> py_strip_empty omid" "length omid \<le> MAX_OM_ID_LENGTH"
    using assms rec inv
    by (auto simp: om_start_def OrderManager_def om.recovered_def replay_all [simplified] prog_simps split: if_splits)
  ultimately show ?thesis
    using assms inv esm rec r
    by (auto simp: om_sound_def om.own_keys_def om_wf_def om_init_def om_like_def om_start_def)
qed

lemma om_run_sound:
  assumes "om_run E X omid mid w"
  shows "om_sound omid mid 1 w"
proof -
  from assms obtain w0 where w0: "om_start omid mid w0" and steps: "(om_step E X omid mid)\<^sup>*\<^sup>* w0 w"
    by (auto simp: om_run_def)
  from steps show ?thesis by induction (auto intro: om_step_sound om_start_sound [OF w0])
qed

end
