(* ===== verification/Order_Properties.thy ===== *)
theory Order_Properties
  imports Order_Recovery
begin

text \<open>
  What the order manager guarantees: recovery, the lifecycle of an order over a whole run, and
  fills counted once.  The lifecycle and the fills are read off the log: every step of a run only appends to it, and the
  snapshots are what it rebuilds.
\<close>

section \<open>The log only grows\<close>

definition extends :: "'ad om_world \<Rightarrow> 'ad om_world \<Rightarrow> bool" where
  "extends w w' \<longleftrightarrow> (ledger_inv (ow_store w) \<longrightarrow>
     ledger_inv (ow_store w') \<and> (\<exists>new. es_events (ow_store w') = es_events (ow_store w) @ new))"

lemma extends_refl [simp]: "extends w w"
  by (simp add: extends_def)

lemma extends_trans: "extends a b \<Longrightarrow> extends b c \<Longrightarrow> extends a c"
  unfolding extends_def by (metis append_assoc)

lemma extends_store: "ow_store b = ow_store a \<Longrightarrow> extends a b"
  by (simp add: extends_def)

lemma extends_memory [simp]: "extends w (w\<lparr>ow_om := m\<rparr>)" "extends w (w\<lparr>ow_adapter := ad\<rparr>)"
  by (simp_all add: extends_def)

lemma extends_append:
  assumes "append_event E ty pl k sv (ow_store w) = (q, s')" "ow_store w' = s'"
  shows "extends w w'"
  using es.put_inv [OF _ assms(1)] es.put_log_grows [OF _ assms(1)] assms(2) by (auto simp: extends_def)

lemma extends_bind: "extends w (snd (f w)) \<Longrightarrow> (\<And>x w1. extends w1 (snd (g x w1))) \<Longrightarrow> extends w (snd (bindP f g w))"
  by (cases "f w") (auto simp: bindP_def split: sum.split intro: extends_trans)

lemma extends_record: "extends w (snd (om_record E a cid seq t f to d k w))"
  unfolding om_record_def
proof (rule extends_bind)
  show "extends w (snd (om_persist E a cid seq t f to d k w))"
    by (auto simp: om_persist_def intro: extends_append split: prod.split)
qed (auto simp: with_om_def intro: extends_store split: prod.split)

lemma extends_machine:
  assumes "transition E t rid ctx (ow_store w, ow_esm w) = (q, (s', esm'))" "ow_store w' = s'"
  shows "extends w w'"
  using assms(1) by (cases rule: transition_cases) (use assms(2) in \<open>auto intro: extends_append extends_store\<close>)

lemma extends_drive: "extends w (snd (drive_execution_sm E cid t f sn w))"
proof (cases "\<exists>u. exec_trigger_for t f sn = Inr (Some u)")
  case False
  then show ?thesis by (auto simp: drive_execution_sm_def split: sum.splits option.splits)
next
  case True
  then obtain u where u: "exec_trigger_for t f sn = Inr (Some u)" by blast
  obtain r s' esm' where tr: "transition E u (exec_request_id E cid u) (Some [(''client_order_id'', VStr cid)])
      (ow_store w, ow_esm w) = (r, (s', esm'))" by (metis surj_pair)
  have "ow_store (snd (drive_execution_sm E cid t f sn w)) = s'"
    using u tr by (auto simp: drive_execution_sm_def Let_def split: sum.split)
  from extends_machine [OF tr this] show ?thesis .
qed

lemma extends_adapter: "extends w (snd (with_adapter f w))"
  by (simp add: with_adapter_def extends_store split: prod.split)

lemma extends_ingest: "extends w (snd (ingest_status E cid status xid reason w))"
  by (auto simp: ingest_status_def Let_def intro!: extends_bind extends_record extends_drive split: sum.split option.split)

lemma extends_fail: "extends w (snd (fail_and_raise E X cid t k x w))"
  by (auto simp: fail_and_raise_def Let_def intro!: extends_bind extends_record split: sum.split)

lemma extends_next_id:
  "(\<And>p w. extends w (snd (g p w))) \<Longrightarrow> extends w (snd (bindP (with_om (om_next_id suf)) g w))"
  by (rule extends_bind) (auto simp: with_om_def intro: extends_store split: prod.split)

lemma extends_sent:
  "(\<And>x w. extends w (snd (h x w))) \<Longrightarrow> (\<And>od w. extends w (snd (g od w))) \<Longrightarrow>
   extends w (snd (case with_adapter f w of (Inl x, w') \<Rightarrow> h x w' | (Inr od, w') \<Rightarrow> g od w'))"
  using extends_adapter [of w f] by (auto split: prod.split sum.split intro: extends_trans)

lemma extends_place: "extends w (snd (om_place_order E X symb sd ot q lp tif ro w))"
  unfolding om_place_order_def
  by (auto intro!: extends_next_id extends_bind extends_record extends_drive extends_sent extends_fail extends_ingest
      split: sum.split)

lemma extends_amend: "extends w (snd (om_amend_order E X cid nq nl w))"
  unfolding om_amend_order_def
  by (auto intro!: extends_next_id extends_bind extends_record extends_adapter split: sum.split option.split)

lemma extends_cancel: "extends w (snd (om_cancel_order E X cid w))"
  unfolding om_cancel_order_def
  by (auto intro!: extends_next_id extends_bind extends_record extends_sent extends_fail extends_ingest
      simp: Let_def split: sum.split option.split)

lemma extends_cancel_all_orders: "extends w (snd (cancel_all_orders E rid ods w))"
proof (induction ods arbitrary: w)
  case (Cons od ods)
  have p: "extends w (snd (cancel_all_pending E rid c s w))" for c s and w :: "'a om_world"
    by (auto simp: cancel_all_pending_def intro!: extends_bind extends_record split: sum.split)
  have f: "extends w (snd (cancel_all_confirm E rid c x s w))" for c x s and w :: "'a om_world"
    by (auto simp: cancel_all_confirm_def intro!: extends_bind extends_record extends_drive split: sum.split)
  show ?case by (auto intro!: extends_bind p f Cons.IH split: option.split)
qed simp

lemma extends_cancel_all: "extends w (snd (om_cancel_all E X symb w))"
  unfolding om_cancel_all_def
  by (auto intro!: extends_next_id extends_bind extends_record extends_adapter extends_cancel_all_orders split: sum.split)

lemma extends_fill: "extends w (snd (report_fill E cid f w))"
  unfolding report_fill_def
  by (auto intro!: extends_bind extends_record extends_drive simp: Let_def split: sum.split option.split)

lemma extends_resync: "extends w (snd (resync_order E X cid w))"
  unfolding resync_order_def
  by (auto intro!: extends_bind extends_adapter extends_ingest split: sum.split option.split)

lemma extends_exec: "extends w (om_exec E X req w)"
  by (cases req) (simp_all add: extends_place extends_amend extends_cancel extends_cancel_all extends_fill
      extends_resync extends_ingest report_order_update_def split: option.split)

lemma extends_step: "om_step E X omid mid w w' \<Longrightarrow> extends w w'"
  by (erule om_step.cases) (auto intro: extends_exec extends_machine extends_append extends_store)

lemma extends_steps: "(om_step E X omid mid)\<^sup>*\<^sup>* w w' \<Longrightarrow> extends w w'"
  by (induction rule: rtranclp_induct) (auto intro: extends_step extends_trans)

lemma om_steps_sound: "(om_step E X omid mid)\<^sup>*\<^sup>* w w' \<Longrightarrow> om_sound omid mid n w \<Longrightarrow> om_sound omid mid n w'"
  by (induction rule: rtranclp_induct) (auto intro: om_step_sound)

section \<open>Reading the snapshots off the log\<close>

definition order_edge :: "order_state \<Rightarrow> order_state \<Rightarrow> bool" where
  "order_edge s s' \<longleftrightarrow> (\<exists>t. (s, t, s') \<in> set OM_EDGES)"

definition ev_cid :: "event \<Rightarrow> string" where "ev_cid e = text_at (payload e) ''client_order_id''"
definition ev_action :: "event \<Rightarrow> string" where "ev_action e = text_at (payload e) ''action''"

definition fill_entry :: "event \<Rightarrow> string \<times> decimal" where
  "fill_entry e = (let d = dget_dict (payload e) ''details'' in
     (case req_str d ''fill_id'' of Inr f \<Rightarrow> f | _ \<Rightarrow> [], case req_dec d ''fill_quantity'' of Inr q \<Rightarrow> q | _ \<Rightarrow> 0))"

lemma recorded_edge: "recorded_transition pl s = Inr s' \<Longrightarrow> order_edge s s'"
  by (auto simp: recorded_transition_def prog_simps order_edge_def om_next_edge split: if_splits)

text \<open>What one event does to the snapshots.\<close>

definition snapshot_effect :: "event \<Rightarrow> order_snapshot option \<Rightarrow> order_snapshot option \<Rightarrow> bool" where
  "snapshot_effect e old new \<longleftrightarrow>
     (if ev_action e = ''SUBMIT'' then \<exists>sn. new = Some sn \<and> os_lifecycle_state sn = L_SUBMITTED \<and> os_filled_quantity sn = 0
      else if ev_action e = ''FILL'' then
        \<exists>sn sn'. old = Some sn \<and> new = Some sn' \<and> order_edge (os_lifecycle_state sn) (os_lifecycle_state sn') \<and>
          os_filled_quantity sn' = dadd (os_filled_quantity sn) (snd (fill_entry e))
      else new = old \<or>
        (\<exists>sn sn'. old = Some sn \<and> new = Some sn' \<and> os_filled_quantity sn' = os_filled_quantity sn \<and>
          (os_lifecycle_state sn' = os_lifecycle_state sn \<or> order_edge (os_lifecycle_state sn) (os_lifecycle_state sn'))))"

lemma om_action_effect:
  assumes "om_apply_action (ev_action e) (ev_cid e) now (payload e) m = (Inr x, m')"
  shows "(\<forall>c. c \<noteq> ev_cid e \<longrightarrow> map_of (om_snapshots m') c = map_of (om_snapshots m) c \<and> fills_of m' c = fills_of m c) \<and>
    snapshot_effect e (map_of (om_snapshots m) (ev_cid e)) (map_of (om_snapshots m') (ev_cid e)) \<and>
    fills_of m (ev_cid e) \<subseteq> fills_of m' (ev_cid e) \<and>
    (ev_action e = ''FILL'' \<longrightarrow> fst (fill_entry e) \<in> fills_of m' (ev_cid e))"
proof (cases "ev_action e = ''SUBMIT''")
  case True
  with assms obtain sn where "submitted_snapshot (ev_cid e) now (dget_dict (payload e) ''details'') = Inr sn"
    and m': "m' = m\<lparr>om_processed_fill_ids := (om_processed_fill_ids m)(ev_cid e \<mapsto> fills_of m (ev_cid e)),
                    om_snapshots := AList.update (ev_cid e) sn (om_snapshots m)\<rparr>"
    by (auto simp: om_apply_action_def put_snapshot_eq Let_def split: sum.splits)
  then have "os_lifecycle_state sn = L_SUBMITTED" "os_filled_quantity sn = 0"
    by (auto simp: submitted_snapshot_def prog_simps)
  with True m' show ?thesis by (simp add: snapshot_effect_def fills_of_fold)
next
  case notS: False
  show ?thesis
  proof (cases "ev_action e = ''CANCEL_ALL_REQUESTED'' \<or> ev_action e = ''AMEND_REQUESTED''")
    case True
    with assms have "m' = m" by (auto simp: om_apply_action_def)
    with True show ?thesis by (auto simp: snapshot_effect_def)
  next
    case notI: False
    obtain sn where sn: "map_of (om_snapshots m) (ev_cid e) = Some sn"
      using assms notS notI by (auto simp: om_apply_action_def Let_def split: option.splits)
    show ?thesis
    proof (cases "ev_action e = ''FILL''")
      case True
      with assms sn obtain to f q where to: "recorded_transition (payload e) (os_lifecycle_state sn) = Inr to"
        and f: "req_str (dget_dict (payload e) ''details'') ''fill_id'' = Inr f"
        and q: "req_dec (dget_dict (payload e) ''details'') ''fill_quantity'' = Inr q"
        and m': "m' = m\<lparr>om_processed_fill_ids := (om_processed_fill_ids m)(ev_cid e \<mapsto> insert f (fills_of m (ev_cid e))),
            om_snapshots := AList.update (ev_cid e) (sn\<lparr>os_lifecycle_state := to,
              os_filled_quantity := dadd (os_filled_quantity sn) q, os_updated_at_utc := now\<rparr>) (om_snapshots m)\<rparr>"
        by (auto simp: om_apply_action_def put_snapshot_eq Let_def split: sum.splits)
      have "fill_entry e = (f, q)" by (simp add: fill_entry_def f q Let_def)
      with True m' sn recorded_edge [OF to] show ?thesis by (auto simp: snapshot_effect_def fills_of_fold)
    next
      case notF: False
      show ?thesis
      proof (cases "ev_action e = ''STATUS_UPDATE''")
        case True
        with assms sn obtain to where to: "recorded_transition (payload e) (os_lifecycle_state sn) = Inr to"
          and m': "m' = m\<lparr>om_snapshots := AList.update (ev_cid e)
            (status_snapshot sn to (dget_dict (payload e) ''details'') now) (om_snapshots m)\<rparr>"
          by (auto simp: om_apply_action_def put_snapshot_eq status_snapshot_def Let_def split: sum.splits)
        with True sn recorded_edge [OF to] show ?thesis by (auto simp: snapshot_effect_def status_snapshot_def)
      next
        case False
        have "\<exists>sn'. m' = m\<lparr>om_snapshots := AList.update (ev_cid e) sn' (om_snapshots m)\<rparr> \<and>
            os_lifecycle_state sn' = os_lifecycle_state sn \<and> os_filled_quantity sn' = os_filled_quantity sn"
          using assms sn notS notI notF False
          by (simp add: om_apply_action_def put_snapshot_eq Let_def split: sum.splits if_splits)
            (elim conjE, hypsubst, rule exI, rule conjI, rule refl, auto simp: prog_simps split: if_splits)
        with False sn notS notF show ?thesis by (auto simp: snapshot_effect_def)
      qed
    qed
  qed
qed

lemma om_apply_effect:
  assumes "om_apply_event e m = (Inr x, m')" "event_id e \<notin> om_applied_event_ids m"
  shows "(\<forall>c. c \<noteq> ev_cid e \<longrightarrow> map_of (om_snapshots m') c = map_of (om_snapshots m) c \<and> fills_of m' c = fills_of m c) \<and>
    snapshot_effect e (map_of (om_snapshots m) (ev_cid e)) (map_of (om_snapshots m') (ev_cid e)) \<and>
    fills_of m (ev_cid e) \<subseteq> fills_of m' (ev_cid e) \<and>
    (ev_action e = ''FILL'' \<longrightarrow> fst (fill_entry e) \<in> fills_of m' (ev_cid e))"
proof -
  let ?m0 = "m\<lparr>om_applied_event_ids := insert (event_id e) (om_applied_event_ids m)\<rparr>"
  obtain p m1 where b: "bump_seq (dget (payload e) ''seq'') ?m0 = (p, m1)" by (meson surj_pair)
  have m1: "om_snapshots m1 = om_snapshots m" "fills_of m1 c = fills_of m c" for c
    using b by (cases "dget (payload e) ''seq''"; auto simp: bump_seq_def)+
  have "om_apply_action (ev_action e) (ev_cid e) (timestamp_utc e) (payload e) m1 = (Inr x, m')"
    using assms(1) b unfolding om_apply_new [OF assms(2)] bindP_def ev_action_def ev_cid_def
    by (cases p) simp_all
  from om_action_effect [OF this] m1 show ?thesis by simp
qed

text \<open>Replaying the manager's events over a log whose keys and ids are those of a sound store.\<close>

definition om_log_ok :: "string \<Rightarrow> event list \<Rightarrow> bool" where
  "om_log_ok omid evs \<longleftrightarrow> distinct (map event_id evs) \<and> distinct (event_keys evs) \<and>
     (\<forall>e\<in>set evs. om_is_own_event e omid \<longrightarrow> key_matches omid e)"

abbreviation om_replay :: "string \<Rightarrow> event list \<Rightarrow> order_manager \<Rightarrow> exc + order_manager" where
  "om_replay omid evs m \<equiv> fold_log (\<lambda>e. om_is_own_event e omid) om_apply_event evs m"

definition own_events :: "string \<Rightarrow> event list \<Rightarrow> event list" where
  "own_events omid evs = filter (\<lambda>e. om_is_own_event e omid) evs"

definition order_fills :: "string \<Rightarrow> string \<Rightarrow> event list \<Rightarrow> (string \<times> decimal) list" where
  "order_fills omid cid evs = map fill_entry (filter (\<lambda>e. ev_action e = ''FILL'' \<and> ev_cid e = cid) (own_events omid evs))"

lemma own_events_snoc:
  "own_events omid (evs @ [e]) = own_events omid evs @ (if om_is_own_event e omid then [e] else [])"
  by (simp add: own_events_def)

lemma order_fills_snoc:
  "order_fills omid cid (evs @ [e]) = order_fills omid cid evs @
     (if om_is_own_event e omid \<and> ev_action e = ''FILL'' \<and> ev_cid e = cid then [fill_entry e] else [])"
  by (simp add: order_fills_def own_events_snoc)

lemma om_log_ok_prefix: "om_log_ok omid (xs @ ys) \<Longrightarrow> om_log_ok omid xs"
  by (simp add: om_log_ok_def)

lemma replay_applied:
  "om_replay omid evs (om_init omid) = Inr r \<Longrightarrow> om_applied_event_ids r = event_id ` set (own_events omid evs)"
proof (induction evs arbitrary: r rule: rev_induct)
  case (snoc e evs)
  then obtain q where "om_replay omid evs (om_init omid) = Inr q" by (auto simp: fold_log_append prog_simps)
  with snoc show ?case
    by (auto simp: fold_log_append own_events_snoc split: if_splits prod.splits sum.splits dest!: om_apply_marks)
qed (simp add: om_init_def own_events_def)

text \<open>One more event of a sound log.\<close>

lemma replay_snoc:
  assumes "om_replay omid (evs @ [e]) (om_init omid) = Inr r'" "om_log_ok omid (evs @ [e])"
  obtains (skip) "\<not> om_is_own_event e omid" "om_replay omid evs (om_init omid) = Inr r'"
  | (own) r x where "om_is_own_event e omid" "om_replay omid evs (om_init omid) = Inr r"
      "om_apply_event e r = (Inr x, r')" "event_id e \<notin> om_applied_event_ids r"
proof -
  from assms(1) obtain r where r: "om_replay omid evs (om_init omid) = Inr r" by (auto simp: fold_log_append prog_simps)
  have "event_id e \<notin> om_applied_event_ids r"
    using replay_applied [OF r] assms(2) by (auto simp: om_log_ok_def own_events_def)
  with assms(1) r show ?thesis
    by (auto simp: fold_log_append split: if_splits prod.splits sum.splits intro: skip own)
qed

lemma order_submitted:
  assumes "om_replay omid evs (om_init omid) = Inr r" "om_log_ok omid evs" "map_of (om_snapshots r) cid = Some sn"
  shows "\<exists>e\<in>set evs. om_is_own_event e omid \<and> ev_action e = ''SUBMIT'' \<and> ev_cid e = cid"
  using assms
proof (induction evs arbitrary: r sn rule: rev_induct)
  case (snoc e evs)
  note ok = om_log_ok_prefix [OF snoc.prems(2)]
  show ?case
  proof (rule replay_snoc [OF snoc.prems(1,2)])
    assume "om_replay omid evs (om_init omid) = Inr r"
    from snoc.IH [OF this ok snoc.prems(3)] show ?thesis by auto
  next
    fix r0 x
    assume own: "om_is_own_event e omid" and r0: "om_replay omid evs (om_init omid) = Inr r0"
      and a: "om_apply_event e r0 = (Inr x, r)" "event_id e \<notin> om_applied_event_ids r0"
    note eff = om_apply_effect [OF a]
    show ?thesis
    proof (cases "ev_action e = ''SUBMIT'' \<and> ev_cid e = cid")
      case True
      with own show ?thesis by auto
    next
      case False
      with eff snoc.prems(3) obtain sn0 where "map_of (om_snapshots r0) cid = Some sn0"
        by (cases "map_of (om_snapshots r0) cid"; cases "ev_cid e = cid") (auto simp: snapshot_effect_def split: if_splits)
      from snoc.IH [OF r0 ok this] show ?thesis by auto
    qed
  qed
qed (auto simp: om_init_def)

text \<open>A submission never meets an order of the same id.\<close>

lemma submit_new:
  assumes "om_replay omid evs (om_init omid) = Inr r" "om_log_ok omid (evs @ [e])"
    and "om_is_own_event e omid" "ev_action e = ''SUBMIT''"
  shows "map_of (om_snapshots r) (ev_cid e) = None"
proof (rule ccontr)
  assume "map_of (om_snapshots r) (ev_cid e) \<noteq> None"
  then obtain sn where "map_of (om_snapshots r) (ev_cid e) = Some sn" by blast
  from order_submitted [OF assms(1) om_log_ok_prefix [OF assms(2)] this]
  obtain e0 where e0: "e0 \<in> set evs" "om_is_own_event e0 omid" "ev_action e0 = ''SUBMIT''" "ev_cid e0 = ev_cid e" by blast
  have "idempotency_key e0 = Some (om_key omid (ev_cid e))" "idempotency_key e = Some (om_key omid (ev_cid e))"
    using assms(2-4) e0 by (auto simp: om_log_ok_def key_matches_def ev_action_def ev_cid_def Let_def)
  with assms(2) e0(1) show False by (auto simp: om_log_ok_def set_event_keys)
qed

text \<open>The lifecycle along a log.\<close>

lemma lifecycle_step:
  assumes "om_replay omid evs (om_init omid) = Inr r" "om_replay omid (evs @ new) (om_init omid) = Inr r'"
    and "om_log_ok omid (evs @ new)" "map_of (om_snapshots r) cid = Some sn"
  shows "\<exists>sn'. map_of (om_snapshots r') cid = Some sn' \<and> order_edge\<^sup>*\<^sup>* (os_lifecycle_state sn) (os_lifecycle_state sn') \<and>
    (om_terminal (os_lifecycle_state sn) \<longrightarrow> os_lifecycle_state sn' = os_lifecycle_state sn \<and>
       os_filled_quantity sn' = os_filled_quantity sn)"
  using assms(2,3)
proof (induction new arbitrary: r' rule: rev_induct)
  case Nil
  with assms(1,4) show ?case by auto
next
  case (snoc e new)
  have p: "om_replay omid ((evs @ new) @ [e]) (om_init omid) = Inr r'" "om_log_ok omid ((evs @ new) @ [e])"
    using snoc.prems by simp_all
  note ok = om_log_ok_prefix [OF p(2)]
  show ?case
  proof (rule replay_snoc [OF p])
    assume "om_replay omid (evs @ new) (om_init omid) = Inr r'"
    from snoc.IH [OF this ok] show ?thesis .
  next
    fix r0 x
    assume own: "om_is_own_event e omid" and r0: "om_replay omid (evs @ new) (om_init omid) = Inr r0"
      and a: "om_apply_event e r0 = (Inr x, r')" "event_id e \<notin> om_applied_event_ids r0"
    from snoc.IH [OF r0 ok] obtain s0 where s0: "map_of (om_snapshots r0) cid = Some s0"
      "order_edge\<^sup>*\<^sup>* (os_lifecycle_state sn) (os_lifecycle_state s0)"
      "om_terminal (os_lifecycle_state sn) \<Longrightarrow> os_lifecycle_state s0 = os_lifecycle_state sn \<and>
         os_filled_quantity s0 = os_filled_quantity sn" by blast
    note eff = om_apply_effect [OF a]
    have stuck: "om_terminal s \<Longrightarrow> \<not> order_edge s s'" for s s'
      using om_terminal_stuck by (auto simp: order_edge_def om_is_legal_def oml.legal_edge)
    have notS: "ev_cid e = cid \<Longrightarrow> ev_action e \<noteq> ''SUBMIT''"
      using submit_new [OF r0 p(2) own] s0(1) by auto
    obtain s1 where s1: "map_of (om_snapshots r') cid = Some s1"
      "os_lifecycle_state s1 = os_lifecycle_state s0 \<and> os_filled_quantity s1 = os_filled_quantity s0 \<or>
       order_edge (os_lifecycle_state s0) (os_lifecycle_state s1)"
      using eff s0(1) notS by (cases "ev_cid e = cid") (auto simp: snapshot_effect_def split: if_splits)
    then show ?thesis
      using s0(2,3) stuck by (auto intro: rtranclp.rtrancl_into_rtrancl)
  qed
qed

text \<open>The fills along a log.\<close>

lemma fills_along:
  assumes "om_replay omid evs (om_init omid) = Inr r" "om_log_ok omid evs" "map_of (om_snapshots r) cid = Some sn"
  shows "os_filled_quantity sn = foldl dadd 0 (map snd (order_fills omid cid evs))"
    and "fst ` set (order_fills omid cid evs) \<subseteq> fills_of r cid"
proof -
  have none: "map_of (om_snapshots r) cid = None \<Longrightarrow> order_fills omid cid evs = []"
    if "om_replay omid evs (om_init omid) = Inr r" "om_log_ok omid evs" for evs r
    using that
  proof (induction evs arbitrary: r rule: rev_induct)
    case (snoc e evs)
    show ?case
    proof (rule replay_snoc [OF snoc.prems(2,3)])
      assume "\<not> om_is_own_event e omid" "om_replay omid evs (om_init omid) = Inr r"
      with snoc.IH [OF snoc.prems(1) this(2) om_log_ok_prefix [OF snoc.prems(3)]] show ?thesis by (simp add: order_fills_snoc)
    next
      fix r0 x assume r0: "om_replay omid evs (om_init omid) = Inr r0"
        and a: "om_apply_event e r0 = (Inr x, r)" "event_id e \<notin> om_applied_event_ids r0"
      note eff = om_apply_effect [OF a]
      have "map_of (om_snapshots r0) cid = None \<and> \<not> (ev_action e = ''FILL'' \<and> ev_cid e = cid)"
        using eff snoc.prems(1) by (cases "ev_cid e = cid") (auto simp: snapshot_effect_def split: if_splits)
      with snoc.IH [OF _ r0 om_log_ok_prefix [OF snoc.prems(3)]] show ?thesis by (simp add: order_fills_snoc)
    qed
  qed (simp add: order_fills_def own_events_def)
  have "os_filled_quantity sn = foldl dadd 0 (map snd (order_fills omid cid evs)) \<and>
      fst ` set (order_fills omid cid evs) \<subseteq> fills_of r cid"
    using assms
  proof (induction evs arbitrary: r sn rule: rev_induct)
    case (snoc e evs)
    note ok = om_log_ok_prefix [OF snoc.prems(2)]
    show ?case
    proof (rule replay_snoc [OF snoc.prems(1,2)])
      assume "\<not> om_is_own_event e omid" "om_replay omid evs (om_init omid) = Inr r"
      with snoc.IH [OF this(2) ok snoc.prems(3)] show ?thesis by (simp add: order_fills_snoc)
    next
      fix r0 x assume own: "om_is_own_event e omid" and r0: "om_replay omid evs (om_init omid) = Inr r0"
        and a: "om_apply_event e r0 = (Inr x, r)" "event_id e \<notin> om_applied_event_ids r0"
      note eff = om_apply_effect [OF a]
      show ?thesis
      proof (cases "ev_cid e = cid")
        case False
        with eff snoc.prems(3) have "map_of (om_snapshots r0) cid = Some sn" "fills_of r cid = fills_of r0 cid" by auto
        with snoc.IH [OF r0 ok] False show ?thesis by (simp add: order_fills_snoc)
      next
        case cid: True
        show ?thesis
        proof (cases "ev_action e = ''SUBMIT''")
          case True
          have "order_fills omid cid evs = []" using none [OF r0 ok] submit_new [OF r0 snoc.prems(2) own True] cid by simp
          with True eff cid snoc.prems(3) show ?thesis by (auto simp: order_fills_snoc snapshot_effect_def)
        next
          case False
          with eff cid snoc.prems(3) obtain s0 where s0: "map_of (om_snapshots r0) cid = Some s0"
            "os_filled_quantity sn = (if ev_action e = ''FILL'' then dadd (os_filled_quantity s0) (snd (fill_entry e))
               else os_filled_quantity s0)"
            by (cases "map_of (om_snapshots r0) cid") (auto simp: snapshot_effect_def split: if_splits)
          from snoc.IH [OF r0 ok s0(1)] s0(2) eff cid own show ?thesis
            by (auto simp: order_fills_snoc)
        qed
      qed
    qed
  qed (auto simp: om_init_def)
  then show "os_filled_quantity sn = foldl dadd 0 (map snd (order_fills omid cid evs))"
    "fst ` set (order_fills omid cid evs) \<subseteq> fills_of r cid" by simp_all
qed

lemma sound_replay:
  assumes "om_sound omid mid n w"
  shows "om_replay omid (es_events (ow_store w)) (om_init omid) = Inr (rec_of omid (ow_store w))"
    "om_log_ok omid (es_events (ow_store w))"
  using assms ledger_ids [OF om_soundD(1) [OF assms]]
  by (auto simp: om_sound_def om.recovered_def om_log_ok_def om_wf_def ledger_inv_def)

section \<open>Properties\<close>

text \<open>
  (C31) Recovery of the order manager.  At any point of a run, through failed persists, venue errors,
  other components writing to the same log and restarts, a manager built from the log has exactly the
  orders of the one in memory, has applied exactly the events that one has, remembers no fill it does
  not, and will mint no number that one has durably used.
\<close>

theorem om_recovery:
  assumes "om_run E X omid mid w"
  shows "\<exists>m. OrderManager (ow_store w) omid = Inr m \<and> om_snapshots m = om_snapshots (ow_om w) \<and>
    om_applied_event_ids m = om_applied_event_ids (ow_om w) \<and> om_next_seq m \<le> om_next_seq (ow_om w) \<and>
    (\<forall>cid. fills_of m cid \<subseteq> fills_of (ow_om w) cid) \<and>
    (\<forall>e\<in>set (es_events (ow_store w)). \<forall>i rest. 0 \<le> i \<longrightarrow>
       idempotency_key e = Some (om_key omid (make_id omid i rest)) \<longrightarrow> i < om_next_seq m)"
proof -
  note s = om_run_sound [OF assms]
  have "i < om_next_seq (rec_of omid (ow_store w))"
    if "e \<in> set (es_events (ow_store w))" "0 \<le> i" "idempotency_key e = Some (om_key omid (make_id omid i rest))" for e i rest
    using om_soundD(9) [OF s] that unfolding om_wf_def key_below_def make_id_prefix by blast
  with om_construct [OF s] om_soundD(8) [OF s] show ?thesis by (auto simp: om_like_def)
qed

text \<open>
  (C30) The lifecycle of an order.  Along any continuation of a run an order is never forgotten, its
  state moves only along edges of the frozen table, and once it is filled, cancelled, rejected,
  expired or failed neither its state nor its filled quantity ever changes again.
\<close>

theorem order_lifecycle:
  assumes "om_run E X omid mid w" "(om_step E X omid mid)\<^sup>*\<^sup>* w w'"
    and "map_of (om_snapshots (ow_om w)) cid = Some sn"
  shows "\<exists>sn'. map_of (om_snapshots (ow_om w')) cid = Some sn' \<and>
    order_edge\<^sup>*\<^sup>* (os_lifecycle_state sn) (os_lifecycle_state sn') \<and>
    (om_terminal (os_lifecycle_state sn) \<longrightarrow> os_lifecycle_state sn' = os_lifecycle_state sn \<and>
       os_filled_quantity sn' = os_filled_quantity sn)"
proof -
  note s = om_run_sound [OF assms(1)] and s' = om_steps_sound [OF assms(2) om_run_sound [OF assms(1)]]
  obtain new where "es_events (ow_store w') = es_events (ow_store w) @ new"
    using extends_steps [OF assms(2)] om_soundD(1) [OF s] by (auto simp: extends_def)
  with lifecycle_step [OF sound_replay(1) [OF s]] sound_replay [OF s'] om_soundD(3) [OF s] om_soundD(3) [OF s'] assms(3)
  show ?thesis by auto
qed

text \<open>The ids of the recorded fills of an order differ, because their keys do.\<close>

lemma fill_key:
  "om_log_ok omid evs \<Longrightarrow> e \<in> set evs \<Longrightarrow> om_is_own_event e omid \<Longrightarrow> ev_action e = ''FILL'' \<Longrightarrow>
   idempotency_key e = Some (om_key omid (ev_cid e @ '':fill:'' @ fst (fill_entry e)))"
  by (fastforce simp: om_log_ok_def key_matches_def ev_action_def ev_cid_def fill_entry_def Let_def)

lemma order_fill_keys: "om_log_ok omid evs \<Longrightarrow> distinct (map fst (order_fills omid cid evs))"
proof (induction evs rule: rev_induct)
  case (snoc e evs)
  note ok = om_log_ok_prefix [OF snoc.prems]
  show ?case
  proof (cases "om_is_own_event e omid \<and> ev_action e = ''FILL'' \<and> ev_cid e = cid")
    case True
    have "fst (fill_entry e) \<noteq> fst (fill_entry e0)"
      if "e0 \<in> set evs" "om_is_own_event e0 omid" "ev_action e0 = ''FILL''" "ev_cid e0 = cid" for e0
    proof
      assume "fst (fill_entry e) = fst (fill_entry e0)"
      then have "idempotency_key e = idempotency_key e0"
        using fill_key [OF snoc.prems, of e] fill_key [OF snoc.prems, of e0] True that by simp
      with fill_key [OF snoc.prems, of e0] that snoc.prems show False by (auto simp: om_log_ok_def set_event_keys)
    qed
    then have "fst (fill_entry e) \<notin> set (map fst (order_fills omid cid evs))"
      by (force simp: order_fills_def own_events_def)
    with True snoc.IH [OF ok] show ?thesis by (simp add: order_fills_snoc)
  next
    case False
    with snoc.IH [OF ok] show ?thesis by (auto simp: order_fills_snoc)
  qed
qed (simp add: order_fills_def own_events_def)

text \<open>
  (C29) Every fill counts once.  The filled quantity of an order is the sum, in the order of the log, of
  the fills recorded for it, no two of which have the same id; and reporting any of them again, at
  any later time and after any number of restarts, changes nothing.
\<close>

theorem fills_counted_once:
  assumes "om_run E X omid mid w" "map_of (om_snapshots (ow_om w)) cid = Some sn"
  shows "os_filled_quantity sn = foldl dadd 0 (map snd (order_fills omid cid (es_events (ow_store w))))
    \<and> distinct (map fst (order_fills omid cid (es_events (ow_store w))))
    \<and> (\<forall>f. fl_fill_id f \<in> fst ` set (order_fills omid cid (es_events (ow_store w))) \<longrightarrow>
          report_fill E cid f w = (Inr (Some sn), w))"
proof -
  note s = om_run_sound [OF assms(1)]
  have "map_of (om_snapshots (rec_of omid (ow_store w))) cid = Some sn"
    using assms(2) om_soundD(3) [OF s] by simp
  note along = fills_along [OF sound_replay [OF s] this]
  have "fills_of (rec_of omid (ow_store w)) cid \<subseteq> fills_of (ow_om w) cid"
    using om_soundD(8) [OF s] by (simp add: om_like_def)
  with along order_fill_keys [OF sound_replay(2) [OF s], of cid] assms(2) show ?thesis
    by (auto simp: report_fill_def)
qed

end
