(* ===== verification/Order_Submission.thy ===== *)
theory Order_Submission
  imports Order_Properties
begin

text \<open>
  Submitting an order: what is durable when the adapter is called, what its answer does to the order,
  and two gaps in the handling of errors.
\<close>

section \<open>Submitting an order\<close>

definition order_state_of :: "'ad om_world \<Rightarrow> string \<Rightarrow> order_state option" where
  "order_state_of w cid = map_option os_lifecycle_state (map_of (om_snapshots (ow_om w)) cid)"

text \<open>A transition recorded under a key that is still free.\<close>

lemma status_recorded:
  assumes "om_sound omid mid n w" "map_of (om_snapshots (ow_om w)) cid = Some sn"
    "om_next_state (os_lifecycle_state sn) t = Inr to"
    "\<And>tag y. tag \<in> request_tags \<Longrightarrow> rest \<noteq> tag @ y"
    "get_by_idempotency_key (ow_store w) (om_key omid (cid @ rest)) = None"
    "om_record E ''STATUS_UPDATE'' cid None (Some t) (Some (os_lifecycle_state sn)) (Some to) d (cid @ rest) w = (q, w')"
  shows "om_sound omid mid n w' \<and> ow_adapter w' = ow_adapter w \<and>
    ((\<exists>x. q = Inl x) \<and> ow_om w' = ow_om w \<and> es_events (ow_store w') = es_events (ow_store w) \<or>
     (\<exists>sn'. q = Inr sn') \<and> order_state_of w' cid = Some to)"
proof (rule om_record_cases [OF assms(6,1)], goal_cases)
  case (1 e)
  from apply_status [OF 1 assms(2) refl assms(3)] show ?case by blast
next
  case 2
  show ?case by (rule known_key [OF assms(1,2,4)])
next
  case failed: (5 x)
  have "ow_om w' = ow_om w" "ow_adapter w' = ow_adapter w"
    using arg_cong [OF failed(2), of ow_om] arg_cong [OF failed(2), of ow_adapter] by simp_all
  with failed(1,3,4) show ?case by simp
next
  case (6 x e)
  with assms(5) show ?case by simp
next
  case new: (7 x e m')
  have "ow_om w' = m'" "ow_adapter w' = ow_adapter w"
    using arg_cong [OF new(2), of ow_om] arg_cong [OF new(2), of ow_adapter] by simp_all
  moreover have "om_sound omid mid n w'" by (rule om_sound_less [OF new(9) seq_after_ge])
  moreover have "order_state_of w' cid = Some to"
    using apply_status [OF new(4,7) assms(2) refl assms(3)] new(8) \<open>ow_om w' = m'\<close>
    by (auto simp: order_state_of_def status_snapshot_def)
  ultimately show ?case using new(1) by simp
qed simp_all

lemma ingest_moves:
  assumes "om_sound omid mid n w" "map_of (om_snapshots (ow_om w)) cid = Some sn" "STATUS_TO_TRIGGER status = Some t"
    "om_next_state (os_lifecycle_state sn) t = Inr to"
    "get_by_idempotency_key (ow_store w) (om_key omid
       (cid @ '':status:'' @ order_trigger_value t @ '':'' @ order_state_value (os_lifecycle_state sn))) = None"
    "ingest_status E cid status xid reason w = (r, w')"
  shows "ow_adapter w' = ow_adapter w \<and> (\<forall>v. r = Inr v \<longrightarrow> order_state_of w' cid = Some to)"
proof -
  let ?k = "'':status:'' @ order_trigger_value t @ '':'' @ order_state_value (os_lifecycle_state sn)"
  let ?rec = "om_record E ''STATUS_UPDATE'' cid None (Some t) (Some (os_lifecycle_state sn)) (Some to)
     [(''exchange_order_id'', vopt VStr xid), (''reject_reason'', vopt VStr reason)] (cid @ ?k) :: ('a, order_snapshot option) om_prog"
  have legal: "om_is_legal (os_lifecycle_state sn) t" using assms(4) om_legal_next by blast
  have eq: "ingest_status E cid status xid reason w = bindP ?rec
      (\<lambda>sn'. bindP (drive_execution_sm E cid (Some t) (os_lifecycle_state sn) sn') (\<lambda>_ w. (Inr sn', w))) w"
    by (simp add: ingest_status_def snapshot_at_def assms(2,3,4) legal Let_def)
  obtain q w1 where w1: "?rec w = (q, w1)" by (meson surj_pair)
  note rec = status_recorded [OF assms(1,2,4) _ assms(5) w1]
  have l: "om_sound omid mid n w1 \<and> ow_adapter w1 = ow_adapter w \<and>
    ((\<exists>x. q = Inl x) \<and> ow_om w1 = ow_om w \<and> es_events (ow_store w1) = es_events (ow_store w) \<or>
     (\<exists>sn'. q = Inr sn') \<and> order_state_of w1 cid = Some to)"
    by (rule rec) (rule place_rest_plain(1))
  show ?thesis
  proof (cases q)
    case (Inl x)
    with assms(6) w1 l show ?thesis unfolding eq by (auto simp: bindP_def)
  next
    case (Inr sn')
    obtain p w2 where w2: "drive_execution_sm E cid (Some t) (os_lifecycle_state sn) sn' w1 = (p, w2)" by (meson surj_pair)
    from drive_sound [OF w2 l [THEN conjunct1]] assms(6) w1 w2 Inr l show ?thesis
      unfolding eq by (cases p) (auto simp: bindP_def order_state_of_def)
  qed
qed

lemma fail_moves:
  assumes "om_sound omid mid n w" "map_of (om_snapshots (ow_om w)) cid = Some sn"
    "om_next_state (os_lifecycle_state sn) t = Inr to" "is_adapter_error x"
    "\<And>tag y. tag \<in> request_tags \<Longrightarrow> rest \<noteq> tag @ y"
    "get_by_idempotency_key (ow_store w) (om_key omid (cid @ rest)) = None"
    "fail_and_raise E X cid t (cid @ rest) x w = (r, w')"
  shows "ow_adapter w' = ow_adapter w \<and> (\<exists>y. r = Inl y) \<and>
    (r = Inl x \<and> order_state_of w' cid = Some to \<or>
     ow_om w' = ow_om w \<and> es_events (ow_store w') = es_events (ow_store w))"
proof -
  let ?rec = "om_record E ''STATUS_UPDATE'' cid None (Some t) (Some (os_lifecycle_state sn)) (Some to)
     [(''error'', VStr (api_exc_str X x))] (cid @ rest) :: ('a, order_snapshot option) om_prog"
  have legal: "om_is_legal (os_lifecycle_state sn) t" using assms(3) om_legal_next by blast
  have eq: "fail_and_raise E X cid t (cid @ rest) x w = bindP ?rec (\<lambda>_ w. (Inl x, w)) w"
    by (simp add: fail_and_raise_def snapshot_at_def assms(2,3,4) legal Let_def)
  obtain q w1 where w1: "?rec w = (q, w1)" by (meson surj_pair)
  from status_recorded [OF assms(1-3,5,6) w1] assms(7) w1 show ?thesis
    unfolding eq by (cases q) (auto simp: bindP_def)
qed

text \<open>
  What is in place when the request reaches the adapter: the submission is on the log, the order is
  \<open>SUBMITTED\<close>, and no other record about it exists.
\<close>

definition submitted :: "string \<Rightarrow> string \<Rightarrow> string \<Rightarrow> 'ad om_world \<Rightarrow> bool" where
  "submitted omid mid cid w \<longleftrightarrow> om_sound omid mid 1 w \<and> order_state_of w cid = Some L_SUBMITTED \<and>
     (\<exists>e\<in>set (es_events (ow_store w)). om_is_own_event e omid \<and> ev_action e = ''SUBMIT'' \<and> ev_cid e = cid) \<and>
     (\<forall>rest. rest \<noteq> [] \<longrightarrow> get_by_idempotency_key (ow_store w) (om_key omid (cid @ rest)) = None)"

lemma submitted_adapter: "submitted omid mid cid w \<Longrightarrow> submitted omid mid cid (w\<lparr>ow_adapter := ad\<rparr>)"
  by (simp add: submitted_def order_state_of_def)

text \<open>The first half of \<open>place_order\<close>, up to the call of the adapter.\<close>

lemma submit_half:
  assumes sound: "om_sound omid mid 1 w" and symb: "\<not> py_strip_empty symb"
    and cid: "cid = place_id omid (om_next_seq (ow_om w))"
    and run: "bindP (om_record E ''SUBMIT'' cid (Some (om_next_seq (ow_om w))) None None None
        (submit_details symb sd ot quant lp tif ro) cid) (\<lambda>sn. drive_execution_sm E cid None L_NEW sn) (take_id w) = (q, w2)"
  shows "ow_adapter w2 = ow_adapter w \<and> (\<forall>u. q = Inr u \<longrightarrow> submitted omid mid cid w2) \<and>
    (map_of (om_snapshots (ow_om w2)) cid = map_of (om_snapshots (ow_om w)) cid \<or>
     (\<exists>now. map_of (om_snapshots (ow_om w2)) cid = Some (new_snapshot cid now symb sd ot quant lp tif ro)))"
proof -
  let ?i = "om_next_seq (ow_om w)" and ?w = "take_id w" and ?d = "submit_details symb sd ot quant lp tif ro"
  let ?rec = "om_record E ''SUBMIT'' cid (Some ?i) None None None ?d cid :: ('a, order_snapshot option) om_prog"
  have st: "om_sound omid mid 1 ?w" by (rule take_id_sound [OF sound])
  have ge: "om_next_seq (rec_of omid (ow_store ?w)) \<le> ?i" "0 \<le> ?i"
    using om_soundD(4) [OF sound] next_seq_pos [OF sound] by simp_all
  have free: "get_by_idempotency_key (ow_store ?w) (om_key omid (cid @ rest)) = None" for rest
    unfolding cid by (rule om_fresh_key [OF st not_below_cancel_all(3)]) (use ge in simp_all)
  obtain p w1 where w1: "?rec ?w = (p, w1)" by (meson surj_pair)
  show ?thesis
  proof (rule om_record_cases [OF w1 st], goal_cases)
    case (1 e)
    from apply_submit [OF 1 symb] show ?case by blast
  next
    case 2
    show ?case unfolding cid using key_below_place [of ?i _ "[]" omid] below_taken [OF sound] by (auto simp: request_tags_def)
  next
    case 3
    show ?case using cid ge by auto
  next
    case failed: (5 x)
    have "ow_adapter w1 = ow_adapter w" using arg_cong [OF failed(2), of ow_adapter] by simp
    moreover have "ow_om w1 = ow_om ?w" using arg_cong [OF failed(2), of ow_om] by simp
    then have "map_of (om_snapshots (ow_om w1)) cid = map_of (om_snapshots (ow_om w)) cid" by simp
    ultimately show ?case using failed(1) run w1 by (auto simp: bindP_def)
  next
    case (6 x e)
    with free [of "[]"] show ?case by simp
  next
    case new: (7 x e m')
    have w1_eq: "ow_adapter w1 = ow_adapter w" "ow_om w1 = m'"
      using arg_cong [OF new(2), of ow_adapter] arg_cong [OF new(2), of ow_om] by simp_all
    have s1: "om_sound omid mid 1 w1" by (rule om_sound_less [OF new(9) seq_after_ge])
    have memory: "map_of (om_snapshots (ow_om w1)) cid = Some (new_snapshot cid (timestamp_utc e) symb sd ot quant lp tif ro)"
      using apply_submit [OF new(4,7) symb] new(8) w1_eq(2) by auto
    then have sub: "order_state_of w1 cid = Some L_SUBMITTED" by (simp add: order_state_of_def new_snapshot_def)
    have free1: "get_by_idempotency_key (ow_store w1) (om_key omid (cid @ rest)) = None" if "rest \<noteq> []" for rest
      using find_key_snoc [OF om_soundD(1) [OF st] om_soundD(1) [OF s1] new(3) _ free] new(5) that by simp
    have drive: "drive_execution_sm E cid None L_NEW x w1 = (q, w2)"
      using run w1 new(1) by (simp add: bindP_def)
    have ext: "extends w1 w2" using extends_drive [of w1 E cid None L_NEW x] drive by simp
    have e: "om_is_own_event e omid" "ev_action e = ''SUBMIT''" "ev_cid e = cid" "e \<in> set (es_events (ow_store w1))"
      using new(3,4) by (simp_all add: om_is_own_event_def ev_action_def ev_cid_def)
    then have "\<exists>e\<in>set (es_events (ow_store w2)). om_is_own_event e omid \<and> ev_action e = ''SUBMIT'' \<and> ev_cid e = cid"
      using ext om_soundD(1) [OF s1] by (auto simp: extends_def)
    with drive_sound [OF drive s1] drive_find_none [OF drive s1] free1 sub memory w1_eq show ?case
      by (auto simp: submitted_def order_state_of_def)
  qed simp
qed

text \<open>The next id is the id of no order.\<close>

lemma order_is_new:
  assumes s: "om_sound omid mid 1 w" and cid: "cid = place_id omid (om_next_seq (ow_om w))"
  shows "map_of (om_snapshots (ow_om w)) cid = None"
proof (rule ccontr)
  assume "map_of (om_snapshots (ow_om w)) cid \<noteq> None"
  then obtain sn where "map_of (om_snapshots (ow_om w)) cid = Some sn" by blast
  then obtain i where "0 \<le> i" "i < om_next_seq (rec_of omid (ow_store w))" "cid = place_id omid i" by (rule known_id [OF s])
  with cid place_id_eq [of omid i "[]" "om_next_seq (ow_om w)" "[]"] om_soundD(4) [OF s] next_seq_pos [OF s] show False by simp
qed

text \<open>The whole method, in terms of the two halves.\<close>

lemma place_split:
  assumes "om_id (ow_om w) = omid" "cid = place_id omid (om_next_seq (ow_om w))"
  shows "om_place_order E X symb sd ot quant lp tif ro w =
    bindP (bindP (om_record E ''SUBMIT'' cid (Some (om_next_seq (ow_om w))) None None None
        (submit_details symb sd ot quant lp tif ro) cid) (\<lambda>sn. drive_execution_sm E cid None L_NEW sn))
      (\<lambda>_ w. case OrderRequest_post_init \<lparr>rq_client_order_id = cid, rq_symbol = symb, rq_side = sd, rq_order_type = ot,
              rq_quantity = quant, rq_limit_price = lp, rq_time_in_force = tif, rq_reduce_only = ro\<rparr> of
         Inl x \<Rightarrow> (Inl x, w)
       | Inr request \<Rightarrow>
           (case with_adapter (api_place_order X request) w of
              (Inl x, w') \<Rightarrow> fail_and_raise E X cid LT_SUBMIT_FAILED (cid @ '':submit_failed'') x w'
            | (Inr od, w') \<Rightarrow>
                ingest_status E cid (if od_status od = ST_REJECTED then ST_REJECTED else ST_ACKNOWLEDGED)
                  (od_exchange_order_id od) None w')) (take_id w)"
proof -
  have assoc: "bindP f (\<lambda>x. bindP (g x) h) v = bindP (bindP f g) h v" for f :: "('c, 'd, 'e) prog" and g :: "'e \<Rightarrow> ('c, 'd, 'f) prog" and h :: "'f \<Rightarrow> ('c, 'd, 'g) prog" and v
    by (cases "f v") (simp add: bindP_def split: sum.split)
  have cid: "make_id (om_id (ow_om w)) (om_next_seq (ow_om w)) ''place'' = cid" using assms by (simp add: place_id_def)
  show ?thesis
    by (simp add: om_place_order_def next_id_eq cid submit_details_def assoc del: append.simps)
qed

text \<open>
  (C28) A submission is durable before it is sent.  Placing an order mints an id no order has; either an
  error is raised and the adapter was not called, or the adapter is called exactly once, in a world
  whose log already holds the submission.  Its answer decides the order: acknowledged or rejected
  when the method returns, failed with the same exception when the adapter raised one of its errors
  (unless the store refused even that record).
\<close>

theorem submit_before_send:
  assumes "om_run E X omid mid w" "\<not> py_strip_empty symb"
    and "om_place_order E X symb sd ot quant lp tif ro w = (r, w')"
    and "cid = make_id omid (om_next_seq (ow_om w)) ''place''"
    and "rq = \<lparr>rq_client_order_id = cid, rq_symbol = symb, rq_side = sd, rq_order_type = ot,
              rq_quantity = quant, rq_limit_price = lp, rq_time_in_force = tif, rq_reduce_only = ro\<rparr>"
  shows "map_of (om_snapshots (ow_om w)) cid = None \<and>
    (isl r \<and> ow_adapter w' = ow_adapter w \<or>
     (\<exists>w1 sent. OrderRequest_post_init rq = Inr rq \<and> submitted omid mid cid w1 \<and>
        ow_adapter w1 = ow_adapter w \<and> extends w1 w' \<and>
        api_place_order X rq (ow_adapter w) = (sent, ow_adapter w') \<and>
        (case sent of
           Inl x \<Rightarrow> isl r \<and> (is_adapter_error x \<longrightarrow> r = Inl x \<and> order_state_of w' cid = Some L_FAILED \<or>
                      es_events (ow_store w') = es_events (ow_store w1))
         | Inr od \<Rightarrow> \<forall>v. r = Inr v \<longrightarrow>
             order_state_of w' cid = Some (if od_status od = ST_REJECTED then L_REJECTED else L_ACKNOWLEDGED))))"
proof -
  have s: "om_sound omid mid 1 w" by (rule om_run_sound [OF assms(1)])
  have cid: "cid = place_id omid (om_next_seq (ow_om w))" using assms(4) by (simp add: place_id_def)
  note none = order_is_new [OF s cid]
  let ?half = "bindP (om_record E ''SUBMIT'' cid (Some (om_next_seq (ow_om w))) None None None
        (submit_details symb sd ot quant lp tif ro) cid) (\<lambda>sn. drive_execution_sm E cid None L_NEW sn)"
  obtain q w2 where half: "?half (take_id w) = (q, w2)" by (meson surj_pair)
  note h = submit_half [OF s assms(2) cid half]
  note split = place_split [OF om_soundD(2) [OF s] cid, of E X symb sd ot quant lp tif ro, folded assms(5)]
  show ?thesis
  proof (cases q)
    case (Inl x)
    with assms(3) half h none split show ?thesis by (auto simp: bindP_def)
  next
    case (Inr u)
    then have sub: "submitted omid mid cid w2" and ad: "ow_adapter w2 = ow_adapter w" using h by simp_all
    show ?thesis
    proof (cases "OrderRequest_post_init rq")
      case post: (Inl x)
      with assms(3) half Inr ad none split show ?thesis by (auto simp: bindP_def)
    next
      case post: (Inr rq')
      have rq': "rq' = rq" using post by (simp add: OrderRequest_post_init_def split: if_splits)
      obtain sent ad' where sent: "api_place_order X rq (ow_adapter w) = (sent, ad')" by (meson surj_pair)
      let ?w3 = "w2\<lparr>ow_adapter := ad'\<rparr>"
      have sub3: "submitted omid mid cid ?w3" by (rule submitted_adapter [OF sub])
      then obtain sn where sn: "map_of (om_snapshots (ow_om ?w3)) cid = Some sn" "os_lifecycle_state sn = L_SUBMITTED"
        by (auto simp: submitted_def order_state_of_def)
      have s3: "om_sound omid mid 1 ?w3"
        and free: "rest \<noteq> [] \<Longrightarrow> get_by_idempotency_key (ow_store ?w3) (om_key omid (cid @ rest)) = None" for rest
        using sub3 by (simp_all add: submitted_def)
      have run: "(r, w') = (case sent of
          Inl x \<Rightarrow> fail_and_raise E X cid LT_SUBMIT_FAILED (cid @ '':submit_failed'') x ?w3
        | Inr od \<Rightarrow> ingest_status E cid (if od_status od = ST_REJECTED then ST_REJECTED else ST_ACKNOWLEDGED)
            (od_exchange_order_id od) None ?w3)"
        using assms(3) split half Inr post rq' sent ad by (simp add: bindP_def with_adapter_def del: append.simps split: sum.split)
      have grows: "extends w2 w'"
      proof (rule extends_trans [OF extends_memory(2) [of w2 ad']])
        show "extends ?w3 w'" using arg_cong [OF run, of snd]
          by (auto simp: extends_fail extends_ingest split: sum.splits if_splits)
      qed
      have conclude: "?thesis" if "case sent of
           Inl x \<Rightarrow> isl r \<and> (is_adapter_error x \<longrightarrow> r = Inl x \<and> order_state_of w' cid = Some L_FAILED \<or>
                      es_events (ow_store w') = es_events (ow_store w2))
         | Inr od \<Rightarrow> \<forall>v. r = Inr v \<longrightarrow>
             order_state_of w' cid = Some (if od_status od = ST_REJECTED then L_REJECTED else L_ACKNOWLEDGED)" "ow_adapter w' = ad'"
        using that none post rq' sub ad sent grows by (intro conjI disjI2 exI [of _ w2] exI [of _ sent]) simp_all
      have nx: "om_next_state (os_lifecycle_state sn) LT_SUBMIT_FAILED = Inr L_FAILED"
        "om_next_state (os_lifecycle_state sn) LT_REJECTED = Inr L_REJECTED"
        "om_next_state (os_lifecycle_state sn) LT_ACKNOWLEDGED = Inr L_ACKNOWLEDGED"
        unfolding sn(2) by code_simp+
      show ?thesis
      proof (cases sent)
        case failed: (Inl x)
        show ?thesis
        proof (cases "is_adapter_error x")
          case True
          have "fail_and_raise E X cid LT_SUBMIT_FAILED (cid @ '':submit_failed'') x ?w3 = (r, w')" using run failed by simp
          from fail_moves [OF s3 sn(1) nx(1) True place_rest_plain(3) _ this] free
          have "ow_adapter w' = ad' \<and> isl r \<and> (r = Inl x \<and> order_state_of w' cid = Some L_FAILED \<or>
              es_events (ow_store w') = es_events (ow_store ?w3))" by auto
          then show ?thesis by (intro conclude) (simp_all add: failed)
        next
          case False
          then have "r = Inl x" "w' = ?w3" using run failed by (simp_all add: fail_and_raise_def)
          then show ?thesis by (intro conclude) (simp_all add: failed False)
        qed
      next
        case answered: (Inr od)
        let ?st = "if od_status od = ST_REJECTED then ST_REJECTED else ST_ACKNOWLEDGED"
        let ?to = "if od_status od = ST_REJECTED then L_REJECTED else L_ACKNOWLEDGED"
        let ?t = "if od_status od = ST_REJECTED then LT_REJECTED else LT_ACKNOWLEDGED"
        have ing: "ingest_status E cid ?st (od_exchange_order_id od) None ?w3 = (r, w')" using run answered by simp
        have "STATUS_TO_TRIGGER ?st = Some ?t" "om_next_state (os_lifecycle_state sn) ?t = Inr ?to" using nx by simp_all
        from ingest_moves [OF s3 sn(1) this _ ing] free
        have "ow_adapter w' = ad' \<and> (\<forall>v. r = Inr v \<longrightarrow> order_state_of w' cid = Some ?to)" by simp
        then show ?thesis by (intro conclude) (simp_all add: answered)
      qed
    qed
  qed
qed


text \<open>
  (C33) A cancellation nobody asked for is refused.  When the venue reports an acknowledged order
  cancelled on its own (a self-trade prevention, a liquidation, a time in force that ran out), both
  \<open>report_order_update\<close> and \<open>resync_order\<close> raise an inconsistency and the order keeps its state,
  so that asking again raises again; for an order already finished the report is ignored.
\<close>

theorem unsolicited_cancel_refused:
  assumes "map_of (om_snapshots (ow_om w)) cid = Some sn"
    and "os_lifecycle_state sn \<notin> {L_PARTIALLY_FILLED, L_CANCEL_PENDING}"
    and "od_status od = ST_CANCELLED" "os_exchange_order_id sn = Some xid"
    and "api_get_order_status X xid (ow_adapter w) = (Inr od, ad)"
    and "answer = (if om_terminal (os_lifecycle_state sn) then Inr (Some sn) else Inl OrderStateInconsistencyError)"
  shows "report_order_update E cid od w = (answer, w) \<and>
    resync_order E X cid w = (answer, w\<lparr>ow_adapter := ad\<rparr>)"
proof -
  have cases: "os_lifecycle_state sn \<in> {L_NEW, L_SUBMITTED, L_ACKNOWLEDGED} \<or> om_terminal (os_lifecycle_state sn)"
    using assms(2) by (cases "os_lifecycle_state sn") (simp_all, code_simp+)
  have refused: "\<not> om_is_legal (os_lifecycle_state sn) LT_CANCEL_CONFIRMED"
    using assms(2) by (cases "os_lifecycle_state sn") (simp_all, code_simp+)
  have rank: "trigger_min_target_rank LT_CANCEL_CONFIRMED = Inr 4" by code_simp
  have live: "state_rank (os_lifecycle_state sn) < 4" if "\<not> om_terminal (os_lifecycle_state sn)"
    using cases that by auto
  have "ingest_status E cid ST_CANCELLED x None v = (answer, v)" if "map_of (om_snapshots (ow_om v)) cid = Some sn" for x v
    using that refused rank live assms(6)
    by (cases "om_terminal (os_lifecycle_state sn)") (simp_all add: ingest_status_def snapshot_at_def Let_def)
  from this [OF assms(1)] this [of "w\<lparr>ow_adapter := ad\<rparr>"] assms(1,3-5) show ?thesis
    by (simp add: report_order_update_def resync_order_def bindP_def with_adapter_def)
qed

end
