(* ===== verification/Position_Lifecycle.thy ===== *)
theory Position_Lifecycle
  imports Lifecycle_Table Exchange_Models
begin

text \<open>
  States, triggers, edges and ranks of a position, \<^verbatim>\<open>position_manager/states.py\<close>; its snapshot and
  closed legs, \<^verbatim>\<open>position_manager/snapshot.py\<close>; its ids, \<^verbatim>\<open>position_manager/ids.py\<close>.
\<close>

datatype position_state =
    P_NEW | P_OPEN | P_PARTIALLY_FILLED | P_FULLY_FILLED | P_T1_REACHED | P_BREAKEVEN_ACTIVE |
    P_T2_REACHED | P_STOP_TRIGGERED | P_CLOSED | P_ARCHIVED

fun position_state_value :: "position_state \<Rightarrow> string" where
  "position_state_value P_NEW = ''NEW''"
| "position_state_value P_OPEN = ''OPEN''"
| "position_state_value P_PARTIALLY_FILLED = ''PARTIALLY_FILLED''"
| "position_state_value P_FULLY_FILLED = ''FULLY_FILLED''"
| "position_state_value P_T1_REACHED = ''T1_REACHED''"
| "position_state_value P_BREAKEVEN_ACTIVE = ''BREAKEVEN_ACTIVE''"
| "position_state_value P_T2_REACHED = ''T2_REACHED''"
| "position_state_value P_STOP_TRIGGERED = ''STOP_TRIGGERED''"
| "position_state_value P_CLOSED = ''CLOSED''"
| "position_state_value P_ARCHIVED = ''ARCHIVED''"

definition all_position_states :: "position_state list" where
  "all_position_states =
     [P_NEW, P_OPEN, P_PARTIALLY_FILLED, P_FULLY_FILLED, P_T1_REACHED, P_BREAKEVEN_ACTIVE,
      P_T2_REACHED, P_STOP_TRIGGERED, P_CLOSED, P_ARCHIVED]"

datatype position_trigger =
    PT_FIRST_FILL | PT_ENTRY_PARTIAL | PT_ENTRY_COMPLETE | PT_T1 | PT_BREAKEVEN | PT_T2 |
    PT_STOP | PT_CLOSE | PT_COMPLETE_CLOSE | PT_ARCHIVE

fun position_trigger_value :: "position_trigger \<Rightarrow> string" where
  "position_trigger_value PT_FIRST_FILL = ''FIRST_FILL''"
| "position_trigger_value PT_ENTRY_PARTIAL = ''ENTRY_PARTIAL''"
| "position_trigger_value PT_ENTRY_COMPLETE = ''ENTRY_COMPLETE''"
| "position_trigger_value PT_T1 = ''T1''"
| "position_trigger_value PT_BREAKEVEN = ''BREAKEVEN''"
| "position_trigger_value PT_T2 = ''T2''"
| "position_trigger_value PT_STOP = ''STOP''"
| "position_trigger_value PT_CLOSE = ''CLOSE''"
| "position_trigger_value PT_COMPLETE_CLOSE = ''COMPLETE_CLOSE''"
| "position_trigger_value PT_ARCHIVE = ''ARCHIVE''"

definition all_position_triggers :: "position_trigger list" where
  "all_position_triggers =
     [PT_FIRST_FILL, PT_ENTRY_PARTIAL, PT_ENTRY_COMPLETE, PT_T1, PT_BREAKEVEN, PT_T2, PT_STOP,
      PT_CLOSE, PT_COMPLETE_CLOSE, PT_ARCHIVE]"

definition PM_EDGES :: "(position_state \<times> position_trigger \<times> position_state) list" where
  "PM_EDGES =
     [(P_NEW, PT_FIRST_FILL, P_OPEN),
      (P_OPEN, PT_ENTRY_PARTIAL, P_PARTIALLY_FILLED),
      (P_OPEN, PT_ENTRY_COMPLETE, P_FULLY_FILLED),
      (P_PARTIALLY_FILLED, PT_ENTRY_PARTIAL, P_PARTIALLY_FILLED),
      (P_PARTIALLY_FILLED, PT_ENTRY_COMPLETE, P_FULLY_FILLED),
      (P_PARTIALLY_FILLED, PT_CLOSE, P_CLOSED),
      (P_PARTIALLY_FILLED, PT_STOP, P_STOP_TRIGGERED),
      (P_FULLY_FILLED, PT_T1, P_T1_REACHED),
      (P_FULLY_FILLED, PT_STOP, P_STOP_TRIGGERED),
      (P_FULLY_FILLED, PT_CLOSE, P_CLOSED),
      (P_T1_REACHED, PT_BREAKEVEN, P_BREAKEVEN_ACTIVE),
      (P_BREAKEVEN_ACTIVE, PT_T2, P_T2_REACHED),
      (P_BREAKEVEN_ACTIVE, PT_STOP, P_STOP_TRIGGERED),
      (P_BREAKEVEN_ACTIVE, PT_CLOSE, P_CLOSED),
      (P_T2_REACHED, PT_COMPLETE_CLOSE, P_CLOSED),
      (P_STOP_TRIGGERED, PT_COMPLETE_CLOSE, P_CLOSED),
      (P_CLOSED, PT_ARCHIVE, P_ARCHIVED)]"

fun pm_state_rank :: "position_state \<Rightarrow> nat" where
  "pm_state_rank P_NEW = 0"
| "pm_state_rank P_OPEN = 1"
| "pm_state_rank P_PARTIALLY_FILLED = 2"
| "pm_state_rank P_FULLY_FILLED = 3"
| "pm_state_rank P_T1_REACHED = 4"
| "pm_state_rank P_BREAKEVEN_ACTIVE = 5"
| "pm_state_rank P_T2_REACHED = 6"
| "pm_state_rank P_STOP_TRIGGERED = 6"
| "pm_state_rank P_CLOSED = 7"
| "pm_state_rank P_ARCHIVED = 8"

definition pm_is_legal :: "position_state \<Rightarrow> position_trigger \<Rightarrow> bool" where
  "pm_is_legal s t = edge_legal PM_EDGES s t"

definition pm_next_state :: "position_state \<Rightarrow> position_trigger \<Rightarrow> exc + position_state" where
  "pm_next_state s t = edge_next PM_EDGES s t"

definition pm_terminal :: "position_state \<Rightarrow> bool" where
  "pm_terminal s = edge_terminal PM_EDGES s"

definition pm_trigger_min_target_rank :: "position_trigger \<Rightarrow> exc + nat" where
  "pm_trigger_min_target_rank t =
     (case map (\<lambda>(_, _, to). pm_state_rank to) (filter (\<lambda>(_, trig, _). trig = t) PM_EDGES) of
        [] \<Rightarrow> Inl ValueError
      | r # rs \<Rightarrow> Inr (fold min rs r))"

definition pm_make_id :: "string \<Rightarrow> int \<Rightarrow> string \<Rightarrow> string" where
  "pm_make_id pm_id seq suffix = ''pm:'' @ pm_id @ '':'' @ show_int seq @ '':'' @ suffix"

record position_snapshot =
  ps_position_id :: string
  ps_lifecycle_state :: position_state
  ps_symbol :: symbol
  ps_side :: order_side
  ps_intended_quantity :: decimal
  ps_filled_quantity :: decimal
  ps_remaining_quantity :: decimal
  ps_avg_entry_price :: "decimal option"
  ps_stop_price :: decimal
  ps_stop_d :: decimal
  ps_t1_price :: decimal
  ps_t2_price :: decimal
  ps_conviction :: "decimal option"
  ps_realized_pnl :: decimal
  ps_realized_r :: decimal
  ps_fees_paid :: decimal
  ps_funding_paid :: decimal
  ps_created_at_utc :: string
  ps_updated_at_utc :: string

record closed_leg =
  cl_position_id :: string
  cl_symbol :: symbol
  cl_r :: decimal
  cl_pct :: decimal
  cl_reason :: string
  cl_conv :: "decimal option"
  cl_entry_at_utc :: string
  cl_exit_at_utc :: string
  cl_entry_px :: "decimal option"
  cl_exit_px :: decimal
  cl_stop_d :: decimal
  cl_quantity :: decimal
  cl_fee :: decimal
  cl_realized_pnl :: decimal

section \<open>The table\<close>

interpretation pml: transition_table PM_EDGES
  by unfold_locales code_simp

lemma pm_next_edge: "pm_next_state s t = Inr s' \<longleftrightarrow> (s, t, s') \<in> set PM_EDGES"
  by (simp add: pm_next_state_def pml.next_edge)

lemma pm_legal_next: "pm_is_legal s t \<longleftrightarrow> (\<exists>s'. pm_next_state s t = Inr s')"
  by (simp add: pm_is_legal_def pm_next_state_def pml.legal_next)

lemma pm_terminal_iff: "pm_terminal s \<longleftrightarrow> s = P_ARCHIVED"
  by (cases s) (simp_all add: pm_terminal_def edge_terminal_def legal_from_eq PM_EDGES_def ex_disj_distrib)

lemma pm_terminal_stuck: "pm_terminal s \<Longrightarrow> \<not> pm_is_legal s t"
  by (simp add: pm_terminal_def pm_is_legal_def pml.terminal_stuck)

text \<open>Every edge but the further partial entry goes to a higher rank.\<close>

lemma pm_edge_rank:
  assumes "pm_next_state s t = Inr s'"
  shows "pm_state_rank s \<le> pm_state_rank s'" "s' \<noteq> s \<Longrightarrow> pm_state_rank s < pm_state_rank s'"
  using assms by (auto simp: pm_next_edge PM_EDGES_def)

lemma position_state_values: "inj position_state_value" "x \<in> set all_position_states"
  by (rule injI, rename_tac a b, case_tac a; case_tac b; simp) (cases x; simp add: all_position_states_def)

lemma position_trigger_values: "inj position_trigger_value" "x \<in> set all_position_triggers"
  by (rule injI, rename_tac a b, case_tac a; case_tac b; simp) (cases x; simp add: all_position_triggers_def)

definition parse_position_state :: "pyval \<Rightarrow> exc + position_state" where
  "parse_position_state raw = parse_enum position_state_value all_position_states raw"

definition parse_position_trigger :: "pyval \<Rightarrow> exc + position_trigger" where
  "parse_position_trigger raw = parse_enum position_trigger_value all_position_triggers raw"

lemma parse_position_values [simp]:
  "parse_position_state (VStr (position_state_value s)) = Inr s"
  "parse_position_trigger (VStr (position_trigger_value t)) = Inr t"
  by (simp_all add: parse_position_state_def parse_position_trigger_def parse_enum_value position_state_values position_trigger_values)

end
