(* ===== verification/Pnl.thy ===== *)
theory Pnl
  imports Prelude Decimals
begin

text \<open>
  Profit and loss and R multiples of the position manager, \<^verbatim>\<open>position_manager/pnl.py\<close>.  \<open>py_div\<close> is
  Python's division of Decimals in the default context: a zero divisor raises, \<open>InvalidOperation\<close>
  for \<open>0 / 0\<close> and \<open>DivisionByZero\<close> (a \<open>ZeroDivisionError\<close>) otherwise.
\<close>

definition py_div :: "decimal \<Rightarrow> decimal \<Rightarrow> exc + decimal" where
  "py_div x y = (if y \<noteq> 0 then Inr (ddiv x y) else if x = 0 then Inl InvalidOperation else Inl ZeroDivisionError)"

lemma py_div_ok [simp]: "y \<noteq> 0 \<Longrightarrow> py_div x y = Inr (ddiv x y)"
  by (simp add: py_div_def)

definition fraction_of_original :: "decimal \<Rightarrow> decimal \<Rightarrow> exc + decimal" where
  "fraction_of_original quantity_closed original_intended_quantity =
     (if original_intended_quantity \<le> 0 then Inl ValueError
      else py_div quantity_closed original_intended_quantity)"

definition fee_in_r_units :: "decimal \<Rightarrow> decimal \<Rightarrow> decimal \<Rightarrow> decimal \<Rightarrow> decimal" where
  "fee_in_r_units fee_amount entry_price quantity_closed stop_d =
     (if entry_price \<le> 0 \<or> quantity_closed \<le> 0 \<or> stop_d \<le> 0 then 0
      else let notional = dmul entry_price quantity_closed
           in if notional \<le> 0 then 0
              else let fee_fraction_of_notional = ddiv fee_amount notional
                   in ddiv fee_fraction_of_notional stop_d)"

definition leg_r_multiple :: "decimal \<Rightarrow> decimal \<Rightarrow> decimal \<Rightarrow> decimal \<Rightarrow> decimal \<Rightarrow> decimal \<Rightarrow> exc + decimal" where
  "leg_r_multiple entry_price exit_price stop_d fraction fee_amount quantity_closed =
     (if entry_price \<le> 0 then Inl ValueError
      else if stop_d \<le> 0 then Inl ValueError
      else let price_return = dmul (ddiv (dsub (ddiv exit_price entry_price) 1) stop_d) fraction;
               fee_r = fee_in_r_units fee_amount entry_price quantity_closed stop_d
           in Inr (dsub price_return fee_r))"

definition leg_pct :: "decimal \<Rightarrow> decimal \<Rightarrow> decimal \<Rightarrow> exc + decimal" where
  "leg_pct entry_price exit_price fraction =
     (if entry_price \<le> 0 then Inl ValueError
      else Inr (dmul (dmul (dsub (ddiv exit_price entry_price) 1) 100) fraction))"

definition leg_realized_pnl :: "decimal \<Rightarrow> decimal \<Rightarrow> decimal \<Rightarrow> decimal \<Rightarrow> decimal" where
  "leg_realized_pnl entry_price exit_price quantity_closed fee_amount =
     dsub (dmul (dsub exit_price entry_price) quantity_closed) fee_amount"

definition pnl_unrealized :: "decimal \<Rightarrow> decimal \<Rightarrow> decimal \<Rightarrow> decimal" where
  "pnl_unrealized avg_entry_price mark_price remaining_quantity =
     dmul (dsub mark_price avg_entry_price) remaining_quantity"

definition weighted_average_price :: "decimal option \<Rightarrow> decimal \<Rightarrow> decimal \<Rightarrow> decimal \<Rightarrow> exc + decimal" where
  "weighted_average_price current_avg current_qty new_price new_qty =
     (case current_avg of
        None \<Rightarrow> Inr new_price
      | Some avg \<Rightarrow>
          if current_qty = 0 then Inr new_price
          else let total_qty = dadd current_qty new_qty
               in py_div (dadd (dmul avg current_qty) (dmul new_price new_qty)) total_qty)"

end
