(* ===== verification/Position_Manager.thy ===== *)
theory Position_Manager
  imports Position_Lifecycle Pnl Event_Log
begin

text \<open>
  The position manager, \<^verbatim>\<open>position_manager/manager.py\<close>: bookkeeping of positions over the event
  store, without an exchange.  One lock per position makes the body of each public method one step.
\<close>

section \<open>State\<close>

definition PM_SOURCE_TAG :: string where "PM_SOURCE_TAG = ''position_manager''"
definition MAX_PM_ID_LENGTH :: nat where "MAX_PM_ID_LENGTH = 60"

fun EXIT_TRIGGER_REASON :: "position_trigger \<Rightarrow> string option" where
  "EXIT_TRIGGER_REASON PT_T1 = Some ''t1_half''"
| "EXIT_TRIGGER_REASON PT_T2 = Some ''t2''"
| "EXIT_TRIGGER_REASON _ = None"

record position_manager =
  pm_id :: string
  pm_snapshots :: "(string \<times> position_snapshot) list"
  pm_closed_legs :: "string \<rightharpoonup> closed_leg list"
  pm_processed_fill_ids :: "string \<rightharpoonup> string set"
  pm_applied_event_ids :: "nat set"
  pm_next_seq :: int

record pm_world =
  pw_store :: event_store
  pw_pm :: position_manager

type_synonym 'a pm_prog = "(pm_world, exc, 'a) prog"

definition with_pm :: "(position_manager, exc, 'a) prog \<Rightarrow> 'a pm_prog" where
  "with_pm f w = (case f (pw_pm w) of (r, m) \<Rightarrow> (r, w\<lparr>pw_pm := m\<rparr>))"

definition pm_is_own_event :: "event \<Rightarrow> string \<Rightarrow> bool" where
  "pm_is_own_event e pmid =
     (dget (payload e) ''source'' = VStr PM_SOURCE_TAG \<and> dget (payload e) ''pm_id'' = VStr pmid)"

definition pm_event_type_for_action :: "string \<Rightarrow> position_state option \<Rightarrow> event_type" where
  "pm_event_type_for_action action to_state =
     (if action = ''CREATE'' then POSITION_OPENED
      else if action = ''ENTRY_FILL'' then POSITION_UPDATED
      else if action = ''EXIT'' then
        (if to_state = Some P_STOP_TRIGGERED then STOP_UPDATED
         else if to_state \<in> {Some P_T1_REACHED, Some P_T2_REACHED} then TAKE_PROFIT_UPDATED
         else POSITION_CLOSED)
      else if action = ''BREAKEVEN'' then STOP_UPDATED
      else if action = ''COMPLETE_CLOSE'' then POSITION_CLOSED
      else if action = ''ARCHIVE'' then POSITION_UPDATED
      else if action = ''FUNDING'' then POSITION_UPDATED
      else HEALTH_ALERT)"

section \<open>Applying an event\<close>

definition processed_of :: "position_manager \<Rightarrow> string \<Rightarrow> string set" where
  "processed_of m pid = (case pm_processed_fill_ids m pid of None \<Rightarrow> {} | Some s \<Rightarrow> s)"

definition legs_of :: "position_manager \<Rightarrow> string \<Rightarrow> closed_leg list" where
  "legs_of m pid = (case pm_closed_legs m pid of None \<Rightarrow> [] | Some ls \<Rightarrow> ls)"

text \<open>\<open>setdefault(position_id, set()).add(fill_id)\<close>.\<close>

definition mark_processed :: "string \<Rightarrow> string \<Rightarrow> position_manager \<Rightarrow> position_manager" where
  "mark_processed pid fid m =
     m\<lparr>pm_processed_fill_ids := (pm_processed_fill_ids m)(pid \<mapsto> insert fid (processed_of m pid))\<rparr>"

definition pm_bump_seq :: "pyval \<Rightarrow> (position_manager, exc, unit) prog" where
  "pm_bump_seq seq m =
     (case seq of
        VNone \<Rightarrow> (Inr (), m)
      | VInt i \<Rightarrow> (Inr (), m\<lparr>pm_next_seq := max (pm_next_seq m) (i + 1)\<rparr>)
      | _ \<Rightarrow> (Inl TypeError, m))"

text \<open>\<open>Decimal(details.get(k, "0"))\<close>.\<close>

definition dec_default :: "dict \<Rightarrow> string \<Rightarrow> exc + decimal" where
  "dec_default d k = (if map_of d k = None then Inr 0 else req_dec d k)"

definition created_snapshot :: "string \<Rightarrow> string \<Rightarrow> dict \<Rightarrow> exc + position_snapshot" where
  "created_snapshot pid now details =
     bindE (req_str details ''symbol'') (\<lambda>v. bindE (Symbol_init v) (\<lambda>symb.
     bindE (req_str details ''side'') (\<lambda>v. bindE (parse_side v) (\<lambda>sd.
     bindE (req_dec details ''intended_quantity'') (\<lambda>intended.
     bindE (req_dec details ''stop_price'') (\<lambda>stop_price.
     bindE (req_dec details ''stop_d'') (\<lambda>stop_d.
     bindE (req_dec details ''t1_price'') (\<lambda>t1_price.
     bindE (req_dec details ''t2_price'') (\<lambda>t2_price.
     bindE (opt_dec (dget details ''conviction'')) (\<lambda>conviction.
       Inr \<lparr>ps_position_id = pid, ps_lifecycle_state = P_NEW, ps_symbol = symb, ps_side = sd,
            ps_intended_quantity = intended, ps_filled_quantity = 0, ps_remaining_quantity = 0,
            ps_avg_entry_price = None, ps_stop_price = stop_price, ps_stop_d = stop_d, ps_t1_price = t1_price,
            ps_t2_price = t2_price, ps_conviction = conviction, ps_realized_pnl = 0, ps_realized_r = 0,
            ps_fees_paid = 0, ps_funding_paid = 0, ps_created_at_utc = now, ps_updated_at_utc = now\<rparr>))))))))))"

definition pm_recorded_transition :: "dict \<Rightarrow> position_state \<Rightarrow> exc + position_state" where
  "pm_recorded_transition pl current =
     bindE (req_val pl ''trigger'') (\<lambda>v. bindE (parse_position_trigger v) (\<lambda>trig.
     bindE (req_val pl ''from_state'') (\<lambda>v. bindE (parse_position_state v) (\<lambda>from_state.
     bindE (req_val pl ''to_state'') (\<lambda>v. bindE (parse_position_state v) (\<lambda>to_state.
       if from_state \<noteq> current then Inl (ReplayIntegrityError PM)
       else if \<not> pm_is_legal from_state trig \<or> pm_next_state from_state trig \<noteq> Inr to_state
       then Inl (ReplayIntegrityError PM)
       else Inr to_state))))))"

definition entry_snapshot :: "position_snapshot \<Rightarrow> position_state \<Rightarrow> string \<Rightarrow> dict \<Rightarrow> exc + position_snapshot" where
  "entry_snapshot existing to_state now details =
     bindE (req_dec details ''fill_price'') (\<lambda>price. bindE (req_dec details ''fill_quantity'') (\<lambda>quant.
     bindE (weighted_average_price (ps_avg_entry_price existing) (ps_filled_quantity existing) price quant) (\<lambda>new_avg.
       let new_filled = dadd (ps_filled_quantity existing) quant
       in bindE (dec_default details ''fee'') (\<lambda>fee.
       Inr (existing\<lparr>ps_lifecycle_state := to_state, ps_avg_entry_price := Some new_avg,
              ps_filled_quantity := new_filled, ps_remaining_quantity := new_filled,
              ps_fees_paid := dadd (ps_fees_paid existing) fee, ps_updated_at_utc := now\<rparr>)))))"

definition exit_leg :: "string \<Rightarrow> position_snapshot \<Rightarrow> string \<Rightarrow> dict \<Rightarrow> exc + closed_leg" where
  "exit_leg pid existing now details =
     bindE (req_dec details ''fill_quantity'') (\<lambda>qty_closed. bindE (req_dec details ''r'') (\<lambda>r.
     bindE (req_dec details ''pct'') (\<lambda>pct. bindE (req_str details ''reason'') (\<lambda>reason.
     bindE (req_dec details ''fill_price'') (\<lambda>exit_px. bindE (dec_default details ''fee'') (\<lambda>fee.
     bindE (req_dec details ''realized_pnl'') (\<lambda>realized.
       Inr \<lparr>cl_position_id = pid, cl_symbol = ps_symbol existing, cl_r = r, cl_pct = pct, cl_reason = reason,
            cl_conv = ps_conviction existing, cl_entry_at_utc = ps_created_at_utc existing, cl_exit_at_utc = now,
            cl_entry_px = ps_avg_entry_price existing, cl_exit_px = exit_px, cl_stop_d = ps_stop_d existing,
            cl_quantity = qty_closed, cl_fee = fee, cl_realized_pnl = realized\<rparr>)))))))"

definition exit_snapshot :: "position_snapshot \<Rightarrow> position_state \<Rightarrow> string \<Rightarrow> closed_leg \<Rightarrow> position_snapshot" where
  "exit_snapshot existing to_state now leg =
     existing\<lparr>ps_lifecycle_state := to_state,
       ps_remaining_quantity := dsub (ps_remaining_quantity existing) (cl_quantity leg),
       ps_realized_pnl := dadd (ps_realized_pnl existing) (cl_realized_pnl leg),
       ps_realized_r := dadd (ps_realized_r existing) (cl_r leg),
       ps_fees_paid := dadd (ps_fees_paid existing) (cl_fee leg), ps_updated_at_utc := now\<rparr>"

definition put_position :: "string \<Rightarrow> position_snapshot \<Rightarrow> (position_manager, exc, position_snapshot option) prog" where
  "put_position pid sn m = (Inr (Some sn), m\<lparr>pm_snapshots := AList.update pid sn (pm_snapshots m)\<rparr>)"

text \<open>The actions that record a transition of a position.\<close>

definition lifecycle_action :: "string \<Rightarrow> bool" where
  "lifecycle_action a \<longleftrightarrow> a \<in> {''ENTRY_FILL'', ''EXIT'', ''BREAKEVEN'', ''COMPLETE_CLOSE'', ''ARCHIVE''}"

definition pm_apply_action :: "string \<Rightarrow> string \<Rightarrow> string \<Rightarrow> dict \<Rightarrow> (position_manager, exc, position_snapshot option) prog" where
  "pm_apply_action action pid now pl m =
     (if action = ''CREATE'' then
        (case bindE (req_dict pl ''details'') (created_snapshot pid now) of
           Inl x \<Rightarrow> (Inl x, m)
         | Inr sn \<Rightarrow>
             put_position pid sn
               (m\<lparr>pm_closed_legs := (pm_closed_legs m)(pid \<mapsto> legs_of m pid),
                  pm_processed_fill_ids := (pm_processed_fill_ids m)(pid \<mapsto> processed_of m pid)\<rparr>))
      else case map_of (pm_snapshots m) pid of
        None \<Rightarrow> (Inl (ReplayIntegrityError PM), m)
      | Some existing \<Rightarrow>
          let details = dget_dict pl ''details'' in
          if lifecycle_action action then
            (case pm_recorded_transition pl (ps_lifecycle_state existing) of
               Inl x \<Rightarrow> (Inl x, m)
             | Inr to_state \<Rightarrow>
                 if action = ''ENTRY_FILL'' then
                   (case req_str details ''fill_id'' of
                      Inl x \<Rightarrow> (Inl x, m)
                    | Inr fid \<Rightarrow>
                        (case entry_snapshot existing to_state now details of
                           Inl x \<Rightarrow> (Inl x, mark_processed pid fid m)
                         | Inr sn \<Rightarrow> put_position pid sn (mark_processed pid fid m)))
                 else if action = ''EXIT'' then
                   (case req_str details ''fill_id'' of
                      Inl x \<Rightarrow> (Inl x, m)
                    | Inr fid \<Rightarrow>
                        let m = mark_processed pid fid m
                        in case exit_leg pid existing now details of
                             Inl x \<Rightarrow> (Inl x, m)
                           | Inr leg \<Rightarrow>
                               put_position pid (exit_snapshot existing to_state now leg)
                                 (m\<lparr>pm_closed_legs := (pm_closed_legs m)(pid \<mapsto> legs_of m pid @ [leg])\<rparr>))
                 else put_position pid (existing\<lparr>ps_lifecycle_state := to_state, ps_updated_at_utc := now\<rparr>) m)
          else if action = ''FUNDING'' then
            (case req_dec details ''amount'' of
               Inl x \<Rightarrow> (Inl x, m)
             | Inr amount \<Rightarrow>
                 put_position pid (existing\<lparr>ps_funding_paid := dadd (ps_funding_paid existing) amount,
                                            ps_updated_at_utc := now\<rparr>) m)
          else (Inl (ReplayIntegrityError PM), m))"

definition pm_apply_event :: "event \<Rightarrow> (position_manager, exc, position_snapshot option) prog" where
  "pm_apply_event e m =
     (let pid = text_at (payload e) ''position_id'' in
      if event_id e \<in> pm_applied_event_ids m then (Inr (map_of (pm_snapshots m) pid), m)
      else
        bindP (pm_bump_seq (dget (payload e) ''seq''))
          (\<lambda>_. pm_apply_action (text_at (payload e) ''action'') pid (timestamp_utc e) (payload e))
          (m\<lparr>pm_applied_event_ids := insert (event_id e) (pm_applied_event_ids m)\<rparr>))"

definition pm_init :: "string \<Rightarrow> position_manager" where
  "pm_init pmid = \<lparr>pm_id = pmid, pm_snapshots = [], pm_closed_legs = Map.empty, pm_processed_fill_ids = Map.empty,
                   pm_applied_event_ids = {}, pm_next_seq = 1\<rparr>"

definition PositionManager :: "event_store \<Rightarrow> string \<Rightarrow> exc + position_manager" where
  "PositionManager store pmid =
     (if py_strip_empty pmid then Inl ValueError
      else if length pmid > MAX_PM_ID_LENGTH then Inl ValueError
      else bindE (replay 1 store) (\<lambda>evs.
           fold_log (\<lambda>e. pm_is_own_event e pmid) pm_apply_event evs (pm_init pmid)))"

section \<open>Persisting\<close>

definition pm_key :: "string \<Rightarrow> string \<Rightarrow> string" where
  "pm_key pmid key = PM_SOURCE_TAG @ '':'' @ pmid @ '':'' @ key"

definition pm_payload :: "string \<Rightarrow> string \<Rightarrow> string \<Rightarrow> int option \<Rightarrow> position_trigger option \<Rightarrow>
    position_state option \<Rightarrow> position_state option \<Rightarrow> dict \<Rightarrow> dict" where
  "pm_payload pmid action pid seq trig from_state to_state details =
     [(''action'', VStr action),
      (''details'', VDict details),
      (''from_state'', vopt (\<lambda>s. VStr (position_state_value s)) from_state),
      (''pm_id'', VStr pmid),
      (''position_id'', VStr pid),
      (''seq'', vopt VInt seq),
      (''source'', VStr PM_SOURCE_TAG),
      (''to_state'', vopt (\<lambda>s. VStr (position_state_value s)) to_state),
      (''trigger'', vopt (\<lambda>t. VStr (position_trigger_value t)) trig)]"

definition pm_persist :: "env \<Rightarrow> string \<Rightarrow> string \<Rightarrow> int option \<Rightarrow> position_trigger option \<Rightarrow> position_state option \<Rightarrow>
    position_state option \<Rightarrow> dict \<Rightarrow> string \<Rightarrow> event pm_prog" where
  "pm_persist E action pid seq trig from_state to_state details key w =
     (case append_event E (pm_event_type_for_action action to_state)
             (pm_payload (pm_id (pw_pm w)) action pid seq trig from_state to_state details)
             (Some (pm_key (pm_id (pw_pm w)) key)) 1 (pw_store w) of
        (r, store') \<Rightarrow> (r, w\<lparr>pw_store := store'\<rparr>))"

text \<open>The pair of lines \<open>event = self._persist(...)\<close>, \<open>self._apply_event(event)\<close>.\<close>

definition pm_record :: "env \<Rightarrow> string \<Rightarrow> string \<Rightarrow> int option \<Rightarrow> position_trigger option \<Rightarrow> position_state option \<Rightarrow>
    position_state option \<Rightarrow> dict \<Rightarrow> string \<Rightarrow> position_snapshot option pm_prog" where
  "pm_record E action pid seq trig from_state to_state details key =
     bindP (pm_persist E action pid seq trig from_state to_state details key) (\<lambda>e. with_pm (pm_apply_event e))"

definition pm_next_id :: "string \<Rightarrow> (position_manager, exc, int \<times> string) prog" where
  "pm_next_id suffix m =
     (let seq = pm_next_seq m
      in (Inr (seq, pm_make_id (pm_id m) seq suffix), m\<lparr>pm_next_seq := pm_next_seq m + 1\<rparr>))"

definition try_transition :: "position_trigger \<Rightarrow> position_state \<Rightarrow> exc + position_state option" where
  "try_transition trig current =
     (if pm_is_legal current trig then bindE (pm_next_state current trig) (\<lambda>s. Inr (Some s))
      else if pm_terminal current then Inr None
      else bindE (pm_trigger_min_target_rank trig) (\<lambda>rank.
           if pm_state_rank current \<ge> rank then Inr None else Inl PositionStateInconsistencyError))"

section \<open>Public methods\<close>

definition create_position :: "env \<Rightarrow> symbol \<Rightarrow> order_side \<Rightarrow> decimal \<Rightarrow> decimal \<Rightarrow> decimal \<Rightarrow> decimal \<Rightarrow> decimal \<Rightarrow>
    decimal option \<Rightarrow> position_snapshot option pm_prog" where
  "create_position E symb sd intended_quantity stop_price stop_d t1_price t2_price conviction w =
     (if intended_quantity \<le> 0 then (Inl ValueError, w)
      else if stop_d \<le> 0 then (Inl ValueError, w)
      else bindP (with_pm (pm_next_id ''position'')) (\<lambda>(seq, pid).
             pm_record E ''CREATE'' pid (Some seq) None None None
               [(''conviction'', vopt VDec conviction), (''intended_quantity'', VDec intended_quantity),
                (''side'', VStr (side_value sd)), (''stop_d'', VDec stop_d), (''stop_price'', VDec stop_price),
                (''symbol'', VStr symb), (''t1_price'', VDec t1_price), (''t2_price'', VDec t2_price)] pid) w)"

text \<open>Step 1 of an entry fill: \<open>NEW\<close> to \<open>OPEN\<close>, on the first fill.\<close>

definition open_on_first_fill :: "env \<Rightarrow> string \<Rightarrow> fill \<Rightarrow> position_state \<Rightarrow> position_state pm_prog" where
  "open_on_first_fill E pid f current w =
     (if current = P_NEW then
        (case pm_next_state current PT_FIRST_FILL of
           Inl x \<Rightarrow> (Inl x, w)
         | Inr to_open \<Rightarrow>
             bindP (pm_record E ''ENTRY_FILL'' pid None (Some PT_FIRST_FILL) (Some current) (Some to_open)
                      [(''fee'', VDec 0), (''fill_id'', VStr (fl_fill_id f @ '':open'')),
                       (''fill_price'', VDec (fl_price f)), (''fill_quantity'', VDec 0)] (pid @ '':open:'' @ fl_fill_id f))
               (\<lambda>_ w. (Inr to_open, w)) w)
      else (Inr current, w))"

definition record_entry_fill :: "env \<Rightarrow> string \<Rightarrow> fill \<Rightarrow> position_snapshot option pm_prog" where
  "record_entry_fill E pid f w =
     (case map_of (pm_snapshots (pw_pm w)) pid of
        None \<Rightarrow> (Inl PositionNotFoundError, w)
      | Some existing \<Rightarrow>
          if fl_fill_id f \<in> processed_of (pw_pm w) pid then (Inr (Some existing), w)
          else if ps_lifecycle_state existing \<notin> {P_NEW, P_OPEN, P_PARTIALLY_FILLED}
          then (Inl IllegalPositionTransitionError, w)
          else
            let new_filled = dadd (ps_filled_quantity existing) (fl_quantity f);
                classify = (if new_filled \<ge> ps_intended_quantity existing then PT_ENTRY_COMPLETE else PT_ENTRY_PARTIAL)
            in bindP (open_on_first_fill E pid f (ps_lifecycle_state existing)) (\<lambda>current w.
                 case try_transition classify current of
                   Inl x \<Rightarrow> (Inl x, w)
                 | Inr None \<Rightarrow>
                     (case map_of (pm_snapshots (pw_pm w)) pid of None \<Rightarrow> (Inl KeyError, w) | Some sn \<Rightarrow> (Inr (Some sn), w))
                 | Inr (Some to_state) \<Rightarrow>
                     pm_record E ''ENTRY_FILL'' pid None (Some classify) (Some current) (Some to_state)
                       [(''fee'', VDec (fl_fee f)), (''fill_id'', VStr (fl_fill_id f)),
                        (''fill_price'', VDec (fl_price f)), (''fill_quantity'', VDec (fl_quantity f))]
                       (pid @ '':entry:'' @ fl_fill_id f) w) w)"

text \<open>The four figures of an exit, in the order the code computes them.\<close>

definition exit_figures :: "position_snapshot \<Rightarrow> decimal \<Rightarrow> fill \<Rightarrow> exc + decimal \<times> decimal \<times> decimal" where
  "exit_figures existing entry f =
     bindE (fraction_of_original (fl_quantity f) (ps_intended_quantity existing)) (\<lambda>fraction.
     bindE (leg_r_multiple entry (fl_price f) (ps_stop_d existing) fraction (fl_fee f) (fl_quantity f)) (\<lambda>r.
     bindE (leg_pct entry (fl_price f) fraction) (\<lambda>pct.
       Inr (r, pct, leg_realized_pnl entry (fl_price f) (fl_quantity f) (fl_fee f)))))"

definition exit_reason :: "position_trigger \<Rightarrow> position_state \<Rightarrow> string option \<Rightarrow> exc + string" where
  "exit_reason trig current reason =
     (if trig = PT_STOP then Inr (if current = P_BREAKEVEN_ACTIVE then ''stop_after_t1'' else ''stop_before_t1'')
      else if trig = PT_CLOSE then
        Inr (case reason of None \<Rightarrow> ''signal_loss'' | Some s \<Rightarrow> if s = [] then ''signal_loss'' else s)
      else case EXIT_TRIGGER_REASON trig of None \<Rightarrow> Inl KeyError | Some s \<Rightarrow> Inr s)"

definition record_exit :: "env \<Rightarrow> string \<Rightarrow> fill \<Rightarrow> position_trigger \<Rightarrow> string option \<Rightarrow> position_snapshot option pm_prog" where
  "record_exit E pid f trig reason w =
     (if trig \<notin> {PT_T1, PT_T2, PT_STOP, PT_CLOSE} then (Inl ValueError, w)
      else case map_of (pm_snapshots (pw_pm w)) pid of
        None \<Rightarrow> (Inl PositionNotFoundError, w)
      | Some existing \<Rightarrow>
          let current = ps_lifecycle_state existing;
              ignored = (Inr (Some existing), w\<lparr>pw_pm := mark_processed pid (fl_fill_id f) (pw_pm w)\<rparr>)
          in if fl_fill_id f \<in> processed_of (pw_pm w) pid then (Inr (Some existing), w)
          else if pm_terminal current then ignored
          else case try_transition trig current of
            Inl x \<Rightarrow> (Inl x, w)
          | Inr None \<Rightarrow> ignored
          | Inr (Some to_state) \<Rightarrow>
              (case ps_avg_entry_price existing of
                 None \<Rightarrow> (Inl PositionStateInconsistencyError, w)
               | Some entry \<Rightarrow>
                   (case bindE (exit_figures existing entry f) (\<lambda>fs. bindE (exit_reason trig current reason) (\<lambda>why. Inr (fs, why))) of
                      Inl x \<Rightarrow> (Inl x, w)
                    | Inr ((r, pct, realized), why) \<Rightarrow>
                        pm_record E ''EXIT'' pid None (Some trig) (Some current) (Some to_state)
                          [(''fee'', VDec (fl_fee f)), (''fill_id'', VStr (fl_fill_id f)), (''fill_price'', VDec (fl_price f)),
                           (''fill_quantity'', VDec (fl_quantity f)), (''pct'', VDec pct), (''r'', VDec r),
                           (''realized_pnl'', VDec realized), (''reason'', VStr why)]
                          (pid @ '':exit:'' @ fl_fill_id f) w)))"

definition pure_transition :: "env \<Rightarrow> string \<Rightarrow> position_trigger \<Rightarrow> string \<Rightarrow> string \<Rightarrow> position_snapshot option pm_prog" where
  "pure_transition E pid trig action tag w =
     (case map_of (pm_snapshots (pw_pm w)) pid of
        None \<Rightarrow> (Inl PositionNotFoundError, w)
      | Some existing \<Rightarrow>
          let current = ps_lifecycle_state existing
          in case try_transition trig current of
               Inl x \<Rightarrow> (Inl x, w)
             | Inr None \<Rightarrow> (Inr (Some existing), w)
             | Inr (Some to_state) \<Rightarrow>
                 pm_record E action pid None (Some trig) (Some current) (Some to_state) [] (pid @ '':'' @ tag) w)"

definition confirm_breakeven :: "env \<Rightarrow> string \<Rightarrow> position_snapshot option pm_prog" where
  "confirm_breakeven E pid = pure_transition E pid PT_BREAKEVEN ''BREAKEVEN'' ''breakeven''"

definition complete_close :: "env \<Rightarrow> string \<Rightarrow> position_snapshot option pm_prog" where
  "complete_close E pid = pure_transition E pid PT_COMPLETE_CLOSE ''COMPLETE_CLOSE'' ''complete_close''"

definition archive_position :: "env \<Rightarrow> string \<Rightarrow> position_snapshot option pm_prog" where
  "archive_position E pid = pure_transition E pid PT_ARCHIVE ''ARCHIVE'' ''archive''"

definition record_funding_payment :: "env \<Rightarrow> string \<Rightarrow> decimal \<Rightarrow> string \<Rightarrow> string \<Rightarrow> position_snapshot option pm_prog" where
  "record_funding_payment E pid amount now funding_id w =
     (case map_of (pm_snapshots (pw_pm w)) pid of
        None \<Rightarrow> (Inl PositionNotFoundError, w)
      | Some _ \<Rightarrow>
          pm_record E ''FUNDING'' pid None None None None
            [(''amount'', VDec amount), (''funding_id'', VStr funding_id), (''timestamp_utc'', VStr now)]
            (pid @ '':funding:'' @ funding_id) w)"

section \<open>Queries\<close>

definition get_position :: "string \<Rightarrow> position_manager \<Rightarrow> exc + position_snapshot" where
  "get_position pid m =
     (case map_of (pm_snapshots m) pid of None \<Rightarrow> Inl PositionNotFoundError | Some sn \<Rightarrow> Inr sn)"

definition get_closed_legs :: "string \<Rightarrow> position_manager \<Rightarrow> exc + closed_leg list" where
  "get_closed_legs pid m =
     (if map_of (pm_snapshots m) pid = None then Inl PositionNotFoundError else Inr (legs_of m pid))"

definition unrealized_pnl :: "string \<Rightarrow> decimal \<Rightarrow> position_manager \<Rightarrow> exc + decimal" where
  "unrealized_pnl pid mark_price m =
     bindE (get_position pid m) (\<lambda>sn.
       case ps_avg_entry_price sn of
         None \<Rightarrow> Inr 0
       | Some avg \<Rightarrow> if ps_remaining_quantity sn \<le> 0 then Inr 0
                      else Inr (pnl_unrealized avg mark_price (ps_remaining_quantity sn)))"

end
