(* ===== verification/Position_Ledger.thy ===== *)
theory Position_Ledger
  imports Position_Manager Order_Lifecycle Live_Component
begin

text \<open>
  The position manager and its log.  Applying an event reads the snapshots, the legs and the applied
  ids, so a manager that knows more processed fills and has used up more numbers stays in step with
  the one a restart rebuilds.  \<open>pm_sound\<close> is the invariant of a running manager: it is in step with
  its log, and its figures are the sums over the log that \<open>books\<close> states.
\<close>

section \<open>Applying an event\<close>

definition pm_like :: "position_manager \<Rightarrow> position_manager \<Rightarrow> bool" where
  "pm_like r m \<longleftrightarrow> pm_id r = pm_id m \<and> pm_snapshots r = pm_snapshots m \<and> (\<forall>pid. legs_of r pid = legs_of m pid) \<and>
     pm_applied_event_ids r = pm_applied_event_ids m \<and> pm_next_seq r \<le> pm_next_seq m \<and>
     (\<forall>pid. processed_of r pid \<subseteq> processed_of m pid)"

lemma pm_like_refl [simp]: "pm_like m m"
  by (simp add: pm_like_def)

lemma pm_like_trans: "pm_like a b \<Longrightarrow> pm_like b c \<Longrightarrow> pm_like a c"
  unfolding pm_like_def by (elim conjE, intro conjI allI; (blast | simp))

lemma processed_of_upd [simp]:
  "processed_of (m\<lparr>pm_processed_fill_ids := f\<rparr>) pid = (case f pid of None \<Rightarrow> {} | Some s \<Rightarrow> s)"
  "processed_of (m\<lparr>pm_snapshots := sns\<rparr>) pid = processed_of m pid"
  "processed_of (m\<lparr>pm_closed_legs := ls\<rparr>) pid = processed_of m pid"
  "processed_of (m\<lparr>pm_applied_event_ids := ids\<rparr>) pid = processed_of m pid"
  "processed_of (m\<lparr>pm_next_seq := n\<rparr>) pid = processed_of m pid"
  by (simp_all add: processed_of_def)

lemma legs_of_upd [simp]:
  "legs_of (m\<lparr>pm_closed_legs := f\<rparr>) pid = (case f pid of None \<Rightarrow> [] | Some s \<Rightarrow> s)"
  "legs_of (m\<lparr>pm_snapshots := sns\<rparr>) pid = legs_of m pid"
  "legs_of (m\<lparr>pm_processed_fill_ids := ps\<rparr>) pid = legs_of m pid"
  "legs_of (m\<lparr>pm_applied_event_ids := ids\<rparr>) pid = legs_of m pid"
  "legs_of (m\<lparr>pm_next_seq := n\<rparr>) pid = legs_of m pid"
  by (simp_all add: legs_of_def)

lemma of_folds:
  "(case pm_processed_fill_ids m pid of None \<Rightarrow> {} | Some s \<Rightarrow> s) = processed_of m pid"
  "(case pm_closed_legs m pid of None \<Rightarrow> [] | Some ls \<Rightarrow> ls) = legs_of m pid"
  by (simp_all add: processed_of_def legs_of_def)

lemma mark_processed_sel [simp]:
  "pm_id (mark_processed pid fid m) = pm_id m" "pm_snapshots (mark_processed pid fid m) = pm_snapshots m"
  "legs_of (mark_processed pid fid m) c = legs_of m c" "pm_closed_legs (mark_processed pid fid m) = pm_closed_legs m"
  "pm_applied_event_ids (mark_processed pid fid m) = pm_applied_event_ids m"
  "pm_next_seq (mark_processed pid fid m) = pm_next_seq m"
  "processed_of (mark_processed pid fid m) c = (if c = pid then insert fid (processed_of m c) else processed_of m c)"
  by (simp_all add: mark_processed_def of_folds)

lemma put_position_eq: "put_position pid sn m = (Inr (Some sn), m\<lparr>pm_snapshots := AList.update pid sn (pm_snapshots m)\<rparr>)"
  by (simp add: put_position_def)

text \<open>The ways an event is applied: an error, which at most marks a fill, or one of five effects.\<close>

lemma lifecycle_actions [simp]:
  "\<not> lifecycle_action ''CREATE''" "\<not> lifecycle_action ''FUNDING''" "lifecycle_action ''ENTRY_FILL''" "lifecycle_action ''EXIT''"
  by (simp_all add: lifecycle_action_def)

lemma pm_action_cases:
  obtains (error) x m0 where "pm_apply_action a pid now pl m = (Inl x, m0)" "m0 = m \<or> (\<exists>fid. m0 = mark_processed pid fid m)"
  | (create) sn where "a = ''CREATE''" "bindE (req_dict pl ''details'') (created_snapshot pid now) = Inr sn"
      "pm_apply_action a pid now pl m = (Inr (Some sn),
         m\<lparr>pm_closed_legs := (pm_closed_legs m)(pid \<mapsto> legs_of m pid),
           pm_processed_fill_ids := (pm_processed_fill_ids m)(pid \<mapsto> processed_of m pid),
           pm_snapshots := AList.update pid sn (pm_snapshots m)\<rparr>)"
  | (entry) sn s fid sn' where "a = ''ENTRY_FILL''" "map_of (pm_snapshots m) pid = Some sn"
      "pm_recorded_transition pl (ps_lifecycle_state sn) = Inr s" "req_str (dget_dict pl ''details'') ''fill_id'' = Inr fid"
      "entry_snapshot sn s now (dget_dict pl ''details'') = Inr sn'"
      "pm_apply_action a pid now pl m = (Inr (Some sn'),
         (mark_processed pid fid m)\<lparr>pm_snapshots := AList.update pid sn' (pm_snapshots m)\<rparr>)"
  | (exit) sn s fid leg where "a = ''EXIT''" "map_of (pm_snapshots m) pid = Some sn"
      "pm_recorded_transition pl (ps_lifecycle_state sn) = Inr s" "req_str (dget_dict pl ''details'') ''fill_id'' = Inr fid"
      "exit_leg pid sn now (dget_dict pl ''details'') = Inr leg"
      "pm_apply_action a pid now pl m = (Inr (Some (exit_snapshot sn s now leg)),
         (mark_processed pid fid m)\<lparr>pm_closed_legs := (pm_closed_legs m)(pid \<mapsto> legs_of m pid @ [leg]),
           pm_snapshots := AList.update pid (exit_snapshot sn s now leg) (pm_snapshots m)\<rparr>)"
  | (pure) sn s where "lifecycle_action a" "a \<noteq> ''ENTRY_FILL''" "a \<noteq> ''EXIT''" "map_of (pm_snapshots m) pid = Some sn"
      "pm_recorded_transition pl (ps_lifecycle_state sn) = Inr s"
      "pm_apply_action a pid now pl m = (Inr (Some (sn\<lparr>ps_lifecycle_state := s, ps_updated_at_utc := now\<rparr>)),
         m\<lparr>pm_snapshots := AList.update pid (sn\<lparr>ps_lifecycle_state := s, ps_updated_at_utc := now\<rparr>) (pm_snapshots m)\<rparr>)"
  | (funding) sn amount where "a = ''FUNDING''" "map_of (pm_snapshots m) pid = Some sn"
      "req_dec (dget_dict pl ''details'') ''amount'' = Inr amount"
      "pm_apply_action a pid now pl m = (Inr (Some (sn\<lparr>ps_funding_paid := dadd (ps_funding_paid sn) amount, ps_updated_at_utc := now\<rparr>)),
         m\<lparr>pm_snapshots := AList.update pid (sn\<lparr>ps_funding_paid := dadd (ps_funding_paid sn) amount, ps_updated_at_utc := now\<rparr>) (pm_snapshots m)\<rparr>)"
proof -
  let ?d = "dget_dict pl ''details''"
  note red = pm_apply_action_def put_position_eq Let_def
  show ?thesis
  proof (cases "a = ''CREATE''")
    case a: True
    show ?thesis
    proof (cases "bindE (req_dict pl ''details'') (created_snapshot pid now)")
      case (Inl x)
      with a show ?thesis by (intro error [of x m]) (simp_all add: red)
    next
      case (Inr sn)
      with a show ?thesis by (intro create [of sn]) (simp_all add: red)
    qed
  next
    case no_create: False
    show ?thesis
    proof (cases "map_of (pm_snapshots m) pid")
      case None
      with no_create show ?thesis by (intro error [of "ReplayIntegrityError PM" m]) (simp_all add: red)
    next
      case sn: (Some sn)
      show ?thesis
      proof (cases "lifecycle_action a")
        case False
        show ?thesis
        proof (cases "a = ''FUNDING''")
          case f: True
          with sn show ?thesis
          proof (cases "req_dec ?d ''amount''")
            case (Inl x)
            with f sn show ?thesis by (intro error [of x m]) (simp_all add: red)
          next
            case (Inr amount)
            with f sn show ?thesis by (intro funding [of sn amount]) (simp_all add: red)
          qed
        next
          case no_funding: False
          with False no_create sn show ?thesis by (intro error [of "ReplayIntegrityError PM" m]) (simp_all add: red)
        qed
      next
        case life: True
        show ?thesis
        proof (cases "pm_recorded_transition pl (ps_lifecycle_state sn)")
          case (Inl x)
          with life no_create sn show ?thesis by (intro error [of x m]) (simp_all add: red)
        next
          case s: (Inr s)
          show ?thesis
          proof (cases "a = ''ENTRY_FILL'' \<or> a = ''EXIT''")
            case False
            with life no_create sn s show ?thesis by (intro pure [of sn s]) (simp_all add: red)
          next
            case a: True
            show ?thesis
            proof (cases "req_str ?d ''fill_id''")
              case (Inl x)
              with a sn s show ?thesis by (intro error [of x m]) (auto simp: red)
            next
              case fid: (Inr fid)
              show ?thesis
              proof (cases "a = ''ENTRY_FILL''")
                case a: True
                show ?thesis
                proof (cases "entry_snapshot sn s now ?d")
                  case (Inl x)
                  with a sn s fid show ?thesis by (intro error [of x "mark_processed pid fid m"]) (auto simp: red)
                next
                  case (Inr sn')
                  with a sn s fid show ?thesis by (intro entry [of sn s fid sn']) (simp_all add: red)
                qed
              next
                case False
                with a have a: "a = ''EXIT''" by blast
                show ?thesis
                proof (cases "exit_leg pid sn now ?d")
                  case (Inl x)
                  with a sn s fid show ?thesis by (intro error [of x "mark_processed pid fid m"]) (auto simp: red)
                next
                  case (Inr leg)
                  with a sn s fid show ?thesis by (intro exit [of sn s fid leg]) (simp_all add: red)
                qed
              qed
            qed
          qed
        qed
      qed
    qed
  qed
qed

lemma pm_action_frame:
  "pm_id (snd (pm_apply_action a pid now pl m)) = pm_id m"
  "pm_applied_event_ids (snd (pm_apply_action a pid now pl m)) = pm_applied_event_ids m"
  "pm_next_seq (snd (pm_apply_action a pid now pl m)) = pm_next_seq m"
  by (rule pm_action_cases [of a pid now pl m]; auto)+

lemma pm_action_like:
  assumes "pm_like r m"
  shows "fst (pm_apply_action a pid now pl r) = fst (pm_apply_action a pid now pl m) \<and>
         pm_like (snd (pm_apply_action a pid now pl r)) (snd (pm_apply_action a pid now pl m))"
proof -
  have eq: "pm_snapshots r = pm_snapshots m" using assms by (simp add: pm_like_def)
  have mark: "pm_like (mark_processed pid fid r) (mark_processed pid fid m)" for fid
    using assms by (auto simp: pm_like_def)
  have legs: "pm_like (r'\<lparr>pm_closed_legs := (pm_closed_legs r')(pid \<mapsto> legs_of r' pid @ ls)\<rparr>)
      (m'\<lparr>pm_closed_legs := (pm_closed_legs m')(pid \<mapsto> legs_of m' pid @ ls)\<rparr>)" if "pm_like r' m'" for r' m' ls
    using that by (simp add: pm_like_def of_folds)
  have create: "pm_like (r\<lparr>pm_closed_legs := (pm_closed_legs r)(pid \<mapsto> legs_of r pid),
        pm_processed_fill_ids := (pm_processed_fill_ids r)(pid \<mapsto> processed_of r pid)\<rparr>)
      (m\<lparr>pm_closed_legs := (pm_closed_legs m)(pid \<mapsto> legs_of m pid),
        pm_processed_fill_ids := (pm_processed_fill_ids m)(pid \<mapsto> processed_of m pid)\<rparr>)"
    using assms by (simp add: pm_like_def of_folds)
  have sn: "pm_like (r'\<lparr>pm_snapshots := AList.update pid x (pm_snapshots r')\<rparr>)
      (m'\<lparr>pm_snapshots := AList.update pid x (pm_snapshots m')\<rparr>)" if "pm_like r' m'" for r' m' x
    using that by (simp add: pm_like_def)
  show ?thesis
    using assms mark sn [OF assms] sn [OF mark] sn [OF create] sn [OF legs [OF mark], simplified]
    unfolding pm_apply_action_def Let_def put_position_eq eq
    by (simp add: eq split: sum.split option.split)
qed

lemma pm_bump_like:
  "pm_like r m \<Longrightarrow> fst (pm_bump_seq v r) = fst (pm_bump_seq v m) \<and> pm_like (snd (pm_bump_seq v r)) (snd (pm_bump_seq v m))"
  by (cases v) (auto simp: pm_bump_seq_def pm_like_def)

lemma pm_apply_new:
  "event_id e \<notin> pm_applied_event_ids m \<Longrightarrow> pm_apply_event e m =
     bindP (pm_bump_seq (dget (payload e) ''seq''))
       (\<lambda>_. pm_apply_action (text_at (payload e) ''action'') (text_at (payload e) ''position_id'') (timestamp_utc e) (payload e))
       (m\<lparr>pm_applied_event_ids := insert (event_id e) (pm_applied_event_ids m)\<rparr>)"
  by (simp add: pm_apply_event_def Let_def)

lemma pm_apply_like:
  assumes "pm_like r m" "pm_apply_event e m = (q, m')"
  shows "\<exists>r'. pm_apply_event e r = (q, r') \<and> pm_like r' m'"
proof (cases "event_id e \<in> pm_applied_event_ids m")
  case True
  with assms show ?thesis by (auto simp: pm_apply_event_def pm_like_def)
next
  case False
  then have Fr: "event_id e \<notin> pm_applied_event_ids r" using assms(1) by (simp add: pm_like_def)
  let ?up = "\<lambda>m. m\<lparr>pm_applied_event_ids := insert (event_id e) (pm_applied_event_ids m)\<rparr>"
  have "pm_like (?up r) (?up m)" using assms(1) by (simp add: pm_like_def)
  note b = pm_bump_like [OF this, of "dget (payload e) ''seq''"]
  obtain x r1 where r1: "pm_bump_seq (dget (payload e) ''seq'') (?up r) = (x, r1)" by (meson surj_pair)
  obtain m1 where m1: "pm_bump_seq (dget (payload e) ''seq'') (?up m) = (x, m1)" and l: "pm_like r1 m1"
    using b r1 by (metis fst_conv snd_conv surj_pair)
  show ?thesis
  proof (cases x)
    case (Inl y)
    with pm_apply_new [OF False] pm_apply_new [OF Fr] r1 m1 l assms(2) show ?thesis by (auto simp: bindP_def)
  next
    case (Inr y)
    with pm_apply_new [OF False] pm_apply_new [OF Fr] r1 m1 assms(2) pm_action_like [OF l] show ?thesis
      by (auto simp: bindP_def) (metis fst_conv snd_conv surj_pair)
  qed
qed

lemma pm_apply_marks:
  assumes "pm_apply_event e m = (q, m')"
  shows "pm_applied_event_ids m' = insert (event_id e) (pm_applied_event_ids m)"
proof (cases "event_id e \<in> pm_applied_event_ids m")
  case True
  with assms show ?thesis by (auto simp: pm_apply_event_def)
next
  case False
  have b: "pm_applied_event_ids (snd (pm_bump_seq v k)) = pm_applied_event_ids k" for v k
    by (cases v) (simp_all add: pm_bump_seq_def)
  let ?m0 = "m\<lparr>pm_applied_event_ids := insert (event_id e) (pm_applied_event_ids m)\<rparr>"
  obtain x m1 where m1: "pm_bump_seq (dget (payload e) ''seq'') ?m0 = (x, m1)" by (meson surj_pair)
  with b [of "dget (payload e) ''seq''" ?m0] have f: "pm_applied_event_ids m1 = insert (event_id e) (pm_applied_event_ids m)" by simp
  show ?thesis
  proof (cases x)
    case (Inl y)
    with pm_apply_new [OF False] m1 f assms show ?thesis by (simp add: bindP_def)
  next
    case (Inr y)
    let ?act = "pm_apply_action (text_at (payload e) ''action'') (text_at (payload e) ''position_id'') (timestamp_utc e) (payload e) m1"
    have "pm_apply_event e m = ?act" using pm_apply_new [OF False] m1 Inr by (simp add: bindP_def)
    then have "m' = snd ?act" using assms by (metis snd_conv)
    with f show ?thesis by (simp add: pm_action_frame)
  qed
qed

interpretation pm: live_component ledger_inv es_events get_by_idempotency_key
  "\<lambda>ty pl k. append_event E ty pl k sv" "\<lambda>e. pm_is_own_event e pmid" pm_apply_event "pm_init pmid"
  pm_applied_event_ids pm_like "pm_key pmid" for E sv pmid
proof
  fix e :: event and m :: position_manager
  assume "event_id e \<in> pm_applied_event_ids m"
  then show "\<exists>x. pm_apply_event e m = (Inr x, m)" by (simp add: pm_apply_event_def)
next
  fix r m :: position_manager and e q m'
  assume "pm_like r m" "pm_apply_event e m = (q, m')"
  then show "\<exists>r'. pm_apply_event e r = (q, r') \<and> pm_like r' m'" by (rule pm_apply_like)
qed (auto simp: pm_init_def ledger_ids pm_like_def dest: pm_apply_marks)

end
