(* ===== verification/Position_Books.thy ===== *)
theory Position_Books
  imports Position_Ledger
begin

text \<open>
  The figures of a position as sums over its events on the log, and the keys of those events.  What
  one recorded event does to them; the manager's invariant \<open>pm_sound\<close>, on top of this, is in
  \<open>Position_Recovery\<close>.
\<close>

section \<open>Reading events\<close>

definition pm_ev_action :: "event \<Rightarrow> string" where "pm_ev_action e = text_at (payload e) ''action''"
definition pm_ev_pid :: "event \<Rightarrow> string" where "pm_ev_pid e = text_at (payload e) ''position_id''"

definition ev_dec :: "string \<Rightarrow> event \<Rightarrow> decimal" where
  "ev_dec k e = (case req_dec (dget_dict (payload e) ''details'') k of Inr q \<Rightarrow> q | Inl _ \<Rightarrow> 0)"

definition ev_fill :: "event \<Rightarrow> string" where
  "ev_fill e = (case req_str (dget_dict (payload e) ''details'') ''fill_id'' of Inr s \<Rightarrow> s | Inl _ \<Rightarrow> [])"

definition pm_events :: "string \<Rightarrow> string \<Rightarrow> string \<Rightarrow> event list \<Rightarrow> event list" where
  "pm_events pmid a pid evs = filter (\<lambda>e. pm_is_own_event e pmid \<and> pm_ev_action e = a \<and> pm_ev_pid e = pid) evs"

abbreviation entries :: "string \<Rightarrow> string \<Rightarrow> event list \<Rightarrow> event list" where
  "entries pmid pid evs \<equiv> pm_events pmid ''ENTRY_FILL'' pid evs"

abbreviation exits :: "string \<Rightarrow> string \<Rightarrow> event list \<Rightarrow> event list" where
  "exits pmid pid evs \<equiv> pm_events pmid ''EXIT'' pid evs"

lemma pm_events_append: "pm_events pmid a pid (xs @ ys) = pm_events pmid a pid xs @ pm_events pmid a pid ys"
  by (simp add: pm_events_def)

lemma pm_payload_parts [simp]:
  "dget (pm_payload pmid a pid seq t f to d) ''source'' = VStr PM_SOURCE_TAG"
  "dget (pm_payload pmid a pid seq t f to d) ''pm_id'' = VStr pmid"
  "dget (pm_payload pmid a pid seq t f to d) ''seq'' = vopt VInt seq"
  "text_at (pm_payload pmid a pid seq t f to d) ''action'' = a"
  "text_at (pm_payload pmid a pid seq t f to d) ''position_id'' = pid"
  "dget_dict (pm_payload pmid a pid seq t f to d) ''details'' = d"
  "req_dict (pm_payload pmid a pid seq t f to d) ''details'' = Inr d"
  "req_val (pm_payload pmid a pid seq t f to d) ''trigger'' = Inr (vopt (\<lambda>t. VStr (position_trigger_value t)) t)"
  "req_val (pm_payload pmid a pid seq t f to d) ''from_state'' = Inr (vopt (\<lambda>s. VStr (position_state_value s)) f)"
  "req_val (pm_payload pmid a pid seq t f to d) ''to_state'' = Inr (vopt (\<lambda>s. VStr (position_state_value s)) to)"
  by (simp_all add: pm_payload_def text_at_def req_val_def req_dict_def)

section \<open>Sums\<close>

text \<open>
  The snapshot \<open>sn\<close> and the legs of a position with the given entry and exit events: quantities,
  realized profit and R multiples are the sums of what was recorded, in order; nothing is closed
  before the entry is over; and the average entry price is known from the first fill on.
\<close>

definition book_ok :: "position_snapshot \<Rightarrow> closed_leg list \<Rightarrow> event list \<Rightarrow> event list \<Rightarrow> bool" where
  "book_ok sn legs ens exs \<longleftrightarrow>
     0 \<le> ps_filled_quantity sn \<and>
     ps_filled_quantity sn = foldl dadd 0 (map (ev_dec ''fill_quantity'') ens) \<and>
     ps_remaining_quantity sn = foldl dsub (ps_filled_quantity sn) (map (ev_dec ''fill_quantity'') exs) \<and>
     ps_realized_pnl sn = foldl dadd 0 (map (ev_dec ''realized_pnl'') exs) \<and>
     ps_realized_r sn = foldl dadd 0 (map (ev_dec ''r'') exs) \<and>
     map (\<lambda>l. (cl_quantity l, cl_realized_pnl l, cl_r l)) legs =
       map (\<lambda>e. (ev_dec ''fill_quantity'' e, ev_dec ''realized_pnl'' e, ev_dec ''r'' e)) exs \<and>
     (pm_state_rank (ps_lifecycle_state sn) \<le> 3 \<longrightarrow> exs = []) \<and>
     (ps_avg_entry_price sn = None \<longleftrightarrow> ps_lifecycle_state sn = P_NEW) \<and>
     (ps_lifecycle_state sn = P_NEW \<longrightarrow> ens = [])"

definition books :: "string \<Rightarrow> event list \<Rightarrow> position_manager \<Rightarrow> bool" where
  "books pmid evs m \<longleftrightarrow> (\<forall>pid.
     case map_of (pm_snapshots m) pid of
       None \<Rightarrow> entries pmid pid evs = [] \<and> exits pmid pid evs = [] \<and> legs_of m pid = []
     | Some sn \<Rightarrow> book_ok sn (legs_of m pid) (entries pmid pid evs) (exits pmid pid evs) \<and>
         ev_fill ` set (entries pmid pid evs @ exits pmid pid evs) \<subseteq> processed_of m pid)"

lemma booksD:
  assumes "books pmid evs m"
  shows "map_of (pm_snapshots m) pid = None \<Longrightarrow> entries pmid pid evs = [] \<and> exits pmid pid evs = [] \<and> legs_of m pid = []"
    and "map_of (pm_snapshots m) pid = Some sn \<Longrightarrow>
      book_ok sn (legs_of m pid) (entries pmid pid evs) (exits pmid pid evs) \<and>
      ev_fill ` set (entries pmid pid evs @ exits pmid pid evs) \<subseteq> processed_of m pid"
  using assms [unfolded books_def, THEN spec, of pid] by simp_all

lemma edge_new:
  assumes "pm_next_state s t = Inr s'"
  shows "s' \<noteq> P_NEW" "4 \<le> pm_state_rank s' \<Longrightarrow> s \<noteq> P_NEW" "pm_state_rank s' \<le> 3 \<Longrightarrow> pm_state_rank s \<le> 3"
  using assms by (auto simp: pm_next_edge PM_EDGES_def)

lemma entry_state: "entry_snapshot sn to now d = Inr sn' \<Longrightarrow> ps_lifecycle_state sn' = to"
  by (auto simp: entry_snapshot_def bindE_eq_Inr Let_def)

lemma book_entry:
  assumes "book_ok sn legs ens exs" "entry_snapshot sn to now d = Inr sn'" "pm_next_state (ps_lifecycle_state sn) t = Inr to"
    and "pm_state_rank to \<le> 3" "req_dec d ''fill_quantity'' = Inr q" "0 \<le> q" "dget_dict (payload e) ''details'' = d"
  shows "book_ok sn' legs (ens @ [e]) exs"
proof -
  have "exs = []" using assms(1,4) edge_new(3) [OF assms(3)] by (simp add: book_ok_def)
  moreover obtain avg fee where "sn' = sn\<lparr>ps_lifecycle_state := to, ps_avg_entry_price := Some avg,
      ps_filled_quantity := dadd (ps_filled_quantity sn) q, ps_remaining_quantity := dadd (ps_filled_quantity sn) q,
      ps_fees_paid := dadd (ps_fees_paid sn) fee, ps_updated_at_utc := now\<rparr>"
    using assms(2,5) by (auto simp: entry_snapshot_def bindE_def Let_def split: sum.splits)
  moreover have "0 \<le> dadd (ps_filled_quantity sn) q"
    using assms(1,6) by (simp add: book_ok_def dadd_def dround_nonneg)
  moreover have "ev_dec ''fill_quantity'' e = q" using assms(5,7) by (simp add: ev_dec_def)
  ultimately show ?thesis using assms(1) edge_new(1) [OF assms(3)] by (simp add: book_ok_def)
qed

lemma book_exit:
  assumes "book_ok sn legs ens exs" "exit_leg pid sn now d = Inr leg" "pm_next_state (ps_lifecycle_state sn) t = Inr to"
    and "4 \<le> pm_state_rank to" "dget_dict (payload e) ''details'' = d"
  shows "book_ok (exit_snapshot sn to now leg) (legs @ [leg]) ens (exs @ [e])"
proof -
  have "ev_dec ''fill_quantity'' e = cl_quantity leg \<and> ev_dec ''realized_pnl'' e = cl_realized_pnl leg \<and> ev_dec ''r'' e = cl_r leg"
    using assms(2,5) by (auto simp: exit_leg_def ev_dec_def bindE_def split: sum.splits)
  then show ?thesis
    using assms(1,4) edge_new [OF assms(3)] by (auto simp: book_ok_def exit_snapshot_def)
qed

lemma book_pure:
  assumes "book_ok sn legs ens exs" "pm_next_state (ps_lifecycle_state sn) t = Inr to" "4 \<le> pm_state_rank to"
  shows "book_ok (sn\<lparr>ps_lifecycle_state := to, ps_updated_at_utc := now\<rparr>) legs ens exs"
  using assms(1,3) edge_new [OF assms(2)] by (auto simp: book_ok_def)

lemma book_funding:
  "book_ok sn legs ens exs \<Longrightarrow> book_ok (sn\<lparr>ps_funding_paid := x, ps_updated_at_utc := now\<rparr>) legs ens exs"
  by (simp add: book_ok_def)

lemma book_created:
  "created_snapshot pid now d = Inr sn \<Longrightarrow> book_ok sn [] [] []"
  by (auto simp: created_snapshot_def book_ok_def bindE_def split: sum.splits)

section \<open>Recording one event\<close>

text \<open>What the recorded transitions of the manager look like.\<close>

definition good_payload :: "string \<Rightarrow> position_state option \<Rightarrow> dict \<Rightarrow> bool" where
  "good_payload a to d \<longleftrightarrow>
     (a = ''ENTRY_FILL'' \<longrightarrow> (\<exists>s. to = Some s \<and> pm_state_rank s \<le> 3) \<and> (\<exists>q\<ge>0. req_dec d ''fill_quantity'' = Inr q)) \<and>
     (a \<in> {''EXIT'', ''BREAKEVEN'', ''COMPLETE_CLOSE'', ''ARCHIVE''} \<longrightarrow> (\<exists>s. to = Some s \<and> 4 \<le> pm_state_rank s))"

lemma parse_none [simp]: "parse_position_state VNone = Inl ValueError" "parse_position_trigger VNone = Inl ValueError"
  by (simp_all add: parse_position_state_def parse_position_trigger_def parse_enum_def)

lemma pm_recorded_edge:
  assumes "pm_recorded_transition (pm_payload pmid a pid seq t f to d) current = Inr s"
  shows "to = Some s \<and> (\<exists>t. pm_next_state current t = Inr s)"
  using assms
  by (cases t; cases f; cases to) (auto simp: pm_recorded_transition_def bindE_def split: if_splits)

text \<open>An event of the manager after the ones the memory reflects.\<close>

lemma pm_events_snoc:
  assumes "payload e = pm_payload pmid b pid seq t f to d"
  shows "pm_events pmid a c (evs @ [e]) = pm_events pmid a c evs @ (if a = b \<and> c = pid then [e] else [])"
  using assms by (auto simp: pm_events_def pm_is_own_event_def pm_ev_action_def pm_ev_pid_def)

text \<open>Only the position of the event changes.\<close>

lemma pm_action_other:
  assumes "c \<noteq> pid"
  shows "map_of (pm_snapshots (snd (pm_apply_action a pid now pl m))) c = map_of (pm_snapshots m) c"
    "legs_of (snd (pm_apply_action a pid now pl m)) c = legs_of m c"
    "processed_of (snd (pm_apply_action a pid now pl m)) c = processed_of m c"
  by (rule pm_action_cases [of a pid now pl m]; use assms in \<open>auto simp: update_conv' of_folds\<close>)+

lemma pm_action_books:
  assumes bk: "books pmid evs m" and pl: "payload e = pm_payload pmid a pid seq t f to d"
    and run: "pm_apply_action a pid now (payload e) m = (Inr x, m')"
    and good: "good_payload a to d" and fresh: "a = ''CREATE'' \<Longrightarrow> map_of (pm_snapshots m) pid = None"
  shows "books pmid (evs @ [e]) m'"
  unfolding books_def
proof (rule allI)
  fix c
  let ?goal = "\<lambda>c. case map_of (pm_snapshots m') c of
       None \<Rightarrow> entries pmid c (evs @ [e]) = [] \<and> exits pmid c (evs @ [e]) = [] \<and> legs_of m' c = []
     | Some sn \<Rightarrow> book_ok sn (legs_of m' c) (entries pmid c (evs @ [e])) (exits pmid c (evs @ [e])) \<and>
         ev_fill ` set (entries pmid c (evs @ [e]) @ exits pmid c (evs @ [e])) \<subseteq> processed_of m' c"
  note snoc = pm_events_snoc [OF pl, of _ _ evs]
  have m': "m' = snd (pm_apply_action a pid now (payload e) m)" using run by simp
  show "?goal c"
  proof (cases "c = pid")
    case False
    with bk [unfolded books_def, THEN spec, of c] show ?thesis
      unfolding m' snoc pm_action_other [OF False]
      by (cases "map_of (pm_snapshots m) c") (simp_all add: False)
  next
    case c: True
    have edge: "to = Some s \<and> (\<exists>t. pm_next_state current t = Inr s)"
      if "pm_recorded_transition (payload e) current = Inr s" for current s
      by (rule pm_recorded_edge [OF that [unfolded pl]])
    show ?thesis
    proof (rule pm_action_cases [of a pid now "payload e" m], goal_cases)
      case (1 x m0)
      with run show ?case by simp
    next
      case (2 sn)
      then have "book_ok sn [] [] []" using pl by (intro book_created [of pid now d]) simp
      with 2 run booksD(1) [OF bk fresh [OF 2(1)]] c show ?case by (auto simp: snoc update_conv' of_folds)
    next
      case (3 sn s fid sn')
      note b = booksD(2) [OF bk 3(2)]
      from edge [OF 3(3)] obtain tr where tr: "to = Some s" "pm_next_state (ps_lifecycle_state sn) tr = Inr s" by blast
      obtain q where q: "req_dec d ''fill_quantity'' = Inr q" "0 \<le> q" and rank: "pm_state_rank s \<le> 3"
        using good tr(1) 3(1) by (auto simp: good_payload_def)
      have "ev_fill e = fid" using 3(4) by (simp add: ev_fill_def)
      moreover have "book_ok sn' (legs_of m pid) (entries pmid pid evs @ [e]) (exits pmid pid evs)"
        using book_entry [OF _ 3(5) tr(2) rank _ q(2)] b pl q(1) by simp
      moreover have "ev_fill ` set (entries pmid pid evs @ exits pmid pid evs) \<subseteq> insert fid (processed_of m pid)" using b by blast
      ultimately show ?case using 3 run c by (auto simp: snoc update_conv' image_Un)
    next
      case (4 sn s fid leg)
      note b = booksD(2) [OF bk 4(2)]
      from edge [OF 4(3)] obtain tr where tr: "to = Some s" "pm_next_state (ps_lifecycle_state sn) tr = Inr s" by blast
      have rank: "4 \<le> pm_state_rank s" using good tr(1) 4(1) by (auto simp: good_payload_def)
      have "ev_fill e = fid" using 4(4) by (simp add: ev_fill_def)
      moreover have "book_ok (exit_snapshot sn s now leg) (legs_of m pid @ [leg]) (entries pmid pid evs) (exits pmid pid evs @ [e])"
        using book_exit [OF _ 4(5) tr(2) rank] b by simp
      moreover have "ev_fill ` set (entries pmid pid evs @ exits pmid pid evs) \<subseteq> insert fid (processed_of m pid)" using b by blast
      ultimately show ?case using 4 run c by (auto simp: snoc update_conv' image_Un)
    next
      case (5 sn s)
      note b = booksD(2) [OF bk 5(4)]
      from edge [OF 5(5)] obtain tr where tr: "to = Some s" "pm_next_state (ps_lifecycle_state sn) tr = Inr s" by blast
      have "4 \<le> pm_state_rank s" using good tr(1) 5(1-3) by (auto simp: good_payload_def lifecycle_action_def)
      with 5 run b book_pure [OF _ tr(2)] c show ?case by (auto simp: snoc update_conv')
    next
      case (6 sn amount)
      with run booksD(2) [OF bk 6(2)] book_funding c show ?case by (auto simp: snoc update_conv')
    qed
  qed
qed

end
