(* ===== verification/Position_Recovery.thy ===== *)
theory Position_Recovery
  imports Position_Books
begin

text \<open>
  The invariant of a running position manager, and that every public method keeps it and moves
  positions only along the edges of the table.
\<close>

section \<open>Keys\<close>

definition pm_id_prefix :: "string \<Rightarrow> int \<Rightarrow> string" where
  "pm_id_prefix pmid i = ''pm:'' @ pmid @ '':'' @ show_int i @ '':''"

definition the_position_id :: "string \<Rightarrow> int \<Rightarrow> string" where
  "the_position_id pmid i = pm_make_id pmid i ''position''"

lemma pm_make_id_prefix: "pm_make_id pmid i suf = pm_id_prefix pmid i @ suf"
  by (simp add: pm_make_id_def pm_id_prefix_def)

lemma pm_id_prefix_eq:
  assumes "pm_id_prefix pmid i @ x = pm_id_prefix pmid j @ y" "0 \<le> i" "0 \<le> j"
  shows "i = j \<and> x = y"
  using assms make_id_inj [of pmid i x j y] by (simp add: pm_id_prefix_def make_id_def)

lemma position_id_eq:
  "the_position_id pmid i @ x = the_position_id pmid j @ y \<Longrightarrow> 0 \<le> i \<Longrightarrow> 0 \<le> j \<Longrightarrow> i = j \<and> x = y"
  using pm_id_prefix_eq [of pmid i "''position'' @ x" j "''position'' @ y"]
  by (simp add: the_position_id_def pm_make_id_prefix)

lemma pm_key_inj [simp]: "pm_key pmid k = pm_key pmid k' \<longleftrightarrow> k = k'"
  by (simp add: pm_key_def)

definition pm_key_below :: "string \<Rightarrow> int \<Rightarrow> string \<Rightarrow> bool" where
  "pm_key_below pmid n k \<longleftrightarrow> (\<forall>i rest. 0 \<le> i \<longrightarrow> k = pm_id_prefix pmid i @ rest \<longrightarrow> i < n)"

lemma pm_key_below_mono: "pm_key_below pmid n k \<Longrightarrow> n \<le> n' \<Longrightarrow> pm_key_below pmid n' k"
  unfolding pm_key_below_def by (blast intro: order.strict_trans2)

lemma pm_key_below_position:
  assumes "0 \<le> i" "i < n"
  shows "pm_key_below pmid n (the_position_id pmid i @ rest)"
  unfolding pm_key_below_def
proof (intro allI impI)
  fix j r assume "0 \<le> j" "the_position_id pmid i @ rest = pm_id_prefix pmid j @ r"
  then show "j < n"
    using pm_id_prefix_eq [of pmid i "''position'' @ rest" j r] assms by (simp add: the_position_id_def pm_make_id_prefix)
qed

text \<open>Creations and fills are stored under the key of what they record.\<close>

definition pm_key_matches :: "string \<Rightarrow> event \<Rightarrow> bool" where
  "pm_key_matches pmid e \<longleftrightarrow>
     (pm_ev_action e = ''CREATE'' \<longrightarrow> idempotency_key e = Some (pm_key pmid (pm_ev_pid e))) \<and>
     (pm_ev_action e = ''ENTRY_FILL'' \<longrightarrow>
        idempotency_key e = Some (pm_key pmid (pm_ev_pid e @ '':entry:'' @ ev_fill e)) \<or> ev_dec ''fill_quantity'' e = 0) \<and>
     (pm_ev_action e = ''EXIT'' \<longrightarrow> idempotency_key e = Some (pm_key pmid (pm_ev_pid e @ '':exit:'' @ ev_fill e))) \<and>
     (\<forall>i x. 0 \<le> i \<longrightarrow> idempotency_key e = Some (pm_key pmid (the_position_id pmid i @ '':open:'' @ x)) \<longrightarrow>
        pm_ev_action e = ''ENTRY_FILL'' \<and> pm_ev_pid e = the_position_id pmid i)"

section \<open>The invariant\<close>

definition pm_rec_of :: "string \<Rightarrow> event_store \<Rightarrow> position_manager" where
  "pm_rec_of pmid s = (case fold_log (\<lambda>e. pm_is_own_event e pmid) pm_apply_event (es_events s) (pm_init pmid) of
     Inl _ \<Rightarrow> pm_init pmid | Inr r \<Rightarrow> r)"

lemma pm_rec_of_eq: "pm.recovered pmid s r \<Longrightarrow> pm_rec_of pmid s = r"
  by (simp add: pm_rec_of_def pm.recovered_def)

definition pm_wf :: "string \<Rightarrow> event_store \<Rightarrow> position_manager \<Rightarrow> bool" where
  "pm_wf pmid s r \<longleftrightarrow> 1 \<le> pm_next_seq r \<and> pm_id r = pmid \<and>
     (\<forall>pid sn. map_of (pm_snapshots r) pid = Some sn \<longrightarrow> (\<exists>i. 0 \<le> i \<and> i < pm_next_seq r \<and> pid = the_position_id pmid i)) \<and>
     (\<forall>e\<in>set (es_events s). \<forall>k. idempotency_key e = Some (pm_key pmid k) \<longrightarrow> pm_key_below pmid (pm_next_seq r) k) \<and>
     (\<forall>e\<in>set (es_events s). pm_is_own_event e pmid \<longrightarrow> pm_key_matches pmid e) \<and>
     books pmid (es_events s) r"

definition pm_sound :: "string \<Rightarrow> pm_world \<Rightarrow> bool" where
  "pm_sound pmid w \<longleftrightarrow>
     ledger_inv (pw_store w) \<and> \<not> es_closed (pw_store w) \<and> \<not> py_strip_empty pmid \<and> length pmid \<le> MAX_PM_ID_LENGTH \<and>
     pm.own_keys pmid (pw_store w) \<and> pm.recovered pmid (pw_store w) (pm_rec_of pmid (pw_store w)) \<and>
     pm_like (pm_rec_of pmid (pw_store w)) (pw_pm w) \<and> pm_wf pmid (pw_store w) (pm_rec_of pmid (pw_store w))"

lemma pm_soundD:
  assumes "pm_sound pmid w"
  shows "ledger_inv (pw_store w)" "pm_id (pw_pm w) = pmid" "pm_snapshots (pw_pm w) = pm_snapshots (pm_rec_of pmid (pw_store w))"
    "pm_next_seq (pm_rec_of pmid (pw_store w)) \<le> pm_next_seq (pw_pm w)"
    "pm.own_keys pmid (pw_store w)" "pm.recovered pmid (pw_store w) (pm_rec_of pmid (pw_store w))"
    "pm_like (pm_rec_of pmid (pw_store w)) (pw_pm w)" "pm_wf pmid (pw_store w) (pm_rec_of pmid (pw_store w))"
  using assms by (auto simp: pm_sound_def pm_like_def pm_wf_def)

lemma pm_known_id:
  assumes "pm_sound pmid w" "map_of (pm_snapshots (pw_pm w)) pid = Some sn"
  obtains i where "0 \<le> i" "i < pm_next_seq (pm_rec_of pmid (pw_store w))" "pid = the_position_id pmid i"
  using pm_soundD(8) [OF assms(1)] assms(2) that unfolding pm_soundD(3) [OF assms(1)] pm_wf_def by blast

text \<open>The figures in memory are those of the log.\<close>

lemma books_same:
  assumes "pm_snapshots m = pm_snapshots r" "\<And>pid. legs_of m pid = legs_of r pid"
    "\<And>pid. processed_of r pid \<subseteq> processed_of m pid" "books pmid evs r"
  shows "books pmid evs m"
  unfolding books_def
proof
  fix pid
  note eq = assms(1,2) assms(3) [of pid]
  show "case map_of (pm_snapshots m) pid of
       None \<Rightarrow> entries pmid pid evs = [] \<and> exits pmid pid evs = [] \<and> legs_of m pid = []
     | Some sn \<Rightarrow> book_ok sn (legs_of m pid) (entries pmid pid evs) (exits pmid pid evs) \<and>
         ev_fill ` set (entries pmid pid evs @ exits pmid pid evs) \<subseteq> processed_of m pid"
    using assms(4) [unfolded books_def, THEN spec, of pid] eq(3) unfolding eq(1,2)
    by (cases "map_of (pm_snapshots r) pid") (simp_all, blast)
qed

lemma pm_sound_books: "pm_sound pmid w \<Longrightarrow> books pmid (es_events (pw_store w)) (pw_pm w)"
  by (rule books_same [of _ "pm_rec_of pmid (pw_store w)"])
    (use pm_soundD(7,8) [of pmid w] in \<open>simp_all add: pm_wf_def pm_like_def\<close>)

lemma pm_sound_memory:
  "pm_sound pmid w \<Longrightarrow> pm_like (pw_pm w) m \<Longrightarrow> pm_sound pmid (w\<lparr>pw_pm := m\<rparr>)"
  using pm_like_trans by (auto simp: pm_sound_def)

definition pm_foreign :: "string \<Rightarrow> dict \<Rightarrow> string option \<Rightarrow> bool" where
  "pm_foreign pmid pl key \<longleftrightarrow>
     (dget pl ''source'' \<noteq> VStr PM_SOURCE_TAG \<or> dget pl ''pm_id'' \<noteq> VStr pmid) \<and> (\<forall>k. key \<noteq> Some (pm_key pmid k))"

lemma pm_events_foreign: "\<forall>e\<in>set new. \<not> pm_is_own_event e pmid \<Longrightarrow> pm_events pmid a pid (evs @ new) = pm_events pmid a pid evs"
  by (auto simp: pm_events_def filter_empty_conv)

lemma books_foreign: "books pmid evs r \<Longrightarrow> \<forall>e\<in>set new. \<not> pm_is_own_event e pmid \<Longrightarrow> books pmid (evs @ new) r"
  using pm_events_foreign [of new pmid _ _ evs] unfolding books_def by presburger

lemma pm_sound_append:
  assumes "pm_sound pmid w" "append_event E ty pl key sv (pw_store w) = (q, s')" "pm_foreign pmid pl key"
  shows "pm_sound pmid (w\<lparr>pw_store := s'\<rparr>)"
proof -
  note inv = pm_soundD(1) [OF assms(1)]
  have "pm.recovered pmid s' (pm_rec_of pmid (pw_store w))"
    using pm.persist_foreign [OF inv pm_soundD(6) [OF assms(1)] assms(2)] assms(3)
    by (auto simp: pm_is_own_event_def pm_foreign_def)
  note r = pm_rec_of_eq [OF this] and rec = this
  have keys: "pm.own_keys pmid s'"
    using pm.own_keys_foreign [OF pm_soundD(5) [OF assms(1)] inv assms(2)] assms(3) by (simp add: pm_foreign_def)
  obtain new where new: "es_events s' = es_events (pw_store w) @ new" "\<forall>e\<in>set new. idempotency_key e = key \<and> payload e = pl"
    using es.put_log_grows [OF inv assms(2)] by blast
  then have foreign: "\<forall>e\<in>set new. \<not> pm_is_own_event e pmid" using assms(3) by (auto simp: pm_is_own_event_def pm_foreign_def)
  have "pm_wf pmid s' (pm_rec_of pmid (pw_store w))"
    using pm_soundD(8) [OF assms(1)] new foreign assms(3) books_foreign [OF _ foreign, of "es_events (pw_store w)"]
    by (auto simp: pm_wf_def pm_foreign_def)
  with assms(1) r rec keys es.put_inv [OF inv assms(2)] append_keeps_open [OF assms(2) inv] show ?thesis
    by (simp add: pm_sound_def)
qed

lemma pm_sound_failed:
  assumes "pm_sound pmid w" "append_event E ty pl key sv (pw_store w) = (Inl x, s')"
  shows "pm_sound pmid (w\<lparr>pw_store := s'\<rparr>)"
proof -
  note inv = pm_soundD(1) [OF assms(1)]
  have log: "es_events s' = es_events (pw_store w)" by (rule es.put_fail [OF inv assms(2)])
  then have "pm_rec_of pmid s' = pm_rec_of pmid (pw_store w)" by (simp add: pm_rec_of_def)
  with log assms(1) es.put_inv [OF inv assms(2)] append_keeps_open [OF assms(2) inv] show ?thesis
    by (simp add: pm_sound_def pm_wf_def pm.own_keys_def pm.recovered_def)
qed

section \<open>Recording an event\<close>

definition pm_edge :: "position_state \<Rightarrow> position_state \<Rightarrow> bool" where
  "pm_edge s s' \<longleftrightarrow> (\<exists>t. pm_next_state s t = Inr s')"

definition progress :: "pm_world \<Rightarrow> pm_world \<Rightarrow> bool" where
  "progress w w' \<longleftrightarrow> (\<forall>pid sn. map_of (pm_snapshots (pw_pm w)) pid = Some sn \<longrightarrow>
     (\<exists>sn'. map_of (pm_snapshots (pw_pm w')) pid = Some sn' \<and>
        pm_edge\<^sup>*\<^sup>* (ps_lifecycle_state sn) (ps_lifecycle_state sn')))"

lemma progress_refl: "pm_snapshots (pw_pm w') = pm_snapshots (pw_pm w) \<Longrightarrow> progress w w'"
  by (simp add: progress_def)

lemma progress_trans: "progress a b \<Longrightarrow> progress b c \<Longrightarrow> progress a c"
  unfolding progress_def by (meson rtranclp_trans)

lemma pm_apply_payload:
  assumes "payload e = pm_payload pmid a pid seq t f to d" "event_id e \<notin> pm_applied_event_ids m"
  shows "pm_apply_event e m = pm_apply_action a pid (timestamp_utc e) (payload e)
    (m\<lparr>pm_applied_event_ids := insert (event_id e) (pm_applied_event_ids m),
       pm_next_seq := (case seq of None \<Rightarrow> pm_next_seq m | Some i \<Rightarrow> max (pm_next_seq m) (i + 1))\<rparr>)"
  using pm_apply_new [OF assms(2)] assms(1) by (cases seq) (simp_all add: bindP_def pm_bump_seq_def)

text \<open>A successful application puts the position of the event, and leaves or moves its state along an edge.\<close>

lemma pm_action_progress:
  assumes "payload e = pm_payload pmid a pid seq t f to d" "pm_apply_action a pid now (payload e) m = (Inr x, m')"
    and "a = ''CREATE'' \<Longrightarrow> map_of (pm_snapshots m) pid = None"
  shows "\<exists>sn'. map_of (pm_snapshots m') = (map_of (pm_snapshots m))(pid \<mapsto> sn') \<and>
    (\<forall>sn. map_of (pm_snapshots m) pid = Some sn \<longrightarrow>
       ps_lifecycle_state sn' = ps_lifecycle_state sn \<or> pm_edge (ps_lifecycle_state sn) (ps_lifecycle_state sn'))"
proof -
  have edge: "pm_edge current s" if "pm_recorded_transition (payload e) current = Inr s" for current s
    using pm_recorded_edge [OF that [unfolded assms(1)]] by (auto simp: pm_edge_def)
  show ?thesis
  proof (rule pm_action_cases [of a pid now "payload e" m], goal_cases)
    case (1 x m0)
    with assms(2) show ?case by simp
  next
    case (2 sn)
    with assms(2,3) show ?case by (intro exI [of _ sn]) (auto simp: update_conv')
  next
    case (3 sn s fid sn')
    from entry_state [OF 3(5)] have "ps_lifecycle_state sn' = s" .
    with 3 assms(2) edge [OF 3(3)] show ?case by (intro exI [of _ sn']) (auto simp: update_conv')
  next
    case (4 sn s fid leg)
    with assms(2) edge [OF 4(3)] show ?case
      by (intro exI [of _ "exit_snapshot sn s now leg"]) (auto simp: update_conv' exit_snapshot_def)
  next
    case (5 sn s)
    with assms(2) edge [OF 5(5)] show ?case
      by (intro exI [of _ "sn\<lparr>ps_lifecycle_state := s, ps_updated_at_utc := now\<rparr>"]) (auto simp: update_conv')
  next
    case (6 sn amount)
    with assms(2) show ?case
      by (intro exI [of _ "sn\<lparr>ps_funding_paid := dadd (ps_funding_paid sn) amount, ps_updated_at_utc := now\<rparr>"])
        (auto simp: update_conv')
  qed
qed

definition pm_seq_after :: "int option \<Rightarrow> int \<Rightarrow> int" where
  "pm_seq_after seq n = (case seq of None \<Rightarrow> n | Some i \<Rightarrow> max n (i + 1))"

lemma pm_seq_after_ge: "n \<le> pm_seq_after seq n"
  by (simp add: pm_seq_after_def split: option.split)

text \<open>What a record of the manager may be: the shapes its methods write.\<close>

definition recordable :: "string \<Rightarrow> pm_world \<Rightarrow> string \<Rightarrow> string \<Rightarrow> int option \<Rightarrow> position_state option \<Rightarrow> dict \<Rightarrow> string \<Rightarrow> bool" where
  "recordable pmid w a pid seq to d k \<longleftrightarrow>
     pm_key_below pmid (pm_seq_after seq (pm_next_seq (pm_rec_of pmid (pw_store w)))) k \<and> good_payload a to d \<and>
     (a = ''CREATE'' \<longrightarrow> (\<exists>i\<ge>0. seq = Some i \<and> pid = the_position_id pmid i) \<and> k = pid \<and> map_of (pm_snapshots (pw_pm w)) pid = None) \<and>
     (a = ''ENTRY_FILL'' \<longrightarrow> (\<exists>fid. req_str d ''fill_id'' = Inr fid \<and> k = pid @ '':entry:'' @ fid) \<or> req_dec d ''fill_quantity'' = Inr 0) \<and>
     (a = ''EXIT'' \<longrightarrow> (\<exists>fid. req_str d ''fill_id'' = Inr fid \<and> k = pid @ '':exit:'' @ fid)) \<and>
     (\<forall>i x. 0 \<le> i \<longrightarrow> k = the_position_id pmid i @ '':open:'' @ x \<longrightarrow> a = ''ENTRY_FILL'' \<and> pid = the_position_id pmid i)"

text \<open>A new event of the manager, applied to the memory and to the one a restart rebuilds.\<close>

lemma pm_sound_new:
  fixes pmid :: string and w :: pm_world and s' :: event_store
  defines "r \<equiv> pm_rec_of pmid (pw_store w)"
  assumes sound: "pm_sound pmid w" and able: "recordable pmid w a pid seq to d k"
    and none: "get_by_idempotency_key (pw_store w) (pm_key pmid k) = None"
    and log: "es_events s' = es_events (pw_store w) @ [e]" and pl: "payload e = pm_payload pmid a pid seq t f to d"
    and key: "idempotency_key e = Some (pm_key pmid k)" and fresh: "event_id e \<notin> pm_applied_event_ids (pw_pm w)"
    and m': "pm_apply_event e (pw_pm w) = (Inr x, m')" and r': "pm_apply_event e (pm_rec_of pmid (pw_store w)) = (Inr x, r')"
    and like: "pm_like r' m'" and rec: "pm.recovered pmid s' r'" and keys: "pm.own_keys pmid s'"
    and inv': "ledger_inv s'" and op: "\<not> es_closed s'"
  shows "pm_sound pmid (w\<lparr>pw_store := s', pw_pm := m'\<rparr>) \<and> progress w (w\<lparr>pw_store := s', pw_pm := m'\<rparr>)"
proof -
  note D = pm_soundD [OF sound, folded r_def] and A = able [unfolded recordable_def, folded r_def]
  have freshr: "event_id e \<notin> pm_applied_event_ids r" using fresh D(7) by (simp add: pm_like_def)
  let ?r1 = "r\<lparr>pm_applied_event_ids := insert (event_id e) (pm_applied_event_ids r), pm_next_seq := pm_seq_after seq (pm_next_seq r)\<rparr>"
  have act: "pm_apply_action a pid (timestamp_utc e) (payload e) ?r1 = (Inr x, r')"
    using pm_apply_payload [OF pl freshr] r' [folded r_def] by (simp add: pm_seq_after_def)
  have r'_eq: "r' = snd (pm_apply_action a pid (timestamp_utc e) (payload e) ?r1)" using act by simp
  have seq: "pm_next_seq r' = pm_seq_after seq (pm_next_seq r)" and ids: "pm_id r' = pm_id r"
    unfolding r'_eq pm_action_frame by simp_all
  have ge: "pm_next_seq r \<le> pm_seq_after seq (pm_next_seq r)" by (rule pm_seq_after_ge)
  have create: "a = ''CREATE'' \<Longrightarrow> map_of (pm_snapshots ?r1) pid = None" using A D(3) by simp
  have wf: "pm_wf pmid (pw_store w) r" by (rule D(8))
  obtain sn' where sn': "map_of (pm_snapshots r') = (map_of (pm_snapshots r))(pid \<mapsto> sn')"
    and moved: "\<And>sn. map_of (pm_snapshots r) pid = Some sn \<Longrightarrow>
       ps_lifecycle_state sn' = ps_lifecycle_state sn \<or> pm_edge (ps_lifecycle_state sn) (ps_lifecycle_state sn')"
    using pm_action_progress [OF pl act create] by auto
  have known: "a \<noteq> ''CREATE'' \<Longrightarrow> \<exists>sn. map_of (pm_snapshots r) pid = Some sn"
    using act by (auto simp: pm_apply_action_def split: option.splits)
  have "pm_wf pmid s' r'"
    unfolding pm_wf_def
  proof (intro conjI ballI allI impI)
    show "1 \<le> pm_next_seq r'" "pm_id r' = pmid" using wf ge seq ids by (simp_all add: pm_wf_def)
  next
    fix c sn assume c: "map_of (pm_snapshots r') c = Some sn"
    show "\<exists>i\<ge>0. i < pm_next_seq r' \<and> c = the_position_id pmid i"
    proof (cases "a = ''CREATE'' \<and> c = pid")
      case True
      with A obtain i where "0 \<le> i" "seq = Some i" "c = the_position_id pmid i" by auto
      with seq show ?thesis by (intro exI [of _ i]) (simp add: pm_seq_after_def)
    next
      case False
      then obtain sn0 where "map_of (pm_snapshots r) c = Some sn0" using c sn' known by (auto split: if_splits)
      with wf obtain i where "0 \<le> i" "i < pm_next_seq r" "c = the_position_id pmid i" unfolding pm_wf_def by blast
      with seq ge show ?thesis by (intro exI [of _ i]) simp
    qed
  next
    fix e' k' assume "e' \<in> set (es_events s')" "idempotency_key e' = Some (pm_key pmid k')"
    then have "pm_key_below pmid (pm_next_seq r) k' \<or> k' = k"
      using log key wf by (auto simp: pm_wf_def)
    with A seq ge pm_key_below_mono show "pm_key_below pmid (pm_next_seq r') k'" by auto
  next
    fix e' assume "e' \<in> set (es_events s')" "pm_is_own_event e' pmid"
    then have "e' \<in> set (es_events (pw_store w)) \<and> pm_key_matches pmid e' \<or> e' = e" using log wf by (auto simp: pm_wf_def)
    moreover have "pm_key_matches pmid e"
    proof -
      have parts: "pm_ev_action e = a" "pm_ev_pid e = pid" "req_str d ''fill_id'' = Inr fid \<Longrightarrow> ev_fill e = fid"
        "req_dec d ''fill_quantity'' = Inr z \<Longrightarrow> ev_dec ''fill_quantity'' e = z" for fid z
        using pl by (simp_all add: pm_ev_action_def pm_ev_pid_def ev_fill_def ev_dec_def)
      have create: "a = ''CREATE'' \<longrightarrow> k = pid"
        and entry: "a = ''ENTRY_FILL'' \<longrightarrow> (\<exists>fid. req_str d ''fill_id'' = Inr fid \<and> k = pid @ '':entry:'' @ fid) \<or> req_dec d ''fill_quantity'' = Inr 0"
        and exit: "a = ''EXIT'' \<longrightarrow> (\<exists>fid. req_str d ''fill_id'' = Inr fid \<and> k = pid @ '':exit:'' @ fid)"
        and open': "\<forall>i x. 0 \<le> i \<longrightarrow> k = the_position_id pmid i @ '':open:'' @ x \<longrightarrow> a = ''ENTRY_FILL'' \<and> pid = the_position_id pmid i"
        using A by (elim conjE; assumption | blast)+
      show ?thesis
        unfolding pm_key_matches_def parts(1,2) key option.inject pm_key_inj
        using create entry exit open' parts(3,4) by (intro conjI) blast+
    qed
    ultimately show "pm_key_matches pmid e'" by blast
  next
    have "books pmid (es_events (pw_store w)) ?r1" using wf by (intro books_same [of ?r1 r]) (simp_all add: pm_wf_def)
    from pm_action_books [OF this pl act _ create] A show "books pmid (es_events s') r'" by (simp add: log)
  qed
  moreover have "pm_rec_of pmid s' = r'" by (rule pm_rec_of_eq [OF rec])
  ultimately have "pm_sound pmid (w\<lparr>pw_store := s', pw_pm := m'\<rparr>)"
    using sound like rec keys inv' op by (simp add: pm_sound_def)
  moreover have "progress w (w\<lparr>pw_store := s', pw_pm := m'\<rparr>)"
  proof -
    have m'_sn: "pm_snapshots m' = pm_snapshots r'" using like by (simp add: pm_like_def)
    show ?thesis
      unfolding progress_def by (auto simp: m'_sn sn' D(3) dest!: moved)
  qed
  ultimately show ?thesis by simp
qed

lemma pm_record_cases:
  assumes rec: "pm_record E a pid seq t f to d k w = (q, w')" and sound: "pm_sound pmid w"
    and ok: "\<And>e. payload e = pm_payload pmid a pid seq t f to d \<Longrightarrow> event_id e \<notin> pm_applied_event_ids (pw_pm w) \<Longrightarrow>
        \<exists>x m'. pm_apply_event e (pw_pm w) = (Inr x, m')"
    and able: "recordable pmid w a pid seq to d k"
  obtains (failed) x where "q = Inl x" "w' = w\<lparr>pw_store := pw_store w'\<rparr>" "es_events (pw_store w') = es_events (pw_store w)"
      "pm_sound pmid w'"
  | (known) sn e where "q = Inr sn" "w' = w\<lparr>pw_store := pw_store w'\<rparr>" "es_events (pw_store w') = es_events (pw_store w)"
      "get_by_idempotency_key (pw_store w) (pm_key pmid k) = Some e" "pm_sound pmid w'"
  | (new) sn e m' where "q = Inr sn" "w' = w\<lparr>pw_store := pw_store w', pw_pm := m'\<rparr>"
      "es_events (pw_store w') = es_events (pw_store w) @ [e]" "payload e = pm_payload pmid a pid seq t f to d"
      "idempotency_key e = Some (pm_key pmid k)" "get_by_idempotency_key (pw_store w) (pm_key pmid k) = None"
      "event_id e \<notin> pm_applied_event_ids (pw_pm w)" "pm_apply_event e (pw_pm w) = (Inr sn, m')"
      "pm_sound pmid w'" "progress w w'"
proof -
  let ?s = "pw_store w" and ?pl = "pm_payload pmid a pid seq t f to d"
  note D = pm_soundD [OF sound]
  obtain p s' where put: "append_event E (pm_event_type_for_action a to) ?pl (Some (pm_key pmid k)) 1 ?s = (p, s')"
    by (meson surj_pair)
  show ?thesis
  proof (cases p)
    case (Inl x)
    have w': "q = Inl x" "w' = w\<lparr>pw_store := s'\<rparr>"
      using rec put Inl D(2) by (simp_all add: pm_record_def pm_persist_def bindP_def)
    with pm_sound_failed [OF sound put [unfolded Inl]] es.put_fail [OF D(1) put [unfolded Inl]] show ?thesis
      by (intro failed) simp_all
  next
    case (Inr e)
    have w': "(q, w') = with_pm (pm_apply_event e) (w\<lparr>pw_store := s'\<rparr>)"
      using rec put Inr D(2) by (simp add: pm_record_def pm_persist_def bindP_def)
    have put': "append_event E (pm_event_type_for_action a to) ?pl (Some (pm_key pmid k)) 1 ?s = (Inr e, s')"
      using put Inr by simp
    have inv': "ledger_inv s'" and op: "\<not> es_closed s'"
      using es.put_inv [OF D(1) put'] append_keeps_open [OF put' D(1)] sound by (simp_all add: pm_sound_def)
    have own: "payload e = ?pl \<Longrightarrow> pm_is_own_event e pmid" for e by (simp add: pm_is_own_event_def)
    note step = pm.record_step [OF D(1,6,7,5) put' own ok]
    show ?thesis
    proof (rule step)
      fix x assume known: "get_by_idempotency_key ?s (pm_key pmid k) = Some e" "es_events s' = es_events ?s"
        "pm_apply_event e (pw_pm w) = (Inr x, pw_pm w)" "pm.recovered pmid s' (pm_rec_of pmid ?s)" "pm.own_keys pmid s'"
      from pm_rec_of_eq [OF known(4)] have "pm_rec_of pmid s' = pm_rec_of pmid ?s" .
      then have "pm_sound pmid (w\<lparr>pw_store := s'\<rparr>)"
        using sound known inv' op by (simp add: pm_sound_def pm_wf_def)
      with known w' show ?thesis by (intro that(2) [of x e]) (simp_all add: with_pm_def)
    next
      fix x m' r' assume new: "get_by_idempotency_key ?s (pm_key pmid k) = None" "es_events s' = es_events ?s @ [e]"
        "payload e = ?pl" "idempotency_key e = Some (pm_key pmid k)" "event_id e \<notin> pm_applied_event_ids (pw_pm w)"
        "pm_apply_event e (pw_pm w) = (Inr x, m')" "pm_apply_event e (pm_rec_of pmid ?s) = (Inr x, r')" "pm_like r' m'"
        "pm.recovered pmid s' r'" "pm.own_keys pmid s'"
      have "pm_sound pmid (w\<lparr>pw_store := s', pw_pm := m'\<rparr>) \<and> progress w (w\<lparr>pw_store := s', pw_pm := m'\<rparr>)"
        by (rule pm_sound_new [OF sound able new inv' op])
      with new w' show ?thesis by (intro that(3) [of x m' e]) (simp_all add: with_pm_def)
    qed
  qed
qed

section \<open>The public methods\<close>

text \<open>What every program of the manager does to its world: the log grows, the invariant stays, states progress.\<close>

definition pm_goes :: "string \<Rightarrow> pm_world \<Rightarrow> pm_world \<Rightarrow> bool" where
  "pm_goes pmid w w' \<longleftrightarrow> (pm_sound pmid w \<longrightarrow> pm_sound pmid w' \<and> progress w w' \<and>
     (\<exists>new. es_events (pw_store w') = es_events (pw_store w) @ new))"

lemma pm_goesI:
  "(pm_sound pmid w \<Longrightarrow> pm_sound pmid w' \<and> progress w w' \<and> (\<exists>new. es_events (pw_store w') = es_events (pw_store w) @ new)) \<Longrightarrow>
   pm_goes pmid w w'"
  by (simp add: pm_goes_def)

lemma pm_goes_refl [simp]: "pm_goes pmid w w"
  by (simp add: pm_goes_def progress_refl)

lemma pm_goes_trans: "pm_goes pmid a b \<Longrightarrow> pm_goes pmid b c \<Longrightarrow> pm_goes pmid a c"
  unfolding pm_goes_def by (auto intro: progress_trans)

lemma pm_goes_memory: "pm_like (pw_pm w) m \<Longrightarrow> pm_goes pmid w (w\<lparr>pw_pm := m\<rparr>)"
  by (intro pm_goesI conjI pm_sound_memory progress_refl) (simp_all add: pm_like_def)

definition pm_keeps :: "string \<Rightarrow> 'a pm_prog \<Rightarrow> bool" where
  "pm_keeps pmid f \<longleftrightarrow> (\<forall>w. pm_goes pmid w (snd (f w)))"

lemma pm_keepsD: "pm_keeps pmid f \<Longrightarrow> pm_goes pmid w (snd (f w))"
  by (simp add: pm_keeps_def)

lemma pm_goes_bind:
  assumes "pm_goes pmid w (snd (f w))" "\<And>x w1. f w = (Inr x, w1) \<Longrightarrow> pm_goes pmid w1 (snd (g x w1))"
  shows "pm_goes pmid w (snd (bindP f g w))"
proof -
  obtain q w1 where f: "f w = (q, w1)" by (meson surj_pair)
  with assms pm_goes_trans show ?thesis by (cases q) (auto simp: bindP_def)
qed

lemma pm_record_goes:
  assumes "\<And>e. payload e = pm_payload pmid a pid seq t f to d \<Longrightarrow> event_id e \<notin> pm_applied_event_ids (pw_pm w) \<Longrightarrow>
        \<exists>x m'. pm_apply_event e (pw_pm w) = (Inr x, m')"
    and "pm_sound pmid w \<Longrightarrow> recordable pmid w a pid seq to d k"
  shows "pm_goes pmid w (snd (pm_record E a pid seq t f to d k w))"
proof (rule pm_goesI)
  assume s: "pm_sound pmid w"
  obtain q w' where r: "pm_record E a pid seq t f to d k w = (q, w')" by (meson surj_pair)
  show "pm_sound pmid (snd (pm_record E a pid seq t f to d k w)) \<and> progress w (snd (pm_record E a pid seq t f to d k w)) \<and>
    (\<exists>new. es_events (pw_store (snd (pm_record E a pid seq t f to d k w))) = es_events (pw_store w) @ new)"
  proof (rule pm_record_cases [OF r s], goal_cases)
    case (1 e)
    then show ?case by (rule assms(1))
  next
    case 2
    show ?case by (rule assms(2) [OF s])
  next
    case (3 x)
    have "progress w w'" using arg_cong [OF 3(2), of pw_pm] by (intro progress_refl) simp
    with 3 r show ?case by simp
  next
    case (4 sn e)
    have "progress w w'" using arg_cong [OF 4(2), of pw_pm] by (intro progress_refl) simp
    with 4 r show ?case by simp
  next
    case (5 sn e m')
    with r show ?case by simp
  qed
qed

text \<open>Events of the manager are applied without an error when they record what the memory allows.\<close>

lemma pm_transition_ok:
  "pm_next_state f t = Inr to \<Longrightarrow> pm_recorded_transition (pm_payload pmid a pid seq (Some t) (Some f) (Some to) d) f = Inr to"
  using pm_legal_next [of f t] by (simp add: pm_recorded_transition_def)

lemma dadd_pos: "0 < x \<Longrightarrow> 0 \<le> y \<Longrightarrow> dadd x y \<noteq> 0"
proof -
  assume "0 < x" "0 \<le> y"
  then have "x + y \<noteq> 0" by simp
  from dround_form [OF this] obtain n where n: "dround (x + y) = of_int n * pow10 (adjusted (x + y) - 27)" "10 ^ 27 \<le> \<bar>n\<bar>" by blast
  then have "n \<noteq> 0" by auto
  with n pow10_pos [of "adjusted (x + y) - 27"] show ?thesis by (simp add: dadd_def)
qed

definition entry_details :: "decimal \<Rightarrow> string \<Rightarrow> decimal \<Rightarrow> decimal \<Rightarrow> dict" where
  "entry_details fee fid px q = [(''fee'', VDec fee), (''fill_id'', VStr fid), (''fill_price'', VDec px), (''fill_quantity'', VDec q)]"

definition exit_details :: "decimal \<Rightarrow> string \<Rightarrow> decimal \<Rightarrow> decimal \<Rightarrow> decimal \<Rightarrow> decimal \<Rightarrow> decimal \<Rightarrow> string \<Rightarrow> dict" where
  "exit_details fee fid px q pct r realized why =
     [(''fee'', VDec fee), (''fill_id'', VStr fid), (''fill_price'', VDec px), (''fill_quantity'', VDec q),
      (''pct'', VDec pct), (''r'', VDec r), (''realized_pnl'', VDec realized), (''reason'', VStr why)]"

definition create_details :: "symbol \<Rightarrow> order_side \<Rightarrow> decimal \<Rightarrow> decimal \<Rightarrow> decimal \<Rightarrow> decimal \<Rightarrow> decimal \<Rightarrow> decimal option \<Rightarrow> dict" where
  "create_details symb sd intended stop_price stop_d t1 t2 conviction =
     [(''conviction'', vopt VDec conviction), (''intended_quantity'', VDec intended),
      (''side'', VStr (side_value sd)), (''stop_d'', VDec stop_d), (''stop_price'', VDec stop_price),
      (''symbol'', VStr symb), (''t1_price'', VDec t1), (''t2_price'', VDec t2)]"

lemma opt_dec_vopt_dec: "opt_dec (vopt VDec x) = Inr x"
  by (cases x) (simp_all add: opt_dec_def)

lemma apply_create_ok:
  assumes "payload e = pm_payload pmid ''CREATE'' pid seq t f to (create_details symb sd n sp stop_d t1 t2 cv)"
    "event_id e \<notin> pm_applied_event_ids m" "\<not> py_strip_empty symb"
  shows "\<exists>sn m'. pm_apply_event e m = (Inr (Some sn), m') \<and> ps_lifecycle_state sn = P_NEW \<and> ps_intended_quantity sn = n \<and>
    pm_snapshots m' = AList.update pid sn (pm_snapshots m)"
  using assms
  by (simp add: pm_apply_payload [OF assms(1,2)] pm_apply_action_def created_snapshot_def create_details_def
      Symbol_init_def put_position_eq opt_dec_vopt_dec)

lemma apply_entry_ok:
  assumes pl: "payload e = pm_payload pmid ''ENTRY_FILL'' pid seq (Some t) (Some f) (Some to) (entry_details fee fid px q)"
    and "event_id e \<notin> pm_applied_event_ids m" "map_of (pm_snapshots m) pid = Some sn"
    and "ps_lifecycle_state sn = f" "pm_next_state f t = Inr to" "0 \<le> ps_filled_quantity sn" "0 \<le> q"
  shows "\<exists>sn' m'. pm_apply_event e m = (Inr (Some sn'), m') \<and>
     entry_snapshot sn to (timestamp_utc e) (entry_details fee fid px q) = Inr sn' \<and>
     pm_snapshots m' = AList.update pid sn' (pm_snapshots m)"
proof -
  have "\<exists>avg. weighted_average_price (ps_avg_entry_price sn) (ps_filled_quantity sn) px q = Inr avg"
    using assms(6,7) dadd_pos [of "ps_filled_quantity sn" q]
    by (auto simp: weighted_average_price_def Let_def split: option.split)
  then obtain sn' where sn': "entry_snapshot sn to (timestamp_utc e) (entry_details fee fid px q) = Inr sn'"
    by (auto simp: entry_snapshot_def entry_details_def dec_default_def Let_def)
  have fid: "req_str (entry_details fee fid px q) ''fill_id'' = Inr fid" by (simp add: entry_details_def)
  show ?thesis
    using assms(3,4) pm_transition_ok [OF assms(5)] sn' fid
    by (simp add: pm_apply_payload [OF pl assms(2)] pm_apply_action_def pl put_position_eq Let_def)
qed

lemma apply_exit_ok:
  assumes pl: "payload e = pm_payload pmid ''EXIT'' pid seq (Some t) (Some f) (Some to) (exit_details fee fid px q pct r realized why)"
    and "event_id e \<notin> pm_applied_event_ids m" "map_of (pm_snapshots m) pid = Some sn"
    and "ps_lifecycle_state sn = f" "pm_next_state f t = Inr to"
  shows "\<exists>leg m'. exit_leg pid sn (timestamp_utc e) (exit_details fee fid px q pct r realized why) = Inr leg \<and>
     pm_apply_event e m = (Inr (Some (exit_snapshot sn to (timestamp_utc e) leg)), m') \<and>
     pm_snapshots m' = AList.update pid (exit_snapshot sn to (timestamp_utc e) leg) (pm_snapshots m) \<and>
     legs_of m' pid = legs_of m pid @ [leg]"
proof -
  have fid: "req_str (exit_details fee fid px q pct r realized why) ''fill_id'' = Inr fid" by (simp add: exit_details_def)
  obtain leg where leg: "exit_leg pid sn (timestamp_utc e) (exit_details fee fid px q pct r realized why) = Inr leg"
    by (simp add: exit_leg_def exit_details_def dec_default_def)
  show ?thesis
    using assms(3,4) pm_transition_ok [OF assms(5)] leg fid
    by (simp add: pm_apply_payload [OF pl assms(2)] pm_apply_action_def pl put_position_eq Let_def)
qed

lemma apply_pure_ok:
  assumes pl: "payload e = pm_payload pmid a pid seq (Some t) (Some f) (Some to) d"
    and "event_id e \<notin> pm_applied_event_ids m" "map_of (pm_snapshots m) pid = Some sn"
    and "ps_lifecycle_state sn = f" "pm_next_state f t = Inr to" "a \<in> {''BREAKEVEN'', ''COMPLETE_CLOSE'', ''ARCHIVE''}"
  shows "\<exists>x m'. pm_apply_event e m = (Inr x, m')"
proof -
  have "lifecycle_action a" "a \<noteq> ''CREATE''" "a \<noteq> ''ENTRY_FILL''" "a \<noteq> ''EXIT''"
    using assms(6) by (auto simp: lifecycle_action_def)
  then show ?thesis
    using assms(3,4) pm_transition_ok [OF assms(5)]
    by (simp add: pm_apply_payload [OF pl assms(2)] pm_apply_action_def pl put_position_eq Let_def)
qed

lemma apply_funding_ok:
  assumes pl: "payload e = pm_payload pmid ''FUNDING'' pid seq t f to [(''amount'', VDec amount), (''funding_id'', x), (''timestamp_utc'', y)]"
    and "event_id e \<notin> pm_applied_event_ids m" "map_of (pm_snapshots m) pid = Some sn"
  shows "\<exists>x m'. pm_apply_event e m = (Inr x, m')"
  using assms(3) by (simp add: pm_apply_payload [OF pl assms(2)] pm_apply_action_def pl put_position_eq)

end
