(* ===== verification/Position_Properties.thy ===== *)
theory Position_Properties
  imports Position_Recovery
begin

text \<open>
  The public methods of the position manager keep its invariant; hence recovery, the lifecycle of
  positions over whole runs with crashes and restarts, and figures that are the sums of what was
  recorded.
\<close>

section \<open>The public methods\<close>

lemma recordable_known:
  assumes "pm_sound pmid w" "map_of (pm_snapshots (pw_pm w)) pid = Some sn" "good_payload a to d" "a \<noteq> ''CREATE''"
    and "\<And>x. rest = '':open:'' @ x \<Longrightarrow> a = ''ENTRY_FILL''"
    and "a = ''ENTRY_FILL'' \<Longrightarrow> (\<exists>fid. req_str d ''fill_id'' = Inr fid \<and> rest = '':entry:'' @ fid) \<or> req_dec d ''fill_quantity'' = Inr 0"
    and "a = ''EXIT'' \<Longrightarrow> \<exists>fid. req_str d ''fill_id'' = Inr fid \<and> rest = '':exit:'' @ fid"
  shows "recordable pmid w a pid None to d (pid @ rest)"
proof -
  obtain i where i: "0 \<le> i" "i < pm_next_seq (pm_rec_of pmid (pw_store w))" "pid = the_position_id pmid i"
    by (rule pm_known_id [OF assms(1,2)])
  have "a = ''ENTRY_FILL'' \<and> pid = the_position_id pmid j" if "0 \<le> j" "pid @ rest = the_position_id pmid j @ '':open:'' @ x" for j x
    using position_id_eq [of pmid i rest j "'':open:'' @ x"] that i assms(5) by auto
  with i pm_key_below_position [OF i(1,2)] assms(3,4,6,7) show ?thesis
    by (auto simp: recordable_def pm_seq_after_def)
qed

definition pm_take :: "pm_world \<Rightarrow> pm_world" where
  "pm_take w = w\<lparr>pw_pm := (pw_pm w)\<lparr>pm_next_seq := pm_next_seq (pw_pm w) + 1\<rparr>\<rparr>"

lemma pm_next_id_eq:
  "bindP (with_pm (pm_next_id suf)) g w = g (pm_next_seq (pw_pm w), pm_make_id (pm_id (pw_pm w)) (pm_next_seq (pw_pm w)) suf) (pm_take w)"
  by (simp add: bindP_def with_pm_def pm_next_id_def pm_take_def Let_def)

lemma pm_take_sel [simp]:
  "pw_store (pm_take w) = pw_store w" "pm_snapshots (pw_pm (pm_take w)) = pm_snapshots (pw_pm w)"
  "pm_id (pw_pm (pm_take w)) = pm_id (pw_pm w)" "pm_applied_event_ids (pw_pm (pm_take w)) = pm_applied_event_ids (pw_pm w)"
  by (simp_all add: pm_take_def)

lemma pm_take_goes: "pm_goes pmid w (pm_take w)"
  unfolding pm_take_def by (rule pm_goes_memory) (simp add: pm_like_def)

text \<open>A fresh number: no key on the log mentions it and no position has its id.\<close>

lemma recordable_create:
  assumes "pm_sound pmid w"
  shows "recordable pmid (pm_take w) ''CREATE'' (the_position_id pmid (pm_next_seq (pw_pm w)))
    (Some (pm_next_seq (pw_pm w))) None d (the_position_id pmid (pm_next_seq (pw_pm w)))"
    and "map_of (pm_snapshots (pw_pm w)) (the_position_id pmid (pm_next_seq (pw_pm w))) = None"
    and "get_by_idempotency_key (pw_store w) (pm_key pmid (the_position_id pmid (pm_next_seq (pw_pm w)))) = None"
proof -
  let ?i = "pm_next_seq (pw_pm w)" and ?r = "pm_rec_of pmid (pw_store w)"
  have i: "pm_next_seq ?r \<le> ?i" "0 \<le> ?i" using pm_soundD(4,8) [OF assms] by (auto simp: pm_wf_def)
  show none: "map_of (pm_snapshots (pw_pm w)) (the_position_id pmid ?i) = None"
  proof (rule ccontr)
    assume "map_of (pm_snapshots (pw_pm w)) (the_position_id pmid ?i) \<noteq> None"
    then obtain sn where "map_of (pm_snapshots (pw_pm w)) (the_position_id pmid ?i) = Some sn" by blast
    then obtain j where "0 \<le> j" "j < pm_next_seq ?r" "the_position_id pmid ?i = the_position_id pmid j"
      by (rule pm_known_id [OF assms])
    with i position_id_eq [of pmid ?i "[]" j "[]"] show False by simp
  qed
  have below: "pm_key_below pmid (pm_seq_after (Some ?i) n) (the_position_id pmid ?i)" for n
    using pm_key_below_position [of ?i "pm_seq_after (Some ?i) n" pmid "[]"] i by (simp add: pm_seq_after_def)
  have "\<not> the_position_id pmid ?i = the_position_id pmid j @ '':open:'' @ x" if "0 \<le> j" for j x
    using position_id_eq [of pmid ?i "[]" j "'':open:'' @ x"] that i by auto
  with none i below show "recordable pmid (pm_take w) ''CREATE'' (the_position_id pmid ?i) (Some ?i) None d (the_position_id pmid ?i)"
    by (auto simp: recordable_def good_payload_def)
  show "get_by_idempotency_key (pw_store w) (pm_key pmid (the_position_id pmid ?i)) = None"
  proof (cases "get_by_idempotency_key (pw_store w) (pm_key pmid (the_position_id pmid ?i))")
    case (Some e)
    then have "e \<in> set (es_events (pw_store w))" "idempotency_key e = Some (pm_key pmid (the_position_id pmid ?i))"
      using get_by_key_iff [OF pm_soundD(1) [OF assms]] by auto
    then have "pm_key_below pmid (pm_next_seq ?r) (the_position_id pmid ?i)" using pm_soundD(8) [OF assms] by (auto simp: pm_wf_def)
    then have "?i < pm_next_seq ?r"
      unfolding pm_key_below_def the_position_id_def pm_make_id_prefix using i(2) by blast
    with i(1) show ?thesis by simp
  qed simp
qed

lemma create_eq:
  "create_position E symb sd n sp stop_d t1 t2 cv w =
     (if n \<le> 0 \<or> stop_d \<le> 0 then (Inl ValueError, w)
      else let i = pm_next_seq (pw_pm w); pid = the_position_id (pm_id (pw_pm w)) i
           in pm_record E ''CREATE'' pid (Some i) None None None (create_details symb sd n sp stop_d t1 t2 cv) pid (pm_take w))"
  by (simp add: create_position_def pm_next_id_eq create_details_def the_position_id_def Let_def)

lemma create_goes:
  assumes "\<not> py_strip_empty symb"
  shows "pm_keeps pmid (create_position E symb sd n sp stop_d t1 t2 cv)"
  unfolding pm_keeps_def
proof
  fix w :: pm_world
  let ?i = "pm_next_seq (pw_pm w)"
  let ?pid = "the_position_id pmid ?i" and ?d = "create_details symb sd n sp stop_d t1 t2 cv"
  show "pm_goes pmid w (snd (create_position E symb sd n sp stop_d t1 t2 cv w))"
  proof (cases "pm_sound pmid w")
    case True
    have "pm_goes pmid (pm_take w) (snd (pm_record E ''CREATE'' ?pid (Some ?i) None None None ?d ?pid (pm_take w)))"
    proof (rule pm_record_goes)
      fix e :: event
      assume "payload e = pm_payload pmid ''CREATE'' ?pid (Some ?i) None None None ?d"
        "event_id e \<notin> pm_applied_event_ids (pw_pm (pm_take w))"
      from apply_create_ok [OF this assms] show "\<exists>x m'. pm_apply_event e (pw_pm (pm_take w)) = (Inr x, m')" by blast
    qed (rule recordable_create(1) [OF True])
    from pm_goes_trans [OF pm_take_goes this] show ?thesis by (simp add: create_eq pm_soundD(2) [OF True] Let_def)
  qed (simp add: pm_goes_def)
qed

lemma mark_goes: "pm_goes pmid w (w\<lparr>pw_pm := mark_processed pid fid (pw_pm w)\<rparr>)"
  by (rule pm_goes_memory) (auto simp: pm_like_def)

text \<open>An exit that is booked, and one that is not.\<close>

lemma exit_booked:
  assumes "map_of (pm_snapshots (pw_pm w)) pid = Some sn" "trig \<in> {PT_T1, PT_T2, PT_STOP, PT_CLOSE}"
    and "fl_fill_id f \<notin> processed_of (pw_pm w) pid" "\<not> pm_terminal (ps_lifecycle_state sn)"
    and "try_transition trig (ps_lifecycle_state sn) = Inr (Some to)" "ps_avg_entry_price sn = Some entry"
    and "exit_figures sn entry f = Inr (r, pct, realized)" "exit_reason trig (ps_lifecycle_state sn) reason = Inr why"
  shows "record_exit E pid f trig reason w =
    pm_record E ''EXIT'' pid None (Some trig) (Some (ps_lifecycle_state sn)) (Some to)
      (exit_details (fl_fee f) (fl_fill_id f) (fl_price f) (fl_quantity f) pct r realized why) (pid @ '':exit:'' @ fl_fill_id f) w"
  using assms(2)
  by (simp add: record_exit_def assms(1,3-) Let_def exit_details_def del: append.simps insert_iff)

lemma exit_unbooked:
  assumes "map_of (pm_snapshots (pw_pm w)) pid = Some sn"
    and "\<not> (trig \<in> {PT_T1, PT_T2, PT_STOP, PT_CLOSE} \<and> fl_fill_id f \<notin> processed_of (pw_pm w) pid \<and>
      \<not> pm_terminal (ps_lifecycle_state sn) \<and> (\<exists>to entry fs why. try_transition trig (ps_lifecycle_state sn) = Inr (Some to) \<and>
      ps_avg_entry_price sn = Some entry \<and> exit_figures sn entry f = Inr fs \<and>
      exit_reason trig (ps_lifecycle_state sn) reason = Inr why))"
  shows "snd (record_exit E pid f trig reason w) \<in> {w, w\<lparr>pw_pm := mark_processed pid (fl_fill_id f) (pw_pm w)\<rparr>}"
proof (cases "trig \<in> {PT_T1, PT_T2, PT_STOP, PT_CLOSE}")
  case trig: True
  show ?thesis
  proof (cases "fl_fill_id f \<in> processed_of (pw_pm w) pid \<or> pm_terminal (ps_lifecycle_state sn)")
    case True
    with trig show ?thesis by (auto simp: record_exit_def assms(1) Let_def)
  next
    case False
    note red = record_exit_def assms(1) Let_def
    show ?thesis
    proof (cases "try_transition trig (ps_lifecycle_state sn)")
      case (Inl x)
      with trig False show ?thesis by (simp add: red del: insert_iff) simp
    next
      case (Inr s)
      show ?thesis
      proof (cases s)
        case None
        with Inr trig False show ?thesis by (simp add: red del: insert_iff) simp
      next
        case (Some to)
        show ?thesis
        proof (cases "ps_avg_entry_price sn")
          case None
          with Inr Some trig False show ?thesis by (simp add: red del: insert_iff) simp
        next
          case entry: (Some entry)
          with Inr Some trig False assms(2) obtain x where
            "bindE (exit_figures sn entry f) (\<lambda>fs. bindE (exit_reason trig (ps_lifecycle_state sn) reason) (\<lambda>why. Inr (fs, why))) = Inl x"
            by (cases "exit_figures sn entry f"; cases "exit_reason trig (ps_lifecycle_state sn) reason") (auto simp: bindE_def)
          with Inr Some trig False entry show ?thesis by (simp add: red del: insert_iff) simp
        qed
      qed
    qed
  qed
next
  case False
  then show ?thesis by (simp add: record_exit_def)
qed

lemma exit_goes: "pm_keeps pmid (record_exit E pid f trig reason)"
proof (unfold pm_keeps_def, rule allI)
  fix w :: pm_world
  show "pm_goes pmid w (snd (record_exit E pid f trig reason w))"
  proof (cases "map_of (pm_snapshots (pw_pm w)) pid")
    case None
    then show ?thesis by (simp add: record_exit_def)
  next
    case (Some sn)
    let ?rec = "\<lambda>to r pct realized why. pm_record E ''EXIT'' pid None (Some trig) (Some (ps_lifecycle_state sn)) (Some to)
       (exit_details (fl_fee f) (fl_fill_id f) (fl_price f) (fl_quantity f) pct r realized why) (pid @ '':exit:'' @ fl_fill_id f)"
    have rec: "pm_goes pmid w (snd (?rec to r pct realized why w))"
      if trig: "trig \<in> {PT_T1, PT_T2, PT_STOP, PT_CLOSE}" and to: "try_transition trig (ps_lifecycle_state sn) = Inr (Some to)"
      for to r pct realized why
    proof (rule pm_record_goes)
      have edge: "pm_next_state (ps_lifecycle_state sn) trig = Inr to"
        using to by (auto simp: try_transition_def bindE_def split: sum.splits if_splits)
      fix e :: event assume e: "payload e = pm_payload pmid ''EXIT'' pid None (Some trig) (Some (ps_lifecycle_state sn)) (Some to)
        (exit_details (fl_fee f) (fl_fill_id f) (fl_price f) (fl_quantity f) pct r realized why)"
        "event_id e \<notin> pm_applied_event_ids (pw_pm w)"
      from apply_exit_ok [OF e Some refl edge] show "\<exists>x m'. pm_apply_event e (pw_pm w) = (Inr x, m')" by blast
    next
      assume s: "pm_sound pmid w"
      have "4 \<le> pm_state_rank to" using to trig
        by (auto simp: try_transition_def bindE_def pm_next_edge PM_EDGES_def split: sum.splits if_splits)
      then show "recordable pmid w ''EXIT'' pid None (Some to)
         (exit_details (fl_fee f) (fl_fill_id f) (fl_price f) (fl_quantity f) pct r realized why) (pid @ '':exit:'' @ fl_fill_id f)"
        by (intro recordable_known [OF s Some]) (simp_all add: good_payload_def exit_details_def)
    qed
    show ?thesis
    proof (cases "trig \<in> {PT_T1, PT_T2, PT_STOP, PT_CLOSE} \<and> fl_fill_id f \<notin> processed_of (pw_pm w) pid \<and>
      \<not> pm_terminal (ps_lifecycle_state sn) \<and> (\<exists>to entry fs why. try_transition trig (ps_lifecycle_state sn) = Inr (Some to) \<and>
      ps_avg_entry_price sn = Some entry \<and> exit_figures sn entry f = Inr fs \<and>
      exit_reason trig (ps_lifecycle_state sn) reason = Inr why)")
      case True
      then obtain to entry r pct realized why where "try_transition trig (ps_lifecycle_state sn) = Inr (Some to)"
        "ps_avg_entry_price sn = Some entry" "exit_figures sn entry f = Inr (r, pct, realized)"
        "exit_reason trig (ps_lifecycle_state sn) reason = Inr why" by (metis surj_pair)
      with exit_booked [OF Some _ _ _ this] rec True show ?thesis by simp
    next
      case False
      from exit_unbooked [OF Some False, where E = E] show ?thesis
        using mark_goes [of pmid w pid "fl_fill_id f"] by auto
    qed
  qed
qed

lemma filled_nonneg: "pm_sound pmid w \<Longrightarrow> map_of (pm_snapshots (pw_pm w)) pid = Some sn \<Longrightarrow> 0 \<le> ps_filled_quantity sn"
proof -
  assume "pm_sound pmid w" "map_of (pm_snapshots (pw_pm w)) pid = Some sn"
  from booksD(2) [OF pm_sound_books [OF this(1)] this(2)] show ?thesis unfolding book_ok_def by blast
qed

lemma entry_recordable:
  assumes "pm_sound pmid w" "map_of (pm_snapshots (pw_pm w)) pid = Some sn" "pm_state_rank to \<le> 3" "0 \<le> q"
    and "rest = '':entry:'' @ fid \<or> q = 0"
  shows "recordable pmid w ''ENTRY_FILL'' pid None (Some to) (entry_details fee fid px q) (pid @ rest)"
  by (rule recordable_known [OF assms(1,2)]) (use assms(3-) in \<open>auto simp: good_payload_def entry_details_def\<close>)

lemma entry_record_goes:
  assumes "map_of (pm_snapshots (pw_pm w)) pid = Some sn" "pm_next_state (ps_lifecycle_state sn) t = Inr to"
    and "pm_state_rank to \<le> 3" "0 \<le> q" "rest = '':entry:'' @ fid \<or> q = 0"
  shows "pm_goes pmid w (snd (pm_record E ''ENTRY_FILL'' pid None (Some t) (Some (ps_lifecycle_state sn)) (Some to)
    (entry_details fee fid px q) (pid @ rest) w))"
proof (cases "pm_sound pmid w")
  case True
  show ?thesis
  proof (rule pm_record_goes)
    fix e :: event
    assume "payload e = pm_payload pmid ''ENTRY_FILL'' pid None (Some t) (Some (ps_lifecycle_state sn)) (Some to) (entry_details fee fid px q)"
      "event_id e \<notin> pm_applied_event_ids (pw_pm w)"
    from apply_entry_ok [OF this assms(1) refl assms(2) filled_nonneg [OF True assms(1)] assms(4)]
    show "\<exists>x m'. pm_apply_event e (pw_pm w) = (Inr x, m')" by blast
  qed (rule entry_recordable [OF True assms(1,3,4,5)])
qed (simp add: pm_goes_def)

text \<open>The first half of the first fill leaves the position \<open>OPEN\<close>: its key cannot be on the log of a \<open>NEW\<close> position.\<close>

lemma open_step:
  assumes "pm_sound pmid w" "map_of (pm_snapshots (pw_pm w)) pid = Some sn" "ps_lifecycle_state sn = P_NEW"
    and "open_on_first_fill E pid f P_NEW w = (Inr current, w1)"
  shows "current = P_OPEN \<and> (\<exists>sn1. map_of (pm_snapshots (pw_pm w1)) pid = Some sn1 \<and> ps_lifecycle_state sn1 = P_OPEN)"
proof -
  let ?d = "entry_details 0 (fl_fill_id f @ '':open'') (fl_price f) 0"
  have edge: "pm_next_state P_NEW PT_FIRST_FILL = Inr P_OPEN" by code_simp
  obtain q w' where rec: "pm_record E ''ENTRY_FILL'' pid None (Some PT_FIRST_FILL) (Some P_NEW) (Some P_OPEN) ?d
      (pid @ '':open:'' @ fl_fill_id f) w = (q, w')" by (meson surj_pair)
  have run: "current = P_OPEN \<and> w1 = w' \<and> (\<exists>x. q = Inr x)"
    using assms(4) rec by (cases q) (auto simp: open_on_first_fill_def edge bindP_def entry_details_def)
  note nonneg = filled_nonneg [OF assms(1,2)]
  show ?thesis
  proof (rule pm_record_cases [OF rec assms(1)], goal_cases)
    case (1 e)
    from apply_entry_ok [OF 1 assms(2,3) edge nonneg] show ?case by auto
  next
    case 2
    show ?case by (rule entry_recordable [OF assms(1,2)]) simp_all
  next
    case (3 x)
    with run show ?case by simp
  next
    case (4 x e)
    obtain i where i: "0 \<le> i" "pid = the_position_id pmid i" by (rule pm_known_id [OF assms(1,2)])
    have e: "e \<in> set (es_events (pw_store w))" "idempotency_key e = Some (pm_key pmid (pid @ '':open:'' @ fl_fill_id f))"
      using 4(4) get_by_key_iff [OF pm_soundD(1) [OF assms(1)]] by auto
    then have own: "pm_is_own_event e pmid" using pm_soundD(5) [OF assms(1)] unfolding pm.own_keys_def by blast
    then have "pm_key_matches pmid e" using e(1) pm_soundD(8) [OF assms(1)] by (simp add: pm_wf_def)
    then have "pm_ev_action e = ''ENTRY_FILL'' \<and> pm_ev_pid e = pid"
      using e(2) i unfolding pm_key_matches_def by blast
    with e(1) own have "entries pmid pid (es_events (pw_store w)) \<noteq> []"
      by (auto simp: pm_events_def filter_empty_conv)
    moreover have "entries pmid pid (es_events (pw_store w)) = []"
      using booksD(2) [OF pm_sound_books [OF assms(1)] assms(2)] assms(3) by (simp add: book_ok_def)
    ultimately show ?case by simp
  next
    case (5 x e m')
    from apply_entry_ok [OF 5(4,7) assms(2,3) edge nonneg] obtain sn' m'' where
      "pm_apply_event e (pw_pm w) = (Inr (Some sn'), m'')" "entry_snapshot sn P_OPEN (timestamp_utc e) ?d = Inr sn'"
      "pm_snapshots m'' = AList.update pid sn' (pm_snapshots (pw_pm w))" by auto
    with 5(8) arg_cong [OF 5(2), of pw_pm] run entry_state show ?case by (auto simp: update_conv')
  qed
qed

lemma classify_edge:
  assumes "try_transition trig s = Inr (Some to)" "trig \<in> {PT_ENTRY_COMPLETE, PT_ENTRY_PARTIAL}"
  shows "pm_next_state s trig = Inr to" "pm_state_rank to \<le> 3"
proof -
  show e: "pm_next_state s trig = Inr to"
    using assms(1) by (auto simp: try_transition_def bindE_def split: sum.splits if_splits)
  show "pm_state_rank to \<le> 3" using e assms(2) by (auto simp: pm_next_edge PM_EDGES_def)
qed

lemma entry_goes:
  assumes "0 \<le> fl_quantity f"
  shows "pm_keeps pmid (record_entry_fill E pid f)"
  unfolding pm_keeps_def
proof
  fix w :: pm_world
  show "pm_goes pmid w (snd (record_entry_fill E pid f w))"
  proof (cases "pm_sound pmid w \<and> map_of (pm_snapshots (pw_pm w)) pid \<noteq> None \<and> fl_fill_id f \<notin> processed_of (pw_pm w) pid")
    case False
    then show ?thesis by (auto simp: record_entry_fill_def pm_goes_def [of _ w] progress_refl split: option.split)
  next
    case True
    then obtain sn where s: "pm_sound pmid w" and sn: "map_of (pm_snapshots (pw_pm w)) pid = Some sn"
      and new: "fl_fill_id f \<notin> processed_of (pw_pm w) pid" by blast
    let ?current = "ps_lifecycle_state sn"
    let ?classify = "if dadd (ps_filled_quantity sn) (fl_quantity f) \<ge> ps_intended_quantity sn then PT_ENTRY_COMPLETE else PT_ENTRY_PARTIAL"
    let ?second = "\<lambda>current w. case try_transition ?classify current of
         Inl x \<Rightarrow> (Inl x, w)
       | Inr None \<Rightarrow> (case map_of (pm_snapshots (pw_pm w)) pid of None \<Rightarrow> (Inl KeyError, w) | Some sn \<Rightarrow> (Inr (Some sn), w))
       | Inr (Some to) \<Rightarrow> pm_record E ''ENTRY_FILL'' pid None (Some ?classify) (Some current) (Some to)
           (entry_details (fl_fee f) (fl_fill_id f) (fl_price f) (fl_quantity f)) (pid @ '':entry:'' @ fl_fill_id f) w"
    show ?thesis
    proof (cases "?current \<in> {P_NEW, P_OPEN, P_PARTIALLY_FILLED}")
      case False
      then show ?thesis by (simp add: record_entry_fill_def sn new)
    next
      case entering: True
      have second: "pm_goes pmid w1 (snd (?second (ps_lifecycle_state sn1) w1))"
        if "map_of (pm_snapshots (pw_pm w1)) pid = Some sn1" for w1 sn1
        using entry_record_goes [OF that classify_edge(1) classify_edge(2) assms] that
        by (simp split: sum.split option.split) 
      have first: "pm_goes pmid w (snd (open_on_first_fill E pid f ?current w))"
      proof (cases "?current = P_NEW")
        case True
        have edge: "pm_next_state P_NEW PT_FIRST_FILL = Inr P_OPEN" by code_simp
        have "pm_goes pmid w (snd (pm_record E ''ENTRY_FILL'' pid None (Some PT_FIRST_FILL) (Some P_NEW) (Some P_OPEN)
            (entry_details 0 (fl_fill_id f @ '':open'') (fl_price f) 0) (pid @ '':open:'' @ fl_fill_id f) w))"
          using entry_record_goes [OF sn, of PT_FIRST_FILL P_OPEN 0] True edge by simp
        with True edge show ?thesis
          by (simp add: open_on_first_fill_def entry_details_def pm_goes_bind del: append.simps)
      qed (simp add: open_on_first_fill_def)
      have "record_entry_fill E pid f w = bindP (open_on_first_fill E pid f ?current) ?second w"
        unfolding record_entry_fill_def sn option.case Let_def entry_details_def
        using entering new by (simp del: append.simps insert_iff)
      moreover have "pm_goes pmid w (snd (bindP (open_on_first_fill E pid f ?current) ?second w))"
      proof (rule pm_goes_bind [where f = "open_on_first_fill E pid f ?current", OF first])
        fix current w1 assume run: "open_on_first_fill E pid f ?current w = (Inr current, w1)"
        show "pm_goes pmid w1 (snd (?second current w1))"
        proof (cases "?current = P_NEW")
          case True
          from open_step [OF s sn True run [unfolded True]] obtain sn1 where sn1: "current = P_OPEN"
            "map_of (pm_snapshots (pw_pm w1)) pid = Some sn1" "ps_lifecycle_state sn1 = P_OPEN" by blast
          from second [OF sn1(2)] show ?thesis unfolding sn1(1,3) .
        next
          case False
          then have "current = ?current" "w1 = w" using run by (simp_all add: open_on_first_fill_def)
          from second [OF sn] show ?thesis unfolding \<open>current = ?current\<close> \<open>w1 = w\<close> .
        qed
      qed
      ultimately show ?thesis by simp
    qed
  qed
qed

lemma pure_goes:
  assumes "a \<in> {''BREAKEVEN'', ''COMPLETE_CLOSE'', ''ARCHIVE''}" "t \<in> {PT_BREAKEVEN, PT_COMPLETE_CLOSE, PT_ARCHIVE}"
    and "tag \<in> {''breakeven'', ''complete_close'', ''archive''}"
  shows "pm_keeps pmid (pure_transition E pid t a tag)"
  unfolding pm_keeps_def
proof
  fix w :: pm_world
  show "pm_goes pmid w (snd (pure_transition E pid t a tag w))"
  proof (cases "map_of (pm_snapshots (pw_pm w)) pid")
    case None
    then show ?thesis by (simp add: pure_transition_def)
  next
    case (Some sn)
    have "pm_goes pmid w (snd (pm_record E a pid None (Some t) (Some (ps_lifecycle_state sn)) (Some to) [] (pid @ '':'' @ tag) w))"
      if to: "try_transition t (ps_lifecycle_state sn) = Inr (Some to)" for to
    proof (rule pm_record_goes)
      have edge: "pm_next_state (ps_lifecycle_state sn) t = Inr to"
        using to by (auto simp: try_transition_def bindE_def split: sum.splits if_splits)
      fix e :: event assume "payload e = pm_payload pmid a pid None (Some t) (Some (ps_lifecycle_state sn)) (Some to) []"
        "event_id e \<notin> pm_applied_event_ids (pw_pm w)"
      from apply_pure_ok [OF this Some refl edge assms(1)] show "\<exists>x m'. pm_apply_event e (pw_pm w) = (Inr x, m')" .
    next
      assume s: "pm_sound pmid w"
      have edge: "pm_next_state (ps_lifecycle_state sn) t = Inr to"
        using to by (auto simp: try_transition_def bindE_def split: sum.splits if_splits)
      have rank: "4 \<le> pm_state_rank to" using edge assms(2) by (auto simp: pm_next_edge PM_EDGES_def)
      have a: "a \<noteq> ''CREATE''" "a \<noteq> ''ENTRY_FILL''" "a \<noteq> ''EXIT''" using assms(1) by auto
      have tag: "'':'' @ tag \<noteq> '':open:'' @ x" for x using assms(3) by auto
      show "recordable pmid w a pid None (Some to) [] (pid @ '':'' @ tag)"
        by (rule recordable_known [OF s Some]) (use a tag rank in \<open>auto simp: good_payload_def\<close>)
    qed
    then show ?thesis
      by (simp add: pure_transition_def Some Let_def split: sum.split option.split)
  qed
qed

lemma funding_goes: "pm_keeps pmid (record_funding_payment E pid amount now fid)"
  unfolding pm_keeps_def
proof
  fix w :: pm_world
  show "pm_goes pmid w (snd (record_funding_payment E pid amount now fid w))"
  proof (cases "map_of (pm_snapshots (pw_pm w)) pid")
    case None
    then show ?thesis by (simp add: record_funding_payment_def)
  next
    case (Some sn)
    let ?d = "[(''amount'', VDec amount), (''funding_id'', VStr fid), (''timestamp_utc'', VStr now)]"
    have "pm_goes pmid w (snd (pm_record E ''FUNDING'' pid None None None None ?d (pid @ '':funding:'' @ fid) w))"
    proof (rule pm_record_goes)
      fix e :: event assume "payload e = pm_payload pmid ''FUNDING'' pid None None None None ?d"
        "event_id e \<notin> pm_applied_event_ids (pw_pm w)"
      from apply_funding_ok [OF this Some] show "\<exists>x m'. pm_apply_event e (pw_pm w) = (Inr x, m')" .
    next
      assume s: "pm_sound pmid w"
      show "recordable pmid w ''FUNDING'' pid None None ?d (pid @ '':funding:'' @ fid)"
        by (rule recordable_known [OF s Some]) (simp_all add: good_payload_def)
    qed
    then show ?thesis by (simp add: record_funding_payment_def Some del: append.simps)
  qed
qed

end
