(* ===== verification/Position_Runs.thy ===== *)
theory Position_Runs
  imports Position_Properties
begin

text \<open>
  Runs of the position manager: calls, other components writing to the same log, restarts.  What
  holds over every run, and what one exit does.
\<close>

section \<open>Runs\<close>

datatype pm_request =
    PM_Create symbol order_side decimal decimal decimal decimal decimal "decimal option"
  | PM_Entry string fill
  | PM_Exit string fill position_trigger "string option"
  | PM_Breakeven string
  | PM_Complete string
  | PM_Archive string
  | PM_Funding string decimal string string

fun pm_exec :: "env \<Rightarrow> pm_request \<Rightarrow> pm_world \<Rightarrow> pm_world" where
  "pm_exec E (PM_Create symb sd n sp stop_d t1 t2 cv) w = snd (create_position E symb sd n sp stop_d t1 t2 cv w)"
| "pm_exec E (PM_Entry pid f) w = snd (record_entry_fill E pid f w)"
| "pm_exec E (PM_Exit pid f trig reason) w = snd (record_exit E pid f trig reason w)"
| "pm_exec E (PM_Breakeven pid) w = snd (confirm_breakeven E pid w)"
| "pm_exec E (PM_Complete pid) w = snd (complete_close E pid w)"
| "pm_exec E (PM_Archive pid) w = snd (archive_position E pid w)"
| "pm_exec E (PM_Funding pid amount now fid) w = snd (record_funding_payment E pid amount now fid w)"

text \<open>What the types of the arguments promise: a \<open>Symbol\<close> is not blank, and a fill has no negative quantity.\<close>

fun pm_valid :: "pm_request \<Rightarrow> bool" where
  "pm_valid (PM_Create symb _ _ _ _ _ _ _) = (\<not> py_strip_empty symb)"
| "pm_valid (PM_Entry _ f) = (0 \<le> fl_quantity f)"
| "pm_valid _ = True"

inductive pm_step :: "env \<Rightarrow> string \<Rightarrow> pm_world \<Rightarrow> pm_world \<Rightarrow> bool" for E pmid where
  call: "pm_valid req \<Longrightarrow> pm_step E pmid w (pm_exec E req w)"
| foreign: "append_event E ty pl key sv (pw_store w) = (q, s') \<Longrightarrow> pm_foreign pmid pl key \<Longrightarrow>
    pm_step E pmid w (w\<lparr>pw_store := s'\<rparr>)"
| restart: "PositionManager (pw_store w) pmid = Inr m \<Longrightarrow> pm_step E pmid w (w\<lparr>pw_pm := m\<rparr>)"

text \<open>The first start, on a log without events or keys of this manager.\<close>

definition pm_start :: "string \<Rightarrow> pm_world \<Rightarrow> bool" where
  "pm_start pmid w \<longleftrightarrow> ledger_inv (pw_store w) \<and>
     (\<forall>e\<in>set (es_events (pw_store w)). \<not> pm_is_own_event e pmid \<and> (\<forall>k. idempotency_key e \<noteq> Some (pm_key pmid k))) \<and>
     PositionManager (pw_store w) pmid = Inr (pw_pm w)"

definition pm_run :: "env \<Rightarrow> string \<Rightarrow> pm_world \<Rightarrow> bool" where
  "pm_run E pmid w \<longleftrightarrow> (\<exists>w0. pm_start pmid w0 \<and> (pm_step E pmid)\<^sup>*\<^sup>* w0 w)"

lemma pm_exec_goes: "pm_valid req \<Longrightarrow> pm_goes pmid w (pm_exec E req w)"
  by (cases req)
    (simp_all add: pm_keepsD create_goes entry_goes exit_goes funding_goes pure_goes
      confirm_breakeven_def complete_close_def archive_position_def)

lemma pm_construct:
  assumes "pm_sound pmid w"
  shows "PositionManager (pw_store w) pmid = Inr (pm_rec_of pmid (pw_store w))"
  using assms
  by (simp add: pm_sound_def PositionManager_def pm.recovered_def replay_all [simplified] prog_simps)

lemma pm_step_goes:
  assumes "pm_step E pmid w w'"
  shows "pm_goes pmid w w'"
  using assms
proof cases
  case (call req)
  with pm_exec_goes show ?thesis by simp
next
  case (foreign ty pl key sv q s')
  show ?thesis
  proof (rule pm_goesI)
    assume s: "pm_sound pmid w"
    obtain new where "es_events s' = es_events (pw_store w) @ new"
      using es.put_log_grows [OF pm_soundD(1) [OF s] foreign(2)] by blast
    with pm_sound_append [OF s foreign(2,3)] foreign(1)
    show "pm_sound pmid w' \<and> progress w w' \<and> (\<exists>new. es_events (pw_store w') = es_events (pw_store w) @ new)"
      by (simp add: progress_refl)
  qed
next
  case (restart m)
  show ?thesis
  proof (rule pm_goesI)
    assume s: "pm_sound pmid w"
    have m: "m = pm_rec_of pmid (pw_store w)" using restart(2) pm_construct [OF s] by simp
    have "pm_sound pmid w'" using s m restart(1) by (simp add: pm_sound_def)
    moreover have "pm_snapshots (pw_pm w') = pm_snapshots (pw_pm w)" using restart(1) m pm_soundD(3) [OF s] by simp
    ultimately show "pm_sound pmid w' \<and> progress w w' \<and> (\<exists>new. es_events (pw_store w') = es_events (pw_store w) @ new)"
      using restart(1) by (simp add: progress_refl)
  qed
qed

lemma pm_steps_goes: "(pm_step E pmid)\<^sup>*\<^sup>* w w' \<Longrightarrow> pm_goes pmid w w'"
  by (induction rule: rtranclp_induct) (auto intro: pm_goes_trans pm_step_goes)

lemma pm_start_sound:
  assumes "pm_start pmid w"
  shows "pm_sound pmid w"
proof -
  have inv: "ledger_inv (pw_store w)" using assms by (simp add: pm_start_def)
  have rec: "pm.recovered pmid (pw_store w) (pm_init pmid)"
    using assms by (auto simp: pm_start_def pm.recovered_def intro!: fold_log_foreign simp: list_all_iff)
  have op: "\<not> es_closed (pw_store w)"
    using assms inv by (auto simp: pm_start_def PositionManager_def replay_all [simplified] prog_simps split: if_splits)
  then have "pw_pm w = pm_init pmid" "\<not> py_strip_empty pmid" "length pmid \<le> MAX_PM_ID_LENGTH"
    using assms rec inv
    by (auto simp: pm_start_def PositionManager_def pm.recovered_def replay_all [simplified] prog_simps split: if_splits)
  moreover have "books pmid (es_events (pw_store w)) (pm_init pmid)"
    using assms by (auto simp: books_def pm_events_def pm_start_def pm_init_def legs_of_def filter_empty_conv)
  ultimately show ?thesis
    using assms inv op rec pm_rec_of_eq [OF rec]
    by (auto simp: pm_sound_def pm.own_keys_def pm_wf_def pm_init_def pm_start_def)
qed

lemma pm_run_sound: "pm_run E pmid w \<Longrightarrow> pm_sound pmid w"
  using pm_steps_goes pm_start_sound unfolding pm_run_def pm_goes_def by blast

section \<open>Properties\<close>

text \<open>
  Recovery of the position manager.  At any point of a run, through failed persists, other
  components writing to the same log and restarts, a manager built from the log has exactly the
  positions and the closed legs of the one in memory, has applied exactly the events that one has,
  remembers no fill it does not, and will mint no position id that is already in use.
\<close>

theorem pm_recovery:
  assumes "pm_run E pmid w"
  shows "\<exists>m. PositionManager (pw_store w) pmid = Inr m \<and> pm_snapshots m = pm_snapshots (pw_pm w) \<and>
    (\<forall>pid. legs_of m pid = legs_of (pw_pm w) pid) \<and> pm_applied_event_ids m = pm_applied_event_ids (pw_pm w) \<and>
    (\<forall>pid. processed_of m pid \<subseteq> processed_of (pw_pm w) pid) \<and> pm_next_seq m \<le> pm_next_seq (pw_pm w) \<and>
    (\<forall>i\<ge>pm_next_seq m. map_of (pm_snapshots (pw_pm w)) (pm_make_id pmid i ''position'') = None)"
proof -
  note s = pm_run_sound [OF assms]
  let ?r = "pm_rec_of pmid (pw_store w)"
  have fresh: "map_of (pm_snapshots (pw_pm w)) (pm_make_id pmid i ''position'') = None" if i: "pm_next_seq ?r \<le> i" for i
  proof (rule ccontr)
    assume "map_of (pm_snapshots (pw_pm w)) (pm_make_id pmid i ''position'') \<noteq> None"
    then obtain sn where "map_of (pm_snapshots (pw_pm w)) (pm_make_id pmid i ''position'') = Some sn" by blast
    then obtain j where j: "0 \<le> j" "j < pm_next_seq ?r" "pm_make_id pmid i ''position'' = the_position_id pmid j"
      by (rule pm_known_id [OF s])
    have "0 \<le> i" using i pm_soundD(8) [OF s] by (simp add: pm_wf_def)
    with j i position_id_eq [of pmid i "[]" j "[]"] show False by (simp add: the_position_id_def)
  qed
  from pm_construct [OF s] pm_soundD(7) [OF s] fresh show ?thesis
    by (intro exI [of _ ?r]) (simp add: pm_like_def)
qed

lemma pm_edges_rank: "pm_edge\<^sup>*\<^sup>* s s' \<Longrightarrow> pm_state_rank s \<le> pm_state_rank s'"
  by (induction rule: rtranclp_induct) (auto simp: pm_edge_def dest!: pm_edge_rank(1))

lemma pm_archived_stays: "pm_edge\<^sup>*\<^sup>* s s' \<Longrightarrow> pm_terminal s \<Longrightarrow> s' = s"
proof (induction rule: rtranclp_induct)
  case (step y z)
  with pm_terminal_stuck [of s] show ?case by (auto simp: pm_edge_def pm_legal_next)
qed simp

text \<open>
  The lifecycle of a position.  Along any continuation of a run a position is never forgotten, its
  state moves only along edges of the frozen table, never to a lower rank, and an archived position
  stays archived.
\<close>

theorem position_lifecycle:
  assumes "pm_run E pmid w" "(pm_step E pmid)\<^sup>*\<^sup>* w w'" "map_of (pm_snapshots (pw_pm w)) pid = Some sn"
  shows "\<exists>sn'. map_of (pm_snapshots (pw_pm w')) pid = Some sn' \<and>
    pm_edge\<^sup>*\<^sup>* (ps_lifecycle_state sn) (ps_lifecycle_state sn') \<and>
    pm_state_rank (ps_lifecycle_state sn) \<le> pm_state_rank (ps_lifecycle_state sn') \<and>
    (pm_terminal (ps_lifecycle_state sn) \<longrightarrow> ps_lifecycle_state sn' = ps_lifecycle_state sn)"
  using pm_steps_goes [OF assms(2)] pm_run_sound [OF assms(1)] assms(3) pm_edges_rank pm_archived_stays
  unfolding pm_goes_def progress_def by meson

text \<open>No two exits of a position, and no two entries of some quantity, were recorded for the same fill.\<close>

lemma pm_fills_distinct:
  assumes "pm_sound pmid w" "\<forall>e\<in>set evs. idempotency_key e = Some (pm_key pmid (pid @ tag @ ev_fill e))"
    and "evs = filter P (es_events (pw_store w))"
  shows "distinct (map ev_fill evs)"
proof -
  note inv = pm_soundD(1) [OF assms(1)]
  have "distinct (map event_id (es_events (pw_store w)))" by (rule ledger_ids [OF inv])
  then have "distinct evs" using assms(3) by (auto simp: distinct_map)
  moreover have "inj_on ev_fill (set evs)"
  proof
    fix e e' assume e: "e \<in> set evs" "e' \<in> set evs" "ev_fill e = ev_fill e'"
    then have "idempotency_key e = idempotency_key e'" using assms(2) by simp
    moreover have "e \<in> set (es_events (pw_store w))" "e' \<in> set (es_events (pw_store w))" using e assms(3) by auto
    moreover obtain k where "idempotency_key e = Some k" using e(1) assms(2) by blast
    ultimately show "e = e'" using get_by_key_iff [OF inv, of k] by (metis option.inject)
  qed
  ultimately show ?thesis by (simp add: distinct_map)
qed

lemma pm_events_key:
  assumes "pm_sound pmid w" "e \<in> set (pm_events pmid a pid (es_events (pw_store w)))"
  shows "a = ''EXIT'' \<Longrightarrow> idempotency_key e = Some (pm_key pmid (pid @ '':exit:'' @ ev_fill e))"
    "a = ''ENTRY_FILL'' \<Longrightarrow> ev_dec ''fill_quantity'' e \<noteq> 0 \<Longrightarrow>
      idempotency_key e = Some (pm_key pmid (pid @ '':entry:'' @ ev_fill e))"
proof -
  have e: "e \<in> set (es_events (pw_store w))" "pm_is_own_event e pmid" "pm_ev_action e = a" "pm_ev_pid e = pid"
    using assms(2) by (auto simp: pm_events_def)
  have "pm_key_matches pmid e" using pm_soundD(8) [OF assms(1)] e(1,2) unfolding pm_wf_def by blast
  then show "a = ''EXIT'' \<Longrightarrow> idempotency_key e = Some (pm_key pmid (pid @ '':exit:'' @ ev_fill e))"
    "a = ''ENTRY_FILL'' \<Longrightarrow> ev_dec ''fill_quantity'' e \<noteq> 0 \<Longrightarrow>
      idempotency_key e = Some (pm_key pmid (pid @ '':entry:'' @ ev_fill e))"
    unfolding pm_key_matches_def e(3,4) by blast+
qed

text \<open>
  (C34) The figures of a position are those of the log.  Its filled and remaining quantities, realized
  profit and realized R are the sums, in the order of the log, over the entries and the exits recorded
  for it, and its closed legs are those exits; no two of these were recorded for the same fill; and
  reporting a recorded fill again, at any later time and after any number of restarts, changes nothing.
\<close>

theorem position_books:
  assumes "pm_run E pmid w" "map_of (pm_snapshots (pw_pm w)) pid = Some sn"
    and "ens = entries pmid pid (es_events (pw_store w))" "exs = exits pmid pid (es_events (pw_store w))"
  shows "ps_filled_quantity sn = foldl dadd 0 (map (ev_dec ''fill_quantity'') ens) \<and>
    ps_remaining_quantity sn = foldl dsub (ps_filled_quantity sn) (map (ev_dec ''fill_quantity'') exs) \<and>
    ps_realized_pnl sn = foldl dadd 0 (map (ev_dec ''realized_pnl'') exs) \<and>
    ps_realized_r sn = foldl dadd 0 (map (ev_dec ''r'') exs) \<and>
    map (\<lambda>l. (cl_quantity l, cl_realized_pnl l, cl_r l)) (legs_of (pw_pm w) pid) =
      map (\<lambda>e. (ev_dec ''fill_quantity'' e, ev_dec ''realized_pnl'' e, ev_dec ''r'' e)) exs \<and>
    distinct (map ev_fill exs) \<and> distinct (map ev_fill (filter (\<lambda>e. ev_dec ''fill_quantity'' e \<noteq> 0) ens)) \<and>
    (\<forall>f. fl_fill_id f \<in> ev_fill ` set (ens @ exs) \<longrightarrow>
       record_entry_fill E pid f w = (Inr (Some sn), w) \<and>
       (\<forall>trig reason. trig \<in> {PT_T1, PT_T2, PT_STOP, PT_CLOSE} \<longrightarrow> record_exit E pid f trig reason w = (Inr (Some sn), w)))"
proof -
  note s = pm_run_sound [OF assms(1)]
  note b = booksD(2) [OF pm_sound_books [OF s] assms(2)]
  have "distinct (map ev_fill exs)"
    by (rule pm_fills_distinct [OF s _ assms(4) [unfolded pm_events_def]])
      (use pm_events_key(1) [OF s] assms(4) in blast)
  moreover have "distinct (map ev_fill (filter (\<lambda>e. ev_dec ''fill_quantity'' e \<noteq> 0) ens))"
  proof (rule pm_fills_distinct [OF s, where pid = pid and tag = "'':entry:''"])
    show "\<forall>e\<in>set (filter (\<lambda>e. ev_dec ''fill_quantity'' e \<noteq> 0) ens).
        idempotency_key e = Some (pm_key pmid (pid @ '':entry:'' @ ev_fill e))"
      using pm_events_key(2) [OF s] assms(3) by (simp only: set_filter mem_Collect_eq) blast
  qed (simp add: assms(3) pm_events_def)
  moreover have "record_entry_fill E pid f w = (Inr (Some sn), w) \<and>
       (\<forall>trig reason. trig \<in> {PT_T1, PT_T2, PT_STOP, PT_CLOSE} \<longrightarrow> record_exit E pid f trig reason w = (Inr (Some sn), w))"
    if "fl_fill_id f \<in> ev_fill ` set (ens @ exs)" for f
  proof -
    have "fl_fill_id f \<in> processed_of (pw_pm w) pid" using that b assms(3,4) by blast
    then show ?thesis by (simp add: record_entry_fill_def record_exit_def assms(2) Let_def del: insert_iff)
  qed
  ultimately show ?thesis using b assms(3,4) by (simp add: book_ok_def)
qed

text \<open>What a recorded exit is worth.\<close>

lemma exit_leg_figures:
  assumes "exit_leg pid sn now (exit_details fee fid px q pct r realized why) = Inr leg"
  shows "cl_quantity leg = q" "cl_exit_px leg = px" "cl_fee leg = fee" "cl_r leg = r" "cl_pct leg = pct"
    "cl_realized_pnl leg = realized" "cl_reason leg = why" "cl_entry_px leg = ps_avg_entry_price sn"
  using assms by (auto simp: exit_leg_def exit_details_def dec_default_def)

lemma mark_same: "pm_snapshots (mark_processed pid fid m) = pm_snapshots m" "legs_of (mark_processed pid fid m) c = legs_of m c"
  "fid \<in> processed_of (mark_processed pid fid m) pid"
  by (simp_all add: mark_processed_def)

lemma try_legal: "try_transition t s = Inr (Some to) \<Longrightarrow> pm_next_state s t = Inr to"
  by (auto simp: try_transition_def bindE_def split: sum.splits if_splits)

lemma try_not_legal:
  assumes "\<not> pm_is_legal s t" "pm_trigger_min_target_rank t = Inr n"
  shows "try_transition t s = (if pm_terminal s \<or> n \<le> pm_state_rank s then Inr None else Inl PositionStateInconsistencyError)"
  using assms by (simp add: try_transition_def)

lemma exit_recorded:
  assumes s: "pm_sound pmid w" and sn: "map_of (pm_snapshots (pw_pm w)) pid = Some sn"
    and trig: "trig \<in> {PT_T1, PT_T2, PT_STOP, PT_CLOSE}" and to: "try_transition trig (ps_lifecycle_state sn) = Inr (Some to)"
    and run: "pm_record E ''EXIT'' pid None (Some trig) (Some (ps_lifecycle_state sn)) (Some to)
      (exit_details fee fid px q pct r realized why) (pid @ '':exit:'' @ fid) w = (x, w')"
  shows "(\<exists>e leg. exit_leg pid sn (timestamp_utc e) (exit_details fee fid px q pct r realized why) = Inr leg \<and>
      es_events (pw_store w') = es_events (pw_store w) @ [e] \<and>
      x = Inr (Some (exit_snapshot sn to (timestamp_utc e) leg)) \<and>
      map_of (pm_snapshots (pw_pm w')) pid = Some (exit_snapshot sn to (timestamp_utc e) leg) \<and>
      legs_of (pw_pm w') pid = legs_of (pw_pm w) pid @ [leg]) \<or>
    es_events (pw_store w') = es_events (pw_store w) \<and> pw_pm w' = pw_pm w"
proof (rule pm_record_cases [OF run s], goal_cases)
  case (1 e)
  from apply_exit_ok [OF 1 sn refl try_legal [OF to]] show ?case by blast
next
  case 2
  have "4 \<le> pm_state_rank to" using try_legal [OF to] trig by (auto simp: pm_next_edge PM_EDGES_def)
  then show ?case by (intro recordable_known [OF s sn]) (simp_all add: good_payload_def exit_details_def)
next
  case (3 y)
  from arg_cong [OF 3(2), of pw_pm] 3(3) show ?case by simp
next
  case (4 y e)
  from arg_cong [OF 4(2), of pw_pm] 4(3) show ?case by simp
next
  case (5 y e m')
  from apply_exit_ok [OF 5(4,7) sn refl try_legal [OF to]] obtain leg m'' where
    a: "exit_leg pid sn (timestamp_utc e) (exit_details fee fid px q pct r realized why) = Inr leg"
    "pm_apply_event e (pw_pm w) = (Inr (Some (exit_snapshot sn to (timestamp_utc e) leg)), m'')"
    "pm_snapshots m'' = AList.update pid (exit_snapshot sn to (timestamp_utc e) leg) (pm_snapshots (pw_pm w))"
    "legs_of m'' pid = legs_of (pw_pm w) pid @ [leg]" by blast
  have "pw_pm w' = m''" using arg_cong [OF 5(2), of pw_pm] 5(8) a(2) by simp
  with a 5(1,3,8) show ?case by (intro disjI1 exI [of _ e] exI [of _ leg]) (simp add: update_conv')
qed


end
