(* ===== verification/Portfolio_Manager.thy ===== *)
theory Portfolio_Manager
  imports Ledger Decimals "HOL-Library.Char_ord" "HOL-Library.List_Lexorder"
begin

text \<open>
  The portfolio ledger, \<^verbatim>\<open>portfolio_manager/{snapshot,manager}.py\<close>.  The state holds two
  independently accumulated ledgers: where the money is (cash, reserved and used margin) and where
  it came from (deposits, withdrawals, realized PnL, funding, fees); every event is followed by the
  check that the two agree.  Amounts are Python Decimals: each \<open>+=\<close> and \<open>-=\<close> rounds to 28 digits.
\<close>

section \<open>Snapshots\<close>

record portfolio_snapshot =
  ps_available_cash :: decimal
  ps_reserved_margin :: decimal
  ps_used_margin :: decimal
  ps_unrealized_pnl :: decimal
  ps_realized_pnl_cumulative :: decimal
  ps_funding_cumulative :: decimal
  ps_fees_cumulative :: decimal
  ps_deposits_cumulative :: decimal
  ps_withdrawals_cumulative :: decimal
  ps_exposure :: decimal
  ps_heat :: decimal
  ps_open_position_ids :: "string list"
  ps_updated_at_utc :: string

definition wallet_balance :: "portfolio_snapshot \<Rightarrow> decimal" where
  "wallet_balance p =
     dsub (dadd (dadd (dsub (ps_deposits_cumulative p) (ps_withdrawals_cumulative p))
       (ps_realized_pnl_cumulative p)) (ps_funding_cumulative p)) (ps_fees_cumulative p)"

definition equity :: "portfolio_snapshot \<Rightarrow> decimal" where
  "equity p = dadd (wallet_balance p) (ps_unrealized_pnl p)"

definition assets :: "portfolio_snapshot \<Rightarrow> decimal" where
  "assets p =
     dadd (dadd (dadd (ps_available_cash p) (ps_reserved_margin p)) (ps_used_margin p)) (ps_unrealized_pnl p)"

definition liabilities :: "portfolio_snapshot \<Rightarrow> decimal" where
  "liabilities p = 0"

definition leverage :: "portfolio_snapshot \<Rightarrow> decimal" where
  "leverage p = (if equity p = 0 then 0 else ddiv (ps_exposure p) (equity p))"

definition position_count :: "portfolio_snapshot \<Rightarrow> nat" where
  "position_count p = length (ps_open_position_ids p)"

section \<open>The manager\<close>

definition PF_SOURCE_TAG :: string where "PF_SOURCE_TAG = ''portfolio_manager''"
definition MAX_PF_ID_LENGTH :: nat where "MAX_PF_ID_LENGTH = 60"

record portfolio =
  pf_pm_id :: string
  pf_available_cash :: decimal
  pf_reserved_margin :: decimal
  pf_used_margin :: decimal
  pf_unrealized_pnl :: decimal
  pf_realized_pnl_cumulative :: decimal
  pf_funding_cumulative :: decimal
  pf_fees_cumulative :: decimal
  pf_deposits_cumulative :: decimal
  pf_withdrawals_cumulative :: decimal
  pf_exposure :: decimal
  pf_heat :: decimal
  pf_open_position_ids :: "string set"
  pf_reserved_by_position :: "string \<rightharpoonup> decimal"
  pf_used_by_position :: "string \<rightharpoonup> decimal"
  pf_released_positions :: "string set"
  pf_applied_event_ids :: "nat set"
  pf_updated_at_utc :: string

definition pf_is_own_event :: "event \<Rightarrow> string \<Rightarrow> bool" where
  "pf_is_own_event e pm_id =
     (dget (payload e) ''source'' = VStr PF_SOURCE_TAG \<and> dget (payload e) ''pm_id'' = VStr pm_id)"

definition pf_event_type_for_action :: "string \<Rightarrow> event_type" where
  "pf_event_type_for_action action = POSITION_UPDATED"

definition pf_init :: "string \<Rightarrow> string \<Rightarrow> portfolio" where
  "pf_init pm_id now =
     \<lparr>pf_pm_id = pm_id, pf_available_cash = 0, pf_reserved_margin = 0, pf_used_margin = 0,
      pf_unrealized_pnl = 0, pf_realized_pnl_cumulative = 0, pf_funding_cumulative = 0,
      pf_fees_cumulative = 0, pf_deposits_cumulative = 0, pf_withdrawals_cumulative = 0,
      pf_exposure = 0, pf_heat = 0, pf_open_position_ids = {}, pf_reserved_by_position = Map.empty,
      pf_used_by_position = Map.empty, pf_released_positions = {}, pf_applied_event_ids = {},
      pf_updated_at_utc = now\<rparr>"

definition pf_snapshot :: "portfolio \<Rightarrow> portfolio_snapshot" where
  "pf_snapshot p =
     \<lparr>ps_available_cash = pf_available_cash p, ps_reserved_margin = pf_reserved_margin p,
      ps_used_margin = pf_used_margin p, ps_unrealized_pnl = pf_unrealized_pnl p,
      ps_realized_pnl_cumulative = pf_realized_pnl_cumulative p,
      ps_funding_cumulative = pf_funding_cumulative p, ps_fees_cumulative = pf_fees_cumulative p,
      ps_deposits_cumulative = pf_deposits_cumulative p,
      ps_withdrawals_cumulative = pf_withdrawals_cumulative p, ps_exposure = pf_exposure p,
      ps_heat = pf_heat p, ps_open_position_ids = sorted_list_of_set (pf_open_position_ids p),
      ps_updated_at_utc = pf_updated_at_utc p\<rparr>"

definition assert_invariant :: "portfolio_snapshot \<Rightarrow> exc + unit" where
  "assert_invariant sn =
     (if assets sn \<noteq> dadd (liabilities sn) (equity sn) then Inl AccountingInvariantError else Inr ())"

text \<open>\<open>m.get(k, Decimal("0"))\<close>.\<close>

definition dec_at :: "(string \<rightharpoonup> decimal) \<Rightarrow> string \<Rightarrow> decimal" where
  "dec_at m k = (case m k of None \<Rightarrow> 0 | Some x \<Rightarrow> x)"

text \<open>
  The body of \<open>_apply_event\<close>, one case per action.  The amounts are read before anything changes,
  except in \<open>UPDATE_MARKS\<close>, which assigns each mark as it is read.
\<close>

definition pf_apply_action :: "pyval \<Rightarrow> dict \<Rightarrow> (portfolio, exc, unit) prog" where
  "pf_apply_action action details p =
    (if action = VStr ''DEPOSIT'' then
       (case req_dec details ''amount'' of Inl x \<Rightarrow> (Inl x, p) | Inr amt \<Rightarrow>
         (Inr (), p\<lparr>pf_available_cash := dadd (pf_available_cash p) amt,
                    pf_deposits_cumulative := dadd (pf_deposits_cumulative p) amt\<rparr>))
     else if action = VStr ''WITHDRAW'' then
       (case req_dec details ''amount'' of Inl x \<Rightarrow> (Inl x, p) | Inr amt \<Rightarrow>
         (Inr (), p\<lparr>pf_available_cash := dsub (pf_available_cash p) amt,
                    pf_withdrawals_cumulative := dadd (pf_withdrawals_cumulative p) amt\<rparr>))
     else if action = VStr ''RESERVE_MARGIN'' then
       (case req_str details ''position_id'' of Inl x \<Rightarrow> (Inl x, p) | Inr pid \<Rightarrow>
        case req_dec details ''amount'' of Inl x \<Rightarrow> (Inl x, p) | Inr amt \<Rightarrow>
         (Inr (), p\<lparr>pf_available_cash := dsub (pf_available_cash p) amt,
                    pf_reserved_margin := dadd (pf_reserved_margin p) amt,
                    pf_reserved_by_position := (pf_reserved_by_position p)
                      (pid \<mapsto> dadd (dec_at (pf_reserved_by_position p) pid) amt)\<rparr>))
     else if action = VStr ''ALLOCATE_MARGIN'' then
       (case req_str details ''position_id'' of Inl x \<Rightarrow> (Inl x, p) | Inr pid \<Rightarrow>
        case req_dec details ''amount'' of Inl x \<Rightarrow> (Inl x, p) | Inr amt \<Rightarrow>
         (Inr (), p\<lparr>pf_reserved_margin := dsub (pf_reserved_margin p) amt,
                    pf_used_margin := dadd (pf_used_margin p) amt,
                    pf_reserved_by_position := (pf_reserved_by_position p)
                      (pid \<mapsto> dsub (dec_at (pf_reserved_by_position p) pid) amt),
                    pf_used_by_position := (pf_used_by_position p)
                      (pid \<mapsto> dadd (dec_at (pf_used_by_position p) pid) amt),
                    pf_open_position_ids := insert pid (pf_open_position_ids p)\<rparr>))
     else if action = VStr ''RELEASE_MARGIN'' then
       (case req_str details ''position_id'' of Inl x \<Rightarrow> (Inl x, p) | Inr pid \<Rightarrow>
        let reserved = dec_at (pf_reserved_by_position p) pid;
            used = dec_at (pf_used_by_position p) pid
        in (Inr (), p\<lparr>pf_reserved_by_position := (pf_reserved_by_position p)(pid := None),
                      pf_used_by_position := (pf_used_by_position p)(pid := None),
                      pf_reserved_margin := dsub (pf_reserved_margin p) reserved,
                      pf_used_margin := dsub (pf_used_margin p) used,
                      pf_available_cash := dadd (pf_available_cash p) (dadd reserved used),
                      pf_released_positions := insert pid (pf_released_positions p),
                      pf_open_position_ids := pf_open_position_ids p - {pid}\<rparr>))
     else if action = VStr ''REALIZED_PNL'' then
       (case req_dec details ''amount'' of Inl x \<Rightarrow> (Inl x, p) | Inr amt \<Rightarrow>
         (Inr (), p\<lparr>pf_available_cash := dadd (pf_available_cash p) amt,
                    pf_realized_pnl_cumulative := dadd (pf_realized_pnl_cumulative p) amt\<rparr>))
     else if action = VStr ''FUNDING'' then
       (case req_dec details ''amount'' of Inl x \<Rightarrow> (Inl x, p) | Inr amt \<Rightarrow>
         (Inr (), p\<lparr>pf_available_cash := dadd (pf_available_cash p) amt,
                    pf_funding_cumulative := dadd (pf_funding_cumulative p) amt\<rparr>))
     else if action = VStr ''FEE'' then
       (case req_dec details ''amount'' of Inl x \<Rightarrow> (Inl x, p) | Inr amt \<Rightarrow>
         (Inr (), p\<lparr>pf_available_cash := dsub (pf_available_cash p) amt,
                    pf_fees_cumulative := dadd (pf_fees_cumulative p) amt\<rparr>))
     else if action = VStr ''UPDATE_MARKS'' then
       (case req_dec details ''unrealized_pnl'' of Inl x \<Rightarrow> (Inl x, p) | Inr u \<Rightarrow>
        let p = p\<lparr>pf_unrealized_pnl := u\<rparr>
        in case req_dec details ''exposure'' of Inl x \<Rightarrow> (Inl x, p) | Inr ex \<Rightarrow>
        let p = p\<lparr>pf_exposure := ex\<rparr>
        in case req_dec details ''heat'' of Inl x \<Rightarrow> (Inl x, p) | Inr h \<Rightarrow>
         (Inr (), p\<lparr>pf_heat := h\<rparr>))
     else (Inl (ReplayIntegrityError PF), p))"

definition pf_apply_event :: "event \<Rightarrow> (portfolio, exc, portfolio_snapshot) prog" where
  "pf_apply_event e p =
     (if event_id e \<in> pf_applied_event_ids p then (Inr (pf_snapshot p), p)
      else
        let p = p\<lparr>pf_applied_event_ids := insert (event_id e) (pf_applied_event_ids p)\<rparr>
        in case map_of (payload e) ''action'' of
             None \<Rightarrow> (Inl KeyError, p)
           | Some action \<Rightarrow>
               (case pf_apply_action action (dget_dict (payload e) ''details'') p of
                  (Inl x, p') \<Rightarrow> (Inl x, p')
                | (Inr _, p') \<Rightarrow>
                    let p' = p'\<lparr>pf_updated_at_utc := timestamp_utc e\<rparr>;
                        sn = pf_snapshot p'
                    in case assert_invariant sn of
                         Inl x \<Rightarrow> (Inl x, p')
                       | Inr _ \<Rightarrow> (Inr sn, p')))"

text \<open>\<open>now\<close> is the reading of the clock at construction.\<close>

definition PortfolioManager :: "event_store \<Rightarrow> string \<Rightarrow> string \<Rightarrow> exc + portfolio" where
  "PortfolioManager store pm_id now =
     (if py_strip_empty pm_id then Inl ValueError
      else if length pm_id > MAX_PF_ID_LENGTH then Inl ValueError
      else bindE (replay 1 store) (\<lambda>evs.
           fold_log (\<lambda>e. pf_is_own_event e pm_id) pf_apply_event evs (pf_init pm_id now)))"

definition pf_namespaced_key :: "portfolio \<Rightarrow> string \<Rightarrow> string" where
  "pf_namespaced_key p key = PF_SOURCE_TAG @ '':'' @ pf_pm_id p @ '':'' @ key"

type_synonym pf_world = "event_store \<times> portfolio"

definition pf_get_cached :: "string \<Rightarrow> (pf_world, exc, portfolio_snapshot option) prog" where
  "pf_get_cached key sp =
     (case sp of (store, p) \<Rightarrow>
        case get_by_idempotency_key store (pf_namespaced_key p key) of
          None \<Rightarrow> (Inr None, sp)
        | Some existing \<Rightarrow>
            (case pf_apply_event existing p of
               (Inl x, p') \<Rightarrow> (Inl x, (store, p'))
             | (Inr sn, p') \<Rightarrow> (Inr (Some sn), (store, p'))))"

definition pf_payload :: "string \<Rightarrow> string \<Rightarrow> dict \<Rightarrow> dict" where
  "pf_payload pm_id action details =
     [(''action'', VStr action), (''details'', VDict details), (''pm_id'', VStr pm_id),
      (''source'', VStr PF_SOURCE_TAG)]"

definition pf_persist :: "env \<Rightarrow> string \<Rightarrow> dict \<Rightarrow> string \<Rightarrow> (pf_world, exc, event) prog" where
  "pf_persist E action details key sp =
     (case sp of (store, p) \<Rightarrow>
        case append_event E (pf_event_type_for_action action) (pf_payload (pf_pm_id p) action details)
               (Some (pf_namespaced_key p key)) 1 store of
          (r, store') \<Rightarrow> (r, (store', p)))"

text \<open>
  The critical section shared by every mutating method: answer from the ledger if the key is known,
  otherwise run the method's own check \<open>guard\<close>, persist the event and apply it.
\<close>

definition pf_once :: "env \<Rightarrow> string \<Rightarrow> (portfolio \<Rightarrow> exc option) \<Rightarrow> string \<Rightarrow> dict \<Rightarrow>
    (pf_world, exc, portfolio_snapshot) prog" where
  "pf_once E key guard action details =
     bindP (pf_get_cached key) (\<lambda>cached sp.
       case cached of
         Some sn \<Rightarrow> (Inr sn, sp)
       | None \<Rightarrow>
           (case guard (snd sp) of
              Some x \<Rightarrow> (Inl x, sp)
            | None \<Rightarrow>
                bindP (pf_persist E action details key) (\<lambda>e (store, p).
                  case pf_apply_event e p of (r, p') \<Rightarrow> (r, (store, p'))) sp))"

definition no_guard :: "portfolio \<Rightarrow> exc option" where "no_guard p = None"

definition deposit :: "env \<Rightarrow> decimal \<Rightarrow> string \<Rightarrow> (pf_world, exc, portfolio_snapshot) prog" where
  "deposit E amount request_id sp =
     (if amount \<le> 0 then (Inl ValueError, sp)
      else pf_once E (''deposit:'' @ request_id) no_guard ''DEPOSIT'' [(''amount'', VDec amount)] sp)"

definition withdraw :: "env \<Rightarrow> decimal \<Rightarrow> string \<Rightarrow> (pf_world, exc, portfolio_snapshot) prog" where
  "withdraw E amount request_id sp =
     (if amount \<le> 0 then (Inl ValueError, sp)
      else pf_once E (''withdraw:'' @ request_id)
             (\<lambda>p. if amount > pf_available_cash p then Some InsufficientFundsError else None)
             ''WITHDRAW'' [(''amount'', VDec amount)] sp)"

definition reserve_margin :: "env \<Rightarrow> string \<Rightarrow> decimal \<Rightarrow> string \<Rightarrow> (pf_world, exc, portfolio_snapshot) prog" where
  "reserve_margin E position_id amount request_id sp =
     (if amount \<le> 0 then (Inl ValueError, sp)
      else pf_once E (''reserve_margin:'' @ position_id @ '':'' @ request_id)
             (\<lambda>p. if amount > pf_available_cash p then Some InsufficientFundsError else None)
             ''RESERVE_MARGIN'' [(''amount'', VDec amount), (''position_id'', VStr position_id)] sp)"

definition allocate_margin :: "env \<Rightarrow> string \<Rightarrow> decimal \<Rightarrow> string \<Rightarrow> (pf_world, exc, portfolio_snapshot) prog" where
  "allocate_margin E position_id amount request_id sp =
     (if amount \<le> 0 then (Inl ValueError, sp)
      else pf_once E (''allocate_margin:'' @ position_id @ '':'' @ request_id)
             (\<lambda>p. if amount > dec_at (pf_reserved_by_position p) position_id
                  then Some InsufficientMarginError else None)
             ''ALLOCATE_MARGIN'' [(''amount'', VDec amount), (''position_id'', VStr position_id)] sp)"

definition release_margin :: "env \<Rightarrow> string \<Rightarrow> string \<Rightarrow> (pf_world, exc, portfolio_snapshot) prog" where
  "release_margin E position_id request_id sp =
     (if position_id \<in> pf_released_positions (snd sp) then (Inr (pf_snapshot (snd sp)), sp)
      else pf_once E (''release_margin:'' @ position_id @ '':'' @ request_id) no_guard
             ''RELEASE_MARGIN'' [(''position_id'', VStr position_id)] sp)"

definition apply_realized_pnl :: "env \<Rightarrow> string \<Rightarrow> string \<Rightarrow> decimal \<Rightarrow> string \<Rightarrow> (pf_world, exc, portfolio_snapshot) prog" where
  "apply_realized_pnl E position_id leg_id amount request_id =
     pf_once E (''realized_pnl:'' @ position_id @ '':'' @ leg_id) no_guard ''REALIZED_PNL''
       [(''amount'', VDec amount), (''leg_id'', VStr leg_id), (''position_id'', VStr position_id)]"

definition apply_funding :: "env \<Rightarrow> string \<Rightarrow> string \<Rightarrow> decimal \<Rightarrow> string \<Rightarrow> (pf_world, exc, portfolio_snapshot) prog" where
  "apply_funding E position_id funding_id amount request_id =
     pf_once E (''funding:'' @ position_id @ '':'' @ funding_id) no_guard ''FUNDING''
       [(''amount'', VDec amount), (''funding_id'', VStr funding_id), (''position_id'', VStr position_id)]"

definition apply_fee :: "env \<Rightarrow> string \<Rightarrow> string \<Rightarrow> decimal \<Rightarrow> string \<Rightarrow> (pf_world, exc, portfolio_snapshot) prog" where
  "apply_fee E reference_id fee_id amount request_id sp =
     (if amount < 0 then (Inl ValueError, sp)
      else pf_once E (''fee:'' @ reference_id @ '':'' @ fee_id) no_guard ''FEE''
             [(''amount'', VDec amount), (''fee_id'', VStr fee_id), (''reference_id'', VStr reference_id)] sp)"

definition update_marks :: "env \<Rightarrow> decimal \<Rightarrow> decimal \<Rightarrow> decimal \<Rightarrow> string \<Rightarrow> (pf_world, exc, portfolio_snapshot) prog" where
  "update_marks E unrealized exposure_amt heat_amt request_id =
     pf_once E (''update_marks:'' @ request_id) no_guard ''UPDATE_MARKS''
       [(''exposure'', VDec exposure_amt), (''heat'', VDec heat_amt), (''unrealized_pnl'', VDec unrealized)]"

definition get_snapshot :: "pf_world \<Rightarrow> portfolio_snapshot" where
  "get_snapshot sp = pf_snapshot (snd sp)"

text \<open>The public interface as requests.\<close>

datatype pf_request =
    Deposit decimal string
  | Withdraw decimal string
  | Reserve string decimal string
  | Allocate string decimal string
  | Release string string
  | RealizedPnl string string decimal string
  | Funding string string decimal string
  | Fee string string decimal string
  | Marks decimal decimal decimal string

fun pf_call :: "env \<Rightarrow> pf_request \<Rightarrow> (pf_world, exc, portfolio_snapshot) prog" where
  "pf_call E (Deposit a r) = deposit E a r"
| "pf_call E (Withdraw a r) = withdraw E a r"
| "pf_call E (Reserve pid a r) = reserve_margin E pid a r"
| "pf_call E (Allocate pid a r) = allocate_margin E pid a r"
| "pf_call E (Release pid r) = release_margin E pid r"
| "pf_call E (RealizedPnl pid leg a r) = apply_realized_pnl E pid leg a r"
| "pf_call E (Funding pid f a r) = apply_funding E pid f a r"
| "pf_call E (Fee ref f a r) = apply_fee E ref f a r"
| "pf_call E (Marks u x h r) = update_marks E u x h r"

section \<open>What a request does\<close>

text \<open>The key, the check, the action and the details of a request.\<close>

fun req_key :: "pf_request \<Rightarrow> string" where
  "req_key (Deposit a r) = ''deposit:'' @ r"
| "req_key (Withdraw a r) = ''withdraw:'' @ r"
| "req_key (Reserve pid a r) = ''reserve_margin:'' @ pid @ '':'' @ r"
| "req_key (Allocate pid a r) = ''allocate_margin:'' @ pid @ '':'' @ r"
| "req_key (Release pid r) = ''release_margin:'' @ pid @ '':'' @ r"
| "req_key (RealizedPnl pid leg a r) = ''realized_pnl:'' @ pid @ '':'' @ leg"
| "req_key (Funding pid f a r) = ''funding:'' @ pid @ '':'' @ f"
| "req_key (Fee ref f a r) = ''fee:'' @ ref @ '':'' @ f"
| "req_key (Marks u x h r) = ''update_marks:'' @ r"

fun req_guard :: "pf_request \<Rightarrow> portfolio \<Rightarrow> exc option" where
  "req_guard (Withdraw a r) p = (if a > pf_available_cash p then Some InsufficientFundsError else None)"
| "req_guard (Reserve pid a r) p = (if a > pf_available_cash p then Some InsufficientFundsError else None)"
| "req_guard (Allocate pid a r) p =
     (if a > dec_at (pf_reserved_by_position p) pid then Some InsufficientMarginError else None)"
| "req_guard _ p = None"

fun req_action :: "pf_request \<Rightarrow> string" where
  "req_action (Deposit a r) = ''DEPOSIT''"
| "req_action (Withdraw a r) = ''WITHDRAW''"
| "req_action (Reserve pid a r) = ''RESERVE_MARGIN''"
| "req_action (Allocate pid a r) = ''ALLOCATE_MARGIN''"
| "req_action (Release pid r) = ''RELEASE_MARGIN''"
| "req_action (RealizedPnl pid leg a r) = ''REALIZED_PNL''"
| "req_action (Funding pid f a r) = ''FUNDING''"
| "req_action (Fee ref f a r) = ''FEE''"
| "req_action (Marks u x h r) = ''UPDATE_MARKS''"

fun req_details :: "pf_request \<Rightarrow> dict" where
  "req_details (Deposit a r) = [(''amount'', VDec a)]"
| "req_details (Withdraw a r) = [(''amount'', VDec a)]"
| "req_details (Reserve pid a r) = [(''amount'', VDec a), (''position_id'', VStr pid)]"
| "req_details (Allocate pid a r) = [(''amount'', VDec a), (''position_id'', VStr pid)]"
| "req_details (Release pid r) = [(''position_id'', VStr pid)]"
| "req_details (RealizedPnl pid leg a r) =
     [(''amount'', VDec a), (''leg_id'', VStr leg), (''position_id'', VStr pid)]"
| "req_details (Funding pid f a r) =
     [(''amount'', VDec a), (''funding_id'', VStr f), (''position_id'', VStr pid)]"
| "req_details (Fee ref f a r) = [(''amount'', VDec a), (''fee_id'', VStr f), (''reference_id'', VStr ref)]"
| "req_details (Marks u x h r) = [(''exposure'', VDec x), (''heat'', VDec h), (''unrealized_pnl'', VDec u)]"

text \<open>The check of the arguments, and the answer a repeated release gets at once.\<close>

fun req_valid :: "pf_request \<Rightarrow> bool" where
  "req_valid (Deposit a r) = (0 < a)"
| "req_valid (Withdraw a r) = (0 < a)"
| "req_valid (Reserve pid a r) = (0 < a)"
| "req_valid (Allocate pid a r) = (0 < a)"
| "req_valid (Fee ref f a r) = (0 \<le> a)"
| "req_valid _ = True"

fun req_done :: "pf_request \<Rightarrow> portfolio \<Rightarrow> bool" where
  "req_done (Release pid r) p = (pid \<in> pf_released_positions p)"
| "req_done _ p = False"

lemma pf_call_eq:
  "pf_call E req sp =
     (if \<not> req_valid req then (Inl ValueError, sp)
      else if req_done req (snd sp) then (Inr (pf_snapshot (snd sp)), sp)
      else pf_once E (req_key req) (req_guard req) (req_action req) (req_details req) sp)"
  by (cases req)
    (auto simp: deposit_def withdraw_def reserve_margin_def allocate_margin_def release_margin_def
      apply_realized_pnl_def apply_funding_def apply_fee_def update_marks_def no_guard_def fun_eq_iff
      intro!: arg_cong [of _ _ "\<lambda>g. pf_once E _ g _ _ sp"])

lemma pf_once_cases:
  assumes "pf_once E key g a d (s, p) = (r, (s', p'))"
  obtains (cached) e where "get_by_idempotency_key s (pf_namespaced_key p key) = Some e"
      "pf_apply_event e p = (r, p')" "s' = s"
  | (guarded) x where "get_by_idempotency_key s (pf_namespaced_key p key) = None"
      "g p = Some x" "r = Inl x" "s' = s" "p' = p"
  | (unrecorded) x where "get_by_idempotency_key s (pf_namespaced_key p key) = None"
      "append_event E (pf_event_type_for_action a) (pf_payload (pf_pm_id p) a d)
         (Some (pf_namespaced_key p key)) 1 s = (Inl x, s')" "r = Inl x" "p' = p"
  | (recorded) e where "get_by_idempotency_key s (pf_namespaced_key p key) = None" "g p = None"
      "append_event E (pf_event_type_for_action a) (pf_payload (pf_pm_id p) a d)
         (Some (pf_namespaced_key p key)) 1 s = (Inr e, s')" "pf_apply_event e p = (r, p')"
proof (cases "get_by_idempotency_key s (pf_namespaced_key p key)")
  case (Some e)
  obtain q p1 where ap: "pf_apply_event e p = (q, p1)" by (meson surj_pair)
  have "q = r \<and> p1 = p' \<and> s' = s"
    using assms Some ap by (cases q) (simp_all add: pf_once_def bindP_def pf_get_cached_def)
  with Some ap show ?thesis by (intro cached) auto
next
  case None
  show ?thesis
  proof (cases "g p")
    case (Some x)
    with assms None show ?thesis by (intro guarded) (auto simp: pf_once_def bindP_def pf_get_cached_def)
  next
    case None': None
    obtain q s1 where put: "append_event E (pf_event_type_for_action a) (pf_payload (pf_pm_id p) a d)
        (Some (pf_namespaced_key p key)) 1 s = (q, s1)" by (meson surj_pair)
    show ?thesis
    proof (cases q)
      case (Inl x)
      with assms None None' put show ?thesis
        by (intro unrecorded [of x]) (simp_all add: pf_once_def bindP_def pf_get_cached_def pf_persist_def)
    next
      case (Inr e)
      obtain q1 p1 where "pf_apply_event e p = (q1, p1)" by (meson surj_pair)
      with assms None None' put Inr show ?thesis
        by (intro recorded [of e]) (simp_all add: pf_once_def bindP_def pf_get_cached_def pf_persist_def)
    qed
  qed
qed

lemma pf_apply_action_frame [simp]:
  "pf_pm_id (snd (pf_apply_action a d p)) = pf_pm_id p"
  "pf_applied_event_ids (snd (pf_apply_action a d p)) = pf_applied_event_ids p"
  by (simp_all add: pf_apply_action_def Let_def split: sum.split)

lemma pf_apply_actionD:
  "pf_apply_action a d p = (r, p') \<Longrightarrow> pf_pm_id p' = pf_pm_id p \<and> pf_applied_event_ids p' = pf_applied_event_ids p"
  using pf_apply_action_frame [of a d p] by simp

lemma pf_apply_event_new:
  assumes "event_id e \<notin> pf_applied_event_ids p" "map_of (payload e) ''action'' = Some a"
    and "pf_apply_action a (dget_dict (payload e) ''details'')
           (p\<lparr>pf_applied_event_ids := insert (event_id e) (pf_applied_event_ids p)\<rparr>) = (q, p1)"
  shows "pf_apply_event e p =
    (case q of Inl x \<Rightarrow> (Inl x, p1)
     | Inr _ \<Rightarrow>
        (case assert_invariant (pf_snapshot (p1\<lparr>pf_updated_at_utc := timestamp_utc e\<rparr>)) of
           Inl x \<Rightarrow> (Inl x, p1\<lparr>pf_updated_at_utc := timestamp_utc e\<rparr>)
         | Inr _ \<Rightarrow> (Inr (pf_snapshot (p1\<lparr>pf_updated_at_utc := timestamp_utc e\<rparr>)), p1\<lparr>pf_updated_at_utc := timestamp_utc e\<rparr>)))"
  using assms by (simp add: pf_apply_event_def Let_def split: sum.split)

lemma pf_apply_event_frame:
  "pf_pm_id (snd (pf_apply_event e p)) = pf_pm_id p \<and>
   pf_applied_event_ids (snd (pf_apply_event e p)) = insert (event_id e) (pf_applied_event_ids p)"
proof (cases "event_id e \<in> pf_applied_event_ids p")
  case True
  then show ?thesis by (simp add: pf_apply_event_def insert_absorb)
next
  case new: False
  show ?thesis
  proof (cases "map_of (payload e) ''action''")
    case None
    with new show ?thesis by (simp add: pf_apply_event_def)
  next
    case (Some a)
    obtain q p1 where act: "pf_apply_action a (dget_dict (payload e) ''details'')
        (p\<lparr>pf_applied_event_ids := insert (event_id e) (pf_applied_event_ids p)\<rparr>) = (q, p1)"
      by (meson surj_pair)
    from pf_apply_actionD [OF act] pf_apply_event_new [OF new Some act] show ?thesis
      by (simp split: sum.split)
  qed
qed

lemma pf_apply_eventD:
  "pf_apply_event e p = (r, p') \<Longrightarrow>
     pf_pm_id p' = pf_pm_id p \<and> pf_applied_event_ids p' = insert (event_id e) (pf_applied_event_ids p)"
  using pf_apply_event_frame [of e p] by simp

lemma pf_payload_parts [simp]:
  "dget (pf_payload pm a d) ''source'' = VStr PF_SOURCE_TAG" "dget (pf_payload pm a d) ''pm_id'' = VStr pm"
  "map_of (pf_payload pm a d) ''action'' = Some (VStr a)" "dget_dict (pf_payload pm a d) ''details'' = d"
  by (simp_all add: pf_payload_def)

text \<open>Applying an event of the manager's own making can fail in one way only.\<close>

lemma pf_apply_event_error:
  assumes "pf_apply_event e p = (Inl x, p')" "payload e = pf_payload pm a d"
    and "\<And>q q' x. pf_apply_action (VStr a) d q \<noteq> (Inl x, q')"
  shows "x = AccountingInvariantError"
proof (cases "event_id e \<in> pf_applied_event_ids p")
  case True
  with assms(1) show ?thesis by (simp add: pf_apply_event_def)
next
  case False
  obtain q p1 where act: "pf_apply_action (VStr a) (dget_dict (payload e) ''details'')
      (p\<lparr>pf_applied_event_ids := insert (event_id e) (pf_applied_event_ids p)\<rparr>) = (q, p1)"
    by (meson surj_pair)
  moreover from this assms(2,3) obtain u where "q = Inr u" by (cases q) auto
  ultimately show ?thesis
    using assms(1,2) pf_apply_event_new [OF False _ act]
    by (auto simp: assert_invariant_def split: if_splits)
qed

section \<open>Recovery\<close>

interpretation pf: event_sourced ledger_inv es_events get_by_idempotency_key
  "\<lambda>ty pl k. append_event E ty pl k sv" "\<lambda>e. pf_is_own_event e pm" pf_apply_event "pf_init pm now"
  for E sv pm now
  by unfold_locales

text \<open>
  The manager is in step with the log: it has applied exactly its own events, and whatever is
  recorded under one of its keys is its own.
\<close>

definition pf_sound :: "string \<Rightarrow> string \<Rightarrow> event_store \<Rightarrow> portfolio \<Rightarrow> bool" where
  "pf_sound pm now s p \<longleftrightarrow> ledger_inv s \<and> \<not> es_closed s \<and> \<not> py_strip_empty pm \<and> length pm \<le> MAX_PF_ID_LENGTH \<and>
     pf.recovered pm now s p \<and>
     (\<forall>e\<in>set (es_events s). \<forall>key. idempotency_key e = Some (PF_SOURCE_TAG @ '':'' @ pm @ '':'' @ key) \<longrightarrow>
        pf_is_own_event e pm)"

lemma pf_fold_frame:
  "fold_log (\<lambda>e. pf_is_own_event e pm) pf_apply_event evs (pf_init pm now) = Inr p \<Longrightarrow>
   pf_pm_id p = pm \<and> pf_applied_event_ids p = event_id ` {e \<in> set evs. pf_is_own_event e pm}"
proof (induction evs arbitrary: p rule: rev_induct)
  case (snoc e evs)
  then obtain q where q: "fold_log (\<lambda>e. pf_is_own_event e pm) pf_apply_event evs (pf_init pm now) = Inr q"
    by (auto simp: fold_log_append prog_simps)
  with snoc show ?case
    by (auto simp: fold_log_append split: if_splits prod.splits sum.splits dest!: pf_apply_eventD)
qed (simp add: pf_init_def)

lemma pf_sound_applied:
  assumes "pf_sound pm now s p"
  shows "pf_pm_id p = pm" "pf_applied_event_ids p = event_id ` {e \<in> set (es_events s). pf_is_own_event e pm}"
  using assms pf_fold_frame by (auto simp: pf_sound_def pf.recovered_def)

text \<open>What is recorded under a key of the manager has been applied already.\<close>

lemma pf_cached_applied:
  assumes "pf_sound pm now s p" "get_by_idempotency_key s (pf_namespaced_key p key) = Some e"
  shows "pf_apply_event e p = (Inr (pf_snapshot p), p)"
proof -
  have "e \<in> set (es_events s)" "idempotency_key e = Some (pf_namespaced_key p key)"
    using assms by (auto simp: pf_sound_def get_by_key_iff)
  then have "event_id e \<in> pf_applied_event_ids p"
    using assms(1) pf_sound_applied [OF assms(1)] by (auto simp: pf_sound_def pf_namespaced_key_def)
  then show ?thesis by (simp add: pf_apply_event_def)
qed

lemma pf_once_sound:
  assumes "pf_once E key g a d (s, p) = (r, (s', p'))" "pf_sound pm now s p" "r \<noteq> Inl AccountingInvariantError"
    and act: "\<And>q q' x. pf_apply_action (VStr a) d q \<noteq> (Inl x, q')"
  shows "pf_sound pm now s' p'"
proof -
  have inv: "ledger_inv s" and rec: "pf.recovered pm now s p"
    and own: "\<forall>e\<in>set (es_events s). \<forall>key. idempotency_key e = Some (PF_SOURCE_TAG @ '':'' @ pm @ '':'' @ key) \<longrightarrow>
        pf_is_own_event e pm"
    using assms(2) by (simp_all add: pf_sound_def)
  note pm = pf_sound_applied(1) [OF assms(2)]
  show ?thesis using assms(1)
  proof (cases rule: pf_once_cases)
    case (cached e)
    then show ?thesis using pf_cached_applied [OF assms(2) cached(1)] assms(2) by simp
  next
    case (unrecorded x)
    then show ?thesis
      using assms(2) es.put_inv [OF inv unrecorded(2)] append_keeps_open [OF unrecorded(2) inv]
        pf.persist_failed [OF inv rec unrecorded(2)] es.put_fail [OF inv unrecorded(2)]
      by (simp add: pf_sound_def)
  next
    case (recorded e)
    note put = es.put_miss [OF inv recorded(3)]
    have e: "es_events s' = es_events s @ [e]" "payload e = pf_payload pm a d" "pf_is_own_event e pm"
      using put recorded(1) pm by (auto simp: pf_is_own_event_def)
    obtain sn where "r = Inr sn"
    proof (cases r)
      case (Inl x)
      then have "x = AccountingInvariantError"
        using recorded(4) pf_apply_event_error [OF _ e(2) act] by blast
      with Inl assms(3) show ?thesis by simp
    qed
    then show ?thesis
      using assms(2) own e es.put_inv [OF inv recorded(3)] append_keeps_open [OF recorded(3) inv]
        pf.persist_then_apply [OF inv rec recorded(3,1) e(3), of sn p'] recorded(4)
      by (auto simp: pf_sound_def)
  qed (use assms(2) in simp)
qed

lemma pf_action_total:
  "pf_apply_action (VStr (req_action req)) (req_details req) q \<noteq> (Inl x, q')"
  by (cases req) (simp_all add: pf_apply_action_def Let_def)

lemma pf_call_sound:
  assumes "pf_call E req (s, p) = (r, (s', p'))" "pf_sound pm now s p" "r \<noteq> Inl AccountingInvariantError"
  shows "pf_sound pm now s' p'"
  using assms pf_once_sound [OF _ assms(2,3) pf_action_total]
  by (auto simp: pf_call_eq split: if_splits)

section \<open>Exact arithmetic\<close>

text \<open>
  As long as every amount is a multiple of \<open>10 ^ - k\<close> and the sums stay below 28 digits, no addition
  rounds.  \<open>T\<close> bounds the money that has moved so far.
\<close>

definition msum :: "(string \<rightharpoonup> decimal) \<Rightarrow> decimal" where
  "msum m = (\<Sum>k\<in>dom m. dec_at m k)"

lemma dec_at_upd [simp]: "dec_at (m(k := v)) k' = (if k' = k then (case v of None \<Rightarrow> 0 | Some x \<Rightarrow> x) else dec_at m k')"
  by (simp add: dec_at_def)

lemma msum_remove: "finite (dom m) \<Longrightarrow> msum (m(k := None)) = msum m - dec_at m k"
proof (cases "k \<in> dom m")
  case True
  assume f: "finite (dom m)"
  have "msum (m(k := None)) = (\<Sum>x\<in>dom m - {k}. dec_at m x)"
    unfolding msum_def by (rule sum.cong) auto
  also have "\<dots> = msum m - dec_at m k"
    using f True by (simp add: msum_def sum_diff1)
  finally show ?thesis .
next
  case False
  then have "m(k := None) = m" "dec_at m k = 0" by (auto simp: dec_at_def dom_def)
  then show ?thesis by simp
qed

lemma msum_update: "finite (dom m) \<Longrightarrow> msum (m(k \<mapsto> v)) = msum m - dec_at m k + v"
proof -
  assume f: "finite (dom m)"
  have "msum (m(k \<mapsto> v)) = v + msum (m(k := None))"
    using f unfolding msum_def by (simp add: dom_fun_upd sum.insert_remove Diff_insert [symmetric])
  then show ?thesis using msum_remove [OF f, of k] by simp
qed

lemma dec_at_le_msum:
  assumes "finite (dom m)" "\<forall>k. 0 \<le> dec_at m k"
  shows "dec_at m k \<le> msum m"
proof (cases "k \<in> dom m")
  case True
  then show ?thesis using assms member_le_sum [of k "dom m" "dec_at m"] by (simp add: msum_def)
next
  case False
  then have "dec_at m k = 0" by (auto simp: dec_at_def dom_def)
  then show ?thesis using assms by (simp add: msum_def sum_nonneg)
qed

definition pf_exact :: "nat \<Rightarrow> decimal \<Rightarrow> portfolio \<Rightarrow> bool" where
  "pf_exact k T p \<longleftrightarrow>
     list_all (on_grid k) [pf_available_cash p, pf_reserved_margin p, pf_used_margin p, pf_unrealized_pnl p,
       pf_realized_pnl_cumulative p, pf_funding_cumulative p, pf_fees_cumulative p,
       pf_deposits_cumulative p, pf_withdrawals_cumulative p] \<and>
     pf_available_cash p + pf_reserved_margin p + pf_used_margin p =
       pf_deposits_cumulative p - pf_withdrawals_cumulative p + pf_realized_pnl_cumulative p +
       pf_funding_cumulative p - pf_fees_cumulative p \<and>
     \<bar>pf_deposits_cumulative p\<bar> + \<bar>pf_withdrawals_cumulative p\<bar> + \<bar>pf_realized_pnl_cumulative p\<bar> +
       \<bar>pf_funding_cumulative p\<bar> + \<bar>pf_fees_cumulative p\<bar> \<le> T \<and>
     0 \<le> pf_reserved_margin p \<and> 0 \<le> pf_used_margin p \<and> pf_reserved_margin p + pf_used_margin p \<le> T \<and>
     finite (dom (pf_reserved_by_position p)) \<and> finite (dom (pf_used_by_position p)) \<and>
     (\<forall>q. 0 \<le> dec_at (pf_reserved_by_position p) q \<and> on_grid k (dec_at (pf_reserved_by_position p) q)) \<and>
     (\<forall>q. 0 \<le> dec_at (pf_used_by_position p) q \<and> on_grid k (dec_at (pf_used_by_position p) q)) \<and>
     msum (pf_reserved_by_position p) = pf_reserved_margin p \<and>
     msum (pf_used_by_position p) = pf_used_margin p"

definition roomy :: "nat \<Rightarrow> decimal \<Rightarrow> bool" where
  "roomy k B \<longleftrightarrow> B * 10 ^ k < 10 ^ 28"

lemma roomy_fits: "roomy k B \<Longrightarrow> on_grid k x \<Longrightarrow> \<bar>x\<bar> \<le> B \<Longrightarrow> fits k x"
  unfolding roomy_def fits_def by (meson le_less_trans mult_right_mono zero_le_numeral zero_le_power)

lemma dadd_roomy: "roomy k B \<Longrightarrow> on_grid k x \<Longrightarrow> on_grid k y \<Longrightarrow> \<bar>x + y\<bar> \<le> B \<Longrightarrow> dadd x y = x + y"
  by (rule dadd_fits [OF roomy_fits]) auto

lemma dsub_roomy: "roomy k B \<Longrightarrow> on_grid k x \<Longrightarrow> on_grid k y \<Longrightarrow> \<bar>x - y\<bar> \<le> B \<Longrightarrow> dsub x y = x - y"
  by (rule dsub_fits [OF roomy_fits]) auto

lemma abs_flows:
  fixes a b c d e T :: rat
  assumes "\<bar>a\<bar> + \<bar>b\<bar> + \<bar>c\<bar> + \<bar>d\<bar> + \<bar>e\<bar> \<le> T"
  shows "\<bar>a - b\<bar> \<le> T" "\<bar>a - b + c\<bar> \<le> T" "\<bar>a - b + c + d\<bar> \<le> T" "\<bar>a - b + c + d - e\<bar> \<le> T"
  using abs_triangle_ineq4 [of a b] abs_triangle_ineq [of "a - b" c]
    abs_triangle_ineq [of "a - b + c" d] abs_triangle_ineq4 [of "a - b + c + d" e] assms
    abs_ge_zero [of c] abs_ge_zero [of d] abs_ge_zero [of e]
  by linarith+

text \<open>The facts of the exact regime, in the form the proofs use.\<close>

lemma pf_exactD:
  assumes "pf_exact k T p"
  shows "on_grid k (pf_available_cash p)" "on_grid k (pf_reserved_margin p)" "on_grid k (pf_used_margin p)"
    "on_grid k (pf_unrealized_pnl p)" "on_grid k (pf_realized_pnl_cumulative p)" "on_grid k (pf_funding_cumulative p)"
    "on_grid k (pf_fees_cumulative p)" "on_grid k (pf_deposits_cumulative p)" "on_grid k (pf_withdrawals_cumulative p)"
    and "pf_available_cash p + pf_reserved_margin p + pf_used_margin p =
       pf_deposits_cumulative p - pf_withdrawals_cumulative p + pf_realized_pnl_cumulative p +
       pf_funding_cumulative p - pf_fees_cumulative p"
    and "\<bar>pf_deposits_cumulative p\<bar> + \<bar>pf_withdrawals_cumulative p\<bar> + \<bar>pf_realized_pnl_cumulative p\<bar> +
       \<bar>pf_funding_cumulative p\<bar> + \<bar>pf_fees_cumulative p\<bar> \<le> T"
    and "0 \<le> pf_reserved_margin p" "0 \<le> pf_used_margin p" "pf_reserved_margin p + pf_used_margin p \<le> T"
  using assms by (simp_all add: pf_exact_def)

lemma pf_exact_cash:
  assumes "pf_exact k T p"
  shows "0 \<le> T" "\<bar>pf_available_cash p\<bar> \<le> 2 * T" "\<bar>pf_available_cash p + pf_reserved_margin p\<bar> \<le> 2 * T"
    "\<bar>pf_available_cash p + pf_reserved_margin p + pf_used_margin p\<bar> \<le> T"
proof -
  note e = pf_exactD(10-) [OF assms]
  have flow: "\<bar>pf_available_cash p + pf_reserved_margin p + pf_used_margin p\<bar> \<le> T"
    unfolding e(1) by (rule abs_flows(4) [OF e(2)])
  with e(3-5) show "0 \<le> T" "\<bar>pf_available_cash p\<bar> \<le> 2 * T" "\<bar>pf_available_cash p + pf_reserved_margin p\<bar> \<le> 2 * T"
    "\<bar>pf_available_cash p + pf_reserved_margin p + pf_used_margin p\<bar> \<le> T"
    by linarith+
qed

text \<open>In the exact regime the totals are the true sums, and the check passes.\<close>

lemma pf_exact_totals:
  assumes "pf_exact k T p" "roomy k (3 * T + \<bar>pf_unrealized_pnl p\<bar>)"
  shows "assets (pf_snapshot p) =
           pf_available_cash p + pf_reserved_margin p + pf_used_margin p + pf_unrealized_pnl p"
    and "equity (pf_snapshot p) =
           pf_deposits_cumulative p - pf_withdrawals_cumulative p + pf_realized_pnl_cumulative p +
           pf_funding_cumulative p - pf_fees_cumulative p + pf_unrealized_pnl p"
    and "assert_invariant (pf_snapshot p) = Inr ()"
proof -
  let ?B = "3 * T + \<bar>pf_unrealized_pnl p\<bar>" and ?d = "pf_deposits_cumulative p - pf_withdrawals_cumulative p"
  note g = pf_exactD(1-9) [OF assms(1)] and e = pf_exactD(10,11) [OF assms(1)] and c = pf_exact_cash [OF assms(1)]
  note f = abs_flows [OF e(2)]
  have u: "\<bar>x\<bar> \<le> 2 * T \<Longrightarrow> \<bar>x\<bar> \<le> ?B" "\<bar>x\<bar> \<le> T \<Longrightarrow> \<bar>x\<bar> \<le> ?B"
    "\<bar>x\<bar> \<le> T \<Longrightarrow> \<bar>x + pf_unrealized_pnl p\<bar> \<le> ?B" for x
    using c(1) abs_triangle_ineq [of x "pf_unrealized_pnl p"] abs_ge_zero [of "pf_unrealized_pnl p"] by linarith+
  note add = dadd_roomy [OF assms(2)] and sub = dsub_roomy [OF assms(2)]
  show A: "assets (pf_snapshot p) =
      pf_available_cash p + pf_reserved_margin p + pf_used_margin p + pf_unrealized_pnl p"
    using c g by (simp add: assets_def pf_snapshot_def add u on_grid_add)
  show E: "equity (pf_snapshot p) = ?d + pf_realized_pnl_cumulative p + pf_funding_cumulative p -
      pf_fees_cumulative p + pf_unrealized_pnl p"
    using f g by (simp add: equity_def wallet_balance_def pf_snapshot_def add sub u on_grid_add on_grid_diff)
  have "dround (equity (pf_snapshot p)) = equity (pf_snapshot p)"
    by (simp add: equity_def dadd_def)
  with A E e show "assert_invariant (pf_snapshot p) = Inr ()"
    by (simp add: assert_invariant_def liabilities_def dadd_def)
qed

fun req_flow :: "pf_request \<Rightarrow> decimal" where
  "req_flow (Deposit a r) = \<bar>a\<bar>"
| "req_flow (Withdraw a r) = \<bar>a\<bar>"
| "req_flow (Reserve pid a r) = \<bar>a\<bar>"
| "req_flow (RealizedPnl pid leg a r) = \<bar>a\<bar>"
| "req_flow (Funding pid f a r) = \<bar>a\<bar>"
| "req_flow (Fee ref f a r) = \<bar>a\<bar>"
| "req_flow _ = 0"

fun req_amount :: "pf_request \<Rightarrow> decimal" where
  "req_amount (Deposit a r) = a"
| "req_amount (Withdraw a r) = a"
| "req_amount (Reserve pid a r) = a"
| "req_amount (Allocate pid a r) = a"
| "req_amount (Release pid r) = 0"
| "req_amount (RealizedPnl pid leg a r) = a"
| "req_amount (Funding pid f a r) = a"
| "req_amount (Fee ref f a r) = a"
| "req_amount (Marks u x h r) = u"

fun req_mark :: "pf_request \<Rightarrow> decimal \<Rightarrow> decimal" where
  "req_mark (Marks u x h r) v = u"
| "req_mark _ v = v"

lemma req_flow_nonneg [simp]: "0 \<le> req_flow req"
  by (cases req) simp_all

lemma below_thrice:
  fixes T :: rat
  shows "y \<le> x + a \<Longrightarrow> x \<le> 2 * T \<Longrightarrow> 0 \<le> T \<Longrightarrow> 0 \<le> a \<Longrightarrow> y \<le> 3 * T + 3 * a"
  by linarith

text \<open>Money coming in or going out.\<close>

lemma pf_exact_flow:
  assumes "pf_exact k T p" "on_grid k a" "roomy k (3 * T + 3 * \<bar>a\<bar>)"
  defines "c \<equiv> pf_available_cash p"
  shows "pf_exact k (T + \<bar>a\<bar>) (p\<lparr>pf_available_cash := dadd c a,
           pf_deposits_cumulative := dadd (pf_deposits_cumulative p) a\<rparr>)"
    and "pf_exact k (T + \<bar>a\<bar>) (p\<lparr>pf_available_cash := dsub c a,
           pf_withdrawals_cumulative := dadd (pf_withdrawals_cumulative p) a\<rparr>)"
    and "pf_exact k (T + \<bar>a\<bar>) (p\<lparr>pf_available_cash := dadd c a,
           pf_realized_pnl_cumulative := dadd (pf_realized_pnl_cumulative p) a\<rparr>)"
    and "pf_exact k (T + \<bar>a\<bar>) (p\<lparr>pf_available_cash := dadd c a,
           pf_funding_cumulative := dadd (pf_funding_cumulative p) a\<rparr>)"
    and "pf_exact k (T + \<bar>a\<bar>) (p\<lparr>pf_available_cash := dsub c a,
           pf_fees_cumulative := dadd (pf_fees_cumulative p) a\<rparr>)"
proof -
  note g = pf_exactD(1-9) [OF assms(1)] and e = pf_exactD(10-) [OF assms(1)] and cash = pf_exact_cash [OF assms(1)]
  have b: "\<bar>x + a\<bar> \<le> 3 * T + 3 * \<bar>a\<bar>" if "\<bar>x\<bar> \<le> 2 * T" for x
    by (rule below_thrice [OF abs_triangle_ineq that cash(1) abs_ge_zero])
  have b': "\<bar>x - a\<bar> \<le> 3 * T + 3 * \<bar>a\<bar>" if "\<bar>x\<bar> \<le> 2 * T" for x
    by (rule below_thrice [OF abs_triangle_ineq4 that cash(1) abs_ge_zero])
  have small: "\<bar>pf_deposits_cumulative p\<bar> \<le> 2 * T" "\<bar>pf_withdrawals_cumulative p\<bar> \<le> 2 * T"
    "\<bar>pf_realized_pnl_cumulative p\<bar> \<le> 2 * T" "\<bar>pf_funding_cumulative p\<bar> \<le> 2 * T" "\<bar>pf_fees_cumulative p\<bar> \<le> 2 * T"
    using e(2) cash(1) abs_ge_zero [of "pf_deposits_cumulative p"] abs_ge_zero [of "pf_withdrawals_cumulative p"]
      abs_ge_zero [of "pf_realized_pnl_cumulative p"] abs_ge_zero [of "pf_funding_cumulative p"]
      abs_ge_zero [of "pf_fees_cumulative p"] by linarith+
  note add = dadd_roomy [OF assms(3) _ assms(2) b] and sub = dsub_roomy [OF assms(3) _ assms(2) b']
  have tri: "\<bar>x + a\<bar> \<le> \<bar>x\<bar> + \<bar>a\<bar>" for x by (rule abs_triangle_ineq)
  note ts = tri [of "pf_deposits_cumulative p"] tri [of "pf_withdrawals_cumulative p"]
    tri [of "pf_realized_pnl_cumulative p"] tri [of "pf_funding_cumulative p"] tri [of "pf_fees_cumulative p"]
  show "pf_exact k (T + \<bar>a\<bar>) (p\<lparr>pf_available_cash := dadd c a,
           pf_deposits_cumulative := dadd (pf_deposits_cumulative p) a\<rparr>)"
    using assms(1,2) add [OF g(1) cash(2)] add [OF g(8) small(1)] ts(1)
    unfolding pf_exact_def c_def by (auto simp: on_grid_add)
  show "pf_exact k (T + \<bar>a\<bar>) (p\<lparr>pf_available_cash := dsub c a,
           pf_withdrawals_cumulative := dadd (pf_withdrawals_cumulative p) a\<rparr>)"
    using assms(1,2) sub [OF g(1) cash(2)] add [OF g(9) small(2)] ts(2)
    unfolding pf_exact_def c_def by (auto simp: on_grid_add on_grid_diff)
  show "pf_exact k (T + \<bar>a\<bar>) (p\<lparr>pf_available_cash := dadd c a,
           pf_realized_pnl_cumulative := dadd (pf_realized_pnl_cumulative p) a\<rparr>)"
    using assms(1,2) add [OF g(1) cash(2)] add [OF g(5) small(3)] ts(3)
    unfolding pf_exact_def c_def by (auto simp: on_grid_add)
  show "pf_exact k (T + \<bar>a\<bar>) (p\<lparr>pf_available_cash := dadd c a,
           pf_funding_cumulative := dadd (pf_funding_cumulative p) a\<rparr>)"
    using assms(1,2) add [OF g(1) cash(2)] add [OF g(6) small(4)] ts(4)
    unfolding pf_exact_def c_def by (auto simp: on_grid_add)
  show "pf_exact k (T + \<bar>a\<bar>) (p\<lparr>pf_available_cash := dsub c a,
           pf_fees_cumulative := dadd (pf_fees_cumulative p) a\<rparr>)"
    using assms(1,2) sub [OF g(1) cash(2)] add [OF g(7) small(5)] ts(5)
    unfolding pf_exact_def c_def by (auto simp: on_grid_add on_grid_diff)
qed

text \<open>What a position holds, in the exact regime.\<close>

lemma pf_exact_position:
  assumes "pf_exact k T p"
  shows "0 \<le> dec_at (pf_reserved_by_position p) q" "0 \<le> dec_at (pf_used_by_position p) q"
    "dec_at (pf_reserved_by_position p) q \<le> pf_reserved_margin p"
    "dec_at (pf_used_by_position p) q \<le> pf_used_margin p"
    "on_grid k (dec_at (pf_reserved_by_position p) q)" "on_grid k (dec_at (pf_used_by_position p) q)"
  using assms dec_at_le_msum [of "pf_reserved_by_position p" q] dec_at_le_msum [of "pf_used_by_position p" q]
  by (simp_all add: pf_exact_def)

lemma pf_exact_margins:
  assumes "pf_exact k T p"
  shows "finite (dom (pf_reserved_by_position p))" "finite (dom (pf_used_by_position p))"
    "msum (pf_reserved_by_position p) = pf_reserved_margin p" "msum (pf_used_by_position p) = pf_used_margin p"
  using assms
  by (simp_all add: pf_exact_def)

text \<open>Margin moving between cash, reserve and use.\<close>

lemma pf_exact_reserve:
  assumes "pf_exact k T p" "on_grid k a" "0 < a" "roomy k (3 * T + 3 * \<bar>a\<bar>)"
  shows "pf_exact k (T + \<bar>a\<bar>) (p\<lparr>pf_available_cash := dsub (pf_available_cash p) a,
           pf_reserved_margin := dadd (pf_reserved_margin p) a,
           pf_reserved_by_position := (pf_reserved_by_position p)(q \<mapsto> dadd (dec_at (pf_reserved_by_position p) q) a)\<rparr>)"
proof -
  note g = pf_exactD(1-9) [OF assms(1)] and e = pf_exactD(10-) [OF assms(1)] and cash = pf_exact_cash [OF assms(1)]
  note pos = pf_exact_position [OF assms(1), of q]
  have "dsub (pf_available_cash p) a = pf_available_cash p - a"
    by (intro dsub_roomy [OF assms(4)] g assms(2) below_thrice [OF abs_triangle_ineq4 cash(2,1) abs_ge_zero])
  moreover have "dadd (pf_reserved_margin p) a = pf_reserved_margin p + a"
    using cash(1) e(3-5) assms(3) by (intro dadd_roomy [OF assms(4)] g assms(2)) linarith
  moreover have "dadd (dec_at (pf_reserved_by_position p) q) a = dec_at (pf_reserved_by_position p) q + a"
    using cash(1) pos(1,3) e(3-5) assms(3) by (intro dadd_roomy [OF assms(4)] pos assms(2)) linarith
  ultimately show ?thesis
    using assms(1-3) pos pf_exact_margins [OF assms(1)] e(3-5) by (simp add: pf_exact_def on_grid_add on_grid_diff msum_update)
qed

lemma pf_exact_allocate:
  assumes "pf_exact k T p" "on_grid k a" "0 < a" "a \<le> dec_at (pf_reserved_by_position p) q" "roomy k (3 * T)"
  shows "pf_exact k T (p\<lparr>pf_reserved_margin := dsub (pf_reserved_margin p) a,
           pf_used_margin := dadd (pf_used_margin p) a,
           pf_reserved_by_position := (pf_reserved_by_position p)(q \<mapsto> dsub (dec_at (pf_reserved_by_position p) q) a),
           pf_used_by_position := (pf_used_by_position p)(q \<mapsto> dadd (dec_at (pf_used_by_position p) q) a),
           pf_open_position_ids := insert q (pf_open_position_ids p)\<rparr>)"
proof -
  note g = pf_exactD(1-9) [OF assms(1)] and e = pf_exactD(10-) [OF assms(1)] and cash = pf_exact_cash [OF assms(1)]
  note pos = pf_exact_position [OF assms(1), of q]
  have "dsub (pf_reserved_margin p) a = pf_reserved_margin p - a"
    using cash(1) e(3-5) assms(3,4) pos(3) by (intro dsub_roomy [OF assms(5)] g assms(2)) linarith
  moreover have "dadd (pf_used_margin p) a = pf_used_margin p + a"
    using cash(1) e(3-5) assms(3,4) pos(3) by (intro dadd_roomy [OF assms(5)] g assms(2)) linarith
  moreover have "dsub (dec_at (pf_reserved_by_position p) q) a = dec_at (pf_reserved_by_position p) q - a"
    using cash(1) pos(1,3) e(3-5) assms(3,4) by (intro dsub_roomy [OF assms(5)] pos assms(2)) linarith
  moreover have "dadd (dec_at (pf_used_by_position p) q) a = dec_at (pf_used_by_position p) q + a"
    using cash(1) pos(2,3,4) e(3-5) assms(3,4) by (intro dadd_roomy [OF assms(5)] pos assms(2)) linarith
  ultimately show ?thesis
    using assms(1-4) pos pf_exact_margins [OF assms(1)] e(3-5) by (simp add: pf_exact_def on_grid_add on_grid_diff msum_update)
qed

lemma pf_exact_release:
  fixes q :: string
  assumes "pf_exact k T p" "roomy k (3 * T)"
  defines "r \<equiv> dec_at (pf_reserved_by_position p) q" and "u \<equiv> dec_at (pf_used_by_position p) q"
  shows "pf_exact k T (p\<lparr>pf_reserved_by_position := (pf_reserved_by_position p)(q := None),
           pf_used_by_position := (pf_used_by_position p)(q := None),
           pf_reserved_margin := dsub (pf_reserved_margin p) r, pf_used_margin := dsub (pf_used_margin p) u,
           pf_available_cash := dadd (pf_available_cash p) (dadd r u),
           pf_released_positions := insert q (pf_released_positions p),
           pf_open_position_ids := pf_open_position_ids p - {q}\<rparr>)"
proof -
  note g = pf_exactD(1-9) [OF assms(1)] and e = pf_exactD(10-) [OF assms(1)] and cash = pf_exact_cash [OF assms(1)]
  note pos = pf_exact_position [OF assms(1), of q, folded r_def u_def]
  have "dsub (pf_reserved_margin p) r = pf_reserved_margin p - r"
    using cash(1) e(3-5) pos(1,3) by (intro dsub_roomy [OF assms(2)] g pos) linarith
  moreover have "dsub (pf_used_margin p) u = pf_used_margin p - u"
    using cash(1) e(3-5) pos(2,4) by (intro dsub_roomy [OF assms(2)] g pos) linarith
  moreover have "dadd r u = r + u"
    using cash(1) e(3-5) pos(1-4) by (intro dadd_roomy [OF assms(2)] pos) linarith
  moreover have "dadd (pf_available_cash p) (r + u) = pf_available_cash p + (r + u)"
    using cash(1,2) e(3-5) pos(1-4) by (intro dadd_roomy [OF assms(2)] g on_grid_add pos(5,6)) linarith
  moreover have "pf_reserved_margin p - r + (pf_used_margin p - u) \<le> T" using e(5) pos(1,2) by linarith
  ultimately show ?thesis
    using assms(1) pos pf_exact_margins [OF assms(1)] e(3-5) by (simp add: pf_exact_def on_grid_add on_grid_diff msum_remove r_def u_def)
qed

lemma pf_exact_cong:
  "pf_exact k T (p\<lparr>pf_applied_event_ids := A\<rparr>) \<longleftrightarrow> pf_exact k T p"
  "pf_exact k T (p\<lparr>pf_updated_at_utc := t\<rparr>) \<longleftrightarrow> pf_exact k T p"
  by (simp_all add: pf_exact_def)

lemma pf_action_exact:
  assumes "pf_exact k T p" "req_valid req" "req_guard req p = None" "on_grid k (req_amount req)"
    and "roomy k (3 * T + 3 * req_flow req)"
  shows "\<exists>p'. pf_apply_action (VStr (req_action req)) (req_details req) p = (Inr (), p') \<and>
     pf_exact k (T + req_flow req) p' \<and> pf_unrealized_pnl p' = req_mark req (pf_unrealized_pnl p)"
proof (cases req)
  case (Marks u x h r)
  with assms(1,4) show ?thesis by (simp add: pf_apply_action_def pf_exact_def)
next
  case (Reserve pid a r)
  with assms pf_exact_reserve [of k T p a pid] show ?thesis by (simp add: pf_apply_action_def)
next
  case (Allocate pid a r)
  with assms pf_exact_allocate [of k T p a pid] show ?thesis by (simp add: pf_apply_action_def split: if_splits)
next
  case (Release pid r)
  with assms pf_exact_release [of k T p pid] show ?thesis by (simp add: pf_apply_action_def Let_def)
qed (use assms pf_exact_flow [of k T p "req_amount req"] in \<open>simp_all add: pf_apply_action_def\<close>)

end
