(* ===== verification/Portfolio_Ledger.thy ===== *)
theory Portfolio_Ledger
  imports Portfolio_Manager
begin

text \<open>
  Properties of the portfolio ledger: recovery from the log, requests that take effect once, no
  overdraft, the accounting identity where the arithmetic is exact, and two inputs on which the
  ledger does not do what it means to do.
\<close>

section \<open>Life of a manager\<close>

definition pf_key_of :: "string \<Rightarrow> string \<Rightarrow> string" where
  "pf_key_of pm k = PF_SOURCE_TAG @ '':'' @ pm @ '':'' @ k"

definition own_keys :: "string \<Rightarrow> event_store \<Rightarrow> bool" where
  "own_keys pm s \<longleftrightarrow> (\<forall>e\<in>set (es_events s). \<forall>key.
     idempotency_key e = Some (pf_key_of pm key) \<longrightarrow> pf_is_own_event e pm)"

text \<open>
  A step is a request that does not trip the accounting check, or an append by another component,
  which neither tags its payload as this manager's nor uses a key in this manager's namespace.
\<close>

definition pf_foreign :: "string \<Rightarrow> dict \<Rightarrow> string option \<Rightarrow> bool" where
  "pf_foreign pm pl key \<longleftrightarrow>
     (dget pl ''source'' \<noteq> VStr PF_SOURCE_TAG \<or> dget pl ''pm_id'' \<noteq> VStr pm) \<and> (\<forall>k. key \<noteq> Some (pf_key_of pm k))"

inductive pf_step :: "env \<Rightarrow> string \<Rightarrow> pf_world \<Rightarrow> pf_world \<Rightarrow> bool" for E pm where
  request: "pf_call E req (s, p) = (r, (s', p')) \<Longrightarrow> r \<noteq> Inl AccountingInvariantError \<Longrightarrow>
    pf_step E pm (s, p) (s', p')"
| foreign: "append_event E ty pl key sv s = (r, s') \<Longrightarrow> pf_foreign pm pl key \<Longrightarrow> pf_step E pm (s, p) (s', p)"

inductive_cases pf_stepE: "pf_step E pm (s, p) (s', p')"

definition pf_run :: "env \<Rightarrow> string \<Rightarrow> string \<Rightarrow> pf_world \<Rightarrow> bool" where
  "pf_run E pm now sp \<longleftrightarrow> (\<exists>s0 p0. ledger_inv s0 \<and> own_keys pm s0 \<and> PortfolioManager s0 pm now = Inr p0 \<and>
     (pf_step E pm)\<^sup>*\<^sup>* (s0, p0) sp)"

lemma pf_construct_iff:
  "ledger_inv s \<Longrightarrow> own_keys pm s \<Longrightarrow> PortfolioManager s pm now = Inr p \<longleftrightarrow> pf_sound pm now s p"
  by (auto simp: PortfolioManager_def pf_sound_def replay_all [simplified] pf.recovered_def own_keys_def pf_key_of_def prog_simps
      split: if_splits)

lemma pf_foreign_sound:
  assumes "append_event E ty pl key sv s = (r, s')" "pf_sound pm now s p" "pf_foreign pm pl key"
  shows "pf_sound pm now s' p"
proof -
  have inv: "ledger_inv s" and rec: "pf.recovered pm now s p"
    using assms(2) by (simp_all add: pf_sound_def)
  from es.put_log_grows [OF inv assms(1)] obtain new where
    new: "es_events s' = es_events s @ new" "\<forall>e\<in>set new. idempotency_key e = key" by blast
  show ?thesis
    using assms(2) es.put_inv [OF inv assms(1)] append_keeps_open [OF assms(1) inv] new
      pf.persist_foreign [OF inv rec assms(1)] assms(3)
    by (auto simp: pf_foreign_def pf_sound_def pf_is_own_event_def pf_key_of_def)
qed

lemma pf_sound_inv: "pf_sound pm now s p \<Longrightarrow> ledger_inv s"
  by (simp add: pf_sound_def)

lemma pf_step_sound:
  assumes "pf_step E pm (s, p) (s', p')" "pf_sound pm now s p"
  shows "pf_sound pm now s' p'"
proof (rule pf_stepE [OF assms(1)])
  fix req r
  assume "pf_call E req (s, p) = (r, s', p')" "r \<noteq> Inl AccountingInvariantError"
  from pf_call_sound [OF this(1) assms(2) this(2)] show ?thesis .
next
  fix ty pl key sv r
  assume "append_event E ty pl key sv s = (r, s')" "p' = p" "pf_foreign pm pl key"
  from pf_foreign_sound [OF this(1) assms(2) this(3)] this(2) show ?thesis by simp
qed

lemma pf_steps_sound: "(pf_step E pm)\<^sup>*\<^sup>* (s, p) (s', p') \<Longrightarrow> pf_sound pm now s p \<Longrightarrow> pf_sound pm now s' p'"
  by (induction rule: rtranclp_induct2) (auto intro: pf_step_sound)

lemma pf_run_sound: "pf_run E pm now (s, p) \<Longrightarrow> pf_sound pm now s p"
  using pf_steps_sound by (fastforce simp: pf_run_def pf_construct_iff)

text \<open>Keys stay bound.\<close>

lemma pf_step_keeps_keys:
  assumes "pf_step E pm (s, p) (s', p')" "ledger_inv s" "get_by_idempotency_key s k = Some e"
  shows "get_by_idempotency_key s' k = Some e"
proof (rule pf_stepE [OF assms(1)])
  fix req r
  assume "pf_call E req (s, p) = (r, s', p')"
  then have "s' = s \<or> pf_once E (req_key req) (req_guard req) (req_action req) (req_details req) (s, p) = (r, s', p')"
    by (auto simp: pf_call_eq split: if_splits)
  then show ?thesis
  proof
    assume "pf_once E (req_key req) (req_guard req) (req_action req) (req_details req) (s, p) = (r, s', p')"
    then show ?thesis
    proof (cases rule: pf_once_cases)
      case (unrecorded x)
      then show ?thesis using es.put_keeps_keys [OF assms(2) unrecorded(2) assms(3)] by simp
    next
      case (recorded e')
      then show ?thesis using es.put_keeps_keys [OF assms(2) recorded(3) assms(3)] by simp
    qed (use assms(3) in auto)
  qed (use assms(3) in simp)
next
  fix ty pl key sv r
  assume "append_event E ty pl key sv s = (r, s')"
  from es.put_keeps_keys [OF assms(2) this assms(3)] show ?thesis .
qed

lemma pf_steps_keep_keys:
  assumes "(pf_step E pm)\<^sup>*\<^sup>* (s, p) (s', p')" "pf_sound pm now s p" "get_by_idempotency_key s k = Some e"
  shows "get_by_idempotency_key s' k = Some e \<and> pf_sound pm now s' p'"
  using assms
proof (induction rule: rtranclp_induct2)
  case (step s1 p1 s2 p2)
  then show ?case
    using pf_step_keeps_keys [OF step(2)] pf_step_sound [OF step(2)] pf_sound_inv by blast
qed simp

lemma pf_once_known:
  assumes "pf_sound pm now s p" "get_by_idempotency_key s (pf_namespaced_key p key) = Some e"
  shows "pf_once E key g a d (s, p) = (Inr (pf_snapshot p), (s, p))"
  using pf_cached_applied [OF assms] assms(2) by (simp add: pf_once_def bindP_def pf_get_cached_def)

lemma pf_call_binds_key:
  assumes "pf_call E req (s, p) = (Inr sn, (s', p'))" "pf_sound pm now s p" "\<not> req_done req p"
  shows "\<exists>e. get_by_idempotency_key s' (pf_namespaced_key p (req_key req)) = Some e"
proof -
  have "pf_once E (req_key req) (req_guard req) (req_action req) (req_details req) (s, p) = (Inr sn, (s', p'))"
    using assms(1,3) by (auto simp: pf_call_eq split: if_splits)
  then show ?thesis
  proof (cases rule: pf_once_cases)
    case (recorded e)
    note inv = pf_sound_inv [OF assms(2)]
    from es.put_then_find [OF inv recorded(3)] show ?thesis by blast
  qed auto
qed

section \<open>Construction at another time\<close>

lemma pf_apply_action_time:
  "pf_apply_action a d (p\<lparr>pf_updated_at_utc := t\<rparr>) =
     map_prod id (\<lambda>q. q\<lparr>pf_updated_at_utc := t\<rparr>) (pf_apply_action a d p)"
  by (simp add: pf_apply_action_def Let_def split: sum.split)

lemma pf_apply_event_time:
  assumes "pf_apply_event e p = (Inr sn, p')"
  shows "\<exists>sn' t'. pf_apply_event e (p\<lparr>pf_updated_at_utc := t\<rparr>) = (Inr sn', p'\<lparr>pf_updated_at_utc := t'\<rparr>)"
proof (cases "event_id e \<in> pf_applied_event_ids p")
  case True
  with assms show ?thesis by (auto simp: pf_apply_event_def)
next
  case new: False
  from assms new obtain a where a: "map_of (payload e) ''action'' = Some a"
    by (cases "map_of (payload e) ''action''") (simp_all add: pf_apply_event_def)
  let ?ins = "\<lambda>q. q\<lparr>pf_applied_event_ids := insert (event_id e) (pf_applied_event_ids q)\<rparr>"
  obtain q p1 where act: "pf_apply_action a (dget_dict (payload e) ''details'') (?ins p) = (q, p1)"
    by (meson surj_pair)
  let ?p2 = "p1\<lparr>pf_updated_at_utc := timestamp_utc e\<rparr>"
  from assms pf_apply_event_new [OF new a act] have ok: "q = Inr ()" "p' = ?p2" "assert_invariant (pf_snapshot ?p2) = Inr ()"
    by (auto split: sum.splits)
  have swap: "?ins (p\<lparr>pf_updated_at_utc := t\<rparr>) = ?ins p\<lparr>pf_updated_at_utc := t\<rparr>"
    by (rule portfolio.equality) simp_all
  have "pf_apply_action a (dget_dict (payload e) ''details'') (?ins (p\<lparr>pf_updated_at_utc := t\<rparr>)) =
      (q, p1\<lparr>pf_updated_at_utc := t\<rparr>)"
    unfolding swap using pf_apply_action_time [of a "dget_dict (payload e) ''details''" t "?ins p"] act by simp
  from pf_apply_event_new [OF _ a this] new ok
  have "pf_apply_event e (p\<lparr>pf_updated_at_utc := t\<rparr>) = (Inr (pf_snapshot ?p2), p'\<lparr>pf_updated_at_utc := timestamp_utc e\<rparr>)"
    by simp
  then show ?thesis by blast
qed

lemma pf_fold_time:
  "fold_log own pf_apply_event evs p = Inr q \<Longrightarrow>
   \<exists>t'. fold_log own pf_apply_event evs (p\<lparr>pf_updated_at_utc := t\<rparr>) = Inr (q\<lparr>pf_updated_at_utc := t'\<rparr>)"
proof (induction evs arbitrary: p t)
  case (Cons e evs)
  show ?case
  proof (cases "own e")
    case True
    with Cons.prems obtain sn p1 where e: "pf_apply_event e p = (Inr sn, p1)" "fold_log own pf_apply_event evs p1 = Inr q"
      by (auto split: prod.splits sum.splits)
    from pf_apply_event_time [OF e(1), of t] obtain sn' t' where
      "pf_apply_event e (p\<lparr>pf_updated_at_utc := t\<rparr>) = (Inr sn', p1\<lparr>pf_updated_at_utc := t'\<rparr>)" by blast
    with Cons.IH [OF e(2), of t'] True show ?thesis by simp
  next
    case False
    with Cons show ?thesis by simp
  qed
qed auto

section \<open>Properties\<close>

text \<open>
  Recovery.  After any requests, of any outcome except a tripped accounting check, and any
  appends by the other components, constructing the manager anew from the log succeeds and gives
  every balance, position and guard of the manager in memory; only the time of the last update of a
  ledger without events is the time of the construction.
\<close>

theorem portfolio_recovery:
  assumes "pf_run E pm now (s, p)"
  shows "\<exists>t. PortfolioManager s pm now' = Inr (p\<lparr>pf_updated_at_utc := t\<rparr>)"
proof -
  note sound = pf_run_sound [OF assms]
  then have "fold_log (\<lambda>e. pf_is_own_event e pm) pf_apply_event (es_events s) (pf_init pm now) = Inr p"
    by (simp add: pf_sound_def pf.recovered_def)
  from pf_fold_time [OF this, of now'] obtain t where
    "fold_log (\<lambda>e. pf_is_own_event e pm) pf_apply_event (es_events s) (pf_init pm now') = Inr (p\<lparr>pf_updated_at_utc := t\<rparr>)"
    by (auto simp: pf_init_def)
  then show ?thesis
    using sound replay_all [OF pf_sound_inv [OF sound]] by (auto simp: PortfolioManager_def pf_sound_def)
qed

text \<open>
  Every request takes effect once.  After a request has succeeded, a later request under the
  same key, even with another amount, changes neither the log nor the ledger and answers with the
  current snapshot.
\<close>

theorem portfolio_request_once:
  assumes "pf_run E pm now (s, p)" "pf_call E req (s, p) = (Inr sn, (s1, p1))" "\<not> req_done req p"
    and "(pf_step E pm)\<^sup>*\<^sup>* (s1, p1) (s2, p2)" "req_key req' = req_key req" "req_valid req'"
  shows "pf_call E req' (s2, p2) = (Inr (pf_snapshot p2), (s2, p2))"
proof -
  note sound = pf_run_sound [OF assms(1)]
  note sound1 = pf_call_sound [OF assms(2) sound sum.simps(4)]
  from pf_call_binds_key [OF assms(2) sound assms(3)] obtain e where
    "get_by_idempotency_key s1 (pf_namespaced_key p (req_key req)) = Some e" ..
  with pf_steps_keep_keys [OF assms(4) sound1] have
    k: "get_by_idempotency_key s2 (pf_namespaced_key p (req_key req)) = Some e" and sound2: "pf_sound pm now s2 p2"
    by blast+
  have "pf_namespaced_key p2 = pf_namespaced_key p"
    using pf_sound_applied(1) [OF sound] pf_sound_applied(1) [OF sound2] by (simp add: pf_namespaced_key_def fun_eq_iff)
  with pf_once_known [OF sound2] k assms(5,6) show ?thesis by (simp add: pf_call_eq)
qed

lemma pf_once_guarded:
  "get_by_idempotency_key s (pf_namespaced_key p key) = None \<Longrightarrow> g p = Some x \<Longrightarrow>
   pf_once E key g a d (s, p) = (Inl x, (s, p))"
  by (simp add: pf_once_def bindP_def pf_get_cached_def)

text \<open>The state after a new request: unchanged, or changed by the action and by nothing else.\<close>

lemma pf_call_effect:
  assumes "pf_call E req (s, p) = (res, (s', p'))" "ledger_inv s"
    and "get_by_idempotency_key s (pf_namespaced_key p (req_key req)) = None" "req_guard req p = None"
  obtains "p' = p"
  | p1 t A where "pf_apply_action (VStr (req_action req)) (req_details req) (p\<lparr>pf_applied_event_ids := A\<rparr>) = (Inr (), p1)"
      "p' = p1\<lparr>pf_updated_at_utc := t\<rparr>"
proof (cases "\<not> req_valid req \<or> req_done req p")
  case True
  with assms(1) show ?thesis by (intro that(1)) (auto simp: pf_call_eq split: if_splits)
next
  case False
  with assms(1) have "pf_once E (req_key req) (req_guard req) (req_action req) (req_details req) (s, p) = (res, s', p')"
    by (simp add: pf_call_eq)
  then show ?thesis
  proof (cases rule: pf_once_cases)
    case (recorded e)
    have pl: "payload e = pf_payload (pf_pm_id p) (req_action req) (req_details req)"
      using es.put_miss [OF assms(2) recorded(3)] recorded(1) by auto
    show ?thesis
    proof (cases "event_id e \<in> pf_applied_event_ids p")
      case True
      with recorded(4) show ?thesis by (intro that(1)) (simp add: pf_apply_event_def)
    next
      case False
      let ?p = "p\<lparr>pf_applied_event_ids := insert (event_id e) (pf_applied_event_ids p)\<rparr>"
      obtain q p1 where qp: "pf_apply_action (VStr (req_action req)) (req_details req) ?p = (q, p1)"
        by (meson surj_pair)
      with pf_action_total [of req ?p] have act: "pf_apply_action (VStr (req_action req)) (req_details req) ?p = (Inr (), p1)"
        by (cases q) auto
      with pf_apply_event_new [OF False, of "VStr (req_action req)" "Inr ()" p1] pl recorded(4)
      have "p' = p1\<lparr>pf_updated_at_utc := timestamp_utc e\<rparr>" by (auto split: sum.splits)
      with act show ?thesis by (rule that(2))
    qed
  qed (use assms(3,4) that(1) in auto)
qed

text \<open>
  (C9) No overdraft.  A new withdrawal or reservation is refused, with nothing changed, exactly when
  the amount exceeds the cash, and an allocation when it exceeds what the position has reserved;
  otherwise the cash, or the position's reserve, is not negative afterwards, rounding included.
\<close>

theorem never_overdrawn:
  assumes "pf_run E pm now (s, p)" "req_valid req" "pf_call E req (s, p) = (res, (s', p'))"
    and "get_by_idempotency_key s (pf_namespaced_key p (req_key req)) = None"
  shows "case req of
      Withdraw a r \<Rightarrow>
        if a > pf_available_cash p then res = Inl InsufficientFundsError \<and> s' = s \<and> p' = p
        else 0 \<le> pf_available_cash p'
    | Reserve q a r \<Rightarrow>
        if a > pf_available_cash p then res = Inl InsufficientFundsError \<and> s' = s \<and> p' = p
        else 0 \<le> pf_available_cash p'
    | Allocate q a r \<Rightarrow>
        if a > dec_at (pf_reserved_by_position p) q then res = Inl InsufficientMarginError \<and> s' = s \<and> p' = p
        else 0 \<le> dec_at (pf_reserved_by_position p') q
    | _ \<Rightarrow> True"
proof -
  note inv = pf_sound_inv [OF pf_run_sound [OF assms(1)]]
  have refused: "res = Inl x \<and> s' = s \<and> p' = p" if "req_guard req p = Some x" "\<not> req_done req p" for x
    using pf_once_guarded [OF assms(4), of "req_guard req" x E "req_action req" "req_details req"] assms(2,3) that
    by (simp add: pf_call_eq)
  show ?thesis
  proof (cases "req_guard req p")
    case None
    from assms(3) inv assms(4) None show ?thesis
    proof (cases rule: pf_call_effect)
      case 1
      with None assms(2) show ?thesis by (cases req) (auto split: if_splits)
    next
      case (2 p1 t A)
      with None assms(2) show ?thesis
        by (cases req) (auto simp: pf_apply_action_def dsub_def dround_nonneg split: if_splits)
    qed
  next
    case (Some x)
    with refused [of x] show ?thesis by (cases req) (auto split: if_splits)
  qed
qed

section \<open>The accounting identity\<close>

lemma roomy_mono: "roomy k B \<Longrightarrow> A \<le> B \<Longrightarrow> roomy k A"
  unfolding roomy_def by (meson le_less_trans mult_right_mono zero_le_numeral zero_le_power)

lemma pf_exact_mono: "pf_exact k T p \<Longrightarrow> T \<le> T' \<Longrightarrow> pf_exact k T' p"
  by (auto simp: pf_exact_def)

lemma validate_error: "validate_new_event E pl key sv = Inl x \<Longrightarrow> x = MalformedEventError"
  by (auto simp: validate_new_event_def split: if_splits)

lemma append_error:
  assumes "append_event E ty pl key sv s = (Inl x, s')"
  shows "x \<in> {EventStoreClosedError, MalformedEventError, KeyError, StructError, OSError}"
proof (cases "es_closed s")
  case True
  with assms show ?thesis by (simp add: append_closed)
next
  case False
  show ?thesis
  proof (cases "validate_new_event E pl key sv")
    case (Inl y)
    with assms False validate_error [OF Inl] show ?thesis by (simp add: append_invalid)
  next
    case (Inr u)
    with assms False show ?thesis
      by (auto simp: append_event_def Let_def split: option.splits prod.splits if_splits)
  qed
qed

lemma pf_call_exact:
  assumes "pf_call E req (s, p) = (r, (s', p'))" "pf_sound pm now s p" "pf_exact k T p"
    and "on_grid k (req_amount req)" "roomy k (3 * T + 3 * req_flow req + M)"
    and "\<bar>pf_unrealized_pnl p\<bar> \<le> M" "\<bar>req_mark req (pf_unrealized_pnl p)\<bar> \<le> M"
  shows "r \<noteq> Inl AccountingInvariantError \<and> pf_exact k (T + req_flow req) p' \<and> \<bar>pf_unrealized_pnl p'\<bar> \<le> M"
proof -
  note inv = pf_sound_inv [OF assms(2)]
  have same: "pf_exact k (T + req_flow req) p" by (rule pf_exact_mono [OF assms(3)]) simp
  show ?thesis
  proof (cases "\<not> req_valid req \<or> req_done req p")
    case True
    with assms(1) have "p' = p" "r \<noteq> Inl AccountingInvariantError" by (auto simp: pf_call_eq split: if_splits)
    with same assms(6) show ?thesis by simp
  next
    case False
    with assms(1) have "pf_once E (req_key req) (req_guard req) (req_action req) (req_details req) (s, p) = (r, s', p')"
      by (simp add: pf_call_eq)
    then show ?thesis
    proof (cases rule: pf_once_cases)
      case (cached e)
      with pf_cached_applied [OF assms(2) cached(1)] same assms(6) show ?thesis by simp
    next
      case (guarded x)
      then have "x \<noteq> AccountingInvariantError" by (cases req) (auto split: if_splits)
      with guarded same assms(6) show ?thesis by simp
    next
      case (unrecorded x)
      with append_error [OF unrecorded(2)] same assms(6) show ?thesis by auto
    next
      case (recorded e)
      have pl: "payload e = pf_payload (pf_pm_id p) (req_action req) (req_details req)"
        using es.put_miss [OF inv recorded(3)] recorded(1) by auto
      show ?thesis
      proof (cases "event_id e \<in> pf_applied_event_ids p")
        case True
        with recorded(4) same assms(6) show ?thesis by (auto simp: pf_apply_event_def)
      next
        case new: False
        let ?p = "p\<lparr>pf_applied_event_ids := insert (event_id e) (pf_applied_event_ids p)\<rparr>"
        have "0 \<le> M" using assms(6) abs_ge_zero [of "pf_unrealized_pnl p"] by linarith
        then have "roomy k (3 * T + 3 * req_flow req)" by (intro roomy_mono [OF assms(5)]) simp
        moreover have "req_guard req ?p = None" using recorded(2) by (cases req) auto
        ultimately obtain p1 where act: "pf_apply_action (VStr (req_action req)) (req_details req) ?p = (Inr (), p1)"
          and ex: "pf_exact k (T + req_flow req) p1" and u: "pf_unrealized_pnl p1 = req_mark req (pf_unrealized_pnl p)"
          using pf_action_exact [of k T ?p req] assms(3,4) False by (auto simp: pf_exact_cong)
        let ?p2 = "p1\<lparr>pf_updated_at_utc := timestamp_utc e\<rparr>"
        have ex2: "pf_exact k (T + req_flow req) ?p2" using ex by (simp add: pf_exact_cong)
        have "roomy k (3 * (T + req_flow req) + \<bar>pf_unrealized_pnl ?p2\<bar>)"
          using u assms(7) by (intro roomy_mono [OF assms(5)]) simp
        from pf_exact_totals(3) [OF ex2 this] pf_apply_event_new [OF new, of "VStr (req_action req)" "Inr ()" p1] act pl recorded(4)
        have "r = Inr (pf_snapshot ?p2)" "p' = ?p2" by auto
        with ex2 u assms(7) show ?thesis by simp
      qed
    qed
  qed
qed

fun pf_calls :: "env \<Rightarrow> pf_request list \<Rightarrow> pf_world \<Rightarrow> (exc + portfolio_snapshot) list \<times> pf_world" where
  "pf_calls E [] sp = ([], sp)"
| "pf_calls E (req # reqs) sp =
     (case pf_call E req sp of (r, sp') \<Rightarrow>
      case pf_calls E reqs sp' of (rs, sp'') \<Rightarrow> (r # rs, sp''))"

lemma pf_calls_exact:
  assumes "pf_calls E reqs (s, p) = (rs, (s', p'))" "pf_sound pm now s p" "pf_exact k T p"
    and "\<forall>req\<in>set reqs. on_grid k (req_amount req) \<and> \<bar>req_mark req 0\<bar> \<le> M"
    and "roomy k (3 * T + 3 * sum_list (map req_flow reqs) + M)" "\<bar>pf_unrealized_pnl p\<bar> \<le> M"
  shows "Inl AccountingInvariantError \<notin> set rs \<and> pf_exact k (T + sum_list (map req_flow reqs)) p' \<and>
         \<bar>pf_unrealized_pnl p'\<bar> \<le> M"
  using assms
proof (induction reqs arbitrary: s p T rs)
  case (Cons req reqs)
  obtain r s1 p1 where c: "pf_call E req (s, p) = (r, (s1, p1))" by (metis surj_pair)
  obtain rs1 where cs: "pf_calls E reqs (s1, p1) = (rs1, (s', p'))" and rs: "rs = r # rs1"
    using Cons.prems(1) c by (auto split: prod.splits)
  have nn: "0 \<le> sum_list (map req_flow reqs)" by (induction reqs) auto
  have "\<bar>req_mark req (pf_unrealized_pnl p)\<bar> \<le> M"
    using Cons.prems(4,6) by (cases req) auto
  moreover have "roomy k (3 * T + 3 * req_flow req + M)"
    using nn by (intro roomy_mono [OF Cons.prems(5)]) simp
  ultimately have step: "r \<noteq> Inl AccountingInvariantError \<and> pf_exact k (T + req_flow req) p1 \<and> \<bar>pf_unrealized_pnl p1\<bar> \<le> M"
    using Cons.prems(4,6) by (intro pf_call_exact [OF c Cons.prems(2,3)]) auto
  have "roomy k (3 * (T + req_flow req) + 3 * sum_list (map req_flow reqs) + M)"
    using Cons.prems(5) by (simp add: distrib_left add.assoc)
  from Cons.IH [OF cs pf_call_sound [OF c Cons.prems(2)] _ _ this] step Cons.prems(4) rs show ?case
    by (auto simp: add.assoc)
qed simp

text \<open>
  (C8) Assets equal equity.  Start from a store without events of this manager and make any
  sequence of requests whose amounts are multiples of \<open>10 ^ - k\<close>, such that three times the money
  moved, plus the largest mark, has at most 28 digits on that grid.  Then no request trips the
  accounting check; at the end cash and margins add up to deposits less withdrawals plus realized
  PnL plus funding less fees, exactly; the two totals of the snapshot agree; and reserved and used
  margin are non-negative and the sums of what the positions hold.
\<close>

theorem assets_equal_equity:
  assumes "ledger_inv s" "own_keys pm s" "PortfolioManager s pm now = Inr (pf_init pm now)"
    and "pf_calls E reqs (s, pf_init pm now) = (rs, (s', p'))"
    and "\<forall>req\<in>set reqs. on_grid k (req_amount req) \<and> \<bar>req_mark req 0\<bar> \<le> M" "0 \<le> M"
    and "(3 * sum_list (map req_flow reqs) + M) * 10 ^ k < 10 ^ 28"
  shows "Inl AccountingInvariantError \<notin> set rs \<and>
         pf_available_cash p' + pf_reserved_margin p' + pf_used_margin p' =
           pf_deposits_cumulative p' - pf_withdrawals_cumulative p' + pf_realized_pnl_cumulative p' +
           pf_funding_cumulative p' - pf_fees_cumulative p' \<and>
         assets (pf_snapshot p') = equity (pf_snapshot p') \<and>
         0 \<le> pf_reserved_margin p' \<and> pf_reserved_margin p' = msum (pf_reserved_by_position p') \<and>
         0 \<le> pf_used_margin p' \<and> pf_used_margin p' = msum (pf_used_by_position p')"
proof -
  have sound: "pf_sound pm now s (pf_init pm now)" using pf_construct_iff [OF assms(1,2)] assms(3) by blast
  have start: "pf_exact k 0 (pf_init pm now)" "\<bar>pf_unrealized_pnl (pf_init pm now)\<bar> \<le> M"
    using assms(6) by (simp_all add: pf_exact_def pf_init_def msum_def dec_at_def)
  have "roomy k (3 * 0 + 3 * sum_list (map req_flow reqs) + M)" using assms(7) by (simp add: roomy_def)
  from pf_calls_exact [OF assms(4) sound start(1) assms(5) this start(2)]
  have fin: "Inl AccountingInvariantError \<notin> set rs" "pf_exact k (0 + sum_list (map req_flow reqs)) p'"
      "\<bar>pf_unrealized_pnl p'\<bar> \<le> M"
    by blast+
  have "roomy k (3 * (0 + sum_list (map req_flow reqs)) + \<bar>pf_unrealized_pnl p'\<bar>)"
  proof (rule roomy_mono)
    show "roomy k (3 * sum_list (map req_flow reqs) + M)" using assms(7) by (simp add: roomy_def)
  qed (use fin(3) in simp)
  from pf_exact_totals(1,2) [OF fin(2) this] pf_exactD(10,12,13) [OF fin(2)] pf_exact_margins [OF fin(2)] fin(1)
  show ?thesis by simp
qed

section \<open>Where the ledger fails\<close>

definition lean_env :: env where "lean_env = demo_env\<lparr>json_dumps := \<lambda>_. []\<rparr>"

definition demo_requests :: "pf_request list" where
  "demo_requests = [Deposit 1000 ''d1'', Reserve ''p'' 250 ''r1'', Allocate ''p'' 250 ''a1'',
     Marks (- 12) 900 3 ''m1'', Fee ''o'' ''f'' (1 / 4) ''x'', Release ''p'' ''r2'',
     RealizedPnl ''p'' ''leg'' (- 10) ''x'', Withdraw 2000 ''w1'', Withdraw 100 ''w2'']"

text \<open>A log of three events: a deposit of 100 and two realized gains of 5E-26.\<close>

definition dust :: decimal where "dust = 5 / 10 ^ 26"

definition demo_req :: "nat \<Rightarrow> pf_request" where
  "demo_req i = (if i = 0 then Deposit 100 ''d'' else if i = 1 then RealizedPnl ''p'' ''l1'' dust ''x''
     else RealizedPnl ''p'' ''l2'' dust ''x'')"

definition demo_pf_event :: "nat \<Rightarrow> event" where
  "demo_pf_event i = \<lparr>event_id = i + 1, ev_type = POSITION_UPDATED, timestamp_utc = ''now'', schema_version = 1,
     idempotency_key = Some (pf_key_of ''main'' (req_key (demo_req i))),
     payload = pf_payload ''main'' (req_action (demo_req i)) (req_details (demo_req i))\<rparr>"

fun demo_log :: "nat \<Rightarrow> event_store" where
  "demo_log 0 = demo_empty"
| "demo_log (Suc i) = snd (append_event lean_env POSITION_UPDATED
     (pf_payload ''main'' (req_action (demo_req i)) (req_details (demo_req i)))
     (Some (pf_key_of ''main'' (req_key (demo_req i)))) 1 (demo_log i))"

lemma demo_log_append:
  assumes "i < 3"
  shows "append_event lean_env POSITION_UPDATED
     (pf_payload ''main'' (req_action (demo_req i)) (req_details (demo_req i)))
     (Some (pf_key_of ''main'' (req_key (demo_req i)))) 1 (demo_log i) = (Inr (demo_pf_event i), demo_log (Suc i))"
    and "get_by_idempotency_key (demo_log i) (pf_key_of ''main'' (req_key (demo_req i))) = None"
proof -
  have "list_all (\<lambda>i. fst (append_event lean_env POSITION_UPDATED
     (pf_payload ''main'' (req_action (demo_req i)) (req_details (demo_req i)))
     (Some (pf_key_of ''main'' (req_key (demo_req i)))) 1 (demo_log i)) = Inr (demo_pf_event i) \<and>
     get_by_idempotency_key (demo_log i) (pf_key_of ''main'' (req_key (demo_req i))) = None) [0, 1, 2]"
    by code_simp
  moreover have "i \<in> {0, 1, 2}" using assms by auto
  ultimately show "append_event lean_env POSITION_UPDATED
     (pf_payload ''main'' (req_action (demo_req i)) (req_details (demo_req i)))
     (Some (pf_key_of ''main'' (req_key (demo_req i)))) 1 (demo_log i) = (Inr (demo_pf_event i), demo_log (Suc i))"
    and "get_by_idempotency_key (demo_log i) (pf_key_of ''main'' (req_key (demo_req i))) = None"
    by (auto simp: prod_eq_iff)
qed

lemma demo_log_events: "es_events (demo_log 3) = [demo_pf_event 0, demo_pf_event 1, demo_pf_event 2]"
  by code_simp

lemma dust_arith:
  "dadd 0 100 = 100" "dadd 100 0 = 100" "dadd 0 dust = dust" "dadd 100 dust = 100" "dadd dust dust = 2 * dust"
  "dadd 100 (2 * dust) = 100 + 2 * dust" "dsub 100 0 = 100" "dsub (100 + 2 * dust) 0 = 100 + 2 * dust"
  "dadd (100 + 2 * dust) 0 = 100 + 2 * dust" "dadd 0 (100 + 2 * dust) = 100 + 2 * dust" "dadd 0 0 = 0"
  "dust \<noteq> 0"
proof -
  have exact: "dround x = x" if "fits 26 x \<or> fits 25 x" for x using that dround_fits by blast
  have f: "fits 26 100 \<or> fits 25 (100 :: rat)" "fits 26 dust \<or> fits 25 dust" "fits 26 (2 * dust) \<or> fits 25 (2 * dust)"
    "fits 26 (100 + 2 * dust) \<or> fits 25 (100 + 2 * dust)"
    by (simp_all add: fits_def on_grid_def dust_def)
  have "\<lfloor>2000000000000000000000000001 / (2 :: rat)\<rfloor> = 1000000000000000000000000000"
    by (simp add: floor_eq_iff)
  then show "dadd 100 dust = 100"
    unfolding dadd_def by (intro dround_eqI [of 2]) (simp_all add: dust_def pow10_def round_half_even_def Let_def)
  show "dadd 0 100 = 100" "dadd 100 0 = 100" "dadd 0 dust = dust" "dadd dust dust = 2 * dust"
    "dadd 100 (2 * dust) = 100 + 2 * dust" "dsub 100 0 = 100" "dsub (100 + 2 * dust) 0 = 100 + 2 * dust"
    "dadd (100 + 2 * dust) 0 = 100 + 2 * dust" "dadd 0 (100 + 2 * dust) = 100 + 2 * dust" "dadd 0 0 = 0"
    using exact [OF f(1)] exact [OF f(2)] exact [OF f(3)] exact [OF f(4)] by (simp_all add: dadd_def dsub_def)
qed (simp add: dust_def)

definition demo_ledger :: "nat \<Rightarrow> portfolio" where
  "demo_ledger i = (pf_init ''main'' ''now'')\<lparr>pf_available_cash := (if i = 3 then 100 else if i = 0 then 0 else 100),
     pf_deposits_cumulative := (if i = 0 then 0 else 100),
     pf_realized_pnl_cumulative := (if i = 2 then dust else if i = 3 then 2 * dust else 0),
     pf_applied_event_ids := (if i = 0 then {} else if i = 1 then {1} else if i = 2 then {2, 1} else {3, 2, 1})\<rparr>"

lemma demo_pf_event_parts [simp]:
  "event_id (demo_pf_event i) = i + 1" "timestamp_utc (demo_pf_event i) = ''now''"
  "payload (demo_pf_event i) = pf_payload ''main'' (req_action (demo_req i)) (req_details (demo_req i))"
  by (simp_all add: demo_pf_event_def)

lemma demo_apply:
  "pf_apply_event (demo_pf_event 0) (demo_ledger 0) = (Inr (pf_snapshot (demo_ledger 1)), demo_ledger 1)"
  "pf_apply_event (demo_pf_event 1) (demo_ledger 1) = (Inr (pf_snapshot (demo_ledger 2)), demo_ledger 2)"
  "pf_apply_event (demo_pf_event 2) (demo_ledger 2) = (Inl AccountingInvariantError, demo_ledger 3)"
proof -
  show "pf_apply_event (demo_pf_event 0) (demo_ledger 0) = (Inr (pf_snapshot (demo_ledger 1)), demo_ledger 1)"
    by (simp add: pf_apply_event_def pf_apply_action_def demo_ledger_def demo_req_def Let_def pf_init_def
        assert_invariant_def assets_def equity_def wallet_balance_def liabilities_def pf_snapshot_def dust_arith numeral_2_eq_2 numeral_3_eq_3)
  show "pf_apply_event (demo_pf_event 1) (demo_ledger 1) = (Inr (pf_snapshot (demo_ledger 2)), demo_ledger 2)"
    by (simp add: pf_apply_event_def pf_apply_action_def demo_ledger_def demo_req_def Let_def pf_init_def
        assert_invariant_def assets_def equity_def wallet_balance_def liabilities_def pf_snapshot_def dust_arith numeral_2_eq_2 numeral_3_eq_3)
  show "pf_apply_event (demo_pf_event 2) (demo_ledger 2) = (Inl AccountingInvariantError, demo_ledger 3)"
    by (simp add: pf_apply_event_def pf_apply_action_def demo_ledger_def demo_req_def Let_def pf_init_def
        assert_invariant_def assets_def equity_def wallet_balance_def liabilities_def pf_snapshot_def dust_arith numeral_2_eq_2 numeral_3_eq_3)
qed

lemma demo_ledger_0: "demo_ledger 0 = pf_init ''main'' ''now''"
  by (simp add: demo_ledger_def pf_init_def)

lemma demo_call:
  assumes "i < 3" "pf_apply_event (demo_pf_event i) (demo_ledger i) = (r, demo_ledger (Suc i))"
  shows "pf_call lean_env (demo_req i) (demo_log i, demo_ledger i) = (r, (demo_log (Suc i), demo_ledger (Suc i)))"
proof -
  have "pf_namespaced_key (demo_ledger i) k = pf_key_of ''main'' k" "pf_pm_id (demo_ledger i) = ''main''" for k
    by (simp_all add: demo_ledger_def pf_init_def pf_namespaced_key_def pf_key_of_def)
  moreover have "req_valid (demo_req i)" "\<not> req_done (demo_req i) p" "req_guard (demo_req i) p = None" for p
    by (simp_all add: demo_req_def)
  ultimately show ?thesis
    using demo_log_append [OF assms(1)] assms(2)
    by (simp add: pf_call_eq pf_once_def bindP_def pf_get_cached_def pf_persist_def pf_event_type_for_action_def
        del: demo_log.simps)
qed

text \<open>
  (C10) Rounding breaks the accounting check.  On an account with a deposit of 100, two realized
  gains of 5E-26 are ordinary requests, but cash and the cumulative gain round differently: the
  second gain is durably recorded, then raises \<open>AccountingInvariantError\<close>, and from then on the
  manager cannot be constructed from its own log any more.
\<close>

theorem rounding_poisons_ledger:
  "\<exists>sn1 sn2 store p.
     pf_calls lean_env [Deposit 100 ''d'', RealizedPnl ''p'' ''l1'' (5 / 10 ^ 26) ''x'',
        RealizedPnl ''p'' ''l2'' (5 / 10 ^ 26) ''x''] (demo_empty, pf_init ''main'' ''now'') =
       ([Inr sn1, Inr sn2, Inl AccountingInvariantError], (store, p)) \<and>
     length (es_events store) = 3 \<and>
     PortfolioManager store ''main'' ''later'' = Inl AccountingInvariantError"
proof -
  let ?reqs = "[demo_req 0, demo_req 1, demo_req 2]"
  have reqs: "?reqs = [Deposit 100 ''d'', RealizedPnl ''p'' ''l1'' (5 / 10 ^ 26) ''x'', RealizedPnl ''p'' ''l2'' (5 / 10 ^ 26) ''x'']"
    by (simp add: demo_req_def dust_def)
  have run: "pf_calls lean_env ?reqs (demo_log 0, demo_ledger 0) =
      ([Inr (pf_snapshot (demo_ledger 1)), Inr (pf_snapshot (demo_ledger 2)), Inl AccountingInvariantError],
       (demo_log 3, demo_ledger 3))"
    using demo_call [of 0] demo_call [of 1] demo_call [of 2] demo_apply
    by (simp add: numeral_2_eq_2 numeral_3_eq_3 del: demo_log.simps)
  have own: "pf_is_own_event (demo_pf_event i) ''main''" for i
    by (simp add: pf_is_own_event_def)
  have fold: "fold_log (\<lambda>e. pf_is_own_event e ''main'') pf_apply_event (es_events (demo_log 3)) (pf_init ''main'' ''later'') =
      Inl AccountingInvariantError"
  proof -
    have "demo_ledger 0 = (pf_init ''main'' ''later'')\<lparr>pf_updated_at_utc := ''now''\<rparr>"
      by (simp add: demo_ledger_0 pf_init_def)
    then have "pf_apply_event (demo_pf_event 0) (pf_init ''main'' ''later'') = (Inr (pf_snapshot (demo_ledger 1)), demo_ledger 1)"
      by (simp add: pf_apply_event_def pf_apply_action_def demo_ledger_def demo_req_def Let_def pf_init_def
        assert_invariant_def assets_def equity_def wallet_balance_def liabilities_def pf_snapshot_def dust_arith)
    then show ?thesis using demo_apply own by (simp add: demo_log_events del: demo_log.simps)
  qed
  have "replay 1 (demo_log 3) = Inr (es_events (demo_log 3))" "\<not> py_strip_empty ''main''" "length ''main'' \<le> MAX_PF_ID_LENGTH"
    by code_simp+
  then have "PortfolioManager (demo_log 3) ''main'' ''later'' = Inl AccountingInvariantError"
    using fold by (simp add: PortfolioManager_def del: demo_log.simps)
  with run reqs demo_ledger_0 demo_log_events show ?thesis by auto
qed

section \<open>Witnesses\<close>

lemma demo_pf_boot: "PortfolioManager demo_empty ''main'' ''now'' = Inr (pf_init ''main'' ''now'')" "own_keys ''main'' demo_empty"
proof -
  have "replay 1 demo_empty = Inr []" "\<not> py_strip_empty ''main''" "\<not> length ''main'' > MAX_PF_ID_LENGTH"
    by code_simp+
  then show "PortfolioManager demo_empty ''main'' ''now'' = Inr (pf_init ''main'' ''now'')"
    by (simp only: PortfolioManager_def if_False bindE_simps fold_log.simps)
qed (simp add: own_keys_def demo_events)

lemma demo_pf_run: "pf_run lean_env ''main'' ''now'' (demo_log 0, demo_ledger 0)"
  using demo_pf_boot store_reach_inv [OF demo_reach(1)] by (auto simp: pf_run_def demo_ledger_0)

lemma demo_first_call:
  "pf_call lean_env (demo_req 0) (demo_log 0, demo_ledger 0) = (Inr (pf_snapshot (demo_ledger 1)), (demo_log 1, demo_ledger 1))"
  using demo_call [of 0] demo_apply(1) by (simp del: demo_log.simps)

lemma demo_pf_run1: "pf_run lean_env ''main'' ''now'' (demo_log 1, demo_ledger 1)"
  using demo_pf_run pf_step.request [OF demo_first_call sum.simps(4)] unfolding pf_run_def
  by (meson rtranclp.rtrancl_into_rtrancl)

lemma portfolio_recovery_witness:
  "\<exists>t. PortfolioManager (demo_log 1) ''main'' ''later'' = Inr (demo_ledger 1\<lparr>pf_updated_at_utc := t\<rparr>)"
  by (rule portfolio_recovery [OF demo_pf_run1])

lemma portfolio_request_once_witness:
  "pf_call lean_env (Deposit 7 ''d'') (demo_log 1, demo_ledger 1) = (Inr (pf_snapshot (demo_ledger 1)), (demo_log 1, demo_ledger 1))"
  by (rule portfolio_request_once [OF demo_pf_run demo_first_call _ rtranclp.rtrancl_refl]) (simp_all add: demo_req_def)

lemma never_overdrawn_witness:
  "fst (pf_call lean_env (Withdraw 200 ''w'') (demo_log 1, demo_ledger 1)) = Inl InsufficientFundsError"
proof -
  have key: "pf_namespaced_key (demo_ledger 1) (req_key (Withdraw 200 ''w'')) = pf_key_of ''main'' ''withdraw:w''"
    by (simp add: demo_ledger_def pf_init_def pf_namespaced_key_def pf_key_of_def)
  have "get_by_idempotency_key (demo_log 1) (pf_key_of ''main'' ''withdraw:w'') = None"
    by code_simp
  then show ?thesis
    using never_overdrawn [OF demo_pf_run1, of "Withdraw 200 ''w''" "fst (pf_call lean_env (Withdraw 200 ''w'') (demo_log 1, demo_ledger 1))"
        "fst (snd (pf_call lean_env (Withdraw 200 ''w'') (demo_log 1, demo_ledger 1)))"
        "snd (snd (pf_call lean_env (Withdraw 200 ''w'') (demo_log 1, demo_ledger 1)))"] key
    by (simp add: demo_ledger_def pf_init_def del: demo_log.simps)
qed

lemma assets_equal_equity_witness:
  "case pf_calls lean_env demo_requests (demo_empty, pf_init ''main'' ''now'') of (rs, (s', p')) \<Rightarrow>
     Inl AccountingInvariantError \<notin> set rs \<and> assets (pf_snapshot p') = equity (pf_snapshot p')"
proof -
  obtain rs s' p' where run: "pf_calls lean_env demo_requests (demo_empty, pf_init ''main'' ''now'') = (rs, (s', p'))"
    by (metis surj_pair)
  have "\<forall>req\<in>set demo_requests. on_grid 2 (req_amount req) \<and> \<bar>req_mark req 0\<bar> \<le> 12"
    by (simp add: demo_requests_def on_grid_def del: of_int_floor_cancel)
  moreover have "(3 * sum_list (map req_flow demo_requests) + 12) * 10 ^ 2 < 10 ^ 28"
    by (simp add: demo_requests_def)
  ultimately show ?thesis
    using assets_equal_equity [OF _ demo_pf_boot(2,1) run, of 2 12] store_reach_inv [OF demo_reach(1)] run by simp
qed

end
