(* ===== verification/Engine.thy ===== *)
theory Engine
  imports Order_Submission Position_Runs Portfolio_Ledger
begin

text \<open>
  The wired engine and its coordination: \<^verbatim>\<open>composition_root/engine.py\<close> (one instance of every component
  over one event store), \<^verbatim>\<open>orchestration/{dispatch,synchronization,reconciliation,lifecycle}.py\<close>.  The
  components are the ones of the other theories; here they share the store, the execution state machine
  and the adapter.
\<close>

section \<open>The engine\<close>

text \<open>
  What the engine and the layers above it call on the adapter, besides what the order manager calls.  The
  adapter's memory holds the signing boundary it was built with; the engine holds a reference to the same
  object, which \<open>va_signing\<close> reads and \<open>va_set_signing\<close> replaces.  \<open>va_wallet_revoke\<close> is \<open>revoke\<close> of the wallet
  signer, if there is one.
\<close>

record 'ad venue_api =
  va_orders :: "'ad adapter_api"
  va_connect :: "('ad, exc, health_status) prog"
  va_disconnect :: "'ad \<Rightarrow> 'ad"
  va_health :: "('ad, exc, health_status) prog"
  va_capabilities :: "'ad \<Rightarrow> capabilities"
  va_get_orders :: "('ad, exc, order list) prog"
  va_get_mark_price :: "symbol \<Rightarrow> ('ad, exc, mark_price) prog"
  va_get_funding_rate :: "symbol \<Rightarrow> ('ad, exc, funding_rate) prog"
  va_reconcile :: "position list \<Rightarrow> ('ad, exc, reconciliation_report) prog"
  va_signing :: "'ad \<Rightarrow> signing_boundary"
  va_set_signing :: "signing_boundary \<Rightarrow> 'ad \<Rightarrow> 'ad"
  va_wallet_revoke :: "('ad \<Rightarrow> 'ad) option"

record 'ad engine =
  en_event_store :: event_store
  en_execution_state_machine :: esm
  en_adapter :: 'ad
  en_order_manager :: order_manager
  en_position_manager :: position_manager
  en_portfolio_manager :: portfolio
  en_started :: bool

type_synonym ('ad, 'a) engine_prog = "('ad engine, exc, 'a) prog"

text \<open>Each component sees its own part of the engine.\<close>

definition om_view :: "'ad engine \<Rightarrow> 'ad om_world" where
  "om_view e = \<lparr>ow_store = en_event_store e, ow_esm = en_execution_state_machine e, ow_adapter = en_adapter e,
     ow_om = en_order_manager e\<rparr>"

definition pm_view :: "'ad engine \<Rightarrow> pm_world" where
  "pm_view e = \<lparr>pw_store = en_event_store e, pw_pm = en_position_manager e\<rparr>"

definition pf_view :: "'ad engine \<Rightarrow> pf_world" where
  "pf_view e = (en_event_store e, en_portfolio_manager e)"

definition esm_view :: "'ad engine \<Rightarrow> event_store \<times> esm" where
  "esm_view e = (en_event_store e, en_execution_state_machine e)"

definition on_om :: "('ad, 'a) om_prog \<Rightarrow> ('ad, 'a) engine_prog" where
  "on_om f e =
     (case f (om_view e) of (r, w) \<Rightarrow>
        (r, e\<lparr>en_event_store := ow_store w, en_execution_state_machine := ow_esm w, en_adapter := ow_adapter w,
              en_order_manager := ow_om w\<rparr>))"

definition on_pm :: "'a pm_prog \<Rightarrow> ('ad, 'a) engine_prog" where
  "on_pm f e = (case f (pm_view e) of (r, w) \<Rightarrow> (r, e\<lparr>en_event_store := pw_store w, en_position_manager := pw_pm w\<rparr>))"

definition on_pf :: "(pf_world, exc, 'a) prog \<Rightarrow> ('ad, 'a) engine_prog" where
  "on_pf f e = (case f (pf_view e) of (r, (s, p)) \<Rightarrow> (r, e\<lparr>en_event_store := s, en_portfolio_manager := p\<rparr>))"

definition on_esm :: "(event_store \<times> esm, exc, 'a) prog \<Rightarrow> ('ad, 'a) engine_prog" where
  "on_esm f e = (case f (esm_view e) of (r, (s, m)) \<Rightarrow> (r, e\<lparr>en_event_store := s, en_execution_state_machine := m\<rparr>))"

definition on_adapter :: "('ad, exc, 'a) prog \<Rightarrow> ('ad, 'a) engine_prog" where
  "on_adapter f e = (case f (en_adapter e) of (r, ad) \<Rightarrow> (r, e\<lparr>en_adapter := ad\<rparr>))"

text \<open>
  The end of \<open>build_engine\<close>: over one open store, the machine, the order, position and portfolio managers, each under
  its default id, and the adapter the configuration selects; \<open>now\<close> is the clock.
\<close>

definition DEFAULT_ID :: string where "DEFAULT_ID = ''default''"

definition build_engine :: "event_store \<Rightarrow> 'ad \<Rightarrow> string \<Rightarrow> exc + 'ad engine" where
  "build_engine store ad now =
     bindE (ExecutionStateMachine store DEFAULT_ID) (\<lambda>m.
     bindE (OrderManager store DEFAULT_ID) (\<lambda>om.
     bindE (PositionManager store DEFAULT_ID) (\<lambda>pm.
     bindE (PortfolioManager store DEFAULT_ID now) (\<lambda>pf.
       Inr \<lparr>en_event_store = store, en_execution_state_machine = m, en_adapter = ad, en_order_manager = om,
            en_position_manager = pm, en_portfolio_manager = pf, en_started = False\<rparr>))))"

definition engine_start :: "'ad venue_api \<Rightarrow> ('ad, health_status) engine_prog" where
  "engine_start V = bindP (on_adapter (va_connect V)) (\<lambda>health e. (Inr health, e\<lparr>en_started := True\<rparr>))"

definition engine_stop :: "'ad venue_api \<Rightarrow> ('ad, unit) engine_prog" where
  "engine_stop V e =
     (Inr (), e\<lparr>en_adapter := va_disconnect V (en_adapter e), en_event_store := close_store (en_event_store e),
               en_started := False\<rparr>)"

section \<open>Dispatch and synchronization\<close>

datatype venue_event = FillObserved string fill | OrderStatusObserved string order

definition dispatch :: "env \<Rightarrow> venue_event \<Rightarrow> ('ad, order_snapshot option) engine_prog" where
  "dispatch E ev =
     (case ev of
        FillObserved cid f \<Rightarrow> on_om (report_fill E cid f)
      | OrderStatusObserved cid od \<Rightarrow> on_om (report_order_update E cid od))"

text \<open>A generator expression: one call after the other, until one raises.\<close>

fun mapM :: "('a \<Rightarrow> ('s, exc, 'b) prog) \<Rightarrow> 'a list \<Rightarrow> ('s, exc, 'b list) prog" where
  "mapM f [] = (\<lambda>s. (Inr [], s))"
| "mapM f (x # xs) = bindP (f x) (\<lambda>y. bindP (mapM f xs) (\<lambda>ys s. (Inr (y # ys), s)))"

definition synchronize :: "env \<Rightarrow> 'ad venue_api \<Rightarrow> ('ad, order_snapshot option list) engine_prog" where
  "synchronize E V e =
     mapM (\<lambda>cid. on_om (resync_order E (va_orders V) cid)) (in_doubt_client_order_ids (en_order_manager e)) e"

section \<open>Reconciliation\<close>

definition local_position :: "'ad venue_api \<Rightarrow> string \<Rightarrow> ('ad, position list) engine_prog" where
  "local_position V position_id e =
     (case get_position position_id (en_position_manager e) of
        Inl x \<Rightarrow> (Inl x, e)
      | Inr snapshot \<Rightarrow>
          if ps_remaining_quantity snapshot = 0 then (Inr [], e)
          else bindP (on_adapter (va_get_mark_price V (ps_symbol snapshot))) (\<lambda>mp e.
                 case unrealized_pnl position_id (mp_price mp) (en_position_manager e) of
                   Inl x \<Rightarrow> (Inl x, e)
                 | Inr pnl \<Rightarrow>
                     (Inr [\<lparr>po_symbol = ps_symbol snapshot,
                            po_quantity = (if ps_side snapshot = BUY then ps_remaining_quantity snapshot
                                           else dneg (ps_remaining_quantity snapshot)),
                            po_entry_price = (case ps_avg_entry_price snapshot of None \<Rightarrow> mp_price mp | Some p \<Rightarrow> p),
                            po_mark_price = mp_price mp, po_unrealized_pnl = pnl, po_liquidation_price = None\<rparr>], e)) e)"

definition local_positions :: "'ad venue_api \<Rightarrow> ('ad, position list) engine_prog" where
  "local_positions V e =
     bindP (mapM (local_position V) (ps_open_position_ids (get_snapshot (pf_view e)))) (\<lambda>ps e. (Inr (concat ps), e)) e"

definition reconcile_engine :: "'ad venue_api \<Rightarrow> ('ad, reconciliation_report) engine_prog" where
  "reconcile_engine V = bindP (local_positions V) (\<lambda>local. on_adapter (va_reconcile V local))"

section \<open>Lifecycle\<close>

record startup_report =
  sr_health :: health_status
  sr_resynced_orders :: "order_snapshot option list"
  sr_reconciliation :: reconciliation_report

definition startup :: "env \<Rightarrow> 'ad venue_api \<Rightarrow> ('ad, startup_report) engine_prog" where
  "startup E V =
     bindP (engine_start V) (\<lambda>hs. bindP (synchronize E V) (\<lambda>orders. bindP (reconcile_engine V) (\<lambda>report e.
       (Inr \<lparr>sr_health = hs, sr_resynced_orders = orders, sr_reconciliation = report\<rparr>, e))))"

definition shutdown :: "'ad venue_api \<Rightarrow> ('ad, unit) engine_prog" where
  "shutdown V = engine_stop V"

end
