(* ===== verification/Engine_Log.thy ===== *)
theory Engine_Log
  imports Engine
begin

text \<open>
  What the components write into the one log they share.  Every operation of a component appends events that
  carry the component's tag, under keys that begin with it; so for every other component they are foreign.
\<close>

section \<open>Tagged appends\<close>

definition ACC_SOURCE_TAG :: string where "ACC_SOURCE_TAG = ''app_accounting''"

definition TAGS :: "string list" where
  "TAGS = [ESM_SOURCE_TAG, OM_SOURCE_TAG, PM_SOURCE_TAG, PF_SOURCE_TAG, ACC_SOURCE_TAG]"

definition tagged :: "string list \<Rightarrow> dict \<Rightarrow> string option \<Rightarrow> bool" where
  "tagged T pl key \<longleftrightarrow> (\<exists>t\<in>set T. dget pl ''source'' = VStr t \<and> (\<exists>k. key = Some (t @ '':'' @ k)))"

text \<open>\<open>writes E T s s'\<close>: some appends of events with a tag of \<open>T\<close>, failed ones included, lead from \<open>s\<close> to \<open>s'\<close>.\<close>

inductive writes :: "env \<Rightarrow> string list \<Rightarrow> event_store \<Rightarrow> event_store \<Rightarrow> bool" for E T where
  none: "writes E T s s"
| more: "writes E T s t \<Longrightarrow> append_event E ty pl key sv t = (q, u) \<Longrightarrow> tagged T pl key \<Longrightarrow> writes E T s u"

lemma writes_one: "append_event E ty pl key sv s = (q, u) \<Longrightarrow> tagged T pl key \<Longrightarrow> writes E T s u"
  by (rule writes.more [OF writes.none])

lemma writes_trans: "writes E T s t \<Longrightarrow> writes E T t u \<Longrightarrow> writes E T s u"
  by (rotate_tac 1, induction rule: writes.induct) (auto intro: writes.more)

lemma writes_mono: "writes E T s t \<Longrightarrow> set T \<subseteq> set U \<Longrightarrow> writes E U s t"
  by (induction rule: writes.induct) (auto intro!: writes.none elim!: writes.more simp: tagged_def)

lemma writes_inv: "writes E T s s' \<Longrightarrow> ledger_inv s \<Longrightarrow> ledger_inv s'"
  by (induction rule: writes.induct) (auto intro: append_ledger_inv)

lemma writes_open: "writes E T s s' \<Longrightarrow> ledger_inv s \<Longrightarrow> es_closed s' = es_closed s"
  by (induction rule: writes.induct) (auto dest: writes_inv append_keeps_open)

text \<open>Different tags have no key in common.\<close>

lemma tag_key_inj: "t @ '':'' @ k = u @ '':'' @ l \<Longrightarrow> CHR '':'' \<notin> set t \<Longrightarrow> CHR '':'' \<notin> set u \<Longrightarrow> t = u"
proof (induction t arbitrary: u)
  case Nil
  then show ?case by (cases u) auto
next
  case (Cons c t)
  then show ?case by (cases u) auto
qed

lemma tags_no_colon: "u \<in> set TAGS \<Longrightarrow> CHR '':'' \<notin> set u"
  by (auto simp: TAGS_def ESM_SOURCE_TAG_def OM_SOURCE_TAG_def PM_SOURCE_TAG_def PF_SOURCE_TAG_def ACC_SOURCE_TAG_def)

lemma tags_distinct: "distinct TAGS"
  by (simp add: TAGS_def ESM_SOURCE_TAG_def OM_SOURCE_TAG_def PM_SOURCE_TAG_def PF_SOURCE_TAG_def ACC_SOURCE_TAG_def)

lemma tagged_other:
  assumes "tagged T pl key" "set T \<subseteq> set TAGS" "u \<in> set TAGS" "u \<notin> set T"
  shows "dget pl ''source'' \<noteq> VStr u" "key \<noteq> Some (u @ '':'' @ k)"
proof -
  obtain t l where t: "t \<in> set T" "dget pl ''source'' = VStr t" "key = Some (t @ '':'' @ l)"
    using assms(1) by (auto simp: tagged_def)
  have "t \<noteq> u" using t(1) assms(4) by blast
  then show "dget pl ''source'' \<noteq> VStr u" using t(2) by simp
  show "key \<noteq> Some (u @ '':'' @ k)"
    using t tag_key_inj [of t l u k] tags_no_colon assms(2,3) \<open>t \<noteq> u\<close> by auto
qed

definition OM_WRITES :: "string list" where "OM_WRITES = [OM_SOURCE_TAG, ESM_SOURCE_TAG]"

lemma tag_sets [simp]:
  "set OM_WRITES \<subseteq> set TAGS" "set [ESM_SOURCE_TAG] \<subseteq> set TAGS" "set [PM_SOURCE_TAG] \<subseteq> set TAGS"
  "set [PF_SOURCE_TAG] \<subseteq> set TAGS" "set [ACC_SOURCE_TAG] \<subseteq> set TAGS"
  by (auto simp: TAGS_def OM_WRITES_def)

lemma om_foreign_tagged:
  assumes "tagged T pl key" "set T \<subseteq> set TAGS" "OM_SOURCE_TAG \<notin> set T" "ESM_SOURCE_TAG \<notin> set T"
  shows "om_foreign omid mid pl key"
  using tagged_other [OF assms(1,2) _ assms(3)] tagged_other [OF assms(1,2) _ assms(4)]
  by (simp add: om_foreign_def om_key_def TAGS_def)

lemma pm_foreign_tagged:
  assumes "tagged T pl key" "set T \<subseteq> set TAGS" "PM_SOURCE_TAG \<notin> set T"
  shows "pm_foreign pmid pl key"
  using tagged_other [OF assms(1,2) _ assms(3)] by (simp add: pm_foreign_def pm_key_def TAGS_def)

lemma pf_foreign_tagged:
  assumes "tagged T pl key" "set T \<subseteq> set TAGS" "PF_SOURCE_TAG \<notin> set T"
  shows "pf_foreign pm pl key"
  using tagged_other [OF assms(1,2) _ assms(3)] by (simp add: pf_foreign_def pf_key_of_def TAGS_def)

section \<open>What the components write\<close>

text \<open>The machine.\<close>

lemma transition_writes: "writes E [ESM_SOURCE_TAG] s (fst (snd (transition E trig rid ctx (s, m))))"
proof -
  have "tagged [ESM_SOURCE_TAG] (transition_payload mid trig a b c) (Some (namespaced_key mid rid))" for mid a b c
    by (simp add: tagged_def transition_payload_def namespaced_key_def)
  then show ?thesis
    by (auto simp: transition_def Let_def intro: writes.none writes_one split: option.split sum.split prod.split)
qed

text \<open>The order manager.\<close>

definition om_writes :: "env \<Rightarrow> ('ad, 'a) om_prog \<Rightarrow> bool" where
  "om_writes E f \<longleftrightarrow> (\<forall>w. writes E OM_WRITES (ow_store w) (ow_store (snd (f w))))"

lemma om_writesI: "(\<And>w. writes E OM_WRITES (ow_store w) (ow_store (snd (f w)))) \<Longrightarrow> om_writes E f"
  by (simp add: om_writes_def)

lemma om_writesD: "om_writes E f \<Longrightarrow> writes E OM_WRITES (ow_store w) (ow_store (snd (f w)))"
  by (simp add: om_writes_def)

lemma om_writes_bind_at:
  assumes "writes E OM_WRITES s (ow_store (snd (f w)))" "\<And>x. om_writes E (g x)"
  shows "writes E OM_WRITES s (ow_store (snd (bindP f g w)))"
proof -
  obtain q w1 where f: "f w = (q, w1)" by (meson surj_pair)
  with assms(1) writes_trans om_writesD [OF assms(2)] show ?thesis by (cases q) (auto simp: bindP_def)
qed

lemma om_writes_bind: "om_writes E f \<Longrightarrow> (\<And>x. om_writes E (g x)) \<Longrightarrow> om_writes E (bindP f g)"
  by (intro om_writesI om_writes_bind_at) (simp_all add: om_writesD)

lemma om_writes_const: "om_writes E (\<lambda>w. (r, w))"
  by (simp add: om_writes_def writes.none)

lemma om_writes_adapter: "om_writes E (with_adapter f)"
  by (rule om_writesI) (simp add: with_adapter_def writes.none split: prod.split)

lemma om_writes_memory: "om_writes E (with_om f)"
  by (rule om_writesI) (simp add: with_om_def writes.none split: prod.split)

lemma om_writes_persist: "om_writes E (om_persist E a cid seq trig from_state to_state d key)"
proof (rule om_writesI)
  show "writes E OM_WRITES (ow_store w) (ow_store (snd (om_persist E a cid seq trig from_state to_state d key w)))" for w
    by (auto simp: om_persist_def tagged_def OM_WRITES_def om_payload_def om_key_def intro!: writes_one split: prod.split)
qed

lemma om_writes_record: "om_writes E (om_record E a cid seq trig from_state to_state d key)"
  unfolding om_record_def by (intro om_writes_bind om_writes_memory om_writes_persist)

lemma om_writes_drive: "om_writes E (drive_execution_sm E cid trig from sn)"
proof (rule om_writesI)
  have "writes E OM_WRITES s s'" if "transition E t rid c (s, m) = (q, s', m')" for s m t rid c q s' m'
    using transition_writes [of E s t rid c m] that writes_mono [of E "[ESM_SOURCE_TAG]" _ _ OM_WRITES]
    by (simp add: OM_WRITES_def)
  then show "writes E OM_WRITES (ow_store w) (ow_store (snd (drive_execution_sm E cid trig from sn w)))" for w
    by (auto simp: drive_execution_sm_def Let_def writes.none split: sum.split option.split prod.split)
qed

lemmas om_writes_intros = om_writes_bind om_writes_const om_writes_adapter om_writes_memory om_writes_record om_writes_drive

lemmas om_writes_steps = om_writesD [OF om_writes_bind] om_writesD [OF om_writes_record] writes.none

lemma om_writes_ingest: "om_writes E (ingest_status E cid status xid reason)"
  by (rule om_writesI)
    (auto simp: ingest_status_def Let_def intro!: om_writes_steps om_writes_intros split: sum.split option.split)

lemma om_writes_fail: "om_writes E (fail_and_raise E X cid t key x)"
  by (rule om_writesI)
    (auto simp: fail_and_raise_def Let_def intro!: om_writes_steps om_writes_intros split: sum.split)

text \<open>A call to the adapter, then a handler for either outcome.\<close>

lemma om_writes_call:
  assumes "\<And>x. om_writes E (f x)" "\<And>v. om_writes E (g v)"
  shows "om_writes E (\<lambda>w. case with_adapter m w of (Inl x, w') \<Rightarrow> f x w' | (Inr v, w') \<Rightarrow> g v w')"
proof (rule om_writesI)
  fix w
  obtain q w1 where w1: "with_adapter m w = (q, w1)" by (meson surj_pair)
  then have "writes E OM_WRITES (ow_store w) (ow_store w1)" using om_writesD [OF om_writes_adapter, of E w m] by simp
  with writes_trans om_writesD [OF assms(1)] om_writesD [OF assms(2)] w1
  show "writes E OM_WRITES (ow_store w) (ow_store (snd (case with_adapter m w of (Inl x, w') \<Rightarrow> f x w' | (Inr v, w') \<Rightarrow> g v w')))"
    by (cases q) auto
qed

lemma om_writes_sum:
  assumes "\<And>x. om_writes E (f x)" "\<And>v. om_writes E (g v)"
  shows "om_writes E (\<lambda>w. case q of Inl x \<Rightarrow> f x w | Inr v \<Rightarrow> g v w)"
  using assms by (cases q) simp_all

lemma om_writes_prod: "(\<And>a b. om_writes E (g a b)) \<Longrightarrow> om_writes E (case p of (a, b) \<Rightarrow> g a b)"
  by (cases p) simp

lemma om_writes_place: "om_writes E (om_place_order E X symb sd ot q lp tif ro)"
  unfolding om_place_order_def
  by (intro om_writes_intros om_writes_sum om_writes_call om_writes_fail om_writes_ingest
      om_writes_prod)

lemma om_writes_amend: "om_writes E (om_amend_order E X cid nq nl)"
proof -
  have "om_writes E (\<lambda>w. case AmendRequest_post_init r of Inl x \<Rightarrow> (Inl x, w) | Inr request \<Rightarrow>
      bindP (with_adapter (api_amend_order X request)) (\<lambda>od. om_record E a cid None None None None (d od) k) w)" for r a d k
    by (intro om_writes_intros om_writes_sum)
  then show ?thesis
    by (intro om_writesI)
      (auto simp: om_amend_order_def Let_def intro!: om_writes_steps(3) om_writesD [OF om_writes_bind] om_writes_intros om_writes_prod
        split: option.split)
qed

lemma om_writes_cancel: "om_writes E (om_cancel_order E X cid)"
proof -
  have "om_writes E (\<lambda>w. case CancelRequest_post_init r of Inl x \<Rightarrow> (Inl x, w) | Inr request \<Rightarrow>
      (case with_adapter (api_cancel_order X request) w of
         (Inl x, w') \<Rightarrow> fail_and_raise E X cid LT_CANCEL_FAILED k x w'
       | (Inr od, w') \<Rightarrow> ingest_status E cid (od_status od) (od_exchange_order_id od) None w'))" for r k
    by (intro om_writes_intros om_writes_sum om_writes_call om_writes_fail om_writes_ingest)
  then show ?thesis
    by (intro om_writesI)
      (auto simp: om_cancel_order_def Let_def intro!: om_writes_steps(3) om_writesD [OF om_writes_bind] om_writes_intros om_writes_prod
        split: option.split sum.split)
qed

lemma om_writes_pending: "om_writes E (cancel_all_pending E rid cid current)"
  by (rule om_writesI)
    (auto simp: cancel_all_pending_def intro!: om_writes_steps om_writes_intros split: sum.split)

lemma om_writes_confirm: "om_writes E (cancel_all_confirm E rid cid xid current)"
  by (rule om_writesI)
    (auto simp: cancel_all_confirm_def intro!: om_writes_steps om_writes_intros split: sum.split)

lemma om_writes_orders: "om_writes E (cancel_all_orders E rid ods)"
proof (induction ods)
  case Nil
  then show ?case by (simp add: om_writes_def writes.none)
next
  case (Cons od ods)
  show ?case
    by (rule om_writesI)
      (auto intro!: om_writesD [OF Cons] om_writesD [OF om_writes_bind] om_writes_pending om_writes_confirm om_writes_bind
        om_writes_const Cons split: option.split)
qed

lemma om_writes_cancel_all: "om_writes E (om_cancel_all E X symb)"
  unfolding om_cancel_all_def
  by (intro om_writes_intros om_writes_sum om_writes_orders om_writes_prod)

lemma om_writes_fill: "om_writes E (report_fill E cid f)"
  by (rule om_writesI)
    (auto simp: report_fill_def Let_def intro!: om_writes_steps om_writes_intros split: sum.split option.split)

lemma om_writes_update: "om_writes E (report_order_update E cid od)"
  by (rule om_writesI)
    (auto simp: report_order_update_def intro!: writes.none om_writesD [OF om_writes_ingest] split: option.split)

lemma om_writes_resync: "om_writes E (resync_order E X cid)"
proof -
  have "om_writes E (\<lambda>w. case found of None \<Rightarrow> (Inr (Some ex), w)
      | Some od \<Rightarrow> ingest_status E cid (od_status od) (od_exchange_order_id od) None w)" for found ex
    by (cases found) (simp_all add: om_writes_const om_writes_ingest)
  then show ?thesis
    by (intro om_writesI)
      (auto simp: resync_order_def intro!: writes.none om_writesD [OF om_writes_bind] om_writes_adapter om_writes_ingest
        split: option.split sum.split)
qed

lemma om_writes_status: "om_writes E (om_get_order_status cid)"
  by (rule om_writesI) (simp add: om_get_order_status_def writes.none split: option.split)

lemma om_writes_fills: "om_writes E (om_get_fills X c)"
  by (rule om_writesI) (auto simp: om_get_fills_def mapP_def with_adapter_def writes.none split: prod.split sum.split)

text \<open>The position manager.\<close>

definition pm_writes :: "env \<Rightarrow> 'a pm_prog \<Rightarrow> bool" where
  "pm_writes E f \<longleftrightarrow> (\<forall>w. writes E [PM_SOURCE_TAG] (pw_store w) (pw_store (snd (f w))))"

lemma pm_writesI: "(\<And>w. writes E [PM_SOURCE_TAG] (pw_store w) (pw_store (snd (f w)))) \<Longrightarrow> pm_writes E f"
  by (simp add: pm_writes_def)

lemma pm_writesD: "pm_writes E f \<Longrightarrow> writes E [PM_SOURCE_TAG] (pw_store w) (pw_store (snd (f w)))"
  by (simp add: pm_writes_def)

lemma pm_writes_bind:
  assumes "pm_writes E f" "\<And>x. pm_writes E (g x)"
  shows "pm_writes E (bindP f g)"
proof (rule pm_writesI)
  fix w
  obtain q w1 where f: "f w = (q, w1)" by (meson surj_pair)
  with pm_writesD [OF assms(1), of w] writes_trans pm_writesD [OF assms(2)]
  show "writes E [PM_SOURCE_TAG] (pw_store w) (pw_store (snd (bindP f g w)))" by (cases q) (auto simp: bindP_def)
qed

lemma pm_writes_const: "pm_writes E (\<lambda>w. (r, w))"
  by (simp add: pm_writes_def writes.none)

lemma pm_writes_memory: "pm_writes E (with_pm f)"
  by (rule pm_writesI) (simp add: with_pm_def writes.none split: prod.split)

lemma pm_writes_persist: "pm_writes E (pm_persist E a pid seq trig from_state to_state d key)"
  by (rule pm_writesI)
    (auto simp: pm_persist_def tagged_def pm_payload_def pm_key_def intro!: writes_one split: prod.split)

lemma pm_writes_record: "pm_writes E (pm_record E a pid seq trig from_state to_state d key)"
  unfolding pm_record_def by (intro pm_writes_bind pm_writes_memory pm_writes_persist)

lemma pm_writes_prod: "(\<And>a b. pm_writes E (g a b)) \<Longrightarrow> pm_writes E (case p of (a, b) \<Rightarrow> g a b)"
  by (cases p) simp

lemmas pm_writes_intros = pm_writes_bind pm_writes_const pm_writes_memory pm_writes_record pm_writes_prod
lemmas pm_writes_steps = pm_writesD [OF pm_writes_bind] pm_writesD [OF pm_writes_record] writes.none

lemma pm_writes_create: "pm_writes E (create_position E symb sd n sp stop_d t1 t2 cv)"
  by (rule pm_writesI) (auto simp: create_position_def intro!: pm_writes_steps pm_writes_intros)

lemma pm_writes_first: "pm_writes E (open_on_first_fill E pid f current)"
  by (rule pm_writesI) (auto simp: open_on_first_fill_def intro!: pm_writes_steps pm_writes_intros split: sum.split)

lemma pm_writes_entry: "pm_writes E (record_entry_fill E pid f)"
proof -
  have "pm_writes E (\<lambda>w. case try_transition c current of Inl x \<Rightarrow> (Inl x, w)
      | Inr None \<Rightarrow> (case map_of (pm_snapshots (pw_pm w)) pid of None \<Rightarrow> (Inl KeyError, w) | Some sn \<Rightarrow> (Inr (Some sn), w))
      | Inr (Some to) \<Rightarrow> pm_record E a pid None t c' (Some to) d k w)" for c current a t c' d k
    by (rule pm_writesI) (auto intro!: pm_writes_steps split: sum.split option.split)
  then show ?thesis
    by (intro pm_writesI)
      (auto simp: record_entry_fill_def Let_def intro!: writes.none pm_writesD [OF pm_writes_bind] pm_writes_first split: option.split)
qed

lemma pm_writes_exit: "pm_writes E (record_exit E pid f trig reason)"
proof (rule pm_writesI)
  fix w
  have rec: "writes E [PM_SOURCE_TAG] (pw_store w) (pw_store (snd
      (case q of Inl x \<Rightarrow> (Inl x, w)
       | Inr ((r, pct, realized), why) \<Rightarrow> pm_record E a pid None t c to (d r pct realized why) k w)))" for q a t c to d k
    by (cases q) (auto intro!: pm_writes_steps(2,3) split: prod.split)
  have mem: "writes E [PM_SOURCE_TAG] (pw_store w) (pw_store (w\<lparr>pw_pm := m\<rparr>))" for m by (simp add: writes.none)
  show "writes E [PM_SOURCE_TAG] (pw_store w) (pw_store (snd (record_exit E pid f trig reason w)))"
  proof (cases "map_of (pm_snapshots (pw_pm w)) pid")
    case (Some sn)
    show ?thesis
    proof (cases "try_transition trig (ps_lifecycle_state sn)")
      case (Inl x)
      then show ?thesis
        by (simp only: record_exit_def Let_def Some Inl mem option.case sum.case if_split writes.none snd_conv
             simp_thms if_distrib [of snd] if_distrib [of pw_store])
    next
      case (Inr new)
      then show ?thesis
        by (cases new; cases "ps_avg_entry_price sn")
          (simp_all only: record_exit_def Let_def Some Inr rec mem option.case sum.case if_split writes.none snd_conv
             simp_thms if_distrib [of snd] if_distrib [of pw_store])
    qed
  qed (simp add: record_exit_def Let_def writes.none)
qed

lemma pm_writes_pure: "pm_writes E (pure_transition E pid trig a tag)"
  by (rule pm_writesI)
    (auto simp: pure_transition_def Let_def intro!: pm_writes_steps(2,3) split: sum.split option.split)

lemma pm_writes_funding: "pm_writes E (record_funding_payment E pid amount now fid)"
  by (rule pm_writesI)
    (auto simp: record_funding_payment_def intro!: pm_writes_steps(2,3) split: option.split)

text \<open>The portfolio manager.\<close>

lemma pf_writes_call: "writes E [PF_SOURCE_TAG] s (fst (snd (pf_call E req (s, p))))"
proof -
  have key: "tagged [PF_SOURCE_TAG] (pf_payload pm a d) (Some (pf_namespaced_key p k))" for pm a d k p
    by (simp add: tagged_def pf_payload_def pf_namespaced_key_def)
  have "writes E [PF_SOURCE_TAG] s (fst (snd (pf_once E k g a d (s, p))))" for k g a d
  proof -
    obtain r s' p' where r: "pf_once E k g a d (s, p) = (r, s', p')" by (metis surj_pair)
    then have "writes E [PF_SOURCE_TAG] s s'" by (cases rule: pf_once_cases) (auto intro: writes.none writes_one [OF _ key])
    with r show ?thesis by simp
  qed
  then show ?thesis by (simp add: pf_call_eq writes.none)
qed

end
