(* ===== verification/Quantization.thy ===== *)
theory Quantization
  imports Exchange_Models
begin

text \<open>
  Venue order quantization, \<^verbatim>\<open>trading_system/execution/quantization.py\<close>: sizes are rounded down to the
  asset's decimal places, prices to the venue's grid in the direction that is never worse than what
  was approved.
\<close>

definition PRICE_SIG_FIGS :: int where "PRICE_SIG_FIGS = 5"
definition PRICE_MAX_DECIMALS :: int where "PRICE_MAX_DECIMALS = 6"

record symbol_rules =
  sz_decimals :: int

definition SymbolRules_post_init :: "symbol_rules \<Rightarrow> exc + symbol_rules" where
  "SymbolRules_post_init rules =
     (if \<not> (0 \<le> sz_decimals rules \<and> sz_decimals rules \<le> PRICE_MAX_DECIMALS) then Inl ExecutionError else Inr rules)"

definition max_price_decimals :: "symbol_rules \<Rightarrow> int" where
  "max_price_decimals rules = PRICE_MAX_DECIMALS - sz_decimals rules"

text \<open>\<open>Decimal.quantize\<close> raises when the result would need more digits than the context has.\<close>

definition py_quantize :: "decimal \<Rightarrow> int \<Rightarrow> rounding \<Rightarrow> exc + decimal" where
  "py_quantize x e mode = (case quantize x e mode of None \<Rightarrow> Inl InvalidOperation | Some y \<Rightarrow> Inr y)"

definition quantize_size :: "decimal \<Rightarrow> symbol_rules \<Rightarrow> exc + decimal" where
  "quantize_size quantity rules = py_quantize quantity (- sz_decimals rules) ROUND_DOWN"

definition price_exponent :: "decimal \<Rightarrow> symbol_rules \<Rightarrow> int" where
  "price_exponent price rules =
     (let sig_exponent = adjusted price - (PRICE_SIG_FIGS - 1);
          exponent = max sig_exponent (- max_price_decimals rules)
      in if exponent > 0 then 0 else exponent)"

definition quantize_price :: "decimal \<Rightarrow> order_side \<Rightarrow> symbol_rules \<Rightarrow> exc + decimal" where
  "quantize_price price side rules =
     (if price = of_int (round_half_even price) then Inr price
      else py_quantize price (price_exponent price rules) (if side = BUY then ROUND_FLOOR else ROUND_CEILING))"

section \<open>Facts about the grid\<close>

lemma quantize_form:
  assumes "py_quantize x e mode = Inr y"
  shows "y = of_int (round_int mode (x / pow10 e)) * pow10 e"
  using assms by (auto simp: py_quantize_def quantize_def Let_def split: option.splits if_splits)

lemma floor_grid:
  assumes "y = of_int \<lfloor>x / pow10 e\<rfloor> * pow10 e"
  shows "y \<le> x" "x < y + pow10 e" "0 \<le> x \<Longrightarrow> 0 \<le> y"
proof -
  have "of_int \<lfloor>x / pow10 e\<rfloor> \<le> x / pow10 e" "x / pow10 e < of_int \<lfloor>x / pow10 e\<rfloor> + 1" by linarith+
  then show "y \<le> x" "x < y + pow10 e"
    unfolding assms pos_le_divide_eq [OF pow10_pos] pos_divide_less_eq [OF pow10_pos] by (simp_all add: algebra_simps)
  show "0 \<le> x \<Longrightarrow> 0 \<le> y" by (simp add: assms)
qed

lemma ceiling_grid:
  assumes "y = of_int \<lceil>x / pow10 e\<rceil> * pow10 e"
  shows "x \<le> y" "y < x + pow10 e"
proof -
  have "x / pow10 e \<le> of_int \<lceil>x / pow10 e\<rceil>" "of_int \<lceil>x / pow10 e\<rceil> < x / pow10 e + 1" by linarith+
  then have "x \<le> y" "y < (x / pow10 e + 1) * pow10 e"
    unfolding assms pos_divide_le_eq [OF pow10_pos] by (simp_all add: mult_strict_right_mono)
  then show "x \<le> y" "y < x + pow10 e" by (simp_all add: distrib_right)
qed

lemma on_grid_pow10: "- int k \<le> e \<Longrightarrow> e \<le> 0 \<Longrightarrow> on_grid k (of_int n * pow10 e)"
proof -
  assume e: "- int k \<le> e" "e \<le> 0"
  have "of_int n * pow10 e * 10 ^ k = of_int n * pow10 (e + int k)" by (simp add: pow10_add pow10_nat)
  also have "\<dots> = of_int (n * 10 ^ nat (e + int k))" using e by (simp add: pow10_def)
  finally show ?thesis unfolding on_grid_Ints by (metis Ints_of_int)
qed

text \<open>At most five significant figures: an integer of at most five digits, times a power of ten.\<close>

definition five_figures :: "decimal \<Rightarrow> bool" where
  "five_figures p \<longleftrightarrow> (\<exists>n e. p = of_int n * pow10 e \<and> \<bar>n\<bar> < 10 ^ 5)"

definition venue_price :: "symbol_rules \<Rightarrow> decimal \<Rightarrow> bool" where
  "venue_price rules p \<longleftrightarrow> p \<in> \<int> \<or> five_figures p \<and> on_grid (nat (max_price_decimals rules)) p"

definition venue_size :: "symbol_rules \<Rightarrow> decimal \<Rightarrow> bool" where
  "venue_size rules q \<longleftrightarrow> on_grid (nat (sz_decimals rules)) q"

lemma five_figuresI:
  assumes "0 \<le> n" "n \<le> 10 ^ 5"
  shows "five_figures (of_int n * pow10 e)"
proof (cases "n = 10 ^ 5")
  case True
  have "of_int n * pow10 e = of_int 1 * pow10 (e + 5)"
    by (simp add: True pow10_add pow10_nat [of 5, simplified])
  then show ?thesis unfolding five_figures_def by (intro exI [of _ 1] exI [of _ "e + 5"]) simp
next
  case False
  with assms show ?thesis unfolding five_figures_def by (intro exI [of _ n] exI [of _ e]) simp
qed

lemma round_range:
  assumes "0 < z" "z \<le> 10 ^ 5"
  shows "0 \<le> round_int (if b then ROUND_FLOOR else ROUND_CEILING) z" "round_int (if b then ROUND_FLOOR else ROUND_CEILING) z \<le> 10 ^ 5"
proof -
  have "\<lceil>z\<rceil> \<le> 10 ^ 5" using assms(2) by (simp add: ceiling_le_iff)
  moreover have "\<lfloor>z\<rfloor> \<le> \<lceil>z\<rceil>" "0 \<le> \<lfloor>z\<rfloor>" using assms(1) by (simp_all add: floor_le_ceiling)
  ultimately show "0 \<le> round_int (if b then ROUND_FLOOR else ROUND_CEILING) z" "round_int (if b then ROUND_FLOOR else ROUND_CEILING) z \<le> 10 ^ 5"
    by simp_all
qed

lemma size_grid:
  assumes "quantize_size q rules = Inr x" "0 \<le> q" "0 \<le> sz_decimals rules"
  shows "venue_size rules x" "0 \<le> x" "x \<le> q" "q - x < pow10 (- sz_decimals rules)"
proof -
  let ?e = "- sz_decimals rules"
  have x: "x = of_int \<lfloor>q / pow10 ?e\<rfloor> * pow10 ?e"
    using quantize_form [OF assms(1) [unfolded quantize_size_def]] assms(2) by simp
  from floor_grid [OF x] assms(2) show "0 \<le> x" "x \<le> q" "q - x < pow10 ?e" by simp_all
  show "venue_size rules x" unfolding venue_size_def x using assms(3) by (intro on_grid_pow10) simp_all
qed

lemma price_grid:
  assumes "quantize_price price side rules = Inr p" "0 < price" "0 \<le> sz_decimals rules" "sz_decimals rules \<le> 6"
  shows "venue_price rules p" "side = BUY \<Longrightarrow> p \<le> price" "side = SELL \<Longrightarrow> price \<le> p" "0 \<le> p"
    "\<bar>p - price\<bar> < pow10 (price_exponent price rules)"
proof -
  let ?e = "price_exponent price rules"
  let ?mode = "if side = BUY then ROUND_FLOOR else ROUND_CEILING"
  let ?n = "round_int ?mode (price / pow10 ?e)"
  have "venue_price rules p \<and> (side = BUY \<longrightarrow> p \<le> price) \<and> (side = SELL \<longrightarrow> price \<le> p) \<and> 0 \<le> p \<and> \<bar>p - price\<bar> < pow10 ?e"
  proof (cases "price = of_int (round_half_even price)")
    case True
    have "p = price" using assms(1) True by (simp add: quantize_price_def)
    moreover have "price \<in> \<int>" by (subst True) simp
    ultimately show ?thesis using assms(2) by (simp add: venue_price_def)
  next
    case False
    have p: "p = of_int ?n * pow10 ?e" using quantize_form [of price ?e ?mode p] assms(1) False by (simp add: quantize_price_def)
    have dir: "(side = BUY \<longrightarrow> p \<le> price) \<and> (side = SELL \<longrightarrow> price \<le> p) \<and> \<bar>p - price\<bar> < pow10 ?e \<and> 0 \<le> p"
    proof (cases "side = BUY")
      case True
      with p have "p = of_int \<lfloor>price / pow10 ?e\<rfloor> * pow10 ?e" by simp
      from floor_grid [OF this] assms(2) True show ?thesis by auto
    next
      case False
      with p have "p = of_int \<lceil>price / pow10 ?e\<rceil> * pow10 ?e" by simp
      from ceiling_grid [OF this] assms(2) False show ?thesis by auto
    qed
    have e: "?e \<le> 0" "adjusted price - 4 \<le> ?e \<or> ?e = 0" "?e < 0 \<Longrightarrow> - max_price_decimals rules \<le> ?e"
      by (auto simp: price_exponent_def Let_def PRICE_SIG_FIGS_def)
    have "venue_price rules p"
    proof (cases "?e = 0")
      case True
      then show ?thesis by (simp add: venue_price_def p)
    next
      case False
      then have neg: "?e < 0" using e(1) by simp
      have "price < pow10 (adjusted price + 1)" using adjusted_bounds [of price] assms(2) by simp
      also have "\<dots> \<le> pow10 (?e + 5)" using e(2) False by (intro pow10_mono) simp
      finally have "price / pow10 ?e \<le> 10 ^ 5" by (simp add: pow10_add pow10_nat [of 5, simplified] field_simps)
      moreover have "0 < price / pow10 ?e" using assms(2) by simp
      ultimately have "?n \<le> 10 ^ 5" "0 \<le> ?n" using round_range [of "price / pow10 ?e"] by simp_all
      then have "five_figures p" unfolding p by (intro five_figuresI)
      moreover have "on_grid (nat (max_price_decimals rules)) p"
        unfolding p using e(3) [OF neg] neg assms(4) by (intro on_grid_pow10) (simp_all add: max_price_decimals_def PRICE_MAX_DECIMALS_def)
      ultimately show ?thesis by (simp add: venue_price_def)
    qed
    with dir show ?thesis by simp
  qed
  then show "venue_price rules p" "side = BUY \<Longrightarrow> p \<le> price" "side = SELL \<Longrightarrow> price \<le> p" "0 \<le> p" "\<bar>p - price\<bar> < pow10 ?e"
    by simp_all
qed

end
