(* ===== verification/Risk_Manager.thy ===== *)
theory Risk_Manager
  imports Portfolio_Manager Position_Lifecycle Execution_State_Machine
begin

text \<open>
  The risk manager, \<^verbatim>\<open>risk_manager/models.py\<close> and \<^verbatim>\<open>risk_manager/manager.py\<close>: a pure function from
  a fully specified trade and the state of the engine to a verdict.  \<open>RiskProfileParams\<close> of
  \<^verbatim>\<open>config/schema.py\<close> holds floats; a finite float is the rational number it denotes, which is what
  Python compares a Decimal with.  ISO timestamps are read by a parameter, as microseconds.
\<close>

section \<open>Models\<close>

record risk_profile_params =
  rp_risk_pct_per_trade :: rat
  rp_max_positions :: int
  rp_sizing_mode :: string
  rp_heat_cap :: rat
  rp_ruin_threshold :: rat

definition CORRELATION_THRESHOLD :: decimal where "CORRELATION_THRESHOLD = 1 / 2"

record trade_request =
  tr_symbol :: symbol
  tr_side :: order_side
  tr_order_type :: order_type
  tr_time_in_force :: time_in_force
  tr_reduce_only :: bool
  tr_quantity :: decimal
  tr_entry_price :: decimal
  tr_stop_price :: decimal
  tr_proposed_risk_amount :: decimal
  tr_proposed_notional :: decimal
  tr_proposed_margin_required :: decimal
  tr_leverage :: decimal
  tr_estimated_liquidation_price :: "decimal option"

definition TradeRequest_post_init :: "trade_request \<Rightarrow> exc + trade_request" where
  "TradeRequest_post_init r =
     (if list_ex (\<lambda>value. value \<le> 0) [tr_quantity r, tr_entry_price r, tr_stop_price r, tr_proposed_notional r,
           tr_proposed_margin_required r, tr_leverage r]
      then Inl RiskManagerConfigurationError
      else if tr_proposed_risk_amount r \<le> 0 then Inl RiskManagerConfigurationError
      else Inr r)"

record funding_info =
  fi_symbol :: symbol
  fi_funding_rate :: decimal
  fi_as_of_utc :: string

record correlation_entry =
  ce_symbol :: symbol
  ce_correlation :: decimal

definition CorrelationEntry_post_init :: "correlation_entry \<Rightarrow> exc + correlation_entry" where
  "CorrelationEntry_post_init e =
     (if \<not> (-1 \<le> ce_correlation e \<and> ce_correlation e \<le> 1) then Inl RiskManagerConfigurationError else Inr e)"

record correlation_info =
  ci_entries :: "correlation_entry list"
  ci_as_of_utc :: string

record risk_manager_limits =
  rl_max_leverage :: decimal
  rl_min_liquidation_buffer_pct :: decimal
  rl_max_funding_rate_abs :: decimal
  rl_max_correlated_positions :: int
  rl_max_stale_data_seconds :: int

definition RiskManagerLimits_post_init :: "risk_manager_limits \<Rightarrow> exc + risk_manager_limits" where
  "RiskManagerLimits_post_init l =
     (if rl_max_leverage l \<le> 0 then Inl RiskManagerConfigurationError
      else if rl_min_liquidation_buffer_pct l < 0 then Inl RiskManagerConfigurationError
      else if rl_max_funding_rate_abs l < 0 then Inl RiskManagerConfigurationError
      else if rl_max_correlated_positions l < 0 then Inl RiskManagerConfigurationError
      else if rl_max_stale_data_seconds l \<le> 0 then Inl RiskManagerConfigurationError
      else Inr l)"

datatype decision = APPROVED | REJECTED | BLOCKED | FAIL_SAFE

datatype reason_code =
    OK_REASON | KILL_SWITCH_SOFT | KILL_SWITCH_HARD | KILL_SWITCH_EMERGENCY | ENGINE_STOPPED
  | RISK_PER_TRADE_EXCEEDED | PORTFOLIO_HEAT_EXCEEDED | MAX_POSITIONS_EXCEEDED | INSUFFICIENT_MARGIN
  | LEVERAGE_EXCEEDED | LIQUIDATION_TOO_CLOSE | FUNDING_RATE_TOO_HIGH | CORRELATION_LIMIT_EXCEEDED
  | EXCHANGE_CAPABILITY_UNSUPPORTED | NON_POSITIVE_EQUITY | MISSING_REQUIRED_DATA | STALE_DATA

fun reason_value :: "reason_code \<Rightarrow> string" where
  "reason_value OK_REASON = ''OK''"
| "reason_value KILL_SWITCH_SOFT = ''KILL_SWITCH_SOFT''"
| "reason_value KILL_SWITCH_HARD = ''KILL_SWITCH_HARD''"
| "reason_value KILL_SWITCH_EMERGENCY = ''KILL_SWITCH_EMERGENCY''"
| "reason_value ENGINE_STOPPED = ''ENGINE_STOPPED''"
| "reason_value RISK_PER_TRADE_EXCEEDED = ''RISK_PER_TRADE_EXCEEDED''"
| "reason_value PORTFOLIO_HEAT_EXCEEDED = ''PORTFOLIO_HEAT_EXCEEDED''"
| "reason_value MAX_POSITIONS_EXCEEDED = ''MAX_POSITIONS_EXCEEDED''"
| "reason_value INSUFFICIENT_MARGIN = ''INSUFFICIENT_MARGIN''"
| "reason_value LEVERAGE_EXCEEDED = ''LEVERAGE_EXCEEDED''"
| "reason_value LIQUIDATION_TOO_CLOSE = ''LIQUIDATION_TOO_CLOSE''"
| "reason_value FUNDING_RATE_TOO_HIGH = ''FUNDING_RATE_TOO_HIGH''"
| "reason_value CORRELATION_LIMIT_EXCEEDED = ''CORRELATION_LIMIT_EXCEEDED''"
| "reason_value EXCHANGE_CAPABILITY_UNSUPPORTED = ''EXCHANGE_CAPABILITY_UNSUPPORTED''"
| "reason_value NON_POSITIVE_EQUITY = ''NON_POSITIVE_EQUITY''"
| "reason_value MISSING_REQUIRED_DATA = ''MISSING_REQUIRED_DATA''"
| "reason_value STALE_DATA = ''STALE_DATA''"

record risk_decision =
  rd_decision :: decision
  rd_reason_codes :: "reason_code list"
  rd_violated_limits :: "string list"
  rd_calculated_exposure :: "decimal option"
  rd_calculated_heat :: "decimal option"
  rd_leverage :: "decimal option"
  rd_liquidation_buffer :: "decimal option"
  rd_funding_estimate :: "decimal option"
  rd_timestamp_utc :: string
  rd_audit_metadata :: dict

section \<open>Evaluation\<close>

text \<open>
  \<open>datetime.fromisoformat\<close> with the \<open>tzinfo\<close> default, as microseconds since a fixed instant, and the texts
  of Decimals and floats.
\<close>

record risk_env =
  rx_parse_utc :: "string \<Rightarrow> exc + int"
  rx_str :: "decimal \<Rightarrow> string"
  rx_float :: "rat \<Rightarrow> string"

fun blocking_state :: "state \<Rightarrow> reason_code option" where
  "blocking_state S_SOFT_KILL = Some KILL_SWITCH_SOFT"
| "blocking_state S_HARD_KILL = Some KILL_SWITCH_HARD"
| "blocking_state S_EMERGENCY_KILL = Some KILL_SWITCH_EMERGENCY"
| "blocking_state S_STOPPED = Some ENGINE_STOPPED"
| "blocking_state _ = None"

definition age_seconds :: "risk_env \<Rightarrow> string \<Rightarrow> string \<Rightarrow> exc + rat" where
  "age_seconds R evaluated_at_utc data_at_utc =
     bindE (rx_parse_utc R evaluated_at_utc) (\<lambda>now. bindE (rx_parse_utc R data_at_utc) (\<lambda>taken.
       Inr (of_int (now - taken) / 1000000)))"

definition timestamps_to_check :: "portfolio_snapshot option \<Rightarrow> position_snapshot list option \<Rightarrow> funding_info option \<Rightarrow>
    correlation_info option \<Rightarrow> (string \<times> string) list" where
  "timestamps_to_check pf ops fi ci =
     (case pf of None \<Rightarrow> [] | Some p \<Rightarrow> [(''portfolio_snapshot'', portfolio_snapshot.ps_updated_at_utc p)]) @
     (case ops of None \<Rightarrow> []
      | Some ps \<Rightarrow> map (\<lambda>pos. (''position:'' @ ps_position_id pos, position_snapshot.ps_updated_at_utc pos)) ps) @
     (case fi of None \<Rightarrow> [] | Some f \<Rightarrow> [(''funding_info'', fi_as_of_utc f)]) @
     (case ci of None \<Rightarrow> [] | Some c \<Rightarrow> [(''correlation_info'', ci_as_of_utc c)])"

definition liquidation_buffer :: "trade_request \<Rightarrow> decimal option" where
  "liquidation_buffer r =
     (case tr_estimated_liquidation_price r of
        None \<Rightarrow> None
      | Some liq \<Rightarrow> Some (if tr_side r = BUY then dsub (tr_stop_price r) liq else dsub liq (tr_stop_price r)))"

definition capability_violation :: "trade_request \<Rightarrow> capabilities \<Rightarrow> string option" where
  "capability_violation r c =
     (if tr_order_type r = MARKET \<and> \<not> supports_market_orders c then Some ''order_type:MARKET not supported''
      else if tr_order_type r = LIMIT \<and> \<not> supports_limit_orders c then Some ''order_type:LIMIT not supported''
      else if tr_reduce_only r \<and> \<not> supports_reduce_only c then Some ''reduce_only not supported''
      else if tr_time_in_force r = IOC \<and> \<not> supports_ioc c then Some ''time_in_force:IOC not supported''
      else if tr_time_in_force r = FOK \<and> \<not> supports_fok c then Some ''time_in_force:FOK not supported''
      else if tr_time_in_force r = POST_ONLY \<and> \<not> supports_post_only c then Some ''time_in_force:POST_ONLY not supported''
      else None)"

text \<open>The ages of the data, each next to its label; the first timestamp that cannot be read raises.\<close>

fun stale_data :: "risk_env \<Rightarrow> risk_manager_limits \<Rightarrow> string \<Rightarrow> (string \<times> string) list \<Rightarrow> exc + (reason_code \<times> string) list" where
  "stale_data R l now [] = Inr []"
| "stale_data R l now ((label, ts) # rest) =
     bindE (age_seconds R now ts) (\<lambda>age. bindE (stale_data R l now rest) (\<lambda>found.
       Inr (if age < 0 \<or> age > of_int (rl_max_stale_data_seconds l)
            then (STALE_DATA, label @ '':stale(age='' @ rx_float R age @ ''s)'') # found else found)))"

definition missing_data :: "state option \<Rightarrow> portfolio_snapshot option \<Rightarrow> position_snapshot list option \<Rightarrow> capabilities option \<Rightarrow>
    funding_info option \<Rightarrow> correlation_info option \<Rightarrow> trade_request \<Rightarrow> (reason_code \<times> string) list" where
  "missing_data kill pf ops caps fi ci r = map (\<lambda>(_, name). (MISSING_REQUIRED_DATA, name @ '':missing''))
     (filter fst
       [(kill = None, ''kill_switch_state''), (pf = None, ''portfolio_snapshot''), (ops = None, ''open_positions''),
        (caps = None, ''capabilities''), (fi = None, ''funding_info''), (ci = None, ''correlation_info''),
        (tr_estimated_liquidation_price r = None, ''trade_request.estimated_liquidation_price'')])"

text \<open>The nine business rules, in the order of the code: whether each is broken, and what is reported.\<close>

definition business_rules :: "risk_env \<Rightarrow> risk_manager_limits \<Rightarrow> risk_profile_params \<Rightarrow> trade_request \<Rightarrow> portfolio_snapshot \<Rightarrow>
    position_snapshot list \<Rightarrow> capabilities \<Rightarrow> funding_info \<Rightarrow> correlation_info \<Rightarrow> (bool \<times> reason_code \<times> string) list" where
  "business_rules R l rp r pf ops caps fi ci =
     (let heat_contribution = ddiv (tr_proposed_risk_amount r) (equity pf);
          calculated_heat = dadd (ps_heat pf) heat_contribution;
          buffer = liquidation_buffer r;
          stop_distance = dabs (dsub (tr_entry_price r) (tr_stop_price r));
          min_required_buffer = dmul (rl_min_liquidation_buffer_pct l) stop_distance;
          funding_cost_rate = (if tr_side r = BUY then fi_funding_rate fi else dneg (fi_funding_rate fi));
          correlated_count = int (length (filter (\<lambda>e. dabs (ce_correlation e) \<ge> CORRELATION_THRESHOLD) (ci_entries ci)))
      in [(heat_contribution > rp_risk_pct_per_trade rp, RISK_PER_TRADE_EXCEEDED,
             ''risk_pct_per_trade: '' @ rx_str R heat_contribution @ '' > '' @ rx_float R (rp_risk_pct_per_trade rp)),
          (calculated_heat > rp_heat_cap rp, PORTFOLIO_HEAT_EXCEEDED,
             ''heat_cap: '' @ rx_str R calculated_heat @ '' > '' @ rx_float R (rp_heat_cap rp)),
          (int (length ops) \<ge> rp_max_positions rp, MAX_POSITIONS_EXCEEDED,
             ''max_positions: '' @ show_int (int (length ops)) @ '' >= '' @ show_int (rp_max_positions rp)),
          (tr_proposed_margin_required r > ps_available_cash pf, INSUFFICIENT_MARGIN,
             ''available_cash: '' @ rx_str R (tr_proposed_margin_required r) @ '' > '' @ rx_str R (ps_available_cash pf)),
          (tr_leverage r > rl_max_leverage l, LEVERAGE_EXCEEDED,
             ''max_leverage: '' @ rx_str R (tr_leverage r) @ '' > '' @ rx_str R (rl_max_leverage l)),
          ((case buffer of None \<Rightarrow> True | Some b \<Rightarrow> b < min_required_buffer), LIQUIDATION_TOO_CLOSE,
             ''liquidation_buffer: '' @ (case buffer of None \<Rightarrow> ''None'' | Some b \<Rightarrow> rx_str R b) @ '' < '' @
               rx_str R min_required_buffer),
          (funding_cost_rate > rl_max_funding_rate_abs l, FUNDING_RATE_TOO_HIGH,
             ''max_funding_rate_abs: '' @ rx_str R funding_cost_rate @ '' > '' @ rx_str R (rl_max_funding_rate_abs l)),
          (correlated_count > rl_max_correlated_positions l, CORRELATION_LIMIT_EXCEEDED,
             ''max_correlated_positions: '' @ show_int correlated_count @ '' > '' @ show_int (rl_max_correlated_positions l)),
          (capability_violation r caps \<noteq> None, EXCHANGE_CAPABILITY_UNSUPPORTED,
             (case capability_violation r caps of None \<Rightarrow> [] | Some v \<Rightarrow> v))])"

definition evaluate :: "risk_env \<Rightarrow> risk_manager_limits \<Rightarrow> trade_request \<Rightarrow> risk_profile_params \<Rightarrow> string \<Rightarrow> state option \<Rightarrow>
    portfolio_snapshot option \<Rightarrow> position_snapshot list option \<Rightarrow> capabilities option \<Rightarrow> funding_info option \<Rightarrow>
    correlation_info option \<Rightarrow> exc + risk_decision" where
  "evaluate R l r rp now kill pf ops caps fi ci =
     (if rp_risk_pct_per_trade rp \<le> 0 \<or> rp_heat_cap rp \<le> 0 \<or> rp_max_positions rp \<le> 0 then Inl RiskManagerConfigurationError
      else if py_strip_empty now then Inl RiskManagerConfigurationError
      else case Option.bind kill (\<lambda>s. map_option (Pair s) (blocking_state s)) of
        Some (s, reason) \<Rightarrow>
          Inr \<lparr>rd_decision = BLOCKED, rd_reason_codes = [reason], rd_violated_limits = [reason_value reason],
               rd_calculated_exposure = None, rd_calculated_heat = None, rd_leverage = None,
               rd_liquidation_buffer = None, rd_funding_estimate = None, rd_timestamp_utc = now,
               rd_audit_metadata = [(''kill_switch_state'', VStr (state_value s))]\<rparr>
      | None \<Rightarrow>
          bindE (stale_data R l now (timestamps_to_check pf ops fi ci)) (\<lambda>stale.
            let found = missing_data kill pf ops caps fi ci r @ stale @
                  (case pf of None \<Rightarrow> []
                   | Some p \<Rightarrow> if equity p \<le> 0 then [(NON_POSITIVE_EQUITY, ''portfolio_snapshot.equity:non_positive'')] else [])
            in case (found, pf, ops, caps, fi, ci) of
                 ([], Some p, Some ps, Some c, Some f, Some co) \<Rightarrow>
                   (let broken = filter fst (business_rules R l rp r p ps c f co);
                        funding_cost_rate = (if tr_side r = BUY then fi_funding_rate f else dneg (fi_funding_rate f));
                        verdict = \<lparr>rd_decision = APPROVED, rd_reason_codes = [OK_REASON], rd_violated_limits = [],
                          rd_calculated_exposure = Some (dadd (ps_exposure p) (tr_proposed_notional r)),
                          rd_calculated_heat = Some (dadd (ps_heat p) (ddiv (tr_proposed_risk_amount r) (equity p))),
                          rd_leverage = Some (tr_leverage r), rd_liquidation_buffer = liquidation_buffer r,
                          rd_funding_estimate = Some (dmul funding_cost_rate (tr_proposed_notional r)),
                          rd_timestamp_utc = now, rd_audit_metadata = [(''stage'', VStr ''approved'')]\<rparr>
                    in Inr (if broken = [] then verdict
                            else verdict\<lparr>rd_decision := REJECTED, rd_reason_codes := map (fst \<circ> snd) broken,
                                   rd_violated_limits := map (snd \<circ> snd) broken,
                                   rd_audit_metadata := [(''stage'', VStr ''business_rules'')]\<rparr>))
               | _ \<Rightarrow>
                   Inr \<lparr>rd_decision = FAIL_SAFE, rd_reason_codes = map fst found, rd_violated_limits = map snd found,
                        rd_calculated_exposure = None, rd_calculated_heat = None, rd_leverage = Some (tr_leverage r),
                        rd_liquidation_buffer = None, rd_funding_estimate = None, rd_timestamp_utc = now,
                        rd_audit_metadata = [(''stage'', VStr ''data_verification'')]\<rparr>))"

section \<open>The verdict\<close>

text \<open>What each rule forbids, written as the limits are documented.\<close>

fun broken_rule :: "risk_manager_limits \<Rightarrow> risk_profile_params \<Rightarrow> trade_request \<Rightarrow> portfolio_snapshot \<Rightarrow>
    position_snapshot list \<Rightarrow> capabilities \<Rightarrow> funding_info \<Rightarrow> correlation_info \<Rightarrow> reason_code \<Rightarrow> bool" where
  "broken_rule l rp r p ps c f co RISK_PER_TRADE_EXCEEDED =
     (ddiv (tr_proposed_risk_amount r) (equity p) > rp_risk_pct_per_trade rp)"
| "broken_rule l rp r p ps c f co PORTFOLIO_HEAT_EXCEEDED =
     (dadd (ps_heat p) (ddiv (tr_proposed_risk_amount r) (equity p)) > rp_heat_cap rp)"
| "broken_rule l rp r p ps c f co MAX_POSITIONS_EXCEEDED = (int (length ps) \<ge> rp_max_positions rp)"
| "broken_rule l rp r p ps c f co INSUFFICIENT_MARGIN = (tr_proposed_margin_required r > ps_available_cash p)"
| "broken_rule l rp r p ps c f co LEVERAGE_EXCEEDED = (tr_leverage r > rl_max_leverage l)"
| "broken_rule l rp r p ps c f co LIQUIDATION_TOO_CLOSE =
     (\<exists>liq. tr_estimated_liquidation_price r = Some liq \<and>
        (if tr_side r = BUY then dsub (tr_stop_price r) liq else dsub liq (tr_stop_price r)) <
        dmul (rl_min_liquidation_buffer_pct l) (dabs (dsub (tr_entry_price r) (tr_stop_price r))))"
| "broken_rule l rp r p ps c f co FUNDING_RATE_TOO_HIGH =
     ((if tr_side r = BUY then fi_funding_rate f else dneg (fi_funding_rate f)) > rl_max_funding_rate_abs l)"
| "broken_rule l rp r p ps c f co CORRELATION_LIMIT_EXCEEDED =
     (int (length (filter (\<lambda>e. dabs (ce_correlation e) \<ge> CORRELATION_THRESHOLD) (ci_entries co))) > rl_max_correlated_positions l)"
| "broken_rule l rp r p ps c f co EXCHANGE_CAPABILITY_UNSUPPORTED = (capability_violation r c \<noteq> None)"
| "broken_rule l rp r p ps c f co _ = False"

lemma collected_codes:
  assumes "tr_estimated_liquidation_price r \<noteq> None"
  shows "set (map (fst \<circ> snd) (filter fst (business_rules R l rp r p ps c f co))) = {code. broken_rule l rp r p ps c f co code}"
proof -
  obtain liq where liq: "tr_estimated_liquidation_price r = Some liq" using assms by blast
  have "code \<in> set (map (fst \<circ> snd) (filter fst (business_rules R l rp r p ps c f co))) \<longleftrightarrow> broken_rule l rp r p ps c f co code" for code
    by (cases code) (simp_all add: business_rules_def Let_def liquidation_buffer_def liq)
  then show ?thesis by blast
qed

lemma stale_none:
  "stale_data R l now xs = Inr found \<Longrightarrow> found = [] \<longleftrightarrow>
     (\<forall>(label, ts)\<in>set xs. \<exists>age. age_seconds R now ts = Inr age \<and> 0 \<le> age \<and> age \<le> of_int (rl_max_stale_data_seconds l))"
  by (induction xs arbitrary: found) (auto simp: bindE_eq_Inr not_less split: if_splits)

lemma missing_none:
  "missing_data kill pf ops caps fi ci r = [] \<longleftrightarrow> kill \<noteq> None \<and> pf \<noteq> None \<and> ops \<noteq> None \<and> caps \<noteq> None \<and> fi \<noteq> None \<and>
     ci \<noteq> None \<and> tr_estimated_liquidation_price r \<noteq> None"
  by (simp add: missing_data_def)

definition blocked :: "state option \<Rightarrow> bool" where
  "blocked kill \<longleftrightarrow> kill \<in> Some ` {S_SOFT_KILL, S_HARD_KILL, S_EMERGENCY_KILL, S_STOPPED}"

lemma blocking_none: "Option.bind kill (\<lambda>s. map_option (Pair s) (blocking_state s)) = None \<longleftrightarrow> \<not> blocked kill"
proof (cases kill)
  case (Some s)
  then show ?thesis by (cases s) (auto simp: blocked_def)
qed (simp add: blocked_def)

text \<open>Everything the rules need is there, fresh, and the account is worth something.\<close>

definition usable :: "risk_env \<Rightarrow> risk_manager_limits \<Rightarrow> trade_request \<Rightarrow> string \<Rightarrow> state option \<Rightarrow> portfolio_snapshot option \<Rightarrow>
    position_snapshot list option \<Rightarrow> capabilities option \<Rightarrow> funding_info option \<Rightarrow> correlation_info option \<Rightarrow> bool" where
  "usable R l r now kill pf ops caps fi ci \<longleftrightarrow>
     kill \<noteq> None \<and> pf \<noteq> None \<and> ops \<noteq> None \<and> caps \<noteq> None \<and> fi \<noteq> None \<and> ci \<noteq> None \<and> tr_estimated_liquidation_price r \<noteq> None \<and>
     (\<forall>(label, ts)\<in>set (timestamps_to_check pf ops fi ci).
        \<exists>age. age_seconds R now ts = Inr age \<and> 0 \<le> age \<and> age \<le> of_int (rl_max_stale_data_seconds l)) \<and>
     (\<forall>p. pf = Some p \<longrightarrow> 0 < equity p)"

lemma verdict_cases:
  assumes "evaluate R l r rp now kill pf ops caps fi ci = Inr d"
  shows "if blocked kill then rd_decision d = BLOCKED
    else if \<not> usable R l r now kill pf ops caps fi ci then rd_decision d = FAIL_SAFE
    else \<exists>p ps c f co. pf = Some p \<and> ops = Some ps \<and> caps = Some c \<and> fi = Some f \<and> ci = Some co \<and>
      (if \<exists>code. broken_rule l rp r p ps c f co code
       then rd_decision d = REJECTED \<and> set (rd_reason_codes d) = {code. broken_rule l rp r p ps c f co code}
       else rd_decision d = APPROVED \<and> rd_reason_codes d = [OK_REASON])"
proof (cases "blocked kill")
  case True
  then obtain x where "Option.bind kill (\<lambda>s. map_option (Pair s) (blocking_state s)) = Some x" using blocking_none by blast
  with assms True show ?thesis by (cases x) (auto simp: evaluate_def split: if_splits)
next
  case False
  note open_ = blocking_none [THEN iffD2, OF False]
  obtain stale where stale: "stale_data R l now (timestamps_to_check pf ops fi ci) = Inr stale"
    using assms by (auto simp: evaluate_def open_ bindE_eq_Inr split: if_splits)
  define found where "found = missing_data kill pf ops caps fi ci r @ stale @ (case pf of None \<Rightarrow> []
     | Some p \<Rightarrow> if equity p \<le> 0 then [(NON_POSITIVE_EQUITY, ''portfolio_snapshot.equity:non_positive'')] else [])"
  have found: "found = [] \<longleftrightarrow> usable R l r now kill pf ops caps fi ci"
    using stale_none [OF stale] by (auto simp: found_def usable_def missing_none not_le split: option.splits)
  show ?thesis
  proof (cases "found = []")
    case True
    with found obtain p ps c f co where some: "pf = Some p" "ops = Some ps" "caps = Some c" "fi = Some f" "ci = Some co"
      and liq: "tr_estimated_liquidation_price r \<noteq> None" by (auto simp: usable_def)
    note codes = collected_codes [OF liq, of R l rp p ps c f co]
    from assms open_ stale True found_def have d: "rd_decision d = (if filter fst (business_rules R l rp r p ps c f co) = [] then APPROVED else REJECTED)
      \<and> rd_reason_codes d = (if filter fst (business_rules R l rp r p ps c f co) = [] then [OK_REASON]
          else map (fst \<circ> snd) (filter fst (business_rules R l rp r p ps c f co)))"
      by (auto simp: evaluate_def some Let_def split: if_splits)
    show ?thesis
    proof (cases "filter fst (business_rules R l rp r p ps c f co) = []")
      case True
      then have "\<not> (\<exists>code. broken_rule l rp r p ps c f co code)" using codes by auto
      with d True False found \<open>found = []\<close> some show ?thesis by simp
    next
      case broken: False
      then have "\<exists>code. broken_rule l rp r p ps c f co code"
        using codes by (metis (mono_tags, lifting) Collect_empty_eq map_is_Nil_conv set_empty)
      with d broken False found \<open>found = []\<close> some codes show ?thesis by simp
    qed
  next
    case bad: False
    then obtain x xs where "found = x # xs" by (cases found) auto
    with assms open_ stale have "rd_decision d = FAIL_SAFE"
      unfolding found_def by (auto simp: evaluate_def Let_def split: if_splits)
    with bad found False show ?thesis by simp
  qed
qed

lemma risk_verdict_facts:
  assumes "evaluate R l r rp now kill (Some p) ops caps fi ci = Inr d"
  shows "rd_decision d = APPROVED \<Longrightarrow> \<exists>ps c f co. \<forall>code. \<not> broken_rule l rp r p ps c f co code"
    "rd_decision d = REJECTED \<Longrightarrow> \<exists>ps c f co. set (rd_reason_codes d) = {code. broken_rule l rp r p ps c f co code}"
  using verdict_cases [OF assms] by (auto split: if_splits)

text \<open>
  (C37) The verdict of the risk manager, by precedence.  A killed or stopped engine blocks every trade,
  whatever else is given; otherwise a trade is judged only on complete and fresh data with positive
  equity, and fails safe without; and then it is approved exactly when no rule is broken, and a
  rejection names exactly the rules that are.
\<close>

theorem risk_verdict:
  assumes "evaluate R l r rp now kill pf ops caps fi ci = Inr d"
  shows "if blocked kill then rd_decision d = BLOCKED
    else if \<not> usable R l r now kill pf ops caps fi ci then rd_decision d = FAIL_SAFE
    else \<exists>p ps c f co. pf = Some p \<and> ops = Some ps \<and> caps = Some c \<and> fi = Some f \<and> ci = Some co \<and>
      (if \<exists>code. broken_rule l rp r p ps c f co code
       then rd_decision d = REJECTED \<and> set (rd_reason_codes d) = {code. broken_rule l rp r p ps c f co code}
       else rd_decision d = APPROVED \<and> rd_reason_codes d = [OK_REASON])"
  by (rule verdict_cases [OF assms])

end
