(* ===== verification/Execution.thy ===== *)
theory Execution
  imports Order_Manager Quantization Risk_Manager
begin

text \<open>
  The executor, \<^verbatim>\<open>trading_system/execution/executor.py\<close>: an approved trade request becomes an order of
  the order manager, quantized to the venue's grid before anything is recorded or sent.
\<close>

datatype execution_operation = EX_PLACE | EX_AMEND | EX_CANCEL

record execution_result =
  er_operation :: execution_operation
  er_order_snapshot :: "order_snapshot option"
  er_trade_request :: "trade_request option"
  er_decision :: "risk_decision option"

type_synonym quantization_rules = "symbol \<rightharpoonup> symbol_rules"

definition rules_for :: "symbol \<Rightarrow> quantization_rules option \<Rightarrow> exc + symbol_rules option" where
  "rules_for symb rules =
     (case rules of
        None \<Rightarrow> Inr None
      | Some table \<Rightarrow> (case table symb of None \<Rightarrow> Inl ExecutionError | Some symbol_rules \<Rightarrow> Inr (Some symbol_rules)))"

text \<open>A price that quantizes to zero is an impossible order.\<close>

definition on_price_grid :: "decimal option \<Rightarrow> order_side \<Rightarrow> symbol_rules \<Rightarrow> exc + decimal option" where
  "on_price_grid price side symbol_rules =
     (case price of
        None \<Rightarrow> Inr None
      | Some p \<Rightarrow> bindE (quantize_price p side symbol_rules) (\<lambda>p'. if p' \<le> 0 then Inl ExecutionError else Inr (Some p')))"

definition on_size_grid :: "decimal \<Rightarrow> symbol_rules \<Rightarrow> exc + decimal" where
  "on_size_grid quantity symbol_rules =
     bindE (quantize_size quantity symbol_rules) (\<lambda>q. if q \<le> 0 then Inl ExecutionError else Inr q)"

text \<open>The quantity and the limit price that are handed to the order manager.\<close>

definition order_terms :: "trade_request \<Rightarrow> quantization_rules option \<Rightarrow> exc + decimal \<times> decimal option" where
  "order_terms r rules =
     (let limit_price = (if tr_order_type r = LIMIT then Some (tr_entry_price r) else None)
      in bindE (rules_for (tr_symbol r) rules) (\<lambda>found.
           case found of
             None \<Rightarrow> Inr (tr_quantity r, limit_price)
           | Some symbol_rules \<Rightarrow>
               bindE (on_size_grid (tr_quantity r) symbol_rules) (\<lambda>quantity.
               bindE (on_price_grid limit_price (tr_side r) symbol_rules) (\<lambda>limit_price. Inr (quantity, limit_price)))))"

definition execute_place :: "env \<Rightarrow> 'ad adapter_api \<Rightarrow> trade_request \<Rightarrow> risk_decision \<Rightarrow> quantization_rules option \<Rightarrow>
    ('ad, execution_result) om_prog" where
  "execute_place E X r d rules w =
     (if rd_decision d \<noteq> APPROVED then (Inl ExecutionError, w)
      else case order_terms r rules of
        Inl x \<Rightarrow> (Inl x, w)
      | Inr (quantity, limit_price) \<Rightarrow>
          bindP (om_place_order E X (tr_symbol r) (tr_side r) (tr_order_type r) quantity limit_price (tr_time_in_force r)
                   (tr_reduce_only r))
            (\<lambda>snapshot w. (Inr \<lparr>er_operation = EX_PLACE, er_order_snapshot = snapshot, er_trade_request = Some r,
                               er_decision = Some d\<rparr>, w)) w)"

text \<open>With rules, the new values of an amendment are quantized by the side of the order itself.\<close>

definition amend_terms :: "order_snapshot \<Rightarrow> decimal option \<Rightarrow> decimal option \<Rightarrow> quantization_rules \<Rightarrow>
    exc + decimal option \<times> decimal option" where
  "amend_terms existing new_quantity new_limit_price rules =
     bindE (rules_for (os_symbol existing) (Some rules)) (\<lambda>found.
     case found of
       None \<Rightarrow> Inr (new_quantity, new_limit_price)
     | Some symbol_rules \<Rightarrow>
         bindE (case new_quantity of None \<Rightarrow> Inr None | Some q \<Rightarrow> bindE (on_size_grid q symbol_rules) (\<lambda>q. Inr (Some q))) (\<lambda>new_quantity.
         bindE (on_price_grid new_limit_price (os_side existing) symbol_rules) (\<lambda>new_limit_price.
           Inr (new_quantity, new_limit_price))))"

definition execute_amend :: "env \<Rightarrow> 'ad adapter_api \<Rightarrow> string \<Rightarrow> decimal option \<Rightarrow> decimal option \<Rightarrow> quantization_rules option \<Rightarrow>
    ('ad, execution_result) om_prog" where
  "execute_amend E X cid new_quantity new_limit_price rules w =
     (if py_strip_empty cid then (Inl ExecutionError, w)
      else
        let amend = (\<lambda>q p. bindP (om_amend_order E X cid q p)
              (\<lambda>snapshot w. (Inr \<lparr>er_operation = EX_AMEND, er_order_snapshot = snapshot, er_trade_request = None,
                                 er_decision = None\<rparr>, w)))
        in case rules of
             None \<Rightarrow> amend new_quantity new_limit_price w
           | Some table \<Rightarrow>
               if new_quantity = None \<and> new_limit_price = None then amend new_quantity new_limit_price w
               else bindP (om_get_order_status cid) (\<lambda>existing w.
                      case amend_terms existing new_quantity new_limit_price table of
                        Inl x \<Rightarrow> (Inl x, w)
                      | Inr (q, p) \<Rightarrow> amend q p w) w)"

definition execute_cancel :: "env \<Rightarrow> 'ad adapter_api \<Rightarrow> string \<Rightarrow> ('ad, execution_result) om_prog" where
  "execute_cancel E X cid w =
     (if py_strip_empty cid then (Inl ExecutionError, w)
      else bindP (om_cancel_order E X cid)
        (\<lambda>snapshot w. (Inr \<lparr>er_operation = EX_CANCEL, er_order_snapshot = snapshot, er_trade_request = None,
                           er_decision = None\<rparr>, w)) w)"

section \<open>What is sent\<close>

lemma size_grid_ok: "on_size_grid q s = Inr x \<longleftrightarrow> quantize_size q s = Inr x \<and> 0 < x"
  by (cases "quantize_size q s") (auto simp: on_size_grid_def)

lemma price_grid_ok:
  "on_price_grid (Some p) side s = Inr x \<longleftrightarrow> (\<exists>p'. x = Some p' \<and> quantize_price p side s = Inr p' \<and> 0 < p')"
  "on_price_grid None side s = Inr x \<longleftrightarrow> x = None"
  by (cases "quantize_price p side s") (auto simp: on_price_grid_def)

text \<open>
  (C36) What is executed was approved, and is never larger or worse.  The executor hands at most one order
  to the order manager, and only for an approved decision; the quantity is on the grid of the venue, positive, at
  most what was approved and less than one lot below; a limit price is a legal price of the venue,
  never worse for the engine than the approved one and within one tick of it.  In every other case
  nothing is recorded and nothing is sent.
\<close>

theorem executed_within_approval:
  assumes "execute_place E X r d (Some rules) w = (q, w')" "0 < tr_quantity r" "0 < tr_entry_price r"
    and "\<forall>s. rules (tr_symbol r) = Some s \<longrightarrow> SymbolRules_post_init s = Inr s"
  shows "(isl q \<and> w' = w) \<or>
    (rd_decision d = APPROVED \<and> (\<exists>s quantity limit_price. rules (tr_symbol r) = Some s \<and>
       w' = snd (om_place_order E X (tr_symbol r) (tr_side r) (tr_order_type r) quantity limit_price
                   (tr_time_in_force r) (tr_reduce_only r) w) \<and>
       0 < quantity \<and> quantity \<le> tr_quantity r \<and> tr_quantity r < quantity + pow10 (- sz_decimals s) \<and> venue_size s quantity \<and>
       (case limit_price of
          None \<Rightarrow> tr_order_type r \<noteq> LIMIT
        | Some p \<Rightarrow> tr_order_type r = LIMIT \<and> 0 < p \<and> venue_price s p \<and>
            (if tr_side r = BUY then p \<le> tr_entry_price r else tr_entry_price r \<le> p) \<and>
            \<bar>p - tr_entry_price r\<bar> < pow10 (price_exponent (tr_entry_price r) s))))"
proof (cases "rd_decision d = APPROVED \<and> (\<exists>terms. order_terms r (Some rules) = Inr terms)")
  case False
  then have "isl q \<and> w' = w"
    using assms(1) by (cases "order_terms r (Some rules)") (auto simp: execute_place_def split: if_splits)
  then show ?thesis by simp
next
  case True
  then obtain quantity limit_price where d: "rd_decision d = APPROVED"
    and terms: "order_terms r (Some rules) = Inr (quantity, limit_price)" by auto
  from terms obtain s where s: "rules (tr_symbol r) = Some s" "quantize_size (tr_quantity r) s = Inr quantity" "0 < quantity"
    and p: "on_price_grid (if tr_order_type r = LIMIT then Some (tr_entry_price r) else None) (tr_side r) s = Inr limit_price"
    by (auto simp: order_terms_def rules_for_def Let_def bindE_eq_Inr size_grid_ok split: option.splits)
  have sz: "0 \<le> sz_decimals s" "sz_decimals s \<le> 6"
    using assms(4) s(1) by (auto simp: SymbolRules_post_init_def PRICE_MAX_DECIMALS_def split: if_splits)
  have w': "w' = snd (om_place_order E X (tr_symbol r) (tr_side r) (tr_order_type r) quantity limit_price
      (tr_time_in_force r) (tr_reduce_only r) w)"
    using assms(1) d terms by (auto simp: execute_place_def bindP_def split: prod.splits sum.splits)
  note size = size_grid [OF s(2) less_imp_le [OF assms(2)] sz(1)]
  have price: "case limit_price of None \<Rightarrow> tr_order_type r \<noteq> LIMIT
        | Some p \<Rightarrow> tr_order_type r = LIMIT \<and> 0 < p \<and> venue_price s p \<and>
            (if tr_side r = BUY then p \<le> tr_entry_price r else tr_entry_price r \<le> p) \<and>
            \<bar>p - tr_entry_price r\<bar> < pow10 (price_exponent (tr_entry_price r) s)"
  proof (cases "tr_order_type r = LIMIT")
    case True
    with p obtain p' where p': "limit_price = Some p'" "quantize_price (tr_entry_price r) (tr_side r) s = Inr p'" "0 < p'"
      by (auto simp: price_grid_ok)
    from price_grid [OF p'(2) assms(3) sz] True p' show ?thesis by (cases "tr_side r") simp_all
  next
    case False
    with p show ?thesis by (simp add: price_grid_ok)
  qed
  from size have "tr_quantity r < quantity + pow10 (- sz_decimals s)" by simp
  with d s w' size price show ?thesis by blast
qed

end
