(* ===== verification/Accounting.thy ===== *)
theory Accounting
  imports Engine_Log Execution
begin

text \<open>
  The accounting bridge, \<^verbatim>\<open>app/runtime/accounting.py\<close>: it takes the fills of the venue to the order manager, the
  position manager and the portfolio ledger, keeps the attribution of orders to positions in two maps that
  it records in the log, and aggregates the marks.
\<close>

section \<open>State\<close>

text \<open>A note is one of the messages \<open>sync\<close> returns; its constructors name the message, its arguments the values in it.\<close>

datatype sync_note =
    Fill_Fetch_Failed exc
  | Fill_Failed string string exc
  | Order_Unknown string string
  | No_Recorded_Levels string string
  | Degenerate_Stop string string
  | Dead_Position string string
  | Margin_Failed string string exc
  | No_Matching_Position string symbol
  | Partial_Close string symbol decimal decimal string

text \<open>
  The instance: \<open>_position_by_cid\<close> is iterated in insertion order, the other maps are only looked up.  \<open>bk_notes\<close> is the
  list \<open>sync\<close> passes to its helpers, \<open>bk_engine\<close> the engine the instance refers to.
\<close>

record accounting =
  as_target_leverage :: decimal
  as_levels_by_cid :: "string \<rightharpoonup> decimal \<times> decimal"
  as_position_by_cid :: "(string \<times> string) list"
  as_closed_qty_by_pid :: "string \<rightharpoonup> decimal"
  as_counted_exit_fills :: "string set"

record 'ad books =
  bk_engine :: "'ad engine"
  bk_accounting :: accounting
  bk_notes :: "sync_note list"

type_synonym ('ad, 'a) books_prog = "('ad books, exc, 'a) prog"

definition ACTION_LEVELS :: string where "ACTION_LEVELS = ''order_levels_recorded''"
definition ACTION_MAPPED :: string where "ACTION_MAPPED = ''order_position_mapped''"

definition TERMINAL_POSITION_STATES :: "position_state set" where
  "TERMINAL_POSITION_STATES = {P_CLOSED, P_ARCHIVED}"

definition on_engine :: "('ad, 'a) engine_prog \<Rightarrow> ('ad, 'a) books_prog" where
  "on_engine f b = (case f (bk_engine b) of (r, e) \<Rightarrow> (r, b\<lparr>bk_engine := e\<rparr>))"

definition add_note :: "sync_note \<Rightarrow> ('ad, unit) books_prog" where
  "add_note n b = (Inr (), b\<lparr>bk_notes := bk_notes b @ [n]\<rparr>)"

text \<open>The classes \<open>sync\<close> and \<open>_book_entry\<close> catch.\<close>

fun is_order_manager_error :: "exc \<Rightarrow> bool" where
  "is_order_manager_error OrderNotFoundError = True"
| "is_order_manager_error IllegalOrderTransitionError = True"
| "is_order_manager_error OrderStateInconsistencyError = True"
| "is_order_manager_error (ReplayIntegrityError OM) = True"
| "is_order_manager_error _ = False"

fun is_position_manager_error :: "exc \<Rightarrow> bool" where
  "is_position_manager_error PositionNotFoundError = True"
| "is_position_manager_error IllegalPositionTransitionError = True"
| "is_position_manager_error PositionStateInconsistencyError = True"
| "is_position_manager_error (ReplayIntegrityError PM) = True"
| "is_position_manager_error _ = False"

fun is_portfolio_manager_error :: "exc \<Rightarrow> bool" where
  "is_portfolio_manager_error InsufficientFundsError = True"
| "is_portfolio_manager_error InsufficientMarginError = True"
| "is_portfolio_manager_error AccountingInvariantError = True"
| "is_portfolio_manager_error (ReplayIntegrityError PF) = True"
| "is_portfolio_manager_error _ = False"

text \<open>\<open>json.JSONDecodeError\<close> is a \<open>ValueError\<close>.\<close>

definition is_value_error :: "exc \<Rightarrow> bool" where
  "is_value_error x \<longleftrightarrow> x = ValueError \<or> x = JSONDecodeError"

section \<open>Construction\<close>

definition acc_is_own_event :: "event \<Rightarrow> bool" where
  "acc_is_own_event e \<longleftrightarrow> dget (payload e) ''source'' = VStr ACC_SOURCE_TAG"

type_synonym acc_maps = "(string \<rightharpoonup> decimal \<times> decimal) \<times> (string \<times> string) list"

definition acc_apply_event :: "event \<Rightarrow> (acc_maps, exc, unit) prog" where
  "acc_apply_event e m =
     (case m of (levels, positions) \<Rightarrow>
        if dget (payload e) ''action'' = VStr ACTION_LEVELS then
          (case bindE (req_dec (payload e) ''entry_price'') (\<lambda>entry.
                bindE (req_dec (payload e) ''stop_price'') (\<lambda>stop.
                bindE (req_str (payload e) ''client_order_id'') (\<lambda>cid. Inr (cid, entry, stop)))) of
             Inl x \<Rightarrow> (Inl x, m)
           | Inr (cid, entry, stop) \<Rightarrow> (Inr (), (levels(cid \<mapsto> (entry, stop)), positions)))
        else if dget (payload e) ''action'' = VStr ACTION_MAPPED then
          (case bindE (req_str (payload e) ''position_id'') (\<lambda>pid.
                bindE (req_str (payload e) ''client_order_id'') (\<lambda>cid. Inr (cid, pid))) of
             Inl x \<Rightarrow> (Inl x, m)
           | Inr (cid, pid) \<Rightarrow> (Inr (), (levels, AList.update cid pid positions)))
        else (Inr (), m))"

definition AccountingSync :: "event_store \<Rightarrow> decimal \<Rightarrow> exc + accounting" where
  "AccountingSync store target_leverage =
     bindE (replay 1 store) (\<lambda>evs.
     bindE (fold_log acc_is_own_event acc_apply_event evs (Map.empty, [])) (\<lambda>(levels, positions).
       Inr \<lparr>as_target_leverage = target_leverage, as_levels_by_cid = levels, as_position_by_cid = positions,
            as_closed_qty_by_pid = Map.empty, as_counted_exit_fills = {}\<rparr>))"

text \<open>The payload, in key order: the fields before and after \<open>source\<close>.\<close>

definition acc_payload :: "string \<Rightarrow> dict \<Rightarrow> dict \<Rightarrow> dict" where
  "acc_payload action before after = (''action'', VStr action) # before @ (''source'', VStr ACC_SOURCE_TAG) # after"

definition acc_key :: "string \<Rightarrow> string \<Rightarrow> string" where
  "acc_key action key = ACC_SOURCE_TAG @ '':'' @ action @ '':'' @ key"

definition acc_append :: "env \<Rightarrow> string \<Rightarrow> string \<Rightarrow> dict \<Rightarrow> dict \<Rightarrow> ('ad, unit) books_prog" where
  "acc_append E action key before after b =
     (case append_event E POSITION_UPDATED (acc_payload action before after) (Some (acc_key action key)) 1
             (en_event_store (bk_engine b)) of
        (Inl x, s) \<Rightarrow> (Inl x, b\<lparr>bk_engine := (bk_engine b)\<lparr>en_event_store := s\<rparr>\<rparr>)
      | (Inr _, s) \<Rightarrow> (Inr (), b\<lparr>bk_engine := (bk_engine b)\<lparr>en_event_store := s\<rparr>\<rparr>))"

section \<open>Recording the levels of an execution\<close>

definition set_levels :: "string \<Rightarrow> decimal \<times> decimal \<Rightarrow> ('ad, unit) books_prog" where
  "set_levels cid levels b =
     (Inr (), b\<lparr>bk_accounting := (bk_accounting b)\<lparr>as_levels_by_cid := (as_levels_by_cid (bk_accounting b))(cid \<mapsto> levels)\<rparr>\<rparr>)"

definition map_position :: "string \<Rightarrow> string \<Rightarrow> ('ad, unit) books_prog" where
  "map_position cid pid b =
     (Inr (), b\<lparr>bk_accounting := (bk_accounting b)\<lparr>as_position_by_cid := AList.update cid pid (as_position_by_cid (bk_accounting b))\<rparr>\<rparr>)"

definition record_levels :: "env \<Rightarrow> execution_result \<Rightarrow> ('ad, unit) books_prog" where
  "record_levels E res b =
     (case er_trade_request res of
        None \<Rightarrow> (Inr (), b)
      | Some r \<Rightarrow>
          (case er_order_snapshot res of
             None \<Rightarrow> (Inl AttributeError, b)
           | Some sn \<Rightarrow>
               let cid = os_client_order_id sn in
               if as_levels_by_cid (bk_accounting b) cid \<noteq> None then (Inr (), b)
               else bindP (acc_append E ACTION_LEVELS cid
                             [(''client_order_id'', VStr cid), (''entry_price'', VDec (tr_entry_price r))]
                             [(''stop_price'', VDec (tr_stop_price r))])
                      (\<lambda>_. set_levels cid (tr_entry_price r, tr_stop_price r)) b))"

definition record_execution_levels :: "env \<Rightarrow> execution_result list \<Rightarrow> ('ad, unit) books_prog" where
  "record_execution_levels E executions = bindP (mapM (record_levels E) executions) (\<lambda>_ b. (Inr (), b))"

section \<open>Booking an entry fill\<close>

text \<open>An attribute of a result that may be \<open>None\<close>.\<close>

definition need :: "'a option \<Rightarrow> ('s, exc, 'a) prog" where
  "need v s = (case v of None \<Rightarrow> (Inl AttributeError, s) | Some x \<Rightarrow> (Inr x, s))"

definition ask_pm :: "(position_manager \<Rightarrow> exc + 'a) \<Rightarrow> ('ad, 'a) books_prog" where
  "ask_pm f b = (f (en_position_manager (bk_engine b)), b)"

text \<open>The position of an order, created on its first fill; \<open>None\<close> when the fill is skipped.\<close>

definition entry_position :: "env \<Rightarrow> fill \<Rightarrow> decimal \<Rightarrow> ('ad, string option) books_prog" where
  "entry_position E f intended_quantity b =
     (let cid = fl_client_order_id f in
      case map_of (as_position_by_cid (bk_accounting b)) cid of
        Some pid \<Rightarrow> (Inr (Some pid), b)
      | None \<Rightarrow>
          (case as_levels_by_cid (bk_accounting b) cid of
             None \<Rightarrow> bindP (add_note (No_Recorded_Levels (fl_fill_id f) cid)) (\<lambda>_ b. (Inr None, b)) b
           | Some (entry, stop) \<Rightarrow>
               let stop_d = dabs (dsub entry stop) in
               if stop_d \<le> 0 then bindP (add_note (Degenerate_Stop (fl_fill_id f) cid)) (\<lambda>_ b. (Inr None, b)) b
               else
                 let (t1, t2) = (if fl_side f = BUY then (dadd entry stop_d, dadd entry (dmul 2 stop_d))
                                 else (dsub entry stop_d, dsub entry (dmul 2 stop_d)))
                 in bindP (on_engine (on_pm (create_position E (fl_symbol f) (fl_side f) intended_quantity stop stop_d t1 t2 None)))
                      (\<lambda>created. bindP (need created) (\<lambda>snapshot.
                       let pid = ps_position_id snapshot in
                       bindP (acc_append E ACTION_MAPPED cid [(''client_order_id'', VStr cid), (''position_id'', VStr pid)] [])
                         (\<lambda>_. bindP (map_position cid pid) (\<lambda>_ b. (Inr (Some pid), b))))) b))"

text \<open>The two margin calls; a \<open>PortfolioManagerError\<close> of either becomes a note.\<close>

definition book_margin :: "env \<Rightarrow> string \<Rightarrow> fill \<Rightarrow> decimal \<Rightarrow> ('ad, unit) books_prog" where
  "book_margin E pid f margin b =
     (case bindP (on_engine (on_pf (reserve_margin E pid margin (fl_fill_id f))))
             (\<lambda>_. on_engine (on_pf (allocate_margin E pid margin (fl_fill_id f)))) b of
        (Inr _, b') \<Rightarrow> (Inr (), b')
      | (Inl x, b') \<Rightarrow>
          if is_portfolio_manager_error x then add_note (Margin_Failed (fl_fill_id f) pid x) b' else (Inl x, b'))"

definition book_entry_at :: "env \<Rightarrow> fill \<Rightarrow> string \<Rightarrow> ('ad, unit) books_prog" where
  "book_entry_at E f pid =
     bindP (ask_pm (get_position pid)) (\<lambda>before.
     bindP (on_engine (on_pm (record_entry_fill E pid f))) (\<lambda>recorded.
     bindP (need recorded) (\<lambda>snapshot b.
       if ps_lifecycle_state snapshot \<in> TERMINAL_POSITION_STATES then
         (if ps_filled_quantity snapshot \<noteq> ps_filled_quantity before then add_note (Dead_Position (fl_fill_id f) pid) b
          else (Inr (), b))
       else if as_target_leverage (bk_accounting b) = 0 then (Inl ZeroDivisionError, b)
       else bindP (book_margin E pid f (ddiv (dmul (fl_quantity f) (fl_price f)) (as_target_leverage (bk_accounting b)))) (\<lambda>_ b.
              if fl_fee f > 0
              then bindP (on_engine (on_pf (apply_fee E pid (fl_fill_id f) (fl_fee f) (fl_fill_id f)))) (\<lambda>_ b. (Inr (), b)) b
              else (Inr (), b)) b)))"

definition book_entry :: "env \<Rightarrow> fill \<Rightarrow> decimal \<Rightarrow> ('ad, unit) books_prog" where
  "book_entry E f intended_quantity =
     bindP (entry_position E f intended_quantity) (\<lambda>pid.
       case pid of None \<Rightarrow> (\<lambda>b. (Inr (), b)) | Some p \<Rightarrow> book_entry_at E f p)"

section \<open>Booking an exit fill\<close>

text \<open>The loop over \<open>_position_by_cid.values()\<close>: the first open position of the symbol on the other side.\<close>

definition closes :: "symbol \<Rightarrow> order_side \<Rightarrow> position_snapshot \<Rightarrow> bool" where
  "closes symb closing_side pos \<longleftrightarrow>
     ps_symbol pos = symb \<and> ps_side pos = (if closing_side = BUY then SELL else BUY) \<and>
     ps_lifecycle_state pos \<notin> TERMINAL_POSITION_STATES \<and> ps_remaining_quantity pos > 0"

fun find_open_position :: "position_manager \<Rightarrow> symbol \<Rightarrow> order_side \<Rightarrow> string list \<Rightarrow> string option" where
  "find_open_position m symb closing_side [] = None"
| "find_open_position m symb closing_side (pid # pids) =
     (case get_position pid m of
        Inl _ \<Rightarrow> find_open_position m symb closing_side pids
      | Inr pos \<Rightarrow> if closes symb closing_side pos then Some pid else find_open_position m symb closing_side pids)"

definition exit_position :: "env \<Rightarrow> fill \<Rightarrow> ('ad, string option) books_prog" where
  "exit_position E f b =
     (let cid = fl_client_order_id f; positions = as_position_by_cid (bk_accounting b) in
      case map_of positions cid of
        Some pid \<Rightarrow> (Inr (Some pid), b)
      | None \<Rightarrow>
          (case find_open_position (en_position_manager (bk_engine b)) (fl_symbol f) (fl_side f) (map snd positions) of
             None \<Rightarrow> bindP (add_note (No_Matching_Position (fl_fill_id f) (fl_symbol f))) (\<lambda>_ b. (Inr None, b)) b
           | Some pid \<Rightarrow>
               bindP (acc_append E ACTION_MAPPED cid [(''client_order_id'', VStr cid), (''position_id'', VStr pid)] [])
                 (\<lambda>_. bindP (map_position cid pid) (\<lambda>_ b. (Inr (Some pid), b))) b))"

definition direction :: "order_side \<Rightarrow> decimal" where
  "direction sd = (if sd = BUY then 1 else -1)"

definition fill_realized_pnl :: "position_snapshot \<Rightarrow> decimal \<Rightarrow> fill \<Rightarrow> decimal" where
  "fill_realized_pnl pos entry f =
     dsub (dmul (dmul (direction (ps_side pos)) (dsub (fl_price f) entry)) (fl_quantity f)) (fl_fee f)"

definition qty_of :: "accounting \<Rightarrow> string \<Rightarrow> decimal" where
  "qty_of a pid = (case as_closed_qty_by_pid a pid of None \<Rightarrow> 0 | Some q \<Rightarrow> q)"

definition count_exit :: "string \<Rightarrow> fill \<Rightarrow> accounting \<Rightarrow> accounting" where
  "count_exit pid f a =
     (if fl_fill_id f \<in> as_counted_exit_fills a then a
      else a\<lparr>as_counted_exit_fills := insert (fl_fill_id f) (as_counted_exit_fills a),
             as_closed_qty_by_pid := (as_closed_qty_by_pid a)(pid \<mapsto> dadd (qty_of a pid) (fl_quantity f))\<rparr>)"

definition book_exit_at :: "env \<Rightarrow> fill \<Rightarrow> string \<Rightarrow> ('ad, unit) books_prog" where
  "book_exit_at E f pid =
     bindP (ask_pm (get_position pid)) (\<lambda>pos.
     bindP (case ps_avg_entry_price pos of
              None \<Rightarrow> (\<lambda>b. (Inr (), b))
            | Some entry \<Rightarrow>
                bindP (on_engine (on_pf (apply_realized_pnl E pid (fl_fill_id f) (fill_realized_pnl pos entry f) (fl_fill_id f))))
                  (\<lambda>_ b. (Inr (), b))) (\<lambda>_.
     bindP (\<lambda>b. (Inr (), b\<lparr>bk_accounting := count_exit pid f (bk_accounting b)\<rparr>)) (\<lambda>_ b.
       if ps_lifecycle_state pos \<in> TERMINAL_POSITION_STATES then (Inr (), b)
       else if qty_of (bk_accounting b) pid < ps_filled_quantity pos then
         add_note (Partial_Close (fl_fill_id f) (fl_symbol f) (qty_of (bk_accounting b) pid) (ps_filled_quantity pos) pid) b
       else bindP (on_engine (on_pm (record_exit E pid f PT_CLOSE (Some ''reduce_only_fill'')))) (\<lambda>_.
            bindP (on_engine (on_pf (release_margin E pid (''close:'' @ pid)))) (\<lambda>_ b. (Inr (), b))) b)))"

definition book_exit :: "env \<Rightarrow> fill \<Rightarrow> ('ad, unit) books_prog" where
  "book_exit E f =
     bindP (exit_position E f) (\<lambda>pid. case pid of None \<Rightarrow> (\<lambda>b. (Inr (), b)) | Some p \<Rightarrow> book_exit_at E f p)"

section \<open>One fill, all fills\<close>

definition book_routed :: "env \<Rightarrow> fill \<Rightarrow> ('ad, unit) books_prog" where
  "book_routed E f =
     bindP (on_engine (on_om (om_get_order_status (fl_client_order_id f)))) (\<lambda>order.
       if os_reduce_only order then book_exit E f else book_entry E f (os_quantity order))"

definition book_one :: "env \<Rightarrow> fill \<Rightarrow> ('ad, unit) books_prog" where
  "book_one E f b =
     (case on_engine (dispatch E (FillObserved (fl_client_order_id f) f)) b of
        (Inl x, b') \<Rightarrow>
          if x = OrderNotFoundError then add_note (Order_Unknown (fl_fill_id f) (fl_client_order_id f)) b' else (Inl x, b')
      | (Inr _, b') \<Rightarrow> book_routed E f b')"

definition sync_catches :: "exc \<Rightarrow> bool" where
  "sync_catches x \<longleftrightarrow>
     is_order_manager_error x \<or> is_position_manager_error x \<or> is_portfolio_manager_error x \<or> is_value_error x"

definition book_safely :: "env \<Rightarrow> fill \<Rightarrow> ('ad, unit) books_prog" where
  "book_safely E f b =
     (case book_one E f b of
        (Inr _, b') \<Rightarrow> (Inr (), b')
      | (Inl x, b') \<Rightarrow>
          if sync_catches x then add_note (Fill_Failed (fl_fill_id f) (fl_client_order_id f) x) b' else (Inl x, b'))"

definition sync :: "env \<Rightarrow> 'ad venue_api \<Rightarrow> ('ad, sync_note list) books_prog" where
  "sync E V b =
     (case on_engine (on_om (om_get_fills (va_orders V) None)) (b\<lparr>bk_notes := []\<rparr>) of
        (Inl x, b') \<Rightarrow> (Inr [Fill_Fetch_Failed x], b')
      | (Inr fills, b') \<Rightarrow> bindP (mapM (book_safely E) fills) (\<lambda>_ b. (Inr (bk_notes b), b)) b')"

section \<open>Marks\<close>

type_synonym marks = "decimal \<times> decimal \<times> decimal"

text \<open>The loop over the open positions: unrealized PnL, exposure and open risk, added up as they come.\<close>

definition add_mark :: "position_snapshot \<Rightarrow> decimal \<Rightarrow> decimal \<Rightarrow> marks \<Rightarrow> marks" where
  "add_mark pos entry mark t =
     (case t of (upnl, exposure, risk) \<Rightarrow>
        (dadd upnl (dmul (dmul (direction (ps_side pos)) (dsub mark entry)) (ps_remaining_quantity pos)),
         dadd exposure (dmul (ps_remaining_quantity pos) mark),
         dadd risk (dmul (ps_remaining_quantity pos) (ps_stop_d pos))))"

fun total_marks :: "'ad venue_api \<Rightarrow> string list \<Rightarrow> marks \<Rightarrow> ('ad, marks) engine_prog" where
  "total_marks V [] t e = (Inr t, e)"
| "total_marks V (pid # pids) t e =
     (case get_position pid (en_position_manager e) of
        Inl x \<Rightarrow> (Inl x, e)
      | Inr pos \<Rightarrow>
          (case ps_avg_entry_price pos of
             None \<Rightarrow> total_marks V pids t e
           | Some entry \<Rightarrow>
               if ps_remaining_quantity pos \<le> 0 then total_marks V pids t e
               else bindP (on_adapter (va_get_mark_price V (ps_symbol pos)))
                      (\<lambda>mp. total_marks V pids (add_mark pos entry (mp_price mp) t)) e))"

definition open_pids :: "'ad books \<Rightarrow> string list" where
  "open_pids b =
     filter (\<lambda>pid. pid \<in> set (ps_open_position_ids (get_snapshot (pf_view (bk_engine b)))))
       (map snd (as_position_by_cid (bk_accounting b)))"

text \<open>\<open>str_dec\<close> is \<open>str\<close> of a Decimal, in the text of the key.\<close>

definition marks_key :: "(decimal \<Rightarrow> string) \<Rightarrow> string \<Rightarrow> decimal \<Rightarrow> decimal \<Rightarrow> decimal \<Rightarrow> string" where
  "marks_key str_dec updated upnl exposure heat =
     ''marks:'' @ updated @ '':'' @ str_dec upnl @ '':'' @ str_dec exposure @ '':'' @ str_dec heat"

definition refresh_marks :: "env \<Rightarrow> 'ad venue_api \<Rightarrow> (decimal \<Rightarrow> string) \<Rightarrow> ('ad, unit) books_prog" where
  "refresh_marks E V str_dec b =
     (let pids = open_pids b; snapshot = get_snapshot (pf_view (bk_engine b)) in
      if pids = [] \<and> ps_exposure snapshot = 0 \<and> ps_unrealized_pnl snapshot = 0 \<and> ps_heat snapshot = 0 then (Inr (), b)
      else bindP (on_engine (total_marks V pids (0, 0, 0))) (\<lambda>(upnl, exposure, risk).
             let eq = equity snapshot; heat = (if eq > 0 then ddiv risk eq else 0) in
             bindP (on_engine (on_pf (update_marks E upnl exposure heat
                       (marks_key str_dec (ps_updated_at_utc snapshot) upnl exposure heat)))) (\<lambda>_ b. (Inr (), b))) b)"

end
