(* ===== verification/Sizing.thy ===== *)
theory Sizing
  imports Risk_Manager
begin

text \<open>
  Trade intents, \<^verbatim>\<open>trading_system/strategy/models.py\<close>, and their sizing into fully specified trade
  requests, \<^verbatim>\<open>trading_system/sizing/calculator.py\<close>.  The argument \<open>F\<close> is \<open>Decimal(str(x))\<close> for a
  float \<open>x\<close>: the shortest decimal that reads back as \<open>x\<close>.
\<close>

record trade_intent =
  ti_symbol :: symbol
  ti_side :: order_side
  ti_order_type :: order_type
  ti_time_in_force :: time_in_force
  ti_reduce_only :: bool
  ti_stop_price :: decimal
  ti_conviction :: "decimal option"
  ti_limit_price :: "decimal option"
  ti_t1_price :: "decimal option"
  ti_t2_price :: "decimal option"

definition TradeIntent_post_init :: "trade_intent \<Rightarrow> exc + trade_intent" where
  "TradeIntent_post_init i =
     (if ti_stop_price i \<le> 0 then Inl StrategyError
      else if (case ti_conviction i of None \<Rightarrow> False | Some c \<Rightarrow> \<not> (-1 \<le> c \<and> c \<le> 1)) then Inl StrategyError
      else if list_ex (\<lambda>value. case value of None \<Rightarrow> False | Some v \<Rightarrow> v \<le> 0) [ti_limit_price i, ti_t1_price i, ti_t2_price i]
      then Inl StrategyError
      else Inr i)"

text \<open>The amount at risk and the distance it is spread over, by sizing mode.\<close>

definition risk_and_distance :: "(rat \<Rightarrow> decimal) \<Rightarrow> trade_intent \<Rightarrow> decimal \<Rightarrow> risk_profile_params \<Rightarrow> decimal \<Rightarrow>
    decimal option \<Rightarrow> exc + decimal \<times> decimal" where
  "risk_and_distance F i eq rp entry_price volatility =
     (let risk_pct = F (rp_risk_pct_per_trade rp); sizing_mode = rp_sizing_mode rp
      in if sizing_mode = ''fixed'' then Inr (dmul eq risk_pct, dabs (dsub entry_price (ti_stop_price i)))
         else if sizing_mode = ''conviction_weighted'' then
           (case ti_conviction i of
              None \<Rightarrow> Inl SizingError
            | Some c \<Rightarrow> Inr (dmul (dmul eq risk_pct) (dabs c), dabs (dsub entry_price (ti_stop_price i))))
         else if sizing_mode = ''vol_targeted'' then
           (case volatility of
              None \<Rightarrow> Inl SizingError
            | Some v \<Rightarrow> if v \<le> 0 then Inl SizingError else Inr (dmul eq risk_pct, dmul entry_price v))
         else Inl SizingError)"

definition size_intent :: "(rat \<Rightarrow> decimal) \<Rightarrow> trade_intent \<Rightarrow> decimal \<Rightarrow> risk_profile_params \<Rightarrow> decimal \<Rightarrow> decimal \<Rightarrow> decimal \<Rightarrow>
    decimal option \<Rightarrow> exc + trade_request" where
  "size_intent F i eq rp current_price maintenance_margin_rate target_leverage volatility =
     (if eq \<le> 0 then Inl SizingError
      else if current_price \<le> 0 then Inl SizingError
      else if \<not> (0 \<le> maintenance_margin_rate \<and> maintenance_margin_rate < 1) then Inl SizingError
      else if target_leverage \<le> 0 then Inl SizingError
      else
        let entry_price = (case ti_limit_price i of Some p \<Rightarrow> p | None \<Rightarrow> current_price)
        in bindE (risk_and_distance F i eq rp entry_price volatility) (\<lambda>(risk_amount, distance).
           if distance \<le> 0 then Inl SizingError
           else
             let quantity = ddiv risk_amount distance;
                 proposed_notional = dmul quantity entry_price;
                 proposed_margin_required = ddiv proposed_notional target_leverage;
                 estimated_liquidation_price =
                   (if ti_side i = BUY
                    then dmul entry_price (dadd (dsub 1 (ddiv 1 target_leverage)) maintenance_margin_rate)
                    else dmul entry_price (dsub (dadd 1 (ddiv 1 target_leverage)) maintenance_margin_rate))
             in TradeRequest_post_init
                  \<lparr>tr_symbol = ti_symbol i, tr_side = ti_side i, tr_order_type = ti_order_type i,
                   tr_time_in_force = ti_time_in_force i, tr_reduce_only = ti_reduce_only i, tr_quantity = quantity,
                   tr_entry_price = entry_price, tr_stop_price = ti_stop_price i, tr_proposed_risk_amount = risk_amount,
                   tr_proposed_notional = proposed_notional, tr_proposed_margin_required = proposed_margin_required,
                   tr_leverage = target_leverage,
                   tr_estimated_liquidation_price = Some estimated_liquidation_price\<rparr>))"

section \<open>What a sized trade looks like\<close>

lemma post_init_ok:
  "TradeRequest_post_init r = Inr r' \<longleftrightarrow> r' = r \<and> 0 < tr_quantity r \<and> 0 < tr_entry_price r \<and> 0 < tr_stop_price r \<and>
     0 < tr_proposed_notional r \<and> 0 < tr_proposed_margin_required r \<and> 0 < tr_leverage r \<and> 0 < tr_proposed_risk_amount r"
  by (auto simp: TradeRequest_post_init_def)

lemma sized:
  assumes "size_intent F i eq rp price mmr lev vol = Inr r"
  obtains distance where "risk_and_distance F i eq rp (tr_entry_price r) vol = Inr (tr_proposed_risk_amount r, distance)"
    "0 < distance" "tr_quantity r = ddiv (tr_proposed_risk_amount r) distance" "0 < tr_proposed_risk_amount r" "0 < tr_quantity r"
    "0 < tr_entry_price r" "tr_estimated_liquidation_price r \<noteq> None" "tr_symbol r = ti_symbol i" "tr_side r = ti_side i"
    "tr_entry_price r = (case ti_limit_price i of Some p \<Rightarrow> p | None \<Rightarrow> price)" "0 < eq"
  using assms by (auto simp: size_intent_def Let_def bindE_eq_Inr post_init_ok split: if_splits)

text \<open>A quotient rounds back to what was multiplied, when that multiplication was exact.\<close>

lemma quotient_exact: "0 < (e::rat) \<Longrightarrow> dround (e * x) = e * x \<Longrightarrow> dround x = x \<Longrightarrow> ddiv (dmul e x) e = x"
  by (simp add: ddiv_def dmul_def)

text \<open>
  (C39) A risk profile no trade fits.  Sizing reads the float \<open>risk_pct_per_trade\<close> through its decimal
  text, the risk manager compares with the float itself.  When the text is larger than the float, as
  for \<open>0.015\<close> or \<open>0.03\<close>, and the product with the equity needs no rounding, every trade sized as
  \<open>fixed\<close> or \<open>vol_targeted\<close> carries a little more risk than the limit and is never approved.
\<close>

theorem float_profile_never_approves:
  assumes "rp_sizing_mode rp \<noteq> ''conviction_weighted''" "rp_risk_pct_per_trade rp < F (rp_risk_pct_per_trade rp)"
    and "dround (F (rp_risk_pct_per_trade rp)) = F (rp_risk_pct_per_trade rp)"
    and "dround (equity p * F (rp_risk_pct_per_trade rp)) = equity p * F (rp_risk_pct_per_trade rp)"
    and "size_intent F i (equity p) rp price mmr lev vol = Inr r"
    and "evaluate R l r rp now kill (Some p) ops caps fi ci = Inr d"
  shows "rd_decision d \<noteq> APPROVED \<and> (rd_decision d = REJECTED \<longrightarrow> RISK_PER_TRADE_EXCEEDED \<in> set (rd_reason_codes d))"
proof -
  from assms(5) obtain distance where
    s: "risk_and_distance F i (equity p) rp (tr_entry_price r) vol = Inr (tr_proposed_risk_amount r, distance)" "0 < equity p"
    by (rule sized)
  then have "tr_proposed_risk_amount r = dmul (equity p) (F (rp_risk_pct_per_trade rp))"
    using assms(1) by (auto simp: risk_and_distance_def Let_def split: if_splits option.splits)
  then have "ddiv (tr_proposed_risk_amount r) (equity p) = F (rp_risk_pct_per_trade rp)"
    using quotient_exact [OF s(2) assms(4,3)] by simp
  then have "broken_rule l rp r p ps c f co RISK_PER_TRADE_EXCEEDED" for ps c f co using assms(2) by simp
  with risk_verdict_facts [OF assms(6)] show ?thesis by blast
qed

end
