(* ===== verification/Construction.thy ===== *)
theory Construction
  imports Sizing "HOL-Library.Multiset"
begin

text \<open>
  Portfolio construction, \<^verbatim>\<open>trading_system/portfolio_construction/constructor.py\<close> and \<open>models.py\<close>: many
  trade intents are filtered by the universe, reduced to one per symbol, ordered by conviction, sized,
  and put before the risk manager one by one.  \<open>market_data_view\<close> is the read-only facade over the
  adapter, \<^verbatim>\<open>trading_system/market_data/facade.py\<close>.
\<close>

section \<open>Models\<close>

record 'ad market_data_view =
  mv_get_mark_price :: "symbol \<Rightarrow> ('ad, exc, mark_price) prog"
  mv_get_funding_rate :: "symbol \<Rightarrow> ('ad, exc, funding_rate) prog"

record 'ad strategy_context =
  sc_universe :: "symbol list"
  sc_portfolio_snapshot :: portfolio_snapshot
  sc_open_positions :: "position_snapshot list"
  sc_kill_switch_state :: state
  sc_market_data :: "'ad market_data_view"
  sc_evaluated_at_utc :: string

definition StrategyContext_post_init :: "'ad strategy_context \<Rightarrow> exc + 'ad strategy_context" where
  "StrategyContext_post_init c = (if py_strip_empty (sc_evaluated_at_utc c) then Inl StrategyError else Inr c)"

record skipped_intent =
  sk_intent :: trade_intent
  sk_reason :: string

record rejected_trade =
  rj_intent :: trade_intent
  rj_trade_request :: trade_request
  rj_decision :: risk_decision

record construction_result =
  cr_approved :: "trade_request list"
  cr_rejected :: "rejected_trade list"
  cr_skipped :: "skipped_intent list"

text \<open>
  What the caller passes through: the risk manager with its limits, the profile, and the reading of floats and
  timestamps; \<open>co_exc_str\<close> is the text of an exception.
\<close>

record construction_args =
  co_env :: risk_env
  co_float :: "rat \<Rightarrow> decimal"
  co_exc_str :: "exc \<Rightarrow> string"
  co_limits :: risk_manager_limits
  co_profile :: risk_profile_params
  co_capabilities :: capabilities
  co_correlation :: correlation_info
  co_maintenance_margin_rate :: decimal
  co_target_leverage :: decimal
  co_volatility :: "symbol \<rightharpoonup> decimal"

section \<open>Choosing the candidates\<close>

definition conviction_sort_key :: "trade_intent \<Rightarrow> decimal" where
  "conviction_sort_key i = (case ti_conviction i of Some c \<Rightarrow> dabs c | None \<Rightarrow> -1)"

definition group_by_symbol :: "trade_intent list \<Rightarrow> (symbol \<times> trade_intent list) list" where
  "group_by_symbol intents =
     foldl (\<lambda>d i. AList.update (ti_symbol i) ((case map_of d (ti_symbol i) of None \<Rightarrow> [] | Some g \<Rightarrow> g) @ [i]) d) [] intents"

text \<open>\<open>max(group, key=...)\<close> is the first of the largest; the losers are the other members of the group.\<close>

fun first_max :: "('a \<Rightarrow> rat) \<Rightarrow> 'a list \<Rightarrow> 'a" where
  "first_max key [x] = x"
| "first_max key (x # y # xs) = (if key y > key x then first_max key (y # xs) else first_max key (x # xs))"
| "first_max key [] = undefined"

definition lost :: "symbol \<Rightarrow> trade_intent \<Rightarrow> skipped_intent" where
  "lost symb loser =
     \<lparr>sk_intent = loser, sk_reason = ''duplicate intent for '' @ symb @ '': a higher-|conviction| intent for the '' @
        ''same symbol was kept instead''\<rparr>"

definition winner_and_losers :: "symbol \<times> trade_intent list \<Rightarrow> trade_intent \<times> skipped_intent list" where
  "winner_and_losers g =
     (case g of (symb, members) \<Rightarrow>
        if length members = 1 then (hd members, [])
        else let winner = first_max conviction_sort_key members
             in (winner, map (lost symb) (remove1 winner members)))"

definition in_universe :: "symbol list \<Rightarrow> trade_intent list \<Rightarrow> trade_intent list" where
  "in_universe universe intents = filter (\<lambda>i. ti_symbol i \<in> set universe) intents"

definition out_of_universe :: "symbol list \<Rightarrow> trade_intent list \<Rightarrow> skipped_intent list" where
  "out_of_universe universe intents =
     map (\<lambda>i. \<lparr>sk_intent = i, sk_reason = ''symbol '' @ ti_symbol i @ '' is outside context.universe''\<rparr>)
       (filter (\<lambda>i. ti_symbol i \<notin> set universe) intents)"

text \<open>Python's sort is stable, and with \<open>reverse=True\<close> keeps the order of equal elements.\<close>

definition survivors :: "symbol list \<Rightarrow> trade_intent list \<Rightarrow> trade_intent list" where
  "survivors universe intents =
     sort_key (\<lambda>i. - conviction_sort_key i) (map (fst \<circ> winner_and_losers) (group_by_symbol (in_universe universe intents)))"

definition first_skipped :: "symbol list \<Rightarrow> trade_intent list \<Rightarrow> skipped_intent list" where
  "first_skipped universe intents =
     out_of_universe universe intents @ concat (map (snd \<circ> winner_and_losers) (group_by_symbol (in_universe universe intents)))"

section \<open>Sizing and judging them\<close>

definition intent_price :: "'ad market_data_view \<Rightarrow> trade_intent \<Rightarrow> ('ad, exc, decimal) prog" where
  "intent_price M i =
     (case ti_limit_price i of
        Some p \<Rightarrow> (\<lambda>ad. (Inr p, ad))
      | None \<Rightarrow> bindP (mv_get_mark_price M (ti_symbol i)) (\<lambda>mp ad. (Inr (mp_price mp), ad)))"

definition judge :: "construction_args \<Rightarrow> 'ad strategy_context \<Rightarrow> trade_request \<Rightarrow> funding_rate \<Rightarrow> exc + risk_decision" where
  "judge A c r fr =
     evaluate (co_env A) (co_limits A) r (co_profile A) (sc_evaluated_at_utc c) (Some (sc_kill_switch_state c))
       (Some (sc_portfolio_snapshot c)) (Some (sc_open_positions c)) (Some (co_capabilities A))
       (Some \<lparr>fi_symbol = tr_symbol r, fi_funding_rate = fr_rate fr, fi_as_of_utc = fr_timestamp_utc fr\<rparr>)
       (Some (co_correlation A))"

definition size_candidate :: "construction_args \<Rightarrow> 'ad strategy_context \<Rightarrow> trade_intent \<Rightarrow> decimal \<Rightarrow> exc + trade_request" where
  "size_candidate A c i price =
     size_intent (co_float A) i (equity (sc_portfolio_snapshot c)) (co_profile A) price (co_maintenance_margin_rate A)
       (co_target_leverage A) (co_volatility A (ti_symbol i))"

fun judge_all :: "construction_args \<Rightarrow> 'ad strategy_context \<Rightarrow> trade_intent list \<Rightarrow> construction_result \<Rightarrow>
    ('ad, exc, construction_result) prog" where
  "judge_all A c [] acc = (\<lambda>ad. (Inr acc, ad))"
| "judge_all A c (i # rest) acc =
     bindP (intent_price (sc_market_data c) i) (\<lambda>price.
       case size_candidate A c i price of
         Inl x \<Rightarrow>
           if x = SizingError
           then judge_all A c rest (acc\<lparr>cr_skipped := cr_skipped acc @
                  [\<lparr>sk_intent = i, sk_reason = ''sizing failed: '' @ co_exc_str A x\<rparr>]\<rparr>)
           else (\<lambda>ad. (Inl x, ad))
       | Inr r \<Rightarrow>
           bindP (mv_get_funding_rate (sc_market_data c) (ti_symbol i)) (\<lambda>fr.
             case judge A c r fr of
               Inl x \<Rightarrow> (\<lambda>ad. (Inl x, ad))
             | Inr d \<Rightarrow>
                 judge_all A c rest
                   (if rd_decision d = APPROVED then acc\<lparr>cr_approved := cr_approved acc @ [r]\<rparr>
                    else acc\<lparr>cr_rejected := cr_rejected acc @ [\<lparr>rj_intent = i, rj_trade_request = r, rj_decision = d\<rparr>]\<rparr>)))"

definition construct_trade_requests :: "construction_args \<Rightarrow> trade_intent list \<Rightarrow> 'ad strategy_context \<Rightarrow>
    ('ad, exc, construction_result) prog" where
  "construct_trade_requests A intents c =
     judge_all A c (survivors (sc_universe c) intents)
       \<lparr>cr_approved = [], cr_rejected = [], cr_skipped = first_skipped (sc_universe c) intents\<rparr>"

section \<open>The candidates\<close>

lemma first_max_in: "xs \<noteq> [] \<Longrightarrow> first_max key xs \<in> set xs"
  by (induction key xs rule: first_max.induct) auto

lemma first_max_ge: "x \<in> set xs \<Longrightarrow> key x \<le> key (first_max key xs)"
proof (induction key xs arbitrary: x rule: first_max.induct)
  case (2 key a y xs)
  show ?case
  proof (cases "key y > key a")
    case True
    have "key z \<le> key (first_max key (y # xs))" if "z \<in> set (y # xs)" for z by (rule 2(1) [OF True that])
    moreover have "key a \<le> key (first_max key (y # xs))" using calculation [of y] True by simp
    ultimately show ?thesis using 2(3) True by auto
  next
    case False
    have "key z \<le> key (first_max key (a # xs))" if "z \<in> set (a # xs)" for z by (rule 2(2) [OF False that])
    moreover have "key y \<le> key (first_max key (a # xs))" using calculation [of a] False by simp
    ultimately show ?thesis using 2(3) False by auto
  qed
qed simp_all

lemma group_update:
  "mset (concat (map snd (AList.update k ((case map_of d k of None \<Rightarrow> [] | Some g \<Rightarrow> g) @ [i]) d))) = add_mset i (mset (concat (map snd d)))"
  by (induction d) auto

lemma group_snoc:
  "group_by_symbol (intents @ [i]) = AList.update (ti_symbol i)
     ((case map_of (group_by_symbol intents) (ti_symbol i) of None \<Rightarrow> [] | Some g \<Rightarrow> g) @ [i]) (group_by_symbol intents)"
  by (simp add: group_by_symbol_def)

lemma groups:
  "distinct (map fst (group_by_symbol intents))"
  "map_of (group_by_symbol intents) k =
     (if filter (\<lambda>i. ti_symbol i = k) intents = [] then None else Some (filter (\<lambda>i. ti_symbol i = k) intents))"
  "mset (concat (map snd (group_by_symbol intents))) = mset intents"
proof (induction intents arbitrary: k rule: rev_induct)
  case Nil
  { case 1 show ?case by (simp add: group_by_symbol_def) }
  { case 2 show ?case by (simp add: group_by_symbol_def) }
  { case 3 show ?case by (simp add: group_by_symbol_def) }
next
  case (snoc i intents)
  { case 1 show ?case using snoc(1) by (simp add: group_snoc distinct_update) }
  { case 2 show ?case using snoc(2) by (simp add: group_snoc update_conv') }
  { case 3 show ?case using snoc(3) by (simp only: group_snoc group_update) simp }
qed

lemma group_member:
  assumes "(k, g) \<in> set (group_by_symbol intents)"
  shows "g \<noteq> []" "g = filter (\<lambda>i. ti_symbol i = k) intents"
  using map_of_is_SomeI [OF groups(1) assms] by (auto simp: groups(2) split: if_splits)

lemma winner:
  assumes "members \<noteq> []" "winner_and_losers (k, members) = (w, ls)"
  shows "add_mset w (mset (map sk_intent ls)) = mset members" "w \<in> set members"
    "\<forall>i\<in>set members. conviction_sort_key i \<le> conviction_sort_key w"
proof -
  have "add_mset w (mset (map sk_intent ls)) = mset members \<and> w \<in> set members \<and>
    (\<forall>i\<in>set members. conviction_sort_key i \<le> conviction_sort_key w)"
  proof (cases "length members = 1")
    case True
    then obtain x where "members = [x]" by (auto simp: length_Suc_conv)
    with assms(2) show ?thesis by (simp add: winner_and_losers_def)
  next
    case False
    have lost: "map (sk_intent \<circ> lost k) xs = xs" for xs by (induction xs) (simp_all add: lost_def)
    have w: "w = first_max conviction_sort_key members" "map sk_intent ls = remove1 w members"
      using assms(2) False by (auto simp: winner_and_losers_def Let_def lost)
    have "w \<in> set members" unfolding w(1) by (rule first_max_in [OF assms(1)])
    moreover have "\<forall>i\<in>set members. conviction_sort_key i \<le> conviction_sort_key w"
      unfolding w(1) by (blast intro: first_max_ge)
    ultimately show ?thesis by (simp add: w(2))
  qed
  then show "add_mset w (mset (map sk_intent ls)) = mset members" "w \<in> set members"
    "\<forall>i\<in>set members. conviction_sort_key i \<le> conviction_sort_key w" by simp_all
qed

lemma survivors_partition:
  "mset (survivors U intents) + mset (map sk_intent (first_skipped U intents)) = mset intents"
proof -
  let ?gs = "group_by_symbol (in_universe U intents)"
  have "mset (map (fst \<circ> winner_and_losers) gs) + mset (map sk_intent (concat (map (snd \<circ> winner_and_losers) gs))) =
      mset (concat (map snd gs))" if "\<forall>(k, g)\<in>set gs. g \<noteq> []" for gs
    using that
  proof (induction gs)
    case (Cons kg gs)
    obtain k g w ls where kg: "kg = (k, g)" "winner_and_losers (k, g) = (w, ls)" by (metis surj_pair)
    from Cons.prems have "g \<noteq> []" by (simp add: kg)
    from winner(1) [OF this kg(2)] Cons show ?case
      by (simp add: kg add.assoc) (metis (no_types, lifting) add.assoc add.left_commute add_mset_add_single union_mset_add_mset_left)
  qed simp
  moreover have "\<forall>(k, g)\<in>set ?gs. g \<noteq> []" using group_member(1) by blast
  moreover have "map sk_intent (out_of_universe U intents) = filter (\<lambda>i. ti_symbol i \<notin> set U) intents"
    by (simp add: out_of_universe_def comp_def)
  moreover have "mset (filter P xs) + mset (filter (\<lambda>x. \<not> P x) xs) = mset xs" for P and xs :: "trade_intent list"
    by (induction xs) simp_all
  ultimately show ?thesis by (simp add: survivors_def first_skipped_def groups(3) in_universe_def ac_simps)
qed

lemma survivor:
  assumes "i \<in> set (survivors U intents)"
  shows "i \<in> set intents" "ti_symbol i \<in> set U"
    "\<forall>j\<in>set intents. ti_symbol j = ti_symbol i \<longrightarrow> conviction_sort_key j \<le> conviction_sort_key i"
proof -
  from assms obtain k g where g: "(k, g) \<in> set (group_by_symbol (in_universe U intents))" "fst (winner_and_losers (k, g)) = i"
    by (auto simp: survivors_def)
  obtain ls where w: "winner_and_losers (k, g) = (i, ls)" using g(2) by (metis prod.collapse)
  note m = group_member [OF g(1)]
  from winner(2,3) [OF m(1) w] m(2) show "i \<in> set intents" "ti_symbol i \<in> set U"
    "\<forall>j\<in>set intents. ti_symbol j = ti_symbol i \<longrightarrow> conviction_sort_key j \<le> conviction_sort_key i"
    by (auto simp: in_universe_def)
qed

lemma survivors_distinct: "distinct (map ti_symbol (survivors U intents))"
proof -
  let ?gs = "group_by_symbol (in_universe U intents)"
  have eq: "map (ti_symbol \<circ> (fst \<circ> winner_and_losers)) ?gs = map fst ?gs"
  proof (rule map_cong [OF refl])
    fix kg assume kg: "kg \<in> set ?gs"
    obtain k g where kg': "kg = (k, g)" by (cases kg)
    obtain w ls where w: "winner_and_losers (k, g) = (w, ls)" by (cases "winner_and_losers (k, g)")
    note m = group_member [OF kg [unfolded kg']]
    from winner(2) [OF m(1) w] m(2) have "ti_symbol w = k" by (auto simp: in_universe_def)
    with w show "(ti_symbol \<circ> (fst \<circ> winner_and_losers)) kg = fst kg" by (simp add: kg')
  qed
  have "distinct (map ti_symbol (map (fst \<circ> winner_and_losers) ?gs))" unfolding map_map eq by (rule groups(1))
  moreover have "mset (map ti_symbol (survivors U intents)) = mset (map ti_symbol (map (fst \<circ> winner_and_losers) ?gs))"
    by (simp add: survivors_def multiset.map_comp)
  ultimately show ?thesis using mset_eq_imp_distinct_iff by blast
qed

section \<open>Properties\<close>

text \<open>What makes a request approved: some price it was sized at, and the verdict of the risk manager.\<close>

definition approved_by :: "construction_args \<Rightarrow> 'ad strategy_context \<Rightarrow> trade_intent \<Rightarrow> trade_request \<Rightarrow> bool" where
  "approved_by A c i r \<longleftrightarrow> (\<exists>price fr d. size_candidate A c i price = Inr r \<and> judge A c r fr = Inr d \<and> rd_decision d = APPROVED)"

definition refused_by :: "construction_args \<Rightarrow> 'ad strategy_context \<Rightarrow> rejected_trade \<Rightarrow> bool" where
  "refused_by A c t \<longleftrightarrow> (\<exists>price fr. size_candidate A c (rj_intent t) price = Inr (rj_trade_request t) \<and>
     judge A c (rj_trade_request t) fr = Inr (rj_decision t) \<and> rd_decision (rj_decision t) \<noteq> APPROVED)"

lemma judge_all_cases:
  assumes "judge_all A c (i # rest) acc ad = (Inr res, ad')"
  obtains (skip) acc' ad1 sk where "acc' = acc\<lparr>cr_skipped := cr_skipped acc @ [sk]\<rparr>" "sk_intent sk = i"
      "judge_all A c rest acc' ad1 = (Inr res, ad')"
  | (approve) r ad1 where "approved_by A c i r"
      "judge_all A c rest (acc\<lparr>cr_approved := cr_approved acc @ [r]\<rparr>) ad1 = (Inr res, ad')"
  | (reject) t ad1 where "refused_by A c t" "rj_intent t = i"
      "judge_all A c rest (acc\<lparr>cr_rejected := cr_rejected acc @ [t]\<rparr>) ad1 = (Inr res, ad')"
proof -
  obtain price ad1 where p: "intent_price (sc_market_data c) i ad = (Inr price, ad1)"
    using assms by (cases "intent_price (sc_market_data c) i ad"; cases "fst (intent_price (sc_market_data c) i ad)") (auto simp: bindP_def)
  show ?thesis
  proof (cases "size_candidate A c i price")
    case (Inl x)
    with assms p have "x = SizingError \<and> judge_all A c rest (acc\<lparr>cr_skipped := cr_skipped acc @
        [\<lparr>sk_intent = i, sk_reason = ''sizing failed: '' @ co_exc_str A x\<rparr>]\<rparr>) ad1 = (Inr res, ad')"
      by (simp add: bindP_def split: if_splits)
    then show ?thesis by (intro skip [OF refl _]) auto
  next
    case (Inr r)
    obtain fr ad2 where f: "mv_get_funding_rate (sc_market_data c) (ti_symbol i) ad1 = (Inr fr, ad2)"
      using assms p Inr
      by (cases "mv_get_funding_rate (sc_market_data c) (ti_symbol i) ad1"; cases "fst (mv_get_funding_rate (sc_market_data c) (ti_symbol i) ad1)")
        (auto simp: bindP_def)
    obtain d where d: "judge A c r fr = Inr d" using assms p Inr f by (cases "judge A c r fr") (auto simp: bindP_def)
    show ?thesis
    proof (cases "rd_decision d = APPROVED")
      case True
      with assms p Inr f d show ?thesis by (intro approve [of r ad2]) (auto simp: bindP_def approved_by_def)
    next
      case False
      with assms p Inr f d show ?thesis
        by (intro reject [of "\<lparr>rj_intent = i, rj_trade_request = r, rj_decision = d\<rparr>" ad2]) (auto simp: bindP_def refused_by_def)
    qed
  qed
qed

lemma judge_all_partition:
  assumes "judge_all A c xs acc ad = (Inr res, ad')"
  shows "\<exists>as app rej sk. cr_approved res = cr_approved acc @ app \<and> cr_rejected res = cr_rejected acc @ rej \<and>
    cr_skipped res = cr_skipped acc @ sk \<and> mset xs = mset as + mset (map rj_intent rej) + mset (map sk_intent sk) \<and>
    list_all2 (approved_by A c) as app \<and> (\<forall>t\<in>set rej. refused_by A c t)"
  using assms
proof (induction xs arbitrary: acc ad)
  case (Cons i xs)
  from Cons.prems show ?case
  proof (cases rule: judge_all_cases)
    case (skip acc' ad1 s)
    from Cons.IH [OF skip(3)] obtain as app rej sk where h: "cr_approved res = cr_approved acc' @ app" "cr_rejected res = cr_rejected acc' @ rej"
      "cr_skipped res = cr_skipped acc' @ sk" "mset xs = mset as + mset (map rj_intent rej) + mset (map sk_intent sk)"
      "list_all2 (approved_by A c) as app" "\<forall>t\<in>set rej. refused_by A c t" by blast
    with skip(1,2) show ?thesis
      by (intro exI [of _ as] exI [of _ app] exI [of _ rej] exI [of _ "s # sk"]) simp
  next
    case (approve r ad1)
    from Cons.IH [OF approve(2)] obtain as app rej sk where h: "cr_approved res = cr_approved acc @ r # app" "cr_rejected res = cr_rejected acc @ rej"
      "cr_skipped res = cr_skipped acc @ sk" "mset xs = mset as + mset (map rj_intent rej) + mset (map sk_intent sk)"
      "list_all2 (approved_by A c) as app" "\<forall>t\<in>set rej. refused_by A c t" by auto
    with approve(1) show ?thesis
      by (intro exI [of _ "i # as"] exI [of _ "r # app"] exI [of _ rej] exI [of _ sk]) simp
  next
    case (reject t ad1)
    from Cons.IH [OF reject(3)] obtain as app rej sk where h: "cr_approved res = cr_approved acc @ app" "cr_rejected res = cr_rejected acc @ t # rej"
      "cr_skipped res = cr_skipped acc @ sk" "mset xs = mset as + mset (map rj_intent rej) + mset (map sk_intent sk)"
      "list_all2 (approved_by A c) as app" "\<forall>t\<in>set rej. refused_by A c t" by auto
    with reject(1,2) show ?thesis
      by (intro exI [of _ as] exI [of _ app] exI [of _ "t # rej"] exI [of _ sk]) simp
  qed
qed auto

lemma construction_facts:
  assumes "construct_trade_requests A intents c ad = (Inr res, ad')"
  shows "\<exists>as. mset intents = mset as + mset (map rj_intent (cr_rejected res)) + mset (map sk_intent (cr_skipped res)) \<and>
    list_all2 (approved_by A c) as (cr_approved res) \<and> (\<forall>t\<in>set (cr_rejected res). refused_by A c t) \<and>
    distinct (map ti_symbol (as @ map rj_intent (cr_rejected res))) \<and>
    (\<forall>i\<in>set as \<union> rj_intent ` set (cr_rejected res). ti_symbol i \<in> set (sc_universe c) \<and>
       (\<forall>j\<in>set intents. ti_symbol j = ti_symbol i \<longrightarrow> conviction_sort_key j \<le> conviction_sort_key i))"
proof -
  let ?U = "sc_universe c"
  from judge_all_partition [OF assms [unfolded construct_trade_requests_def]] obtain as sk where
    p: "cr_skipped res = first_skipped ?U intents @ sk"
      "mset (survivors ?U intents) = mset as + mset (map rj_intent (cr_rejected res)) + mset (map sk_intent sk)"
    and ok: "list_all2 (approved_by A c) as (cr_approved res)" "\<forall>t\<in>set (cr_rejected res). refused_by A c t" by auto
  have all: "mset intents = mset as + mset (map rj_intent (cr_rejected res)) + mset (map sk_intent (cr_skipped res))"
    using survivors_partition [of ?U intents] p by (simp add: ac_simps)
  have surv: "set as \<union> rj_intent ` set (cr_rejected res) \<subseteq> set (survivors ?U intents)"
    using arg_cong [OF p(2), of set_mset] by auto
  have "mset (map ti_symbol (survivors ?U intents)) = mset (map ti_symbol ((as @ map rj_intent (cr_rejected res)) @ map sk_intent sk))"
    using arg_cong [OF p(2), of "image_mset ti_symbol"] by (simp add: multiset.map_comp)
  then have "distinct (map ti_symbol ((as @ map rj_intent (cr_rejected res)) @ map sk_intent sk))"
    using survivors_distinct mset_eq_imp_distinct_iff by blast
  then have "distinct (map ti_symbol (as @ map rj_intent (cr_rejected res)))" by (metis distinct_append map_append)
  moreover have "\<forall>i\<in>set as \<union> rj_intent ` set (cr_rejected res). ti_symbol i \<in> set ?U \<and>
       (\<forall>j\<in>set intents. ti_symbol j = ti_symbol i \<longrightarrow> conviction_sort_key j \<le> conviction_sort_key i)"
  proof
    fix i assume "i \<in> set as \<union> rj_intent ` set (cr_rejected res)"
    with surv have "i \<in> set (survivors ?U intents)" by blast
    from survivor(2,3) [OF this] show "ti_symbol i \<in> set ?U \<and>
       (\<forall>j\<in>set intents. ti_symbol j = ti_symbol i \<longrightarrow> conviction_sort_key j \<le> conviction_sort_key i)" by (rule conjI)
  qed
  ultimately show ?thesis using all ok by (intro exI [of _ as] conjI)
qed

text \<open>
  (C38) Nothing is lost between strategies and risk manager.  When construction returns, every intent is
  accounted for exactly once, as approved, rejected or skipped; at most one intent per symbol is put
  before the risk manager, only for symbols of the universe, and never one with less conviction than another
  intent for its symbol; and everything approved or rejected was sized from its intent and judged so.
\<close>

theorem construction_complete:
  assumes "construct_trade_requests A intents c ad = (Inr res, ad')"
  shows "\<exists>as. mset intents = mset as + mset (map rj_intent (cr_rejected res)) + mset (map sk_intent (cr_skipped res)) \<and>
    list_all2 (approved_by A c) as (cr_approved res) \<and> (\<forall>t\<in>set (cr_rejected res). refused_by A c t) \<and>
    distinct (map ti_symbol (as @ map rj_intent (cr_rejected res))) \<and>
    (\<forall>i\<in>set as \<union> rj_intent ` set (cr_rejected res). ti_symbol i \<in> set (sc_universe c) \<and>
       (\<forall>j\<in>set intents. ti_symbol j = ti_symbol i \<longrightarrow> conviction_sort_key j \<le> conviction_sort_key i))"
  by (rule construction_facts [OF assms])

lemma zero_conviction_size:
  assumes "rp_sizing_mode (co_profile A) = ''conviction_weighted''" "ti_conviction i = Some 0" "size_candidate A c i price = Inr r"
  shows False
proof -
  from assms(3) obtain distance where "risk_and_distance (co_float A) i (equity (sc_portfolio_snapshot c)) (co_profile A)
      (tr_entry_price r) (co_volatility A (ti_symbol i)) = Inr (tr_proposed_risk_amount r, distance)" "0 < tr_proposed_risk_amount r"
    unfolding size_candidate_def by (rule sized) blast
  with assms(1,2) show False by (auto simp: risk_and_distance_def Let_def dmul_def dabs_def)
qed

lemma judge_all_aborts:
  assumes "i \<in> set xs" "ti_limit_price i = Some price" "size_candidate A c i price = Inl x" "x \<noteq> SizingError"
  shows "\<exists>y. fst (judge_all A c xs acc ad) = Inl y"
  using assms(1)
proof (induction xs arbitrary: acc ad)
  case (Cons y ys)
  show ?case
  proof (cases "y = i")
    case True
    with assms(2-4) show ?thesis by (simp add: bindP_def intent_price_def)
  next
    case False
    with Cons.prems have i: "i \<in> set ys" by simp
    have "fst (judge_all A c (y # ys) acc ad) \<noteq> Inr res" for res
    proof
      assume "fst (judge_all A c (y # ys) acc ad) = Inr res"
      then have "judge_all A c (y # ys) acc ad = (Inr res, snd (judge_all A c (y # ys) acc ad))" by (simp add: prod_eq_iff)
      then show False
      proof (cases rule: judge_all_cases)
        case (skip acc' ad1 s)
        with Cons.IH [OF i, of acc' ad1] show False by simp
      next
        case (approve r ad1)
        with Cons.IH [OF i, of "acc\<lparr>cr_approved := cr_approved acc @ [r]\<rparr>" ad1] show False by simp
      next
        case (reject t ad1)
        with Cons.IH [OF i, of "acc\<lparr>cr_rejected := cr_rejected acc @ [t]\<rparr>" ad1] show False by simp
      qed
    qed
    then show ?thesis by (cases "fst (judge_all A c (y # ys) acc ad)") blast+
  qed
qed simp

text \<open>
  (C40) One idea without conviction stops them all.  Under \<open>conviction_weighted\<close> sizing, an intent of
  conviction 0 that is the only one for its symbol is not skipped: the zero quantity makes the
  constructor of \<open>TradeRequest\<close> raise, not the sizing, so the error is not caught and construction
  returns nothing for any intent of the batch, however good.
\<close>

theorem zero_conviction_aborts:
  assumes "rp_sizing_mode (co_profile A) = ''conviction_weighted''" "0 < equity (sc_portfolio_snapshot c)"
    and "0 \<le> co_maintenance_margin_rate A" "co_maintenance_margin_rate A < 1" "0 < co_target_leverage A"
    and "i \<in> set intents" "\<forall>j\<in>set intents. ti_symbol j = ti_symbol i \<longrightarrow> j = i" "ti_symbol i \<in> set (sc_universe c)"
    and "ti_conviction i = Some 0" "ti_limit_price i = Some price" "0 < price" "price \<noteq> ti_stop_price i"
  shows "\<exists>x. fst (construct_trade_requests A intents c ad) = Inl x"
proof -
  have "dround (price - ti_stop_price i) \<noteq> 0" using assms(12) by simp
  then have "0 < dabs (dsub price (ti_stop_price i))" unfolding dabs_def dsub_def by (intro dround_pos) simp
  then have sized: "size_candidate A c i price = Inl RiskManagerConfigurationError"
    using assms(1-5,9-11)
    by (simp add: size_candidate_def size_intent_def risk_and_distance_def Let_def not_le dmul_def dabs_def ddiv_def
        TradeRequest_post_init_def)
  have "i \<in> set (survivors (sc_universe c) intents)"
  proof -
    let ?g = "filter (\<lambda>j. ti_symbol j = ti_symbol i) (in_universe (sc_universe c) intents)"
    have i: "i \<in> set ?g" using assms(6,8) by (simp add: in_universe_def)
    then have "(ti_symbol i, ?g) \<in> set (group_by_symbol (in_universe (sc_universe c) intents))"
      by (intro map_of_SomeD) (auto simp: groups(2) filter_empty_conv)
    moreover obtain w ls where w: "winner_and_losers (ti_symbol i, ?g) = (w, ls)" by (meson surj_pair)
    moreover have "?g \<noteq> []" using i by (metis empty_iff empty_set)
    moreover have "w = i" using winner(2) [OF \<open>?g \<noteq> []\<close> w] assms(7) by (auto simp: in_universe_def)
    ultimately show ?thesis by (force simp: survivors_def image_iff)
  qed
  from judge_all_aborts [OF this assms(10) sized] show ?thesis by (simp add: construct_trade_requests_def)
qed

end
