(* ===== verification/Cycle.thy ===== *)
theory Cycle
  imports Accounting Construction
begin

text \<open>
  One trading cycle, \<^verbatim>\<open>trading_system/scheduling/cycle.py\<close>: synchronization, reconciliation, strategies, the filter on
  live orders, construction, execution.  The cycle runs on the engine together with the accounting bridge,
  because the hook the app passes to it writes there.
\<close>

section \<open>Arguments and result\<close>

text \<open>
  A strategy reads the context and may ask the market data view, that is the adapter.  \<open>cy_construction\<close> holds what is
  passed through to portfolio construction; its capabilities are read from the adapter.
\<close>

type_synonym 'ad strategy = "'ad strategy_context \<Rightarrow> ('ad, exc, trade_intent list) prog"

record cycle_args =
  cy_universe :: "symbol list"
  cy_construction :: construction_args
  cy_rules :: "quantization_rules option"
  cy_now :: string

record cycle_result =
  cr_started :: bool
  cr_health :: "health_status option"
  cr_resynced_orders :: "order_snapshot option list"
  cr_reconciliation :: reconciliation_report
  cr_intents :: "trade_intent list"
  cr_construction :: construction_result
  cr_executions :: "execution_result list"
  cr_evaluated_at_utc :: string
  cr_suppressed_by_open_orders :: "trade_intent list"

section \<open>The stages\<close>

definition MarketDataView :: "'ad venue_api \<Rightarrow> 'ad market_data_view" where
  "MarketDataView V = \<lparr>mv_get_mark_price = va_get_mark_price V, mv_get_funding_rate = va_get_funding_rate V\<rparr>"

definition approved_marker :: "string \<Rightarrow> risk_decision" where
  "approved_marker decision_timestamp =
     \<lparr>rd_decision = APPROVED, rd_reason_codes = [OK_REASON], rd_violated_limits = [], rd_calculated_exposure = None,
      rd_calculated_heat = None, rd_leverage = None, rd_liquidation_buffer = None, rd_funding_estimate = None,
      rd_timestamp_utc = decision_timestamp,
      rd_audit_metadata = [(''source'', VStr ''trading_system.scheduling: reconstructed from ConstructionResult.approved'')]\<rparr>"

definition start_if_needed :: "'ad venue_api \<Rightarrow> ('ad, bool \<times> health_status option) engine_prog" where
  "start_if_needed V e =
     (if en_started e then (Inr (False, None), e) else bindP (engine_start V) (\<lambda>hs e. (Inr (True, Some hs), e)) e)"

definition engine_position :: "string \<Rightarrow> ('ad, position_snapshot) engine_prog" where
  "engine_position pid e = (get_position pid (en_position_manager e), e)"

definition strategy_context_of :: "'ad venue_api \<Rightarrow> cycle_args \<Rightarrow> ('ad, 'ad strategy_context) engine_prog" where
  "strategy_context_of V A e =
     (let portfolio_snapshot = get_snapshot (pf_view e) in
      bindP (mapM engine_position (ps_open_position_ids portfolio_snapshot)) (\<lambda>open_positions e.
        (StrategyContext_post_init
           \<lparr>sc_universe = cy_universe A, sc_portfolio_snapshot = portfolio_snapshot, sc_open_positions = open_positions,
            sc_kill_switch_state = esm_current_state (en_execution_state_machine e), sc_market_data = MarketDataView V,
            sc_evaluated_at_utc = cy_now A\<rparr>, e)) e)"

definition collect_intents :: "'ad strategy list \<Rightarrow> 'ad strategy_context \<Rightarrow> ('ad, trade_intent list) engine_prog" where
  "collect_intents strategies c = bindP (mapM (\<lambda>s. on_adapter (s c)) strategies) (\<lambda>intents e. (Inr (concat intents), e))"

definition live :: "order \<Rightarrow> bool" where
  "live od \<longleftrightarrow> od_status od \<notin> {ST_FILLED, ST_CANCELLED, ST_REJECTED}"

definition live_order_keys :: "order list \<Rightarrow> (symbol \<times> bool) set" where
  "live_order_keys orders = set (map (\<lambda>od. (od_symbol od, od_reduce_only od)) (filter live orders))"

definition tradable :: "order list \<Rightarrow> trade_intent \<Rightarrow> bool" where
  "tradable orders i \<longleftrightarrow> (ti_symbol i, ti_reduce_only i) \<notin> live_order_keys orders"

definition cycle_construction_args :: "'ad venue_api \<Rightarrow> cycle_args \<Rightarrow> 'ad engine \<Rightarrow> construction_args" where
  "cycle_construction_args V A e = (cy_construction A)\<lparr>co_capabilities := va_capabilities V (en_adapter e)\<rparr>"

definition construct_cycle :: "'ad venue_api \<Rightarrow> cycle_args \<Rightarrow> trade_intent list \<Rightarrow> 'ad strategy_context \<Rightarrow>
    ('ad, construction_result) engine_prog" where
  "construct_cycle V A intents c e =
     on_adapter (construct_trade_requests (cycle_construction_args V A e) intents c) e"

text \<open>Place one approved trade and hand the result to the hook.\<close>

definition execute_one :: "env \<Rightarrow> 'ad venue_api \<Rightarrow> cycle_args \<Rightarrow> (execution_result \<Rightarrow> ('ad, unit) books_prog) \<Rightarrow>
    trade_request \<Rightarrow> ('ad, execution_result) books_prog" where
  "execute_one E V A hook r =
     bindP (on_engine (on_om (execute_place E (va_orders V) r (approved_marker (cy_now A)) (cy_rules A)))) (\<lambda>res.
     bindP (hook res) (\<lambda>_ b. (Inr res, b)))"

definition run_cycle :: "env \<Rightarrow> 'ad venue_api \<Rightarrow> 'ad strategy list \<Rightarrow> cycle_args \<Rightarrow>
    (execution_result \<Rightarrow> ('ad, unit) books_prog) \<Rightarrow> ('ad, cycle_result) books_prog" where
  "run_cycle E V strategies A hook =
     bindP (on_engine (start_if_needed V)) (\<lambda>(started, hs).
     bindP (on_engine (synchronize E V)) (\<lambda>resynced.
     bindP (on_engine (reconcile_engine V)) (\<lambda>report.
     bindP (on_engine (strategy_context_of V A)) (\<lambda>context.
     bindP (on_engine (collect_intents strategies context)) (\<lambda>intents.
     bindP (on_engine (on_adapter (va_get_orders V))) (\<lambda>orders.
     bindP (on_engine (construct_cycle V A (filter (tradable orders) intents) context)) (\<lambda>construction.
     bindP (mapM (execute_one E V A hook) (cr_approved construction)) (\<lambda>executions b.
       (Inr \<lparr>cr_started = started, cr_health = hs, cr_resynced_orders = resynced, cr_reconciliation = report,
             cr_intents = intents, cr_construction = construction, cr_executions = executions,
             cr_evaluated_at_utc = cy_now A,
             cr_suppressed_by_open_orders = filter (\<lambda>i. \<not> tradable orders i) intents\<rparr>, b)))))))))"

definition no_hook :: "execution_result \<Rightarrow> ('ad, unit) books_prog" where
  "no_hook res b = (Inr (), b)"

end
