(* ===== verification/App_State.thy ===== *)
theory App_State
  imports Cycle
begin

text \<open>
  The process-wide holder of engine and accounting, \<^verbatim>\<open>app/runtime/state.py\<close>, with the observation it serves,
  \<^verbatim>\<open>trading_system/monitoring/snapshot.py\<close>: one cycle bracketed by accounting, and the emergency stop.
\<close>

section \<open>Observation\<close>

definition KILL_SWITCH_STATES :: "state set" where
  "KILL_SWITCH_STATES = {S_SOFT_KILL, S_HARD_KILL, S_EMERGENCY_KILL}"

definition STOPPED_ESM_STATES :: "state set" where
  "STOPPED_ESM_STATES = {S_EMERGENCY_KILL, S_STOPPED}"

record engine_snapshot =
  sn_captured_at_utc :: string
  sn_health :: health_status
  sn_current_state :: state
  sn_is_kill_switch_active :: bool
  sn_is_started :: bool
  sn_open_order_count :: "nat option"
  sn_position_count :: nat
  sn_portfolio_snapshot :: portfolio_snapshot
  sn_reconciliation :: "reconciliation_report option"

text \<open>
  The live part of \<open>EngineSnapshot\<close>; its historical fields are the caller's own \<open>last_cycle\<close> and \<open>last_error\<close>, handed
  through unchanged.
\<close>

definition snapshot_of :: "string \<Rightarrow> 'ad engine \<Rightarrow> health_status \<Rightarrow> nat option \<Rightarrow> reconciliation_report option \<Rightarrow> engine_snapshot" where
  "snapshot_of now e hs orders report =
     (let current = esm_current_state (en_execution_state_machine e); portfolio_snapshot = get_snapshot (pf_view e) in
      \<lparr>sn_captured_at_utc = now, sn_health = hs, sn_current_state = current,
       sn_is_kill_switch_active = (current \<in> KILL_SWITCH_STATES), sn_is_started = en_started e,
       sn_open_order_count = orders, sn_position_count = length (ps_open_position_ids portfolio_snapshot),
       sn_portfolio_snapshot = portfolio_snapshot, sn_reconciliation = report\<rparr>)"

definition capture_snapshot :: "'ad venue_api \<Rightarrow> string \<Rightarrow> ('ad, engine_snapshot) engine_prog" where
  "capture_snapshot V now =
     bindP (on_adapter (va_health V)) (\<lambda>hs e.
       if en_started e then
         bindP (on_adapter (va_get_orders V)) (\<lambda>orders. bindP (reconcile_engine V) (\<lambda>report e.
           (Inr (snapshot_of now e hs (Some (length orders)) (Some report)), e))) e
       else (Inr (snapshot_of now e hs None None), e))"

definition cheap_snapshot :: "'ad venue_api \<Rightarrow> string \<Rightarrow> ('ad, engine_snapshot) engine_prog" where
  "cheap_snapshot V now = bindP (on_adapter (va_health V)) (\<lambda>hs e. (Inr (snapshot_of now e hs None None), e))"

section \<open>State\<close>

text \<open>What \<open>last_error\<close> tells, one constructor per message.\<close>

datatype app_error =
    Cycle_Raised exc
  | Accounting_Notes "sync_note list"
  | Snapshot_Refresh_Failed exc
  | Cancel_All_Failed exc
  | Kill_Not_Recorded exc

record 'ad app_state =
  ap_books :: "'ad books"
  ap_emergency_stopped :: bool
  ap_last_cycle :: "cycle_result option"
  ap_last_cycle_completed_at_utc :: "string option"
  ap_last_error :: "app_error option"
  ap_cycles_run :: nat
  ap_latest_snapshot :: "engine_snapshot option"

definition app_esm_state :: "'ad app_state \<Rightarrow> state" where
  "app_esm_state s = esm_current_state (en_execution_state_machine (bk_engine (ap_books s)))"

definition AppState :: "'ad books \<Rightarrow> 'ad app_state" where
  "AppState b =
     \<lparr>ap_books = b,
      ap_emergency_stopped = (esm_current_state (en_execution_state_machine (bk_engine b)) \<in> STOPPED_ESM_STATES),
      ap_last_cycle = None, ap_last_cycle_completed_at_utc = None, ap_last_error = None, ap_cycles_run = 0,
      ap_latest_snapshot = None\<rparr>"

text \<open>\<open>create\<close>, on the open store and the adapter that \<open>build_engine_from_settings\<close> has made.\<close>

definition initial_deposit :: "env \<Rightarrow> decimal \<Rightarrow> ('ad, unit) engine_prog" where
  "initial_deposit E amount e =
     (if amount > 0 then bindP (on_pf (deposit E amount ''app_accounting:initial-deposit:v1'')) (\<lambda>_ e. (Inr (), e)) e
      else (Inr (), e))"

definition app_create :: "env \<Rightarrow> event_store \<Rightarrow> 'ad \<Rightarrow> decimal \<Rightarrow> decimal \<Rightarrow> string \<Rightarrow> exc + 'ad app_state" where
  "app_create E store ad amount target_leverage now =
     bindE (build_engine store ad now) (\<lambda>e0.
       case initial_deposit E amount e0 of
         (Inl x, e) \<Rightarrow> Inl x
       | (Inr _, e) \<Rightarrow>
           bindE (AccountingSync (en_event_store e) target_leverage) (\<lambda>a.
             Inr (AppState \<lparr>bk_engine = e, bk_accounting = a, bk_notes = []\<rparr>)))"

section \<open>One cycle\<close>

definition account_before :: "env \<Rightarrow> 'ad venue_api \<Rightarrow> (decimal \<Rightarrow> string) \<Rightarrow> ('ad, sync_note list) books_prog" where
  "account_before E V str_dec b =
     (if en_started (bk_engine b)
      then bindP (sync E V) (\<lambda>notes. bindP (refresh_marks E V str_dec) (\<lambda>_ b. (Inr notes, b))) b
      else (Inr [], b))"

definition cycle_with_accounting :: "env \<Rightarrow> 'ad venue_api \<Rightarrow> (decimal \<Rightarrow> string) \<Rightarrow> 'ad strategy list \<Rightarrow> cycle_args \<Rightarrow>
    ('ad, cycle_result \<times> sync_note list) books_prog" where
  "cycle_with_accounting E V str_dec strategies A =
     bindP (account_before E V str_dec) (\<lambda>before.
     bindP (run_cycle E V strategies A (\<lambda>res. record_execution_levels E [res])) (\<lambda>result.
     bindP (record_execution_levels E (cr_executions result)) (\<lambda>_.
     bindP (sync E V) (\<lambda>after b. (Inr (result, before @ after), b)))))"

definition on_app_engine :: "('ad, 'a) engine_prog \<Rightarrow> ('ad app_state, exc, 'a) prog" where
  "on_app_engine f s = (case on_engine f (ap_books s) of (r, b) \<Rightarrow> (r, s\<lparr>ap_books := b\<rparr>))"

definition refresh_snapshot :: "'ad venue_api \<Rightarrow> string \<Rightarrow> 'ad app_state \<Rightarrow> 'ad app_state" where
  "refresh_snapshot V now s =
     (case on_app_engine (capture_snapshot V now) s of
        (Inr sn, s') \<Rightarrow> s'\<lparr>ap_latest_snapshot := Some sn\<rparr>
      | (Inl x, s') \<Rightarrow> s'\<lparr>ap_last_error := Some (Snapshot_Refresh_Failed x)\<rparr>)"

definition run_one_cycle :: "env \<Rightarrow> 'ad venue_api \<Rightarrow> (decimal \<Rightarrow> string) \<Rightarrow> 'ad strategy list \<Rightarrow> cycle_args \<Rightarrow> string \<Rightarrow>
    ('ad app_state, exc, cycle_result) prog" where
  "run_one_cycle E V str_dec strategies A now s =
     (if ap_emergency_stopped s \<or> app_esm_state s \<in> STOPPED_ESM_STATES then (Inl EmergencyStopActive, s)
      else case cycle_with_accounting E V str_dec strategies A (ap_books s) of
        (Inl x, b) \<Rightarrow> (Inl x, s\<lparr>ap_books := b, ap_last_error := Some (Cycle_Raised x)\<rparr>)
      | (Inr (result, notes), b) \<Rightarrow>
          (Inr result, refresh_snapshot V now
             (s\<lparr>ap_books := b, ap_last_error := (if notes = [] then ap_last_error s else Some (Accounting_Notes notes)),
                ap_last_cycle := Some result, ap_last_cycle_completed_at_utc := Some now, ap_cycles_run := ap_cycles_run s + 1\<rparr>)))"

section \<open>Emergency stop\<close>

definition best_effort_cancel :: "env \<Rightarrow> 'ad venue_api \<Rightarrow> 'ad app_state \<Rightarrow> order_snapshot option list \<times> 'ad app_state" where
  "best_effort_cancel E V s =
     (if \<not> (ap_emergency_stopped s \<or> app_esm_state s \<in> STOPPED_ESM_STATES) \<and> en_started (bk_engine (ap_books s)) then
        (case on_app_engine (on_om (om_cancel_all E (va_orders V) None)) s of
           (Inr cancelled, s') \<Rightarrow> (cancelled, s')
         | (Inl x, s') \<Rightarrow> ([], s'\<lparr>ap_last_error := Some (Cancel_All_Failed x)\<rparr>))
      else ([], s))"

definition revoke_signing :: "'ad venue_api \<Rightarrow> 'ad \<Rightarrow> 'ad" where
  "revoke_signing V ad =
     (let ad = va_set_signing V (revoke_all (va_signing V ad)) ad
      in case va_wallet_revoke V of None \<Rightarrow> ad | Some revoke_wallet \<Rightarrow> revoke_wallet ad)"

definition record_kill :: "env \<Rightarrow> string \<Rightarrow> 'ad app_state \<Rightarrow> 'ad app_state" where
  "record_kill E now s =
     (if app_esm_state s \<in> STOPPED_ESM_STATES then s
      else case on_app_engine (on_esm (transition E T_EMERGENCY_KILL_TRIGGERED (''app:emergency-stop:'' @ now)
                  (Some [(''reason'', VStr ''operator_emergency_stop''), (''source'', VStr ''app_runtime'')]))) s of
        (Inr _, s') \<Rightarrow> s'
      | (Inl x, s') \<Rightarrow> s'\<lparr>ap_last_error := Some (Kill_Not_Recorded x)\<rparr>)"

definition emergency_stop :: "env \<Rightarrow> 'ad venue_api \<Rightarrow> string \<Rightarrow> ('ad app_state, exc, order_snapshot option list) prog" where
  "emergency_stop E V now s =
     (case best_effort_cancel E V s of
        (cancelled, s) \<Rightarrow>
          let s = snd (on_app_engine (on_adapter (\<lambda>ad. (Inr (), revoke_signing V ad))) s);
              s = (record_kill E now s)\<lparr>ap_emergency_stopped := True\<rparr>
          in case on_app_engine (cheap_snapshot V now) s of
               (Inl x, s) \<Rightarrow> (Inl x, s)
             | (Inr sn, s) \<Rightarrow> (Inr cancelled, s\<lparr>ap_latest_snapshot := Some sn\<rparr>))"

definition app_shutdown :: "'ad venue_api \<Rightarrow> 'ad app_state \<Rightarrow> 'ad app_state" where
  "app_shutdown V s = snd (on_app_engine (engine_stop V) s)"

definition snapshot_for_reads :: "'ad venue_api \<Rightarrow> string \<Rightarrow> ('ad app_state, exc, engine_snapshot) prog" where
  "snapshot_for_reads V now s =
     (case ap_latest_snapshot s of
        Some sn \<Rightarrow> (Inr sn, s)
      | None \<Rightarrow> on_app_engine (cheap_snapshot V now) s)"

end
