(* ===== verification/Engine_Runs.thy ===== *)
theory Engine_Runs
  imports Engine_Log
begin

text \<open>
  The invariant of the wired engine: every component is in step with the one log they share, whatever the
  others write.  The only exception is a portfolio ledger whose arithmetic check has failed on a recorded event:
  then the log itself can no longer be replayed by it.
\<close>

section \<open>The invariant\<close>

record engine_ids =
  id_om :: string
  id_esm :: string
  id_pm :: string
  id_pf :: string

definition pf_poisoned :: "string \<Rightarrow> event_store \<Rightarrow> bool" where
  "pf_poisoned pm s \<longleftrightarrow> ledger_inv s \<and> \<not> py_strip_empty pm \<and> length pm \<le> MAX_PF_ID_LENGTH \<and>
     (\<forall>now. fold_log (\<lambda>e. pf_is_own_event e pm) pf_apply_event (es_events s) (pf_init pm now) = Inl AccountingInvariantError)"

definition pf_ok :: "string \<Rightarrow> event_store \<Rightarrow> portfolio \<Rightarrow> bool" where
  "pf_ok pm s p \<longleftrightarrow> (\<exists>now. pf_sound pm now s p) \<or> pf_poisoned pm s"

definition engine_sound :: "engine_ids \<Rightarrow> 'ad engine \<Rightarrow> bool" where
  "engine_sound I e \<longleftrightarrow>
     om_sound (id_om I) (id_esm I) 1 (om_view e) \<and> pm_sound (id_pm I) (pm_view e) \<and>
     pf_ok (id_pf I) (en_event_store e) (en_portfolio_manager e)"

definition ENGINE_TAGS :: "string list" where
  "ENGINE_TAGS = [ESM_SOURCE_TAG, OM_SOURCE_TAG, PM_SOURCE_TAG, PF_SOURCE_TAG]"

lemma tags_differ [simp]:
  "ESM_SOURCE_TAG \<noteq> OM_SOURCE_TAG" "ESM_SOURCE_TAG \<noteq> PM_SOURCE_TAG" "ESM_SOURCE_TAG \<noteq> PF_SOURCE_TAG" "ESM_SOURCE_TAG \<noteq> ACC_SOURCE_TAG"
  "OM_SOURCE_TAG \<noteq> ESM_SOURCE_TAG" "OM_SOURCE_TAG \<noteq> PM_SOURCE_TAG" "OM_SOURCE_TAG \<noteq> PF_SOURCE_TAG" "OM_SOURCE_TAG \<noteq> ACC_SOURCE_TAG"
  "PM_SOURCE_TAG \<noteq> ESM_SOURCE_TAG" "PM_SOURCE_TAG \<noteq> OM_SOURCE_TAG" "PM_SOURCE_TAG \<noteq> PF_SOURCE_TAG" "PM_SOURCE_TAG \<noteq> ACC_SOURCE_TAG"
  "PF_SOURCE_TAG \<noteq> ESM_SOURCE_TAG" "PF_SOURCE_TAG \<noteq> OM_SOURCE_TAG" "PF_SOURCE_TAG \<noteq> PM_SOURCE_TAG" "PF_SOURCE_TAG \<noteq> ACC_SOURCE_TAG"
  "ACC_SOURCE_TAG \<noteq> ESM_SOURCE_TAG" "ACC_SOURCE_TAG \<noteq> OM_SOURCE_TAG" "ACC_SOURCE_TAG \<noteq> PM_SOURCE_TAG" "ACC_SOURCE_TAG \<noteq> PF_SOURCE_TAG"
  using tags_distinct by (auto simp: TAGS_def)

lemma tags_member [simp]:
  "ESM_SOURCE_TAG \<in> set TAGS" "OM_SOURCE_TAG \<in> set TAGS" "PM_SOURCE_TAG \<in> set TAGS"
  "PF_SOURCE_TAG \<in> set TAGS" "ACC_SOURCE_TAG \<in> set TAGS"
  "set OM_WRITES = {OM_SOURCE_TAG, ESM_SOURCE_TAG}"
  "set ENGINE_TAGS = {ESM_SOURCE_TAG, OM_SOURCE_TAG, PM_SOURCE_TAG, PF_SOURCE_TAG}"
  by (auto simp: TAGS_def OM_WRITES_def ENGINE_TAGS_def)

section \<open>What the others write leaves a component in step\<close>

lemma writes_om_sound:
  assumes "writes E T s s'" "om_sound omid mid n (w\<lparr>ow_store := s\<rparr>)"
    and "set T \<subseteq> set TAGS" "OM_SOURCE_TAG \<notin> set T" "ESM_SOURCE_TAG \<notin> set T"
  shows "om_sound omid mid n (w\<lparr>ow_store := s'\<rparr>)"
  using assms(1,2)
proof (induction)
  case (more s t ty pl key sv q u)
  have f: "om_foreign omid mid pl key" by (rule om_foreign_tagged [OF more.hyps(3) assms(3-5)])
  have "esm_sound mid u (ow_esm w)"
    by (rule foreign_sound [OF more.hyps(2)]) (use om_soundD(10) [OF more.IH [OF more.prems]] f in \<open>auto simp: om_foreign_def\<close>)
  moreover have "w\<lparr>ow_store := u, ow_esm := ow_esm w\<rparr> = w\<lparr>ow_store := u\<rparr>" by (cases w) simp
  ultimately show ?case
    using om_sound_append [OF more.IH [OF more.prems], of E ty pl key sv q u "ow_esm w"] more.hyps(2) f
    by (simp add: om_foreign_def)
qed

lemma writes_pm_sound:
  assumes "writes E T s s'" "pm_sound pmid (w\<lparr>pw_store := s\<rparr>)" "set T \<subseteq> set TAGS" "PM_SOURCE_TAG \<notin> set T"
  shows "pm_sound pmid (w\<lparr>pw_store := s'\<rparr>)"
  using assms(1,2)
proof (induction)
  case (more s t ty pl key sv q u)
  from pm_sound_append [OF more.IH [OF more.prems], of E ty pl key sv q u] more.hyps(2) pm_foreign_tagged [OF more.hyps(3) assms(3,4)]
  show ?case by simp
qed

lemma writes_log: "writes E T s s' \<Longrightarrow> ledger_inv s \<Longrightarrow> \<exists>new. es_events s' = es_events s @ new"
proof (induction rule: writes.induct)
  case (more s t ty pl key sv q u)
  with es.put_log_grows [OF writes_inv [OF more.hyps(1)] more.hyps(2)] show ?case by auto
qed simp

lemma writes_poisoned: "writes E T s s' \<Longrightarrow> pf_poisoned pm s \<Longrightarrow> pf_poisoned pm s'"
  using writes_log [of E T s s'] writes_inv [of E T s s'] unfolding pf_poisoned_def
  by (metis fold_log_append bindE_simps(1))

lemma writes_pf_ok:
  assumes "writes E T s s'" "pf_ok pm s p" "set T \<subseteq> set TAGS" "PF_SOURCE_TAG \<notin> set T"
  shows "pf_ok pm s' p"
proof (cases "\<exists>now. pf_sound pm now s p")
  case True
  then obtain now where sound: "pf_sound pm now s p" ..
  from assms(1) sound have "pf_sound pm now s' p"
  proof (induction)
    case (more s t ty pl key sv q u)
    show ?case by (rule pf_foreign_sound [OF more.hyps(2) more.IH [OF more.prems] pf_foreign_tagged [OF more.hyps(3) assms(3,4)]])
  qed
  then show ?thesis by (auto simp: pf_ok_def)
qed (use assms(1,2) writes_poisoned in \<open>auto simp: pf_ok_def\<close>)

text \<open>A failed check fails at whatever time the manager was constructed.\<close>

lemma pf_apply_event_fail_time:
  assumes "pf_apply_event e p = (Inl x, p')"
  shows "\<exists>p''. pf_apply_event e (p\<lparr>pf_updated_at_utc := t\<rparr>) = (Inl x, p'')"
proof (cases "event_id e \<in> pf_applied_event_ids p \<or> map_of (payload e) ''action'' = None")
  case True
  with assms show ?thesis by (auto simp: pf_apply_event_def Let_def)
next
  case False
  then obtain a where new: "event_id e \<notin> pf_applied_event_ids p" and a: "map_of (payload e) ''action'' = Some a" by auto
  let ?ins = "\<lambda>q. q\<lparr>pf_applied_event_ids := insert (event_id e) (pf_applied_event_ids q)\<rparr>"
  obtain q p1 where act: "pf_apply_action a (dget_dict (payload e) ''details'') (?ins p) = (q, p1)" by (meson surj_pair)
  have "?ins (p\<lparr>pf_updated_at_utc := t\<rparr>) = ?ins p\<lparr>pf_updated_at_utc := t\<rparr>" by (rule portfolio.equality) simp_all
  then have "pf_apply_action a (dget_dict (payload e) ''details'') (?ins (p\<lparr>pf_updated_at_utc := t\<rparr>)) = (q, p1\<lparr>pf_updated_at_utc := t\<rparr>)"
    by (simp only: pf_apply_action_time act map_prod_simp id_apply)
  from pf_apply_event_new [OF _ a this] pf_apply_event_new [OF new a act] new assms show ?thesis
    by (cases q) (auto split: sum.splits)
qed

lemma pf_fold_fail_time:
  "fold_log own pf_apply_event evs p = Inl x \<Longrightarrow> fold_log own pf_apply_event evs (p\<lparr>pf_updated_at_utc := t\<rparr>) = Inl x"
proof (induction evs arbitrary: p t)
  case (Cons e evs)
  show ?case
  proof (cases "own e")
    case True
    obtain q p1 where e: "pf_apply_event e p = (q, p1)" by (meson surj_pair)
    show ?thesis
    proof (cases q)
      case (Inl y)
      with pf_apply_event_fail_time [OF e [unfolded Inl], of t] Cons.prems e True show ?thesis by auto
    next
      case (Inr sn)
      with pf_apply_event_time [OF e [unfolded Inr], of t] Cons.IH [of p1] Cons.prems e True show ?thesis by auto
    qed
  qed (use Cons in simp)
qed simp

lemma pf_fold_created:
  assumes "fold_log (\<lambda>e. pf_is_own_event e pm) pf_apply_event evs (pf_init pm now) = Inl x"
  shows "fold_log (\<lambda>e. pf_is_own_event e pm) pf_apply_event evs (pf_init pm now') = Inl x"
  using pf_fold_fail_time [OF assms, of now'] by (simp add: pf_init_def)

lemma pf_call_ok:
  assumes "pf_call E req (s, p) = (r, (s', p'))" "pf_ok pm s p"
  shows "pf_ok pm s' p'"
proof (cases "(\<exists>now. pf_sound pm now s p) \<and> r = Inl AccountingInvariantError")
  case True
  then obtain now where s: "pf_sound pm now s p" and r: "r = Inl AccountingInvariantError" by blast
  have inv: "ledger_inv s" and rec: "pf.recovered pm now s p" using s by (simp_all add: pf_sound_def)
  have "pf_once E (req_key req) (req_guard req) (req_action req) (req_details req) (s, p) = (r, (s', p'))"
    using assms(1) r by (simp add: pf_call_eq split: if_splits)
  then show ?thesis
  proof (cases rule: pf_once_cases)
    case (cached e)
    then show ?thesis using pf_cached_applied [OF s cached(1)] r by simp
  next
    case (unrecorded x)
    then show ?thesis
      using s es.put_inv [OF inv unrecorded(2)] append_keeps_open [OF unrecorded(2) inv]
        pf.persist_failed [OF inv rec unrecorded(2)] es.put_fail [OF inv unrecorded(2)]
      by (auto simp: pf_ok_def pf_sound_def)
  next
    case (recorded e)
    note put = es.put_miss [OF inv recorded(3)]
    have "pf_is_own_event e pm" using put recorded(1) pf_sound_applied(1) [OF s] by (auto simp: pf_is_own_event_def)
    from pf.persist_poison [OF inv rec recorded(3,1) this recorded(4) [unfolded r]]
    have "fold_log (\<lambda>e. pf_is_own_event e pm) pf_apply_event (es_events s') (pf_init pm now') = Inl AccountingInvariantError" for now'
      by (rule pf_fold_created)
    then have "pf_poisoned pm s'" using es.put_inv [OF inv recorded(3)] s by (simp add: pf_poisoned_def pf_sound_def)
    then show ?thesis by (simp add: pf_ok_def)
  qed (use s in \<open>auto simp: pf_ok_def\<close>)
next
  case False
  with assms pf_call_sound [OF assms(1)] writes_poisoned [of E "[PF_SOURCE_TAG]" s s'] pf_writes_call [of E s req p]
  show ?thesis by (auto simp: pf_ok_def)
qed

text \<open>Constructing the manager anew on the log.\<close>

lemma portfolio_rebuilt:
  assumes "pf_ok pm s p" "\<not> es_closed s"
  shows "(\<exists>t. PortfolioManager s pm now = Inr (p\<lparr>pf_updated_at_utc := t\<rparr>)) \<or> PortfolioManager s pm now = Inl AccountingInvariantError"
proof (cases "pf_poisoned pm s")
  case True
  with assms(2) show ?thesis by (simp add: pf_poisoned_def PortfolioManager_def replay_all [simplified])
next
  case False
  with assms(1) obtain t where s: "pf_sound pm t s p" by (auto simp: pf_ok_def)
  then have "fold_log (\<lambda>e. pf_is_own_event e pm) pf_apply_event (es_events s) (pf_init pm t) = Inr p"
    by (simp add: pf_sound_def pf.recovered_def)
  from pf_fold_time [OF this, of now] have "\<exists>t'. fold_log (\<lambda>e. pf_is_own_event e pm) pf_apply_event (es_events s)
      (pf_init pm now) = Inr (p\<lparr>pf_updated_at_utc := t'\<rparr>)" by (simp add: pf_init_def)
  with s show ?thesis by (auto simp: PortfolioManager_def pf_sound_def replay_all [simplified])
qed

section \<open>Programs on the engine\<close>

text \<open>A program that keeps the invariant and writes nothing but events of the four components.\<close>

definition en_good :: "env \<Rightarrow> engine_ids \<Rightarrow> ('ad, 'a) engine_prog \<Rightarrow> bool" where
  "en_good E I f \<longleftrightarrow> (\<forall>e. engine_sound I e \<longrightarrow>
     engine_sound I (snd (f e)) \<and> writes E ENGINE_TAGS (en_event_store e) (en_event_store (snd (f e))))"

lemma en_goodI:
  "(\<And>e. engine_sound I e \<Longrightarrow>
      engine_sound I (snd (f e)) \<and> writes E ENGINE_TAGS (en_event_store e) (en_event_store (snd (f e)))) \<Longrightarrow> en_good E I f"
  by (simp add: en_good_def)

lemma en_goodD:
  assumes "en_good E I f" "engine_sound I e"
  shows "engine_sound I (snd (f e))" "writes E ENGINE_TAGS (en_event_store e) (en_event_store (snd (f e)))"
  using assms by (simp_all add: en_good_def)

lemma en_good_bind:
  fixes f :: "('ad, 'a) engine_prog"
  assumes "en_good E I f" "\<And>x. en_good E I (g x)"
  shows "en_good E I (bindP f g)"
proof (rule en_goodI)
  fix e :: "'ad engine" assume s: "engine_sound I e"
  obtain q e1 where f: "f e = (q, e1)" by (meson surj_pair)
  note one = en_goodD [OF assms(1) s, unfolded f snd_conv]
  show "engine_sound I (snd (bindP f g e)) \<and> writes E ENGINE_TAGS (en_event_store e) (en_event_store (snd (bindP f g e)))"
    using f one en_goodD [OF assms(2) one(1)] writes_trans [OF one(2)] by (cases q) (simp_all add: bindP_def)
qed

lemma en_good_const: "en_good E I (\<lambda>e. (r, e))"
  by (simp add: en_good_def writes.none)

lemma en_good_query: "en_good E I (\<lambda>e. (f e, e))"
  by (simp add: en_good_def writes.none)

lemma en_good_adapter: "en_good E I (on_adapter f)"
  by (rule en_goodI)
    (auto simp: on_adapter_def engine_sound_def om_view_def pm_view_def om_sound_def writes.none split: prod.split)

lemma en_good_om:
  fixes f :: "('ad, 'a) om_prog"
  assumes "\<And>w. om_sound (id_om I) (id_esm I) 1 w \<Longrightarrow> om_sound (id_om I) (id_esm I) 1 (snd (f w))" "om_writes E f"
  shows "en_good E I (on_om f)"
proof (rule en_goodI)
  fix e :: "'ad engine" assume s: "engine_sound I e"
  obtain q w where f: "f (om_view e) = (q, w)" by (meson surj_pair)
  have wr: "writes E OM_WRITES (en_event_store e) (ow_store w)" using om_writesD [OF assms(2), of "om_view e"] f by (simp add: om_view_def)
  have "om_sound (id_om I) (id_esm I) 1 w" using assms(1) [of "om_view e"] s f by (simp add: engine_sound_def)
  moreover have "pm_sound (id_pm I) (pm_view e\<lparr>pw_store := ow_store w\<rparr>)"
    by (rule writes_pm_sound [OF wr]) (use s in \<open>simp_all add: engine_sound_def pm_view_def\<close>)
  moreover have "pf_ok (id_pf I) (ow_store w) (en_portfolio_manager e)"
    by (rule writes_pf_ok [OF wr]) (use s in \<open>simp_all add: engine_sound_def\<close>)
  ultimately show "engine_sound I (snd (on_om f e)) \<and> writes E ENGINE_TAGS (en_event_store e) (en_event_store (snd (on_om f e)))"
    using f writes_mono [OF wr] by (cases w) (simp add: on_om_def engine_sound_def om_view_def pm_view_def)
qed

lemma en_good_pm:
  assumes "pm_keeps (id_pm I) f" "pm_writes E f"
  shows "en_good E I (on_pm f :: ('ad, 'a) engine_prog)"
proof (rule en_goodI)
  fix e :: "'ad engine" assume s: "engine_sound I e"
  obtain q w where f: "f (pm_view e) = (q, w)" by (meson surj_pair)
  have wr: "writes E [PM_SOURCE_TAG] (en_event_store e) (pw_store w)" using pm_writesD [OF assms(2), of "pm_view e"] f by (simp add: pm_view_def)
  have "pm_sound (id_pm I) w" using pm_keepsD [OF assms(1), of "pm_view e"] s f by (simp add: engine_sound_def pm_goes_def)
  moreover have "om_sound (id_om I) (id_esm I) 1 (om_view e\<lparr>ow_store := pw_store w\<rparr>)"
    by (rule writes_om_sound [OF wr]) (use s in \<open>simp_all add: engine_sound_def om_view_def\<close>)
  moreover have "pf_ok (id_pf I) (pw_store w) (en_portfolio_manager e)"
    by (rule writes_pf_ok [OF wr]) (use s in \<open>simp_all add: engine_sound_def\<close>)
  ultimately show "engine_sound I (snd (on_pm f e)) \<and> writes E ENGINE_TAGS (en_event_store e) (en_event_store (snd (on_pm f e)))"
    using f writes_mono [OF wr, of ENGINE_TAGS] by (cases w) (simp add: on_pm_def engine_sound_def om_view_def pm_view_def)
qed

lemma en_good_pf: "en_good E I (on_pf (pf_call E req) :: ('ad, portfolio_snapshot) engine_prog)"
proof (rule en_goodI)
  fix e :: "'ad engine" assume s: "engine_sound I e"
  obtain q t p where f: "pf_call E req (pf_view e) = (q, (t, p))" by (metis surj_pair)
  have wr: "writes E [PF_SOURCE_TAG] (en_event_store e) t" using pf_writes_call [of E "en_event_store e" req "en_portfolio_manager e"] f by (simp add: pf_view_def)
  have "pf_ok (id_pf I) t p"
    using pf_call_ok [of E req "en_event_store e" _ q t p] s f by (simp add: engine_sound_def pf_view_def)
  moreover have "om_sound (id_om I) (id_esm I) 1 (om_view e\<lparr>ow_store := t\<rparr>)"
    by (rule writes_om_sound [OF wr]) (use s in \<open>simp_all add: engine_sound_def om_view_def\<close>)
  moreover have "pm_sound (id_pm I) (pm_view e\<lparr>pw_store := t\<rparr>)"
    by (rule writes_pm_sound [OF wr]) (use s in \<open>simp_all add: engine_sound_def pm_view_def\<close>)
  ultimately show "engine_sound I (snd (on_pf (pf_call E req) e)) \<and>
      writes E ENGINE_TAGS (en_event_store e) (en_event_store (snd (on_pf (pf_call E req) e)))"
    using f writes_mono [OF wr, of ENGINE_TAGS] by (simp add: on_pf_def engine_sound_def om_view_def pm_view_def)
qed

lemma en_good_esm: "en_good E I (on_esm (transition E trig rid ctx))"
proof (rule en_goodI)
  fix e :: "'ad engine" assume s: "engine_sound I e"
  obtain q t m where f: "transition E trig rid ctx (esm_view e) = (q, (t, m))" by (metis surj_pair)
  have wr: "writes E [ESM_SOURCE_TAG] (en_event_store e) t"
    using transition_writes [of E "en_event_store e" trig rid ctx "en_execution_state_machine e"] f by (simp add: esm_view_def)
  have om: "om_sound (id_om I) (id_esm I) 1 (om_view e)" using s by (simp add: engine_sound_def)
  have tr: "transition E trig rid ctx (ow_store (om_view e), ow_esm (om_view e)) = (q, (t, m))"
    using f by (simp add: om_view_def esm_view_def)
  have "om_sound (id_om I) (id_esm I) 1 (om_view e\<lparr>ow_store := t, ow_esm := m\<rparr>)"
    by (rule om_step_sound [OF om_step.machine [OF tr] om])
  moreover have "pm_sound (id_pm I) (pm_view e\<lparr>pw_store := t\<rparr>)"
    by (rule writes_pm_sound [OF wr]) (use s in \<open>simp_all add: engine_sound_def pm_view_def\<close>)
  moreover have "pf_ok (id_pf I) t (en_portfolio_manager e)"
    by (rule writes_pf_ok [OF wr]) (use s in \<open>simp_all add: engine_sound_def\<close>)
  ultimately show "engine_sound I (snd (on_esm (transition E trig rid ctx) e)) \<and>
      writes E ENGINE_TAGS (en_event_store e) (en_event_store (snd (on_esm (transition E trig rid ctx) e)))"
    using f writes_mono [OF wr, of ENGINE_TAGS] by (simp add: on_esm_def engine_sound_def om_view_def pm_view_def)
qed

section \<open>The operations of the components on the engine\<close>

text \<open>Orders.\<close>

lemma en_good_orders:
  "en_good E I (on_om (report_fill E cid f))" "en_good E I (on_om (report_order_update E cid od))"
  "en_good E I (on_om (resync_order E X cid))" "en_good E I (on_om (om_cancel_all E X symb))"
  "en_good E I (on_om (om_get_order_status cid))" "en_good E I (on_om (om_get_fills X c))"
  "\<not> py_strip_empty symb' \<Longrightarrow> en_good E I (on_om (om_place_order E X symb' sd ot q lp tif ro))"
  by (intro en_good_om om_keepsD [OF fill_sound] om_keepsD [OF update_sound] om_keepsD [OF resync_sound]
      om_keepsD [OF cancel_all_sound] om_keepsD [OF query_sound(1)] om_keepsD [OF query_sound(2)] om_keepsD [OF place_sound]
      om_writes_fill om_writes_update om_writes_resync om_writes_cancel_all om_writes_place om_writes_status om_writes_fills; assumption)+

end
