(* ===== verification/Accounting_Runs.thy ===== *)
theory Accounting_Runs
  imports Accounting Engine_Runs
begin

text \<open>
  The accounting bridge over the wired engine: its two maps are what its own events in the log say, and
  everything it calls leaves the engine in step with the log.
\<close>

section \<open>The invariant\<close>

interpretation acc: event_sourced ledger_inv es_events get_by_idempotency_key
  "\<lambda>ty pl k. append_event E ty pl k 1" acc_is_own_event acc_apply_event "(Map.empty, []) :: acc_maps" for E
  by unfold_locales

definition acc_sound :: "event_store \<Rightarrow> accounting \<Rightarrow> bool" where
  "acc_sound s a \<longleftrightarrow> ledger_inv s \<and> acc.recovered s (as_levels_by_cid a, as_position_by_cid a) \<and>
     (\<forall>e\<in>set (es_events s). \<forall>cid.
        (idempotency_key e = Some (acc_key ACTION_LEVELS cid) \<longrightarrow> as_levels_by_cid a cid \<noteq> None) \<and>
        (idempotency_key e = Some (acc_key ACTION_MAPPED cid) \<longrightarrow> map_of (as_position_by_cid a) cid \<noteq> None))"

definition books_sound :: "engine_ids \<Rightarrow> 'ad books \<Rightarrow> bool" where
  "books_sound I b \<longleftrightarrow> engine_sound I (bk_engine b) \<and> acc_sound (en_event_store (bk_engine b)) (bk_accounting b)"

lemma acc_keys_differ: "acc_key ACTION_LEVELS x \<noteq> acc_key ACTION_MAPPED y" "acc_key ACTION_MAPPED y \<noteq> acc_key ACTION_LEVELS x"
  by (simp_all add: acc_key_def ACTION_LEVELS_def ACTION_MAPPED_def)

lemma acc_key_inj: "acc_key a x = acc_key a y \<longleftrightarrow> x = y"
  by (simp add: acc_key_def)

lemma writes_acc_sound:
  assumes "writes E T s s'" "acc_sound s a" "set T \<subseteq> set TAGS" "ACC_SOURCE_TAG \<notin> set T"
  shows "acc_sound s' a"
  using assms(1,2)
proof (induction)
  case (more s t ty pl key sv q u)
  note IH = more.IH [OF more.prems]
  have inv: "ledger_inv t" and rec: "acc.recovered t (as_levels_by_cid a, as_position_by_cid a)"
    using IH by (simp_all add: acc_sound_def)
  note f = tagged_other [OF more.hyps(3) assms(3) tags_member(5) assms(4)]
  obtain new where new: "es_events u = es_events t @ new" "\<forall>e\<in>set new. payload e = pl \<and> idempotency_key e = key"
    using es.put_log_grows [OF inv more.hyps(2)] by blast
  have "list_all (\<lambda>e. \<not> acc_is_own_event e) new" using new(2) f(1) by (auto simp: list_all_iff acc_is_own_event_def)
  then have "acc.recovered u (as_levels_by_cid a, as_position_by_cid a)"
    using rec by (simp add: acc.recovered_def new(1) fold_log_append fold_log_foreign)
  moreover have "\<forall>e\<in>set new. \<forall>act x. idempotency_key e \<noteq> Some (acc_key act x)" using new(2) f(2) by (auto simp: acc_key_def)
  ultimately show ?case
    using IH es.put_inv [OF inv more.hyps(2)] by (auto simp: acc_sound_def new(1))
qed

section \<open>Programs on the books\<close>

definition bk_good :: "engine_ids \<Rightarrow> ('ad, 'a) books_prog \<Rightarrow> bool" where
  "bk_good I f \<longleftrightarrow> (\<forall>b. books_sound I b \<longrightarrow> books_sound I (snd (f b)))"

lemma bk_goodI: "(\<And>b. books_sound I b \<Longrightarrow> books_sound I (snd (f b))) \<Longrightarrow> bk_good I f"
  by (simp add: bk_good_def)

lemma bk_goodD: "bk_good I f \<Longrightarrow> books_sound I b \<Longrightarrow> books_sound I (snd (f b))"
  by (simp add: bk_good_def)

lemma bk_good_bind_at:
  assumes "books_sound I (snd (f b))" "\<And>x. bk_good I (g x)"
  shows "books_sound I (snd (bindP f g b))"
proof -
  obtain q b1 where "f b = (q, b1)" by (meson surj_pair)
  with assms(1) bk_goodD [OF assms(2)] show ?thesis by (cases q) (simp_all add: bindP_def)
qed

lemma bk_good_bind: "bk_good I f \<Longrightarrow> (\<And>x. bk_good I (g x)) \<Longrightarrow> bk_good I (bindP f g)"
  by (intro bk_goodI bk_good_bind_at) (simp_all add: bk_goodD)

lemma bk_good_const: "bk_good I (\<lambda>b. (r, b))"
  by (simp add: bk_good_def)

lemma bk_good_query: "bk_good I (\<lambda>b. (f b, b))"
  by (simp add: bk_good_def)

lemma bk_good_engine: "en_good E I f \<Longrightarrow> bk_good I (on_engine f)"
proof (rule bk_goodI)
  fix b :: "'a books" assume g: "en_good E I f" and s: "books_sound I b"
  obtain q e where f: "f (bk_engine b) = (q, e)" by (meson surj_pair)
  with en_goodD [OF g, of "bk_engine b"] s writes_acc_sound [of E ENGINE_TAGS "en_event_store (bk_engine b)"]
  show "books_sound I (snd (on_engine f b))" by (simp add: on_engine_def books_sound_def)
qed

lemma bk_good_note: "bk_good I (add_note n)"
  by (rule bk_goodI) (simp add: add_note_def books_sound_def)

lemma bk_good_need: "bk_good I (need v)"
  by (rule bk_goodI) (simp add: need_def split: option.split)

lemma bk_good_ask: "bk_good I (ask_pm f)"
  by (rule bk_goodI) (simp add: ask_pm_def)

lemma bk_good_mapM: "(\<And>x. x \<in> set xs \<Longrightarrow> bk_good I (f x)) \<Longrightarrow> bk_good I (mapM f xs)"
  by (induction xs) (auto intro!: bk_good_bind bk_good_const simp: bk_good_const)

lemmas bk_good_intros = bk_good_bind bk_good_const bk_good_note bk_good_need bk_good_ask bk_good_mapM

section \<open>The bridge's own events\<close>

lemma engine_sound_acc:
  assumes "engine_sound I e" "writes E [ACC_SOURCE_TAG] (en_event_store e) s"
  shows "engine_sound I (e\<lparr>en_event_store := s\<rparr>)"
proof -
  have "om_sound (id_om I) (id_esm I) 1 (om_view e\<lparr>ow_store := s\<rparr>)"
    by (rule writes_om_sound [OF assms(2)]) (use assms(1) in \<open>simp_all add: engine_sound_def om_view_def\<close>)
  moreover have "pm_sound (id_pm I) (pm_view e\<lparr>pw_store := s\<rparr>)"
    by (rule writes_pm_sound [OF assms(2)]) (use assms(1) in \<open>simp_all add: engine_sound_def pm_view_def\<close>)
  moreover have "pf_ok (id_pf I) s (en_portfolio_manager e)"
    by (rule writes_pf_ok [OF assms(2)]) (use assms(1) in \<open>simp_all add: engine_sound_def\<close>)
  ultimately show ?thesis by (simp add: engine_sound_def om_view_def pm_view_def)
qed

lemma acc_append_cases:
  assumes "books_sound I b" "acc_append E action key before after b = (r, b')"
    and "map_of before ''source'' = None"
    and fresh: "get_by_idempotency_key (en_event_store (bk_engine b)) (acc_key action key) = None"
  obtains (failed) x where "r = Inl x" "books_sound I b'" "bk_accounting b' = bk_accounting b"
  | (new) e where "r = Inr ()" "engine_sound I (bk_engine b')" "bk_accounting b' = bk_accounting b"
      "ledger_inv (en_event_store (bk_engine b'))"
      "es_events (en_event_store (bk_engine b')) = es_events (en_event_store (bk_engine b)) @ [e]"
      "payload e = acc_payload action before after" "idempotency_key e = Some (acc_key action key)" "acc_is_own_event e"
proof -
  let ?s = "en_event_store (bk_engine b)" and ?pl = "acc_payload action before after"
  have src: "dget ?pl ''source'' = VStr ACC_SOURCE_TAG"
    using assms(3) by (simp add: acc_payload_def dget_def map_add_def)
  have inv: "ledger_inv ?s" and rec: "acc.recovered ?s (as_levels_by_cid (bk_accounting b), as_position_by_cid (bk_accounting b))"
    using assms(1) by (simp_all add: books_sound_def acc_sound_def)
  obtain q s where put: "append_event E POSITION_UPDATED ?pl (Some (acc_key action key)) 1 ?s = (q, s)" by (meson surj_pair)
  have b': "b' = b\<lparr>bk_engine := (bk_engine b)\<lparr>en_event_store := s\<rparr>\<rparr>" "r = (case q of Inl x \<Rightarrow> Inl x | Inr _ \<Rightarrow> Inr ())"
    using assms(2) put by (auto simp: acc_append_def split: sum.splits)
  have "writes E [ACC_SOURCE_TAG] ?s s"
    by (rule writes_one [OF put]) (simp add: tagged_def src acc_key_def)
  then have es: "engine_sound I (bk_engine b')"
    using engine_sound_acc [of I "bk_engine b" E s] assms(1) by (simp add: b' books_sound_def)
  show ?thesis
  proof (cases q)
    case (Inl x)
    have "acc_sound s (bk_accounting b)"
      using assms(1) acc.persist_failed [OF inv rec put [unfolded Inl]] es.put_inv [OF inv put] es.put_fail [OF inv put [unfolded Inl]]
      by (auto simp: books_sound_def acc_sound_def)
    with es failed show ?thesis by (simp add: b' Inl books_sound_def)
  next
    case (Inr e)
    note put' = es.put_miss [OF inv put [unfolded Inr]]
    have e: "es_events s = es_events ?s @ [e]" "payload e = ?pl" "idempotency_key e = Some (acc_key action key)"
      using put' fresh by auto
    with es es.put_inv [OF inv put] src show ?thesis
      by (intro new [of e]) (simp_all add: b' Inr acc_is_own_event_def)
  qed
qed

lemma acc_fresh:
  assumes "acc_sound s a"
  shows "as_levels_by_cid a cid = None \<Longrightarrow> get_by_idempotency_key s (acc_key ACTION_LEVELS cid) = None"
    and "map_of (as_position_by_cid a) cid = None \<Longrightarrow> get_by_idempotency_key s (acc_key ACTION_MAPPED cid) = None"
proof -
  have inv: "ledger_inv s" and known: "\<And>e k. get_by_idempotency_key s k = Some e \<Longrightarrow> e \<in> set (es_events s) \<and> idempotency_key e = Some k"
    using assms es.find_iff by (auto simp: acc_sound_def)
  show "as_levels_by_cid a cid = None \<Longrightarrow> get_by_idempotency_key s (acc_key ACTION_LEVELS cid) = None"
    using assms known unfolding acc_sound_def by (metis option.exhaust)
  show "map_of (as_position_by_cid a) cid = None \<Longrightarrow> get_by_idempotency_key s (acc_key ACTION_MAPPED cid) = None"
    using assms known unfolding acc_sound_def by (metis option.exhaust)
qed

text \<open>A recorded pair of levels, a recorded attribution.\<close>

lemma set_levels_sound:
  assumes "books_sound I b" "as_levels_by_cid (bk_accounting b) cid = None"
  shows "books_sound I (snd (bindP (acc_append E ACTION_LEVELS cid [(''client_order_id'', VStr cid), (''entry_price'', VDec en)]
    [(''stop_price'', VDec st)]) (\<lambda>_. set_levels cid (en, st)) b))"
proof -
  let ?s = "en_event_store (bk_engine b)" and ?a = "bk_accounting b"
  have a: "acc_sound ?s ?a" using assms(1) by (simp add: books_sound_def)
  have fresh: "get_by_idempotency_key ?s (acc_key ACTION_LEVELS cid) = None" by (rule acc_fresh(1) [OF a assms(2)])
  obtain r b' where put: "acc_append E ACTION_LEVELS cid [(''client_order_id'', VStr cid), (''entry_price'', VDec en)]
    [(''stop_price'', VDec st)] b = (r, b')" by (meson surj_pair)
  have src: "map_of [(''client_order_id'', VStr cid), (''entry_price'', VDec en)] ''source'' = None" by simp
  show ?thesis using assms(1) put src fresh
  proof (cases rule: acc_append_cases)
    case (new e)
    have "acc_apply_event e (as_levels_by_cid ?a, as_position_by_cid ?a) =
        (Inr (), (as_levels_by_cid ?a)(cid \<mapsto> (en, st)), as_position_by_cid ?a)"
      by (simp add: acc_apply_event_def new(6) acc_payload_def)
    then have "acc.recovered (en_event_store (bk_engine b')) ((as_levels_by_cid ?a)(cid \<mapsto> (en, st)), as_position_by_cid ?a)"
      using a new(5,8) by (simp add: acc.recovered_def acc_sound_def fold_log_append)
    with a new acc_keys_differ show ?thesis
      by (auto simp: put bindP_def set_levels_def books_sound_def acc_sound_def acc_key_inj)
  qed (simp add: put bindP_def)
qed

lemma map_position_sound:
  assumes "books_sound I b" "map_of (as_position_by_cid (bk_accounting b)) cid = None"
  shows "books_sound I (snd (bindP (acc_append E ACTION_MAPPED cid [(''client_order_id'', VStr cid), (''position_id'', VStr pid)] [])
    (\<lambda>_. bindP (map_position cid pid) (\<lambda>_ b. (Inr (Some pid), b))) b))"
proof -
  let ?s = "en_event_store (bk_engine b)" and ?a = "bk_accounting b"
  have a: "acc_sound ?s ?a" using assms(1) by (simp add: books_sound_def)
  have fresh: "get_by_idempotency_key ?s (acc_key ACTION_MAPPED cid) = None" by (rule acc_fresh(2) [OF a assms(2)])
  obtain r b' where put: "acc_append E ACTION_MAPPED cid [(''client_order_id'', VStr cid), (''position_id'', VStr pid)] [] b = (r, b')"
    by (meson surj_pair)
  have src: "map_of [(''client_order_id'', VStr cid), (''position_id'', VStr pid)] ''source'' = None" by simp
  show ?thesis using assms(1) put src fresh
  proof (cases rule: acc_append_cases)
    case (new e)
    have "acc_apply_event e (as_levels_by_cid ?a, as_position_by_cid ?a) =
        (Inr (), as_levels_by_cid ?a, AList.update cid pid (as_position_by_cid ?a))"
      by (simp add: acc_apply_event_def new(6) acc_payload_def ACTION_LEVELS_def ACTION_MAPPED_def)
    then have "acc.recovered (en_event_store (bk_engine b')) (as_levels_by_cid ?a, AList.update cid pid (as_position_by_cid ?a))"
      using a new(5,8) by (simp add: acc.recovered_def acc_sound_def fold_log_append)
    with a new acc_keys_differ show ?thesis
      by (auto simp: put bindP_def map_position_def books_sound_def acc_sound_def acc_key_inj update_conv')
  qed (simp add: put bindP_def)
qed

section \<open>Every operation keeps the books in step\<close>

definition fill_ok :: "fill \<Rightarrow> bool" where
  "fill_ok f \<longleftrightarrow> \<not> py_strip_empty (fl_symbol f) \<and> 0 \<le> fl_quantity f"

lemma en_good_positions:
  "\<not> py_strip_empty symb \<Longrightarrow> en_good E I (on_pm (create_position E symb sd n sp stop_d t1 t2 cv))"
  "0 \<le> fl_quantity f \<Longrightarrow> en_good E I (on_pm (record_entry_fill E pid f))"
  "en_good E I (on_pm (record_exit E pid f trig reason))"
  by (intro en_good_pm create_goes entry_goes exit_goes pm_writes_create pm_writes_entry pm_writes_exit; assumption)+

lemma en_good_funds:
  "en_good E I (on_pf (reserve_margin E pid a r))" "en_good E I (on_pf (allocate_margin E pid a r))"
  "en_good E I (on_pf (release_margin E pid r))" "en_good E I (on_pf (apply_realized_pnl E pid leg a r))"
  "en_good E I (on_pf (apply_fee E ref fee a r))" "en_good E I (on_pf (update_marks E u x h r))"
  "en_good E I (on_pf (deposit E a r))"
  using en_good_pf [of E I "Reserve pid a r"] en_good_pf [of E I "Allocate pid a r"] en_good_pf [of E I "Release pid r"]
    en_good_pf [of E I "RealizedPnl pid leg a r"] en_good_pf [of E I "Fee ref fee a r"] en_good_pf [of E I "Marks u x h r"]
    en_good_pf [of E I "Deposit a r"]
  by simp_all

lemma levels_good: "bk_good I (record_levels E res)"
  by (rule bk_goodI)
    (auto simp: record_levels_def Let_def simp del: not_None_eq intro!: set_levels_sound split: option.split)

lemma executions_good: "bk_good I (record_execution_levels E executions)"
  unfolding record_execution_levels_def by (intro bk_good_intros levels_good)

lemma entry_position_good:
  assumes "fill_ok f"
  shows "bk_good I (entry_position E f n)"
proof (rule bk_goodI)
  fix b :: "'a books" assume s: "books_sound I b"
  let ?cid = "fl_client_order_id f" and ?new = "on_engine (on_pm (create_position E (fl_symbol f) (fl_side f) n st sd t1 t2 None))"
  show "books_sound I (snd (entry_position E f n b))"
  proof (cases "map_of (as_position_by_cid (bk_accounting b)) ?cid")
    case None
    have made: "books_sound I (snd (bindP (on_engine (on_pm (create_position E (fl_symbol f) (fl_side f) n st sd t1 t2 None)))
        (\<lambda>created. bindP (need created) (\<lambda>snapshot.
           bindP (acc_append E ACTION_MAPPED ?cid [(''client_order_id'', VStr ?cid), (''position_id'', VStr (ps_position_id snapshot))] [])
             (\<lambda>_. bindP (map_position ?cid (ps_position_id snapshot)) (\<lambda>_ b. (Inr (Some (ps_position_id snapshot)), b))))) b))"
      for st sd t1 t2
    proof -
      obtain q b1 where c: "on_engine (on_pm (create_position E (fl_symbol f) (fl_side f) n st sd t1 t2 None)) b = (q, b1)"
        by (meson surj_pair)
      have "books_sound I b1"
        using bk_goodD [OF bk_good_engine [OF en_good_positions(1)] s] c assms by (metis fill_ok_def snd_conv)
      moreover have "bk_accounting b1 = bk_accounting b" using c by (auto simp: on_engine_def split: prod.splits)
      ultimately show ?thesis using c None map_position_sound [of I b1 ?cid E]
        by (cases q) (auto simp: bindP_def [of "on_engine _"] bindP_def [of "need _"] need_def split: option.split)
    qed
    show ?thesis
      using s bk_goodD [OF bk_good_bind [OF bk_good_note bk_good_const] s] made None
      by (auto simp: entry_position_def Let_def split: option.split)
  qed (simp add: entry_position_def s)
qed

lemma margin_good: "bk_good I (book_margin E pid f m)"
proof (rule bk_goodI)
  fix b :: "'a books" assume s: "books_sound I b"
  let ?f = "bindP (on_engine (on_pf (reserve_margin E pid m (fl_fill_id f))))
    (\<lambda>_. on_engine (on_pf (allocate_margin E pid m (fl_fill_id f))))"
  obtain q b1 where f: "?f b = (q, b1)" by (meson surj_pair)
  have "bk_good I ?f" by (intro bk_good_bind bk_good_engine [OF en_good_funds(1)] bk_good_engine [OF en_good_funds(2)])
  from bk_goodD [OF this s] f have "books_sound I b1" by simp
  with f show "books_sound I (snd (book_margin E pid f m b))"
    by (cases q) (auto simp: book_margin_def intro!: bk_goodD [OF bk_good_note])
qed

lemma entry_at_good:
  assumes "fill_ok f"
  shows "bk_good I (book_entry_at E f pid)"
proof -
  have "bk_good I (\<lambda>b. if fl_fee f > 0
      then bindP (on_engine (on_pf (apply_fee E pid (fl_fill_id f) (fl_fee f) (fl_fill_id f)))) (\<lambda>_ b. (Inr (), b)) b
      else (Inr (), b))"
    by (cases "fl_fee f > 0") (simp_all add: bk_good_const bk_good_bind bk_good_engine [OF en_good_funds(5)])
  then have "bk_good I (\<lambda>b. if ps_lifecycle_state sn \<in> TERMINAL_POSITION_STATES
      then (if c then add_note n b else (Inr (), b))
      else if as_target_leverage (bk_accounting b) = 0 then (Inl ZeroDivisionError, b)
      else bindP (book_margin E pid f (m (as_target_leverage (bk_accounting b)))) (\<lambda>_ b.
        if fl_fee f > 0
        then bindP (on_engine (on_pf (apply_fee E pid (fl_fill_id f) (fl_fee f) (fl_fill_id f)))) (\<lambda>_ b. (Inr (), b)) b
        else (Inr (), b)) b)" for sn c n m
    by (intro bk_goodI) (auto intro!: bk_goodD [OF bk_good_note] bk_goodD [OF bk_good_bind] margin_good)
  then show ?thesis using assms
    unfolding book_entry_at_def by (intro bk_good_intros bk_good_engine [OF en_good_positions(2)]) (simp_all add: fill_ok_def)
qed

lemma entry_good: "fill_ok f \<Longrightarrow> bk_good I (book_entry E f n)"
  unfolding book_entry_def
  by (intro bk_good_bind entry_position_good) (auto intro: entry_at_good bk_good_const split: option.split)

lemma exit_position_good: "bk_good I (exit_position E f)"
proof (rule bk_goodI)
  fix b :: "'a books" assume s: "books_sound I b"
  then show "books_sound I (snd (exit_position E f b))"
    using bk_goodD [OF bk_good_bind [OF bk_good_note bk_good_const] s] map_position_sound [OF s]
    by (auto simp: exit_position_def Let_def split: option.split)
qed

lemma exit_at_good: "bk_good I (book_exit_at E f pid)"
proof -
  have count: "bk_good I (\<lambda>b. (Inr (), b\<lparr>bk_accounting := count_exit pid f (bk_accounting b)\<rparr>))"
    by (rule bk_goodI) (simp add: books_sound_def acc_sound_def count_exit_def)
  have close: "bk_good I (bindP (on_engine (on_pm (record_exit E pid f PT_CLOSE (Some ''reduce_only_fill'')))) (\<lambda>_.
      bindP (on_engine (on_pf (release_margin E pid rid))) (\<lambda>_ b. (Inr (), b))))" for rid
    by (intro bk_good_intros bk_good_engine [OF en_good_positions(3)] bk_good_engine [OF en_good_funds(3)])
  have rest: "bk_good I (\<lambda>b. if c then (Inr (), b) else if qty_of (bk_accounting b) pid < n
      then add_note (N (qty_of (bk_accounting b) pid)) b
      else bindP (on_engine (on_pm (record_exit E pid f PT_CLOSE (Some ''reduce_only_fill'')))) (\<lambda>_.
        bindP (on_engine (on_pf (release_margin E pid rid))) (\<lambda>_ b. (Inr (), b))) b)" for c n N rid
    by (intro bk_goodI) (auto intro!: bk_goodD [OF bk_good_note] bk_goodD [OF close])
  have pnl: "bk_good I (case o' of None \<Rightarrow> (\<lambda>b. (Inr (), b))
      | Some entry \<Rightarrow> bindP (on_engine (on_pf (apply_realized_pnl E pid l (g entry) l))) (\<lambda>_ b. (Inr (), b)))" for o' g l
    by (cases o') (simp_all add: bk_good_const bk_good_bind bk_good_engine [OF en_good_funds(4)])
  show ?thesis unfolding book_exit_at_def by (intro bk_good_bind bk_good_ask pnl count rest)
qed

lemma exit_good: "bk_good I (book_exit E f)"
  unfolding book_exit_def
  by (intro bk_good_bind exit_position_good) (auto intro: exit_at_good bk_good_const split: option.split)

lemma dispatch_good: "en_good E I (dispatch E ev)"
  by (cases ev) (simp_all add: dispatch_def en_good_orders)

lemma routed_good: "fill_ok f \<Longrightarrow> bk_good I (book_routed E f)"
  unfolding book_routed_def
  by (intro bk_good_bind bk_good_engine [OF en_good_orders(5)]) (auto intro: entry_good exit_good)

text \<open>A handler after a program that keeps the books in step.\<close>

lemma bk_good_handle:
  fixes f :: "('ad, 'a) books_prog"
  assumes "bk_good I f" "\<And>x. bk_good I (h x)" "\<And>v. bk_good I (g v)"
  shows "bk_good I (\<lambda>b. case f b of (Inl x, b') \<Rightarrow> h x b' | (Inr v, b') \<Rightarrow> g v b')"
proof (rule bk_goodI)
  fix b :: "'ad books" assume s: "books_sound I b"
  obtain q b1 where f: "f b = (q, b1)" by (meson surj_pair)
  with bk_goodD [OF assms(1) s] bk_goodD [OF assms(2)] bk_goodD [OF assms(3)]
  show "books_sound I (snd (case f b of (Inl x, b') \<Rightarrow> h x b' | (Inr v, b') \<Rightarrow> g v b'))" by (cases q) auto
qed

lemma bk_good_if: "bk_good I f \<Longrightarrow> bk_good I g \<Longrightarrow> bk_good I (\<lambda>b. if c then f b else g b)"
  by (cases c) simp_all

lemma book_one_good: "fill_ok f \<Longrightarrow> bk_good I (book_one E f)"
  unfolding book_one_def [abs_def]
  by (intro bk_good_handle bk_good_engine [OF dispatch_good] bk_good_if bk_good_note bk_good_const routed_good)

lemma book_safely_good: "fill_ok f \<Longrightarrow> bk_good I (book_safely E f)"
  unfolding book_safely_def [abs_def]
  by (intro bk_good_handle book_one_good bk_good_if bk_good_note bk_good_const)

text \<open>The venue returns fills that are fills: with a symbol and a quantity that is not negative.\<close>

definition fills_ok :: "'ad venue_api \<Rightarrow> bool" where
  "fills_ok V \<longleftrightarrow> (\<forall>ad fs ad'. api_get_fills (va_orders V) ad = (Inr fs, ad') \<longrightarrow> (\<forall>f\<in>set fs. fill_ok f))"

lemma sync_good:
  assumes "fills_ok V"
  shows "bk_good I (sync E V)"
proof (rule bk_goodI)
  fix b :: "'a books" assume "books_sound I b"
  then have s: "books_sound I (b\<lparr>bk_notes := []\<rparr>)" by (simp add: books_sound_def)
  obtain q b1 where f: "on_engine (on_om (om_get_fills (va_orders V) None)) (b\<lparr>bk_notes := []\<rparr>) = (q, b1)" by (meson surj_pair)
  have s1: "books_sound I b1" using bk_goodD [OF bk_good_engine [OF en_good_orders(6)] s] f by (metis snd_conv)
  show "books_sound I (snd (sync E V b))"
  proof (cases q)
    case (Inr fills)
    have "\<forall>f\<in>set fills. fill_ok f"
      using assms f Inr unfolding fills_ok_def
      by (fastforce simp: on_engine_def on_om_def om_get_fills_def mapP_def with_adapter_def split: prod.splits sum.splits)
    then have "bk_good I (bindP (mapM (book_safely E) fills) (\<lambda>_ b. (Inr (bk_notes b), b)))"
      by (intro bk_good_intros bk_good_query book_safely_good) auto
    from bk_goodD [OF this s1] f Inr show ?thesis by (simp add: sync_def)
  qed (use f s1 in \<open>simp add: sync_def\<close>)
qed

lemma total_marks_good: "en_good E I (total_marks V pids t)"
proof (induction pids arbitrary: t)
  case (Cons pid pids)
  show ?case
    by (rule en_goodI)
      (auto simp: writes.none intro!: en_goodD [OF Cons] en_goodD [OF en_good_bind] en_good_adapter Cons
        split: sum.split option.split)
qed (simp add: en_good_def writes.none)

lemma refresh_good: "bk_good I (refresh_marks E V str_dec)"
  by (rule bk_goodI)
    (auto simp: refresh_marks_def Let_def intro!: bk_goodD [OF bk_good_bind] bk_good_bind bk_good_const
      bk_good_engine [OF total_marks_good] bk_good_engine [OF en_good_funds(6)])

end
