(* ===== verification/App_Runs.thy ===== *)
theory App_Runs
  imports App_State Accounting_Runs
begin

text \<open>
  Runs of the whole application: cycles, emergency stops, reads, deposits and restarts over one log.  Every
  component is recovered from the log at any point of a run; what a cycle executes; what a stop stops.
\<close>

section \<open>A cycle keeps the books in step\<close>

lemma en_good_mapM: "(\<And>x. x \<in> set xs \<Longrightarrow> en_good E I (f x)) \<Longrightarrow> en_good E I (mapM f xs)"
  by (induction xs) (auto intro!: en_good_bind en_good_const simp: en_good_const)

lemma en_good_start: "en_good E I (engine_start V)"
proof -
  have "en_good E I (\<lambda>e. (r, e\<lparr>en_started := True\<rparr>))" for r
    by (simp add: en_good_def engine_sound_def om_view_def pm_view_def writes.none)
  then show ?thesis unfolding engine_start_def by (intro en_good_bind en_good_adapter)
qed

lemma en_good_start_if: "en_good E I (start_if_needed V)"
  by (rule en_goodI)
    (auto simp: start_if_needed_def writes.none intro!: en_goodD [OF en_good_bind] en_good_start en_good_const)

lemma en_good_synchronize: "en_good E I (synchronize E V)"
  by (rule en_goodI) (auto simp: synchronize_def intro!: en_goodD [OF en_good_mapM] en_good_orders)

lemma en_good_local: "en_good E I (local_position V pid)"
proof -
  have "en_good E I (\<lambda>e. case unrealized_pnl pid q (en_position_manager e) of Inl x \<Rightarrow> (Inl x, e) | Inr pnl \<Rightarrow> (Inr (g pnl), e))" for q g
    by (rule en_goodI) (simp add: writes.none split: sum.split)
  then show ?thesis
    by (intro en_goodI)
      (auto simp: local_position_def writes.none intro!: en_goodD [OF en_good_bind] en_good_adapter split: sum.split)
qed

lemma en_good_reconcile: "en_good E I (reconcile_engine V)"
proof -
  have "en_good E I (local_positions V)"
    by (rule en_goodI)
      (auto simp: local_positions_def intro!: en_goodD [OF en_good_bind] en_good_mapM en_good_local en_good_const)
  then show ?thesis unfolding reconcile_engine_def by (intro en_good_bind en_good_adapter)
qed

lemma en_good_context: "en_good E I (strategy_context_of V A)"
proof -
  have "en_good E I (engine_position pid)" for pid by (simp add: engine_position_def [abs_def] en_good_query)
  then show ?thesis
    by (intro en_goodI)
      (auto simp: strategy_context_of_def Let_def intro!: en_goodD [OF en_good_bind] en_good_mapM en_good_query)
qed

lemma en_good_collect: "en_good E I (collect_intents strategies c)"
  unfolding collect_intents_def by (intro en_good_bind en_good_mapM en_good_adapter en_good_const)

lemma en_good_construct: "en_good E I (construct_cycle V A intents c)"
  by (rule en_goodI) (auto simp: construct_cycle_def intro!: en_goodD [OF en_good_adapter])

lemma en_good_execute:
  assumes "\<not> py_strip_empty (tr_symbol r)"
  shows "en_good E I (on_om (execute_place E X r d rules))"
proof (rule en_good_om)
  have cases: "snd (execute_place E X r d rules w) = w \<or>
      (\<exists>q lp. snd (execute_place E X r d rules w) = snd (om_place_order E X (tr_symbol r) (tr_side r) (tr_order_type r) q lp
         (tr_time_in_force r) (tr_reduce_only r) w))" for w
    by (auto simp: execute_place_def bindP_def split: sum.split prod.splits) (metis snd_conv)+
  show "om_sound (id_om I) (id_esm I) 1 (snd (execute_place E X r d rules w))" if "om_sound (id_om I) (id_esm I) 1 w" for w
    using cases [of w] om_keepsD [OF place_sound [OF assms] that] that by auto
  show "om_writes E (execute_place E X r d rules)"
  proof (rule om_writesI)
    show "writes E OM_WRITES (ow_store w) (ow_store (snd (execute_place E X r d rules w)))" for w
      using cases [of w] om_writesD [OF om_writes_place] writes.none by metis
  qed
qed

text \<open>What is approved is sized from an intent of the universe.\<close>

lemma sized_terms:
  "size_intent F i eq rp price mmr lev vol = Inr r \<Longrightarrow>
   tr_symbol r = ti_symbol i \<and> tr_side r = ti_side i \<and> tr_reduce_only r = ti_reduce_only i"
  by (auto simp: size_intent_def Let_def bindE_eq_Inr post_init_ok split: if_splits)

lemma approved_terms: "approved_by A c i r \<Longrightarrow> tr_symbol r = ti_symbol i \<and> tr_side r = ti_side i \<and> tr_reduce_only r = ti_reduce_only i"
  unfolding approved_by_def size_candidate_def using sized_terms by blast

lemma approved_symbols:
  assumes "construct_trade_requests A intents c ad = (Inr res, ad')" "r \<in> set (cr_approved res)"
  shows "tr_symbol r \<in> set (sc_universe c)"
proof -
  from construction_facts [OF assms(1)] obtain as where as: "list_all2 (approved_by A c) as (cr_approved res)"
    "\<forall>i\<in>set as \<union> rj_intent ` set (cr_rejected res). ti_symbol i \<in> set (sc_universe c) \<and>
       (\<forall>j\<in>set intents. ti_symbol j = ti_symbol i \<longrightarrow> conviction_sort_key j \<le> conviction_sort_key i)" by blast
  from as(1) assms(2) obtain i where "i \<in> set as" "approved_by A c i r"
    by (metis in_set_conv_nth list_all2_conv_all_nth)
  with approved_terms as(2) show ?thesis by fastforce
qed

text \<open>A result that satisfies \<open>P\<close> is all the continuation has to cope with.\<close>

lemma bk_good_bind_post:
  fixes f :: "('ad, 'a) books_prog"
  assumes "bk_good I f" "\<And>b x b'. f b = (Inr x, b') \<Longrightarrow> P x" "\<And>x. P x \<Longrightarrow> bk_good I (g x)"
  shows "bk_good I (bindP f g)"
proof (rule bk_goodI)
  fix b :: "'ad books" assume s: "books_sound I b"
  obtain q b1 where f: "f b = (q, b1)" by (meson surj_pair)
  with bk_goodD [OF assms(1) s] assms(2) [of b _ b1] bk_goodD [OF assms(3)]
  show "books_sound I (snd (bindP f g b))" by (cases q) (auto simp: bindP_def)
qed

definition args_ok :: "cycle_args \<Rightarrow> bool" where
  "args_ok A \<longleftrightarrow> (\<forall>s\<in>set (cy_universe A). \<not> py_strip_empty s)"

lemma context_universe:
  assumes "strategy_context_of V A e = (Inr c, e')"
  shows "sc_universe c = cy_universe A"
  using assms
  by (auto simp: strategy_context_of_def Let_def bindP_def StrategyContext_post_init_def split: prod.splits sum.splits if_splits)

lemma execute_one_good:
  assumes "\<not> py_strip_empty (tr_symbol r)" "\<And>res. bk_good I (hook res)"
  shows "bk_good I (execute_one E V A hook r)"
  unfolding execute_one_def
  by (intro bk_good_bind bk_good_engine [OF en_good_execute [OF assms(1)]] assms(2) bk_good_const)

lemma run_cycle_good:
  assumes "args_ok A" "\<And>res. bk_good I (hook res)"
  shows "bk_good I (run_cycle E V strategies A hook)"
proof -
  let ?P = "\<lambda>c. sc_universe c = cy_universe A"
  let ?Q = "\<lambda>res. \<forall>r\<in>set (cr_approved res). \<not> py_strip_empty (tr_symbol r)"
  have P: "?P c" if "on_engine (strategy_context_of V A) b = (Inr c, b')" for b c and b' :: "'a books"
    using that context_universe by (fastforce simp: on_engine_def split: prod.splits)
  have Q: "?Q res" if c: "?P c" and k: "on_engine (construct_cycle V A intents c) b = (Inr res, b')" for c intents b res and b' :: "'a books"
  proof -
    obtain ad where "construct_trade_requests (cycle_construction_args V A (bk_engine b)) intents c (en_adapter (bk_engine b)) = (Inr res, ad)"
      using k by (auto simp: on_engine_def construct_cycle_def on_adapter_def split: prod.splits)
    with approved_symbols c assms(1) show ?thesis unfolding args_ok_def by metis
  qed
  have "bk_good I (bindP (on_engine (construct_cycle V A is c)) (\<lambda>res. bindP (mapM (execute_one E V A hook) (cr_approved res)) (\<lambda>ex b. (Inr (F res ex), b))))"
    if "?P c" for "is" c and F :: "construction_result \<Rightarrow> execution_result list \<Rightarrow> cycle_result"
    by (rule bk_good_bind_post [OF bk_good_engine [OF en_good_construct] Q [OF that]])
      (auto intro!: bk_good_bind bk_good_mapM execute_one_good assms bk_good_const)
  then show ?thesis unfolding run_cycle_def split_beta
    by (intro bk_good_bind [OF bk_good_engine [OF en_good_start_if]] bk_good_bind [OF bk_good_engine [OF en_good_synchronize]]
        bk_good_bind [OF bk_good_engine [OF en_good_reconcile]] bk_good_bind_post [OF bk_good_engine [OF en_good_context] P]
        bk_good_bind [OF bk_good_engine [OF en_good_collect]] bk_good_bind [OF bk_good_engine [OF en_good_adapter]])
qed

lemma account_before_good: "fills_ok V \<Longrightarrow> bk_good I (account_before E V str_dec)"
  by (rule bk_goodI)
    (auto simp: account_before_def intro!: bk_goodD [OF bk_good_bind] bk_good_bind sync_good refresh_good bk_good_const)

lemma cycle_good:
  assumes "fills_ok V" "args_ok A"
  shows "bk_good I (cycle_with_accounting E V str_dec strategies A)"
  unfolding cycle_with_accounting_def
  by (intro bk_good_bind account_before_good run_cycle_good executions_good sync_good bk_good_const assms)

section \<open>Building the engine on a log\<close>

definition DEFAULT_IDS :: engine_ids where
  "DEFAULT_IDS = \<lparr>id_om = DEFAULT_ID, id_esm = DEFAULT_ID, id_pm = DEFAULT_ID, id_pf = DEFAULT_ID\<rparr>"

lemma build_engine_Inr:
  "build_engine store ad now = Inr e \<longleftrightarrow> ExecutionStateMachine store DEFAULT_ID = Inr (en_execution_state_machine e) \<and>
     OrderManager store DEFAULT_ID = Inr (en_order_manager e) \<and> PositionManager store DEFAULT_ID = Inr (en_position_manager e) \<and>
     PortfolioManager store DEFAULT_ID now = Inr (en_portfolio_manager e) \<and> en_event_store e = store \<and> en_adapter e = ad \<and>
     \<not> en_started e"
  by (cases e) (auto simp: build_engine_def bindE_eq_Inr)

text \<open>On the log of a running engine.\<close>

lemma rebuild_sound:
  assumes "engine_sound DEFAULT_IDS d" "build_engine (en_event_store d) ad now = Inr e"
  shows "engine_sound DEFAULT_IDS e"
proof -
  note b = assms(2) [unfolded build_engine_Inr]
  have om: "om_sound DEFAULT_ID DEFAULT_ID 1 (om_view d)" and pm: "pm_sound DEFAULT_ID (pm_view d)"
    and pf: "pf_ok DEFAULT_ID (en_event_store d) (en_portfolio_manager d)"
    using assms(1) by (simp_all add: engine_sound_def DEFAULT_IDS_def)
  have "om_sound DEFAULT_ID DEFAULT_ID 1 (om_view d\<lparr>ow_om := en_order_manager e, ow_esm := en_execution_state_machine e\<rparr>)"
    by (rule om_step_sound [OF om_step.restart om]) (use b in \<open>simp_all add: om_view_def\<close>)
  then have "om_sound DEFAULT_ID DEFAULT_ID 1 (om_view e)" using b by (simp add: om_view_def om_sound_def)
  moreover have "pm_step E DEFAULT_ID (pm_view d) (pm_view d\<lparr>pw_pm := en_position_manager e\<rparr>)" for E
    by (rule pm_step.restart) (use b in \<open>simp add: pm_view_def\<close>)
  from pm_step_goes [OF this] have "pm_sound DEFAULT_ID (pm_view e)" using pm b by (simp add: pm_goes_def pm_view_def)
  moreover have "pf_ok DEFAULT_ID (en_event_store e) (en_portfolio_manager e)"
  proof (cases "pf_poisoned DEFAULT_ID (en_event_store d)")
    case True
    with b show ?thesis by (simp add: pf_ok_def)
  next
    case False
    with pf obtain t where "pf_sound DEFAULT_ID t (en_event_store d) (en_portfolio_manager d)" by (auto simp: pf_ok_def)
    then have "ledger_inv (en_event_store d)" "Portfolio_Ledger.own_keys DEFAULT_ID (en_event_store d)"
      by (simp_all add: pf_sound_def Portfolio_Ledger.own_keys_def pf_key_of_def)
    from pf_construct_iff [OF this, of now] b show ?thesis by (auto simp: pf_ok_def)
  qed
  ultimately show ?thesis by (simp add: engine_sound_def DEFAULT_IDS_def)
qed

text \<open>On an empty log.\<close>

lemma build_sound:
  assumes "ledger_inv store" "es_events store = []" "build_engine store ad now = Inr e"
  shows "engine_sound DEFAULT_IDS e"
proof -
  note b = assms(3) [unfolded build_engine_Inr]
  have "om_start DEFAULT_ID DEFAULT_ID (om_view e)" "pm_start DEFAULT_ID (pm_view e)"
    using b assms(1,2) by (simp_all add: om_start_def pm_start_def om_view_def pm_view_def)
  moreover have "pf_sound DEFAULT_ID now store (en_portfolio_manager e)"
    by (rule pf_construct_iff [THEN iffD1]) (use b assms(1,2) in \<open>simp_all add: Portfolio_Ledger.own_keys_def\<close>)
  ultimately show ?thesis
    using om_start_sound pm_start_sound b by (auto simp: engine_sound_def DEFAULT_IDS_def pf_ok_def)
qed

section \<open>Runs of the application\<close>

definition app_sound :: "'ad app_state \<Rightarrow> bool" where
  "app_sound s \<longleftrightarrow> books_sound DEFAULT_IDS (ap_books s)"

definition app_store :: "'ad app_state \<Rightarrow> event_store" where
  "app_store s = en_event_store (bk_engine (ap_books s))"

inductive app_step :: "env \<Rightarrow> 'ad venue_api \<Rightarrow> (decimal \<Rightarrow> string) \<Rightarrow> 'ad app_state \<Rightarrow> 'ad app_state \<Rightarrow> bool" for E V str_dec where
  cycle: "args_ok A \<Longrightarrow> app_step E V str_dec s (snd (run_one_cycle E V str_dec strategies A now s))"
| stop: "app_step E V str_dec s (snd (emergency_stop E V now s))"
| read: "app_step E V str_dec s (snd (snapshot_for_reads V now s))"
| venue: "app_step E V str_dec s (s\<lparr>ap_books := (ap_books s)\<lparr>bk_engine := (bk_engine (ap_books s))\<lparr>en_adapter := ad\<rparr>\<rparr>\<rparr>)"
| restart: "app_create E (app_store s) ad amount lev now = Inr s' \<Longrightarrow> app_step E V str_dec s s'"

definition app_run :: "env \<Rightarrow> 'ad venue_api \<Rightarrow> (decimal \<Rightarrow> string) \<Rightarrow> 'ad app_state \<Rightarrow> bool" where
  "app_run E V str_dec s \<longleftrightarrow> (\<exists>store ad amount lev now s0. ledger_inv store \<and> es_events store = [] \<and>
     app_create E store ad amount lev now = Inr s0 \<and> (app_step E V str_dec)\<^sup>*\<^sup>* s0 s)"

lemma acc_construct:
  assumes "acc_sound s a" "\<not> es_closed s"
  shows "AccountingSync s lev = Inr \<lparr>as_target_leverage = lev, as_levels_by_cid = as_levels_by_cid a,
    as_position_by_cid = as_position_by_cid a, as_closed_qty_by_pid = Map.empty, as_counted_exit_fills = {}\<rparr>"
  using assms by (simp add: AccountingSync_def acc_sound_def acc.recovered_def replay_all [simplified])

lemma engine_open: "engine_sound I e \<Longrightarrow> ledger_inv (en_event_store e) \<and> \<not> es_closed (en_event_store e)"
  by (simp add: engine_sound_def pm_sound_def pm_view_def)

lemma deposit_good: "en_good E I (initial_deposit E amount)"
  by (rule en_goodI)
    (auto simp: initial_deposit_def writes.none intro!: en_goodD [OF en_good_bind] en_good_funds(7) en_good_const)

lemma create_sound:
  assumes "app_create E store ad amount lev now = Inr s"
    and "\<And>e. build_engine store ad now = Inr e \<Longrightarrow> engine_sound DEFAULT_IDS e" "acc_sound store a"
  shows "app_sound s"
proof -
  from assms(1) obtain e0 where e0: "build_engine store ad now = Inr e0" by (auto simp: app_create_def bindE_eq_Inr)
  obtain q e where dep: "initial_deposit E amount e0 = (q, e)" by (meson surj_pair)
  from assms(1) obtain a' where
    a': "AccountingSync (en_event_store e) lev = Inr a'" and s: "s = AppState \<lparr>bk_engine = e, bk_accounting = a', bk_notes = []\<rparr>"
    by (auto simp: app_create_def bindE_eq_Inr e0 dep split: sum.splits)
  note g = en_goodD [OF deposit_good [of E DEFAULT_IDS amount] assms(2) [OF e0], unfolded dep snd_conv]
  have "en_event_store e0 = store" using e0 by (simp add: build_engine_Inr)
  then have "acc_sound (en_event_store e) a"
    using writes_acc_sound [OF g(2)] assms(3) by simp
  from acc_construct [OF this] engine_open [OF g(1)] a' this have "acc_sound (en_event_store e) a'"
    by (auto simp: acc_sound_def)
  with g(1) show ?thesis by (simp add: s app_sound_def books_sound_def AppState_def)
qed

lemma app_engine_sound:
  "en_good E DEFAULT_IDS f \<Longrightarrow> app_sound s \<Longrightarrow> app_sound (snd (on_app_engine f s))"
  using bk_goodD [OF bk_good_engine [of E DEFAULT_IDS f], of "ap_books s"]
  by (cases "on_engine f (ap_books s)") (simp add: app_sound_def on_app_engine_def)

lemma en_good_capture: "en_good E I (capture_snapshot V now)"
proof -
  have "en_good E I (\<lambda>e. if en_started e
      then bindP (on_adapter (va_get_orders V)) (\<lambda>orders. bindP (reconcile_engine V) (\<lambda>report e.
        (Inr (snapshot_of now e hs (Some (length orders)) (Some report)), e))) e
      else (Inr (snapshot_of now e hs None None), e))" for hs
    by (rule en_goodI)
      (auto simp: writes.none intro!: en_goodD [OF en_good_bind] en_good_bind en_good_adapter en_good_reconcile en_good_query)
  then show ?thesis unfolding capture_snapshot_def by (intro en_good_bind en_good_adapter)
qed

lemma en_good_cheap: "en_good E I (cheap_snapshot V now)"
  unfolding cheap_snapshot_def by (intro en_good_bind en_good_adapter en_good_query)

lemma app_fields [simp]:
  "app_sound (s\<lparr>ap_emergency_stopped := x1\<rparr>) = app_sound s" "app_sound (s\<lparr>ap_last_cycle := x2\<rparr>) = app_sound s"
  "app_sound (s\<lparr>ap_last_cycle_completed_at_utc := x3\<rparr>) = app_sound s" "app_sound (s\<lparr>ap_last_error := x4\<rparr>) = app_sound s"
  "app_sound (s\<lparr>ap_cycles_run := x5\<rparr>) = app_sound s" "app_sound (s\<lparr>ap_latest_snapshot := x6\<rparr>) = app_sound s"
  "app_sound (s\<lparr>ap_books := b\<rparr>) = books_sound DEFAULT_IDS b"
  by (simp_all add: app_sound_def)

lemma refresh_snapshot_sound: "app_sound s \<Longrightarrow> app_sound (refresh_snapshot V now s)"
  using app_engine_sound [OF en_good_capture, of s V now]
  by (auto simp: refresh_snapshot_def split: prod.split sum.split)

lemma cycle_sound:
  assumes "fills_ok V" "args_ok A" "app_sound s"
  shows "app_sound (snd (run_one_cycle E V str_dec strategies A now s))"
proof -
  obtain q b where c: "cycle_with_accounting E V str_dec strategies A (ap_books s) = (q, b)" by (meson surj_pair)
  then have "books_sound DEFAULT_IDS b"
    using bk_goodD [OF cycle_good [OF assms(1,2)], of DEFAULT_IDS "ap_books s"] assms(3) by (metis app_sound_def snd_conv)
  then show ?thesis
    using assms(3) c by (auto simp: run_one_cycle_def intro!: refresh_snapshot_sound split: sum.split prod.split)
qed

lemma cancel_sound_app:
  assumes "app_sound s"
  shows "app_sound (snd (best_effort_cancel E V s))"
  using assms app_engine_sound [OF en_good_orders(4), of s E "va_orders V" None]
  by (auto simp: best_effort_cancel_def split: prod.split sum.split)

lemma record_kill_sound:
  assumes "app_sound s"
  shows "app_sound (record_kill E now s)"
  using assms app_engine_sound [OF en_good_esm, of s E]
  by (auto simp: record_kill_def split: prod.split sum.split) (metis snd_conv)+

lemma stop_sound:
  assumes "app_sound s"
  shows "app_sound (snd (emergency_stop E V now s))"
proof -
  obtain cancelled s1 where c: "best_effort_cancel E V s = (cancelled, s1)" by (meson surj_pair)
  let ?s2 = "snd (on_app_engine (on_adapter (\<lambda>ad. (Inr (), revoke_signing V ad))) s1)"
  let ?s3 = "(record_kill E now ?s2)\<lparr>ap_emergency_stopped := True\<rparr>"
  have "app_sound ?s3"
    using cancel_sound_app [OF assms, of E V] c by (auto intro!: record_kill_sound app_engine_sound [OF en_good_adapter])
  from app_engine_sound [OF en_good_cheap this, of V now] c show ?thesis
    by (auto simp: emergency_stop_def Let_def split: prod.splits sum.splits)
qed

lemma app_step_sound:
  assumes "app_step E V str_dec s s'" "app_sound s" "fills_ok V"
  shows "app_sound s'"
  using assms(1)
proof cases
  case (cycle A strategies now)
  then show ?thesis using cycle_sound [OF assms(3) _ assms(2)] by simp
next
  case (stop now)
  then show ?thesis using stop_sound [OF assms(2)] by simp
next
  case (read now)
  then show ?thesis
    using assms(2) app_engine_sound [OF en_good_cheap assms(2)] by (auto simp: snapshot_for_reads_def split: option.split)
next
  case (venue ad)
  have "app_sound (snd (on_app_engine (on_adapter (\<lambda>_. (Inr (), ad))) s))" by (rule app_engine_sound [OF en_good_adapter assms(2)])
  then show ?thesis using venue by (simp add: on_app_engine_def on_engine_def on_adapter_def)
next
  case (restart ad amount lev now)
  have "engine_sound DEFAULT_IDS (bk_engine (ap_books s))" "acc_sound (app_store s) (bk_accounting (ap_books s))"
    using assms(2) by (simp_all add: app_sound_def books_sound_def app_store_def)
  with create_sound [OF restart(1)] rebuild_sound show ?thesis by (metis app_store_def)
qed

lemma app_run_sound:
  assumes "app_run E V str_dec s" "fills_ok V"
  shows "app_sound s"
proof -
  from assms(1) obtain store ad amount lev now s0 where start: "ledger_inv store" "es_events store = []"
    "app_create E store ad amount lev now = Inr s0" and steps: "(app_step E V str_dec)\<^sup>*\<^sup>* s0 s"
    by (auto simp: app_run_def)
  have "acc_sound store \<lparr>as_target_leverage = lev, as_levels_by_cid = Map.empty, as_position_by_cid = [],
      as_closed_qty_by_pid = Map.empty, as_counted_exit_fills = {}\<rparr>"
    using start(1,2) by (simp add: acc_sound_def acc.recovered_def)
  from create_sound [OF start(3) build_sound [OF start(1,2)] this] have "app_sound s0" .
  from steps this show ?thesis by induction (auto intro: app_step_sound [OF _ _ assms(2)])
qed

section \<open>Recovery of the whole engine\<close>

text \<open>
  (C1) Recovery.  At any point of a run of the application, through cycles, emergency stops, reads, failed
  writes, venue behaviour of any kind and restarts, building every component anew from the one log gives back the
  state in memory: every order and every position, the state of the execution machine, every balance of the
  portfolio, and both maps of the accounting bridge.  The one exception is a portfolio whose accounting check has
  failed on a recorded event: then every restart fails with that same error.
\<close>

theorem engine_recovery:
  assumes "app_run E V str_dec s" "fills_ok V" "e = bk_engine (ap_books s)" "a = bk_accounting (ap_books s)"
  shows "ExecutionStateMachine (app_store s) DEFAULT_ID = Inr (en_execution_state_machine e) \<and>
    (\<exists>m. OrderManager (app_store s) DEFAULT_ID = Inr m \<and> om_snapshots m = om_snapshots (en_order_manager e)) \<and>
    (\<exists>m. PositionManager (app_store s) DEFAULT_ID = Inr m \<and> pm_snapshots m = pm_snapshots (en_position_manager e)) \<and>
    AccountingSync (app_store s) lev = Inr \<lparr>as_target_leverage = lev, as_levels_by_cid = as_levels_by_cid a,
      as_position_by_cid = as_position_by_cid a, as_closed_qty_by_pid = Map.empty, as_counted_exit_fills = {}\<rparr> \<and>
    ((\<exists>t. PortfolioManager (app_store s) DEFAULT_ID now = Inr ((en_portfolio_manager e)\<lparr>pf_updated_at_utc := t\<rparr>)) \<or>
     PortfolioManager (app_store s) DEFAULT_ID now = Inl AccountingInvariantError)"
proof -
  have b: "books_sound DEFAULT_IDS (ap_books s)" using app_run_sound [OF assms(1,2)] by (simp add: app_sound_def)
  then have om: "om_sound DEFAULT_ID DEFAULT_ID 1 (om_view e)" and pm: "pm_sound DEFAULT_ID (pm_view e)"
    and pf: "pf_ok DEFAULT_ID (app_store s) (en_portfolio_manager e)" and acc: "acc_sound (app_store s) a"
    by (simp_all add: books_sound_def engine_sound_def DEFAULT_IDS_def assms(3,4) app_store_def)
  have op: "\<not> es_closed (app_store s)" using pm by (simp add: pm_sound_def pm_view_def app_store_def assms(3))
  have "ExecutionStateMachine (app_store s) DEFAULT_ID = Inr (en_execution_state_machine e)"
    using om_soundD(1,10) [OF om] construct_iff by (simp add: om_view_def app_store_def assms(3))
  moreover have "\<exists>m. OrderManager (app_store s) DEFAULT_ID = Inr m \<and> om_snapshots m = om_snapshots (en_order_manager e)"
    using om_construct [OF om] om_soundD(3) [OF om] by (simp add: om_view_def app_store_def assms(3))
  moreover have "\<exists>m. PositionManager (app_store s) DEFAULT_ID = Inr m \<and> pm_snapshots m = pm_snapshots (en_position_manager e)"
    using pm_construct [OF pm] pm_soundD(3) [OF pm] by (simp add: pm_view_def app_store_def assms(3))
  ultimately show ?thesis using acc_construct [OF acc op] portfolio_rebuilt [OF pf op] by blast
qed

end
