(* ===== verification/App_Properties.thy ===== *)
theory App_Properties
  imports App_Runs
begin

text \<open>
  What a trading cycle may send to the venue, what the emergency stop puts an end to, and how the open positions
  are marked.
\<close>

section \<open>Reading a program backwards\<close>

lemma bindP_Inr_cases:
  assumes "bindP f g s = (Inr y, s')"
  obtains x s1 where "f s = (Inr x, s1)" "g x s1 = (Inr y, s')"
  using assms by (auto simp: bindP_def split: prod.splits sum.splits)

lemma on_engine_Inr:
  assumes "on_engine f b = (Inr x, b')"
  obtains e where "f (bk_engine b) = (Inr x, e)" "b' = b\<lparr>bk_engine := e\<rparr>"
  using assms by (auto simp: on_engine_def split: prod.splits)

lemma on_adapter_Inr:
  assumes "on_adapter f e = (Inr x, e')"
  obtains ad where "f (en_adapter e) = (Inr x, ad)" "e' = e\<lparr>en_adapter := ad\<rparr>"
  using assms by (auto simp: on_adapter_def split: prod.splits)

lemma mapM_Inr:
  assumes "mapM f xs s = (Inr ys, s')" "\<And>x s y s'. x \<in> set xs \<Longrightarrow> f x s = (Inr y, s') \<Longrightarrow> P x y"
  shows "list_all2 P xs ys"
  using assms
proof (induction xs arbitrary: s ys)
  case (Cons x xs)
  from Cons.prems(1) obtain y s1 where y: "f x s = (Inr y, s1)" and "bindP (mapM f xs) (\<lambda>ys s. (Inr (y # ys), s)) s1 = (Inr ys, s')"
    by (auto elim: bindP_Inr_cases)
  from this(2) obtain zs where "mapM f xs s1 = (Inr zs, s')" "ys = y # zs" by (rule bindP_Inr_cases) auto
  with Cons.IH [of s1 zs] Cons.prems(2) y show ?case by auto
qed simp

section \<open>What a cycle sends\<close>

lemma executed_request:
  assumes "execute_place E X r d rules w = (Inr res, w')"
  shows "er_trade_request res = Some r \<and> er_decision res = Some d"
  using assms by (auto simp: execute_place_def bindP_def split: if_splits sum.splits prod.splits)

lemma execute_one_request:
  assumes "execute_one E V A hook r b = (Inr res, b')"
  shows "er_trade_request res = Some r"
  using assms executed_request unfolding execute_one_def
  by (fastforce elim!: bindP_Inr_cases on_engine_Inr simp: on_om_def split: prod.splits)

lemma approved_not_blocked:
  assumes "approved_by A c i r"
  shows "\<not> blocked (Some (sc_kill_switch_state c))"
proof
  assume "blocked (Some (sc_kill_switch_state c))"
  moreover from assms obtain d fr where "judge A c r fr = Inr d" "rd_decision d = APPROVED" by (auto simp: approved_by_def)
  ultimately show False using verdict_cases [of _ _ _ _ _ _ _ _ _ _ _ d] unfolding judge_def by fastforce
qed

text \<open>The strategy context shows the state of the machine at that moment.\<close>

lemma context_kill_state:
  assumes "strategy_context_of V A e = (Inr c, e')"
  shows "sc_kill_switch_state c = esm_current_state (en_execution_state_machine e)"
proof -
  have same: "mapM engine_position pids e = (q, e1) \<Longrightarrow> e1 = e" for pids q and e e1 :: "'a engine"
    by (induction pids arbitrary: q) (auto simp: bindP_def engine_position_def split: prod.splits sum.splits)
  show ?thesis
    using assms
    by (auto dest!: same simp: strategy_context_of_def Let_def bindP_def StrategyContext_post_init_def split: prod.splits sum.splits if_splits)
qed

definition same_terms :: "trade_intent \<Rightarrow> trade_request \<Rightarrow> bool" where
  "same_terms i r \<longleftrightarrow> tr_symbol r = ti_symbol i \<and> tr_side r = ti_side i \<and> tr_reduce_only r = ti_reduce_only i"

lemma mset_split: "mset xs = mset (filter P xs) + mset (filter (\<lambda>x. \<not> P x) xs)"
  by (induction xs) auto

text \<open>What a completed cycle did, from its intents to its orders.\<close>

lemma cycle_facts:
  assumes "run_cycle E V strategies A hook b = (Inr res, b')"
  shows "\<exists>as orders ad ad' e c e4 e5. collect_intents strategies c e4 = (Inr (cr_intents res), e5) \<and> sc_universe c = cy_universe A \<and>
    map er_trade_request (cr_executions res) = map Some (cr_approved (cr_construction res)) \<and>
    list_all2 same_terms as (cr_approved (cr_construction res)) \<and>
    mset (cr_intents res) = mset as + mset (map rj_intent (cr_rejected (cr_construction res))) +
      mset (map sk_intent (cr_skipped (cr_construction res))) + mset (cr_suppressed_by_open_orders res) \<and>
    distinct (map ti_symbol as) \<and>
    va_get_orders V ad = (Inr orders, ad') \<and>
    (\<forall>i\<in>set as. ti_symbol i \<in> set (cy_universe A) \<and> tradable orders i) \<and>
    (\<forall>i\<in>set (cr_suppressed_by_open_orders res). \<not> tradable orders i) \<and>
    snd (reconcile_engine V (snd (synchronize E V (snd (start_if_needed V (bk_engine b)))))) = e \<and>
    (blocked (Some (esm_current_state (en_execution_state_machine e))) \<longrightarrow> cr_executions res = [])"
proof -
  from assms [unfolded run_cycle_def split_beta] obtain st e1 syn e2 rep e3 c e4 intents e5 orders e6 con e7 ex b8 where
    1: "start_if_needed V (bk_engine b) = (Inr st, e1)" "synchronize E V e1 = (Inr syn, e2)" "reconcile_engine V e2 = (Inr rep, e3)"
    and c: "strategy_context_of V A e3 = (Inr c, e4)" and i: "collect_intents strategies c e4 = (Inr intents, e5)"
    and o: "on_adapter (va_get_orders V) e5 = (Inr orders, e6)"
    and con: "construct_cycle V A (filter (tradable orders) intents) c e6 = (Inr con, e7)"
    and ex: "mapM (execute_one E V A hook) (cr_approved con) (b\<lparr>bk_engine := e7\<rparr>) = (Inr ex, b8)"
    and res: "cr_executions res = ex" "cr_construction res = con" "cr_intents res = intents"
      "cr_suppressed_by_open_orders res = filter (\<lambda>i. \<not> tradable orders i) intents"
    by (elim bindP_Inr_cases on_engine_Inr) auto
  from con obtain ad ad' where "construct_trade_requests (cycle_construction_args V A e6) (filter (tradable orders) intents) c ad = (Inr con, ad')"
    unfolding construct_cycle_def by (auto elim: on_adapter_Inr)
  from construction_facts [OF this] obtain as where
    all: "mset (filter (tradable orders) intents) = mset as + mset (map rj_intent (cr_rejected con)) + mset (map sk_intent (cr_skipped con))"
    and ok: "list_all2 (approved_by (cycle_construction_args V A e6) c) as (cr_approved con)"
    and dist: "distinct (map ti_symbol (as @ map rj_intent (cr_rejected con)))"
    and univ: "\<forall>i\<in>set as. ti_symbol i \<in> set (sc_universe c)" by blast
  have sub: "set as \<subseteq> set (filter (tradable orders) intents)" using arg_cong [OF all, of set_mset] by auto
  have terms: "list_all2 same_terms as (cr_approved con)"
    using ok by (rule list_all2_mono) (simp add: same_terms_def approved_terms)
  have "list_all2 (\<lambda>r x. er_trade_request x = Some r) (cr_approved con) ex"
    using ex by (rule mapM_Inr) (rule execute_one_request)
  then have sent: "map er_trade_request ex = map Some (cr_approved con)" by (induction rule: list_all2_induct) simp_all
  have kill: "ex = []" if "blocked (Some (esm_current_state (en_execution_state_machine e3)))"
  proof (rule ccontr)
    assume "ex \<noteq> []"
    with sent ok obtain i r where "approved_by (cycle_construction_args V A e6) c i r" by (cases as) (auto simp: list_all2_Cons1)
    with approved_not_blocked that context_kill_state [OF c] show False by metis
  qed
  from o obtain ad ad' where "va_get_orders V ad = (Inr orders, ad')" by (auto elim: on_adapter_Inr)
  moreover have "mset intents = mset as + mset (map rj_intent (cr_rejected con)) + mset (map sk_intent (cr_skipped con)) +
      mset (filter (\<lambda>i. \<not> tradable orders i) intents)"
    by (subst mset_split [of intents "tradable orders"]) (simp only: all)
  ultimately show ?thesis using sent terms sub dist univ kill context_universe [OF c] 1 i
    by (intro exI [of _ as] exI [of _ orders] exI [of _ ad] exI [of _ ad'] exI [of _ e3] exI [of _ c] exI [of _ e4] exI [of _ e5]) (auto simp: res simp del: mset_filter mset_map)
qed

text \<open>What holds for every intent of every strategy holds for the intents of the cycle.\<close>

lemma collect_intents_all:
  assumes "collect_intents strategies c e = (Inr intents, e')"
    and "\<And>s ad is ad'. s \<in> set strategies \<Longrightarrow> s c ad = (Inr is, ad') \<Longrightarrow> \<forall>i\<in>set is. P i"
  shows "\<forall>i\<in>set intents. P i"
proof -
  from assms(1) obtain iss where iss: "mapM (\<lambda>s. on_adapter (s c)) strategies e = (Inr iss, e')" "intents = concat iss"
    unfolding collect_intents_def by (auto elim: bindP_Inr_cases)
  have "list_all2 (\<lambda>s is. \<forall>i\<in>set is. P i) strategies iss"
    using iss(1) by (rule mapM_Inr) (use assms(2) in \<open>blast elim: on_adapter_Inr\<close>)
  then show ?thesis unfolding iss(2) by (induction rule: list_all2_induct) auto
qed


section \<open>What a stop puts an end to\<close>

definition app_adapter :: "'ad app_state \<Rightarrow> 'ad" where
  "app_adapter s = en_adapter (bk_engine (ap_books s))"

text \<open>The boundary the engine shares with the adapter: only the two ways of writing it change it.\<close>

definition signing_shared :: "'ad venue_api \<Rightarrow> bool" where
  "signing_shared V \<longleftrightarrow> (\<forall>sb ad. va_signing V (va_set_signing V sb ad) = sb) \<and>
     (\<forall>f ad. va_wallet_revoke V = Some f \<longrightarrow> va_signing V (f ad) = va_signing V ad) \<and>
     (\<forall>ad. va_signing V (snd (va_health V ad)) = va_signing V ad)"

lemma revoked_signs_nothing: "\<exists>x. sb_sign mac (revoke_all sb) ref purpose m = Inl x"
  by (simp add: sb_sign_def revoke_all_eq)

lemma revoke_signing_boundary:
  "signing_shared V \<Longrightarrow> va_signing V (revoke_signing V ad) = revoke_all (va_signing V ad)"
  by (auto simp: signing_shared_def revoke_signing_def Let_def split: option.split)

lemma stop_fields:
  "ap_emergency_stopped (snd (on_app_engine f s)) = ap_emergency_stopped s"
  "ap_last_error (snd (on_app_engine f s)) = ap_last_error s"
  by (simp_all add: on_app_engine_def split: prod.split)

text \<open>The killing transition either ends in a stopped state or is reported.\<close>

lemma next_state_emergency: "next_state q T_EMERGENCY_KILL_TRIGGERED = Inr to \<Longrightarrow> to \<in> STOPPED_ESM_STATES"
  by (drule next_state_edge) (auto simp: EDGES_def STOPPED_ESM_STATES_def)

lemma kill_transition:
  assumes "transition E T_EMERGENCY_KILL_TRIGGERED rid ctx (s, m) = (r, (s', m'))"
    and "get_by_idempotency_key s (namespaced_key (esm_machine_id m) rid) = None"
  shows "(\<exists>x. r = Inl x) \<or> esm_current_state m' \<in> STOPPED_ESM_STATES"
  using assms(1) by (cases rule: transition_cases) (use assms(2) next_state_emergency in auto)

definition kill_request_id :: "string \<Rightarrow> string" where
  "kill_request_id now = ''app:emergency-stop:'' @ now"

lemma record_kill_outcome:
  assumes "get_by_idempotency_key (app_store s)
      (namespaced_key (esm_machine_id (en_execution_state_machine (bk_engine (ap_books s)))) (kill_request_id now)) = None"
  shows "app_esm_state (record_kill E now s) \<in> STOPPED_ESM_STATES \<or>
    (\<exists>x. ap_last_error (record_kill E now s) = Some (Kill_Not_Recorded x))"
proof (cases "app_esm_state s \<in> STOPPED_ESM_STATES")
  case False
  let ?e = "bk_engine (ap_books s)"
  obtain r t m where tr: "transition E T_EMERGENCY_KILL_TRIGGERED (kill_request_id now)
      (Some [(''reason'', VStr ''operator_emergency_stop''), (''source'', VStr ''app_runtime'')])
      (en_event_store ?e, en_execution_state_machine ?e) = (r, (t, m))" by (metis surj_pair)
  from kill_transition [OF tr] assms tr False show ?thesis
    by (cases r)
      (simp_all add: record_kill_def on_app_engine_def on_engine_def on_esm_def esm_view_def kill_request_id_def app_esm_state_def app_store_def)
qed (simp add: record_kill_def)

lemma record_kill_adapter: "app_adapter (record_kill E now s) = app_adapter s"
  by (simp add: record_kill_def app_adapter_def on_app_engine_def on_engine_def on_esm_def split: prod.split sum.split)

lemma cheap_same:
  assumes "on_app_engine (cheap_snapshot V now) s = (q, s')"
  shows "app_esm_state s' = app_esm_state s" "ap_emergency_stopped s' = ap_emergency_stopped s" "ap_last_error s' = ap_last_error s"
    "app_store s' = app_store s" "app_adapter s' = snd (va_health V (app_adapter s))"
  using assms
  by (auto simp: cheap_snapshot_def on_app_engine_def on_engine_def bindP_def on_adapter_def app_esm_state_def app_store_def
      app_adapter_def split: prod.splits sum.splits)

text \<open>The states between the steps of a stop.\<close>

lemma stop_steps:
  assumes "emergency_stop E V now s = (r, s')"
  obtains s1 s2 s3 where "s1 = snd (best_effort_cancel E V s)"
    "s2 = snd (on_app_engine (on_adapter (\<lambda>ad. (Inr (), revoke_signing V ad))) s1)" "s3 = record_kill E now s2"
    "app_esm_state s' = app_esm_state s3" "ap_emergency_stopped s'" "ap_last_error s' = ap_last_error s3"
    "app_adapter s' = snd (va_health V (app_adapter s3))"
proof -
  let ?s1 = "snd (best_effort_cancel E V s)"
  let ?s2 = "snd (on_app_engine (on_adapter (\<lambda>ad. (Inr (), revoke_signing V ad))) ?s1)"
  let ?s3 = "(record_kill E now ?s2)\<lparr>ap_emergency_stopped := True\<rparr>"
  obtain q s4 where q: "on_app_engine (cheap_snapshot V now) ?s3 = (q, s4)" by (meson surj_pair)
  have eq: "s' = s4 \<or> (\<exists>sn. s' = s4\<lparr>ap_latest_snapshot := sn\<rparr>)"
    using assms q by (auto simp: emergency_stop_def Let_def split: prod.splits sum.splits)
  show ?thesis
  proof (rule that [OF refl refl refl])
    have set [simp]: "app_esm_state (t\<lparr>ap_emergency_stopped := x\<rparr>) = app_esm_state t" "app_adapter (t\<lparr>ap_emergency_stopped := x\<rparr>) = app_adapter t"
      "app_esm_state (t\<lparr>ap_latest_snapshot := y\<rparr>) = app_esm_state t" "app_adapter (t\<lparr>ap_latest_snapshot := y\<rparr>) = app_adapter t"
      for t :: "'a app_state" and x y by (simp_all add: app_esm_state_def app_adapter_def)
    show "app_esm_state s' = app_esm_state (record_kill E now ?s2)" "ap_emergency_stopped s'"
      "ap_last_error s' = ap_last_error (record_kill E now ?s2)" "app_adapter s' = snd (va_health V (app_adapter (record_kill E now ?s2)))"
      using eq cheap_same [OF q] by auto
  qed
qed

text \<open>A new process takes over the state of the machine.\<close>

lemma create_machine:
  assumes "app_create E store ad amount lev now = Inr s" "ExecutionStateMachine store DEFAULT_ID = Inr m"
  shows "en_execution_state_machine (bk_engine (ap_books s)) = m \<and>
    ap_emergency_stopped s = (esm_current_state m \<in> STOPPED_ESM_STATES)"
proof -
  from assms(1) obtain e0 where e0: "build_engine store ad now = Inr e0" by (auto simp: app_create_def bindE_eq_Inr)
  obtain q e where dep: "initial_deposit E amount e0 = (q, e)" by (meson surj_pair)
  then have "en_execution_state_machine e = en_execution_state_machine e0"
    by (auto simp: initial_deposit_def bindP_def on_pf_def split: if_splits prod.splits sum.splits)
  moreover have "\<exists>a. s = AppState \<lparr>bk_engine = e, bk_accounting = a, bk_notes = []\<rparr>"
    using assms(1) e0 dep by (auto simp: app_create_def bindE_eq_Inr split: sum.splits)
  ultimately show ?thesis using e0 assms(2) by (auto simp: build_engine_Inr AppState_def)
qed

lemma run_machine:
  assumes "app_run E V str_dec s" "fills_ok V"
  shows "ExecutionStateMachine (app_store s) DEFAULT_ID = Inr (en_execution_state_machine (bk_engine (ap_books s)))"
proof -
  have "om_sound DEFAULT_ID DEFAULT_ID 1 (om_view (bk_engine (ap_books s)))"
    using app_run_sound [OF assms] by (simp add: app_sound_def books_sound_def engine_sound_def DEFAULT_IDS_def)
  from om_soundD(1,10) [OF this] show ?thesis using construct_iff by (simp add: om_view_def app_store_def)
qed

lemma run_step: "app_run E V str_dec s \<Longrightarrow> app_step E V str_dec s s' \<Longrightarrow> app_run E V str_dec s'"
  unfolding app_run_def by (meson rtranclp.rtrancl_into_rtrancl)

lemma stopped_refuses:
  assumes "ap_emergency_stopped s"
  shows "run_one_cycle E V str_dec strategies A t s = (Inl EmergencyStopActive, s)" "best_effort_cancel E V s = ([], s)"
  using assms by (simp_all add: run_one_cycle_def best_effort_cancel_def)


section \<open>Marks during a partial close\<close>

lemma acc_append_frame:
  assumes "acc_append E action key before after b = (Inr u, b')"
  shows "en_position_manager (bk_engine b') = en_position_manager (bk_engine b) \<and> bk_accounting b' = bk_accounting b \<and>
    en_adapter (bk_engine b') = en_adapter (bk_engine b)"
  using assms by (auto simp: acc_append_def split: prod.splits sum.splits)

lemma on_pf_frame:
  assumes "on_engine (on_pf f) b = (Inr u, b')"
  shows "en_position_manager (bk_engine b') = en_position_manager (bk_engine b) \<and> bk_accounting b' = bk_accounting b \<and>
    en_adapter (bk_engine b') = en_adapter (bk_engine b)"
  using assms by (auto simp: on_engine_def on_pf_def split: prod.splits)

lemma attribute_exit:
  assumes "exit_position E f b = (Inr p, b')" "as_position_by_cid (bk_accounting b) = [(cid, pid)]" "fl_client_order_id f \<noteq> cid"
    and "get_position pid (en_position_manager (bk_engine b)) = Inr pos" "closes (fl_symbol f) (fl_side f) pos"
  shows "p = Some pid \<and> as_position_by_cid (bk_accounting b') = [(cid, pid), (fl_client_order_id f, pid)] \<and>
    as_closed_qty_by_pid (bk_accounting b') = as_closed_qty_by_pid (bk_accounting b) \<and>
    as_counted_exit_fills (bk_accounting b') = as_counted_exit_fills (bk_accounting b) \<and>
    en_position_manager (bk_engine b') = en_position_manager (bk_engine b) \<and> en_adapter (bk_engine b') = en_adapter (bk_engine b)"
  using assms
  by (auto simp: exit_position_def Let_def map_position_def elim!: bindP_Inr_cases dest!: acc_append_frame)

lemma partial_exit:
  assumes "book_exit_at E f pid b = (Inr (), b')" "get_position pid (en_position_manager (bk_engine b)) = Inr pos"
    and "ps_lifecycle_state pos \<notin> TERMINAL_POSITION_STATES" "fl_fill_id f \<notin> as_counted_exit_fills (bk_accounting b)"
    and "dadd (qty_of (bk_accounting b) pid) (fl_quantity f) < ps_filled_quantity pos"
  shows "as_position_by_cid (bk_accounting b') = as_position_by_cid (bk_accounting b) \<and>
    en_position_manager (bk_engine b') = en_position_manager (bk_engine b) \<and> en_adapter (bk_engine b') = en_adapter (bk_engine b)"
proof -
  have counted: "qty_of (count_exit pid f a) pid = dadd (qty_of a pid) (fl_quantity f)"
    "as_position_by_cid (count_exit pid f a) = as_position_by_cid a" if "fl_fill_id f \<notin> as_counted_exit_fills a" for a
    using that by (simp_all add: count_exit_def qty_of_def)
  from assms show ?thesis
    by (auto simp: book_exit_at_def ask_pm_def counted add_note_def split: option.splits elim!: bindP_Inr_cases dest!: on_pf_frame)
qed

text \<open>
  (C4) A position that is being closed in parts is marked twice.  The first partial fill of an exit order is attributed
  to the open position by a second entry of the map from orders to positions, and the list of open positions is
  read off the values of that map: until the close completes, unrealized PnL, exposure and open risk of the position are
  added twice.
\<close>

theorem partial_close_marked_twice:
  assumes "book_exit E f b = (Inr (), b')"
    and "as_position_by_cid (bk_accounting b) = [(cid, pid)]" "fl_client_order_id f \<noteq> cid"
    and "get_position pid (en_position_manager (bk_engine b)) = Inr pos" "closes (fl_symbol f) (fl_side f) pos"
    and "ps_avg_entry_price pos = Some entry" "fl_fill_id f \<notin> as_counted_exit_fills (bk_accounting b)"
    and "dadd (qty_of (bk_accounting b) pid) (fl_quantity f) < ps_filled_quantity pos"
    and "pid \<in> set (ps_open_position_ids (get_snapshot (pf_view (bk_engine b'))))"
    and "\<And>ad. va_get_mark_price V (ps_symbol pos) ad = (Inr mp, ad)"
  shows "open_pids b' = [pid, pid] \<and>
    total_marks V (open_pids b') (0, 0, 0) (bk_engine b') =
      (Inr (add_mark pos entry (mp_price mp) (add_mark pos entry (mp_price mp) (0, 0, 0))), bk_engine b')"
proof -
  from assms(1) obtain p b1 where p: "exit_position E f b = (Inr p, b1)"
    and at: "(case p of None \<Rightarrow> (\<lambda>b. (Inr (), b)) | Some p \<Rightarrow> book_exit_at E f p) b1 = (Inr (), b')"
    unfolding book_exit_def by (rule bindP_Inr_cases)
  note b1 = attribute_exit [OF p assms(2-5)]
  have live: "ps_lifecycle_state pos \<notin> TERMINAL_POSITION_STATES" "0 < ps_remaining_quantity pos" using assms(5) by (simp_all add: closes_def)
  have "book_exit_at E f pid b1 = (Inr (), b')" using at b1 by simp
  from partial_exit [OF this _ live(1)] b1 assms(4,7,8) have b': "as_position_by_cid (bk_accounting b') = [(cid, pid), (fl_client_order_id f, pid)]"
    "en_position_manager (bk_engine b') = en_position_manager (bk_engine b)" by (auto simp: qty_of_def)
  have two: "open_pids b' = [pid, pid]" using b' assms(9) by (simp add: open_pids_def)
  moreover have "on_adapter (va_get_mark_price V (ps_symbol pos)) e = (Inr mp, e)" for e by (simp add: on_adapter_def assms(10))
  ultimately show ?thesis using assms(4,6) live(2) b'(2) by (simp add: bindP_def)
qed

end
