(* ===== verification/Trading_Demo.thy ===== *)
theory Trading_Demo
  imports Construction
begin

text \<open>
  A concrete account, profile and batch of intents, on which the properties of risk manager, sizing and
  portfolio construction are applied.
\<close>

definition demo_rx :: risk_env where
  "demo_rx = \<lparr>rx_parse_utc = (\<lambda>_. Inr 0), rx_str = (\<lambda>_. ''d''), rx_float = (\<lambda>_. ''f'')\<rparr>"

definition demo_limits :: risk_manager_limits where
  "demo_limits = \<lparr>rl_max_leverage = 3, rl_min_liquidation_buffer_pct = 1 / 2, rl_max_funding_rate_abs = 1 / 100,
     rl_max_correlated_positions = 1, rl_max_stale_data_seconds = 60\<rparr>"

text \<open>The float \<open>0.02\<close> is a little more than 2/100, the float \<open>0.015\<close> a little less than 15/1000.\<close>

definition demo_profile :: risk_profile_params where
  "demo_profile = \<lparr>rp_risk_pct_per_trade = 5764607523034235 / 288230376151711744, rp_max_positions = 3, rp_sizing_mode = ''fixed'',
     rp_heat_cap = 1 / 2, rp_ruin_threshold = 1 / 2\<rparr>"

definition bad_profile :: risk_profile_params where
  "bad_profile = demo_profile\<lparr>rp_risk_pct_per_trade := 1080863910568919 / 72057594037927936\<rparr>"

definition demo_float :: "rat \<Rightarrow> decimal" where
  "demo_float x = (if x = rp_risk_pct_per_trade demo_profile then 2 / 100 else 15 / 1000)"

definition demo_account :: portfolio_snapshot where
  "demo_account = \<lparr>ps_available_cash = 100000, ps_reserved_margin = 0, ps_used_margin = 0, ps_unrealized_pnl = 0,
     ps_realized_pnl_cumulative = 0, ps_funding_cumulative = 0, ps_fees_cumulative = 0, ps_deposits_cumulative = 100000,
     ps_withdrawals_cumulative = 0, ps_exposure = 0, ps_heat = 0, ps_open_position_ids = [], ps_updated_at_utc = ''t''\<rparr>"

definition demo_caps :: capabilities where
  "demo_caps = \<lparr>supports_reduce_only = True, supports_post_only = True, supports_ioc = True, supports_fok = True,
     supports_market_orders = True, supports_limit_orders = True, supports_trigger_orders = False,
     supports_partial_fill_notifications = True, supports_funding_rate = True, supports_cross_margin = True,
     supports_isolated_margin = True, cap_extra = []\<rparr>"

definition demo_args :: construction_args where
  "demo_args = \<lparr>co_env = demo_rx, co_float = demo_float, co_exc_str = (\<lambda>_. ''x''), co_limits = demo_limits,
     co_profile = demo_profile, co_capabilities = demo_caps, co_correlation = \<lparr>ci_entries = [], ci_as_of_utc = ''t''\<rparr>,
     co_maintenance_margin_rate = 1 / 100, co_target_leverage = 1, co_volatility = Map.empty\<rparr>"

definition demo_market :: "unit market_data_view" where
  "demo_market = \<lparr>mv_get_mark_price = (\<lambda>s ad. (Inr \<lparr>mp_symbol = s, mp_price = 100, mp_timestamp_utc = ''t''\<rparr>, ad)),
     mv_get_funding_rate = (\<lambda>s ad. (Inr \<lparr>fr_symbol = s, fr_rate = 0, fr_next_funding_time_utc = ''t'', fr_timestamp_utc = ''t''\<rparr>, ad))\<rparr>"

definition demo_context :: "unit strategy_context" where
  "demo_context = \<lparr>sc_universe = [''BTC'', ''ETH''], sc_portfolio_snapshot = demo_account, sc_open_positions = [],
     sc_kill_switch_state = S_READY, sc_market_data = demo_market, sc_evaluated_at_utc = ''t''\<rparr>"

definition demo_intent :: "symbol \<Rightarrow> decimal \<Rightarrow> trade_intent" where
  "demo_intent s c = \<lparr>ti_symbol = s, ti_side = BUY, ti_order_type = LIMIT, ti_time_in_force = GTC, ti_reduce_only = False,
     ti_stop_price = 90, ti_conviction = Some c, ti_limit_price = Some 100, ti_t1_price = Some 110, ti_t2_price = Some 120\<rparr>"

definition demo_batch :: "trade_intent list" where
  "demo_batch = [demo_intent ''BTC'' (1 / 2), demo_intent ''BTC'' 1, demo_intent ''SOL'' 1]"

lemma demo_constructed:
  "map tr_symbol (case fst (construct_trade_requests demo_args demo_batch demo_context ()) of Inl _ \<Rightarrow> [] | Inr res \<Rightarrow> cr_approved res) = [''BTC'']"
  by code_simp

lemma construction_complete_witness:
  "\<exists>res. construct_trade_requests demo_args demo_batch demo_context () = (Inr res, ()) \<and> map tr_symbol (cr_approved res) = [''BTC''] \<and>
     (\<exists>as. mset demo_batch = mset as + mset (map rj_intent (cr_rejected res)) + mset (map sk_intent (cr_skipped res)))"
proof -
  obtain res where res: "construct_trade_requests demo_args demo_batch demo_context () = (Inr res, ())"
    "map tr_symbol (cr_approved res) = [''BTC'']"
    using demo_constructed
    by (cases "construct_trade_requests demo_args demo_batch demo_context ()"; cases "fst (construct_trade_requests demo_args demo_batch demo_context ())") auto
  from construction_complete [OF res(1)] have "\<exists>as. mset demo_batch = mset as + mset (map rj_intent (cr_rejected res)) + mset (map sk_intent (cr_skipped res))"
    by (elim exE conjE) (rule exI)
  with res show ?thesis by (intro exI [of _ res] conjI)
qed

lemma zero_conviction_aborts_witness:
  "\<exists>x. fst (construct_trade_requests (demo_args\<lparr>co_profile := demo_profile\<lparr>rp_sizing_mode := ''conviction_weighted''\<rparr>\<rparr>)
     [demo_intent ''BTC'' 1, demo_intent ''ETH'' 0] demo_context ()) = Inl x"
proof -
  have "0 < equity (sc_portfolio_snapshot demo_context)" by code_simp
  then show ?thesis
    by (intro zero_conviction_aborts [of _ _ "demo_intent ''ETH'' 0" _ 100])
      (simp_all add: demo_args_def demo_context_def demo_intent_def)
qed

definition demo_sized :: "risk_profile_params \<Rightarrow> exc + trade_request" where
  "demo_sized rp = size_intent demo_float (demo_intent ''BTC'' 1) (equity demo_account) rp 100 (1 / 100) 1 None"

definition demo_judged :: "risk_profile_params \<Rightarrow> exc + risk_decision" where
  "demo_judged rp = bindE (demo_sized rp) (\<lambda>r. evaluate demo_rx demo_limits r rp ''t'' (Some S_READY) (Some demo_account)
     (Some []) (Some demo_caps) (Some \<lparr>fi_symbol = ''BTC'', fi_funding_rate = 0, fi_as_of_utc = ''t''\<rparr>)
     (Some \<lparr>ci_entries = [], ci_as_of_utc = ''t''\<rparr>))"

lemma demo_verdicts: "map_sum id rd_decision (demo_judged demo_profile) = Inr APPROVED"
  "map_sum id rd_decision (demo_judged bad_profile) = Inr REJECTED"
  by code_simp+

lemma demo_judgedE:
  assumes "map_sum id rd_decision (demo_judged rp) = Inr v"
  obtains r d where "demo_sized rp = Inr r" "evaluate demo_rx demo_limits r rp ''t'' (Some S_READY) (Some demo_account)
     (Some []) (Some demo_caps) (Some \<lparr>fi_symbol = ''BTC'', fi_funding_rate = 0, fi_as_of_utc = ''t''\<rparr>)
     (Some \<lparr>ci_entries = [], ci_as_of_utc = ''t''\<rparr>) = Inr d" "rd_decision d = v"
  using assms unfolding demo_judged_def by (cases "demo_sized rp") (auto simp: map_sum_def split: sum.splits)

lemma risk_verdict_witness:
  "\<exists>r p ps c f co d. demo_sized demo_profile = Inr r \<and> rd_decision (d :: risk_decision) = APPROVED \<and>
     (\<forall>code. \<not> broken_rule demo_limits demo_profile r p ps c f co code)"
proof (rule demo_judgedE [OF demo_verdicts(1)])
  fix r and d :: risk_decision assume r: "demo_sized demo_profile = Inr r" and
    d: "evaluate demo_rx demo_limits r demo_profile ''t'' (Some S_READY) (Some demo_account)
     (Some []) (Some demo_caps) (Some \<lparr>fi_symbol = ''BTC'', fi_funding_rate = 0, fi_as_of_utc = ''t''\<rparr>)
     (Some \<lparr>ci_entries = [], ci_as_of_utc = ''t''\<rparr>) = Inr d" "rd_decision d = APPROVED"
  have "\<not> broken_rule demo_limits demo_profile r demo_account [] demo_caps \<lparr>fi_symbol = ''BTC'', fi_funding_rate = 0, fi_as_of_utc = ''t''\<rparr>
      \<lparr>ci_entries = [], ci_as_of_utc = ''t''\<rparr> code" for code
    using risk_verdict [OF d(1)] d(2) by (auto split: if_splits)
  then have "\<forall>code. \<not> broken_rule demo_limits demo_profile r demo_account [] demo_caps \<lparr>fi_symbol = ''BTC'', fi_funding_rate = 0, fi_as_of_utc = ''t''\<rparr>
      \<lparr>ci_entries = [], ci_as_of_utc = ''t''\<rparr> code" by blast
  with r d(2) show ?thesis by - (intro exI conjI; assumption)
qed

lemma float_profile_never_approves_witness:
  "\<exists>r d. demo_sized bad_profile = Inr r \<and> rd_decision (d :: risk_decision) = REJECTED \<and> RISK_PER_TRADE_EXCEEDED \<in> set (rd_reason_codes d)"
proof (rule demo_judgedE [OF demo_verdicts(2)])
  fix r and d :: risk_decision assume r: "demo_sized bad_profile = Inr r" and
    d: "evaluate demo_rx demo_limits r bad_profile ''t'' (Some S_READY) (Some demo_account)
     (Some []) (Some demo_caps) (Some \<lparr>fi_symbol = ''BTC'', fi_funding_rate = 0, fi_as_of_utc = ''t''\<rparr>)
     (Some \<lparr>ci_entries = [], ci_as_of_utc = ''t''\<rparr>) = Inr d" "rd_decision d = REJECTED"
  have mode: "rp_sizing_mode bad_profile \<noteq> ''conviction_weighted''" by code_simp
  have more: "rp_risk_pct_per_trade bad_profile < demo_float (rp_risk_pct_per_trade bad_profile)" by code_simp
  have exact: "dround (demo_float (rp_risk_pct_per_trade bad_profile)) = demo_float (rp_risk_pct_per_trade bad_profile)"
    "dround (equity demo_account * demo_float (rp_risk_pct_per_trade bad_profile)) = equity demo_account * demo_float (rp_risk_pct_per_trade bad_profile)"
    by code_simp+
  from float_profile_never_approves [OF mode more exact r [unfolded demo_sized_def] d(1)] d(2) have "RISK_PER_TRADE_EXCEEDED \<in> set (rd_reason_codes d)" by simp
  with r d(2) show ?thesis by - (intro exI conjI; assumption)
qed

end
