(* ===== verification/App_Demo.thy ===== *)
theory App_Demo
  imports App_Properties Trading_Demo
begin

text \<open>
  A small venue, an application created on an empty log, and concrete cycles, stops and partial closes of it, to which
  the properties of the application are applied.
\<close>

section \<open>The venue\<close>

text \<open>
  It accepts every order, fills none and forgets all.  Its memory is the signing boundary, or, where signing does not
  matter, nothing.
\<close>

definition accepted :: "order_request \<Rightarrow> order" where
  "accepted r = \<lparr>od_client_order_id = rq_client_order_id r, od_exchange_order_id = Some ''x1'', od_symbol = rq_symbol r,
     od_side = rq_side r, od_order_type = rq_order_type r, od_quantity = rq_quantity r, od_filled_quantity = 0,
     od_limit_price = rq_limit_price r, od_status = ST_ACKNOWLEDGED, od_time_in_force = rq_time_in_force r,
     od_reduce_only = rq_reduce_only r, od_created_at_utc = ''t'', od_updated_at_utc = ''t''\<rparr>"

definition demo_health :: health_status where
  "demo_health = \<lparr>hs_connection_state = CS_CONNECTED, hs_websocket_connected = True, hs_rest_reachable = True,
     hs_last_message_age_ms = None, hs_sequence_gap_detected = False, hs_checked_at_utc = ''t''\<rparr>"

definition demo_venue_orders :: "'ad adapter_api" where
  "demo_venue_orders = \<lparr>api_place_order = (\<lambda>r ad. (Inr (accepted r), ad)), api_amend_order = (\<lambda>r ad. (Inl OrderUnknownError, ad)),
     api_cancel_order = (\<lambda>r ad. (Inl OrderUnknownError, ad)), api_cancel_all = (\<lambda>r ad. (Inr [], ad)),
     api_find_order = (\<lambda>r ad. (Inr None, ad)), api_get_order_status = (\<lambda>i ad. (Inl OrderUnknownError, ad)),
     api_get_fills = (\<lambda>ad. (Inr [], ad)), api_exc_str = (\<lambda>_. ''failed'')\<rparr>"

definition demo_mark :: mark_price where
  "demo_mark = \<lparr>mp_symbol = ''BTC'', mp_price = 100, mp_timestamp_utc = ''t''\<rparr>"

definition demo_venue_of :: "('ad \<Rightarrow> signing_boundary) \<Rightarrow> (signing_boundary \<Rightarrow> 'ad \<Rightarrow> 'ad) \<Rightarrow> order list \<Rightarrow> 'ad venue_api" where
  "demo_venue_of get set_to orders = \<lparr>va_orders = demo_venue_orders, va_connect = (\<lambda>ad. (Inr demo_health, ad)), va_disconnect = (\<lambda>ad. ad),
     va_health = (\<lambda>ad. (Inr demo_health, ad)), va_capabilities = (\<lambda>_. demo_caps), va_get_orders = (\<lambda>ad. (Inr orders, ad)),
     va_get_mark_price = (\<lambda>s ad. (Inr demo_mark, ad)),
     va_get_funding_rate = (\<lambda>s ad. (Inr \<lparr>fr_symbol = s, fr_rate = 0, fr_next_funding_time_utc = ''t'', fr_timestamp_utc = ''t''\<rparr>, ad)),
     va_reconcile = (\<lambda>ps ad. (Inr \<lparr>rr_matches = True, rr_local_positions = ps, rr_exchange_positions = [], rr_discrepancies = [],
       rr_checked_at_utc = ''t''\<rparr>, ad)),
     va_signing = get, va_set_signing = set_to, va_wallet_revoke = None\<rparr>"

definition demo_venue :: "signing_boundary venue_api" where
  "demo_venue = demo_venue_of (\<lambda>ad. ad) (\<lambda>sb ad. sb) []"

lemma demo_venue_ok: "fills_ok demo_venue" "signing_shared demo_venue"
  by (simp_all add: fills_ok_def signing_shared_def demo_venue_def demo_venue_of_def demo_venue_orders_def)

section \<open>The application\<close>

definition demo_app :: "signing_boundary app_state" where
  "demo_app = projr (app_create demo_env demo_empty demo_boundary 0 1 ''t'')"

lemma demo_created: "app_create demo_env demo_empty demo_boundary 0 1 ''t'' = Inr demo_app"
proof -
  have "\<not> isl (app_create demo_env demo_empty demo_boundary 0 1 ''t'')" by code_simp
  then show ?thesis by (simp add: demo_app_def sum.collapse(2))
qed

lemma demo_app_run: "app_run demo_env demo_venue str_dec demo_app"
  unfolding app_run_def using demo_created store_reach_inv [OF demo_reach(1)] demo_events(1) by blast

section \<open>A cycle\<close>

definition no_boundary :: signing_boundary where
  "no_boundary = \<lparr>sb_engine_version = ''1'', sb_exchange_name = ''x'', sb_expected_refs = [],
     sb_backend = \<lparr>hb_env = Map.empty, hb_materials = [], hb_loaded = True\<rparr>, sb_revoked = {}\<rparr>"

definition plain_venue :: "unit venue_api" where
  "plain_venue = demo_venue_of (\<lambda>_. no_boundary) (\<lambda>_ ad. ad) [accepted \<lparr>rq_client_order_id = ''c9'', rq_symbol = ''BTC'', rq_side = BUY,
     rq_order_type = LIMIT, rq_quantity = 1, rq_limit_price = Some 99, rq_time_in_force = GTC, rq_reduce_only = False\<rparr>]"

text \<open>The venue lists a live order for BTC; SOL is not in the universe.\<close>

definition demo_strategy :: "unit strategy" where
  "demo_strategy c ad = (Inr [demo_intent ''BTC'' 1, demo_intent ''SOL'' 1], ad)"

definition demo_cycle :: cycle_args where
  "demo_cycle = \<lparr>cy_universe = [''BTC''], cy_construction = demo_args, cy_rules = None, cy_now = ''t''\<rparr>"

text \<open>An engine on an empty log with cash on the account.\<close>

definition demo_engine :: "unit engine" where
  "demo_engine = \<lparr>en_event_store = demo_empty, en_execution_state_machine = \<lparr>esm_machine_id = ''m'', esm_current_state = S_INITIALIZING\<rparr>,
     en_adapter = (), en_order_manager = om_init ''m'', en_position_manager = pm_init ''m'',
     en_portfolio_manager = (pf_init ''m'' ''t'')\<lparr>pf_available_cash := 100000, pf_deposits_cumulative := 100000\<rparr>, en_started = True\<rparr>"

definition demo_accounting :: accounting where
  "demo_accounting = \<lparr>as_target_leverage = 1, as_levels_by_cid = Map.empty, as_position_by_cid = [],
     as_closed_qty_by_pid = Map.empty, as_counted_exit_fills = {}\<rparr>"

definition demo_books :: "unit books" where
  "demo_books = \<lparr>bk_engine = demo_engine, bk_accounting = demo_accounting, bk_notes = []\<rparr>"

definition demo_cycled :: "(exc + cycle_result) \<times> unit books" where
  "demo_cycled = run_cycle demo_env plain_venue [demo_strategy] demo_cycle no_hook demo_books"

lemma demo_cycle_result:
  "(case fst demo_cycled of Inl _ \<Rightarrow> ([], []) | Inr res \<Rightarrow> (cr_suppressed_by_open_orders res, map sk_intent (cr_skipped (cr_construction res)))) =
     ([demo_intent ''BTC'' 1], [demo_intent ''SOL'' 1])"
  by code_simp


section \<open>Recovery and emergency stop\<close>

definition demo_stopped :: "signing_boundary app_state" where
  "demo_stopped = snd (emergency_stop demo_env demo_venue ''t'' demo_app)"

lemma demo_stopped_run: "app_run demo_env demo_venue str_dec demo_stopped"
  unfolding demo_stopped_def by (rule run_step [OF demo_app_run app_step.stop])

lemma engine_recovery_witness:
  "ExecutionStateMachine (app_store demo_stopped) DEFAULT_ID = Inr (en_execution_state_machine (bk_engine (ap_books demo_stopped)))"
  using engine_recovery [OF demo_stopped_run [of "\<lambda>_. ''d''"] demo_venue_ok(1) refl refl] by blast

lemma demo_kill_fresh:
  "get_by_idempotency_key (app_store (snd (best_effort_cancel demo_env demo_venue demo_app))) (namespaced_key DEFAULT_ID (kill_request_id ''t'')) = None"
proof -
  from demo_created obtain e0 a where e0: "build_engine demo_empty demo_boundary ''t'' = Inr e0"
    and app: "demo_app = AppState \<lparr>bk_engine = e0, bk_accounting = a, bk_notes = []\<rparr>"
    by (auto simp: app_create_def bindE_eq_Inr initial_deposit_def eq_commute [of _ demo_app])
  have b: "bk_engine (ap_books demo_app) = e0" unfolding app by (simp add: AppState_def)
  have "best_effort_cancel demo_env demo_venue demo_app = ([], demo_app)"
    using e0 b by (simp add: best_effort_cancel_def build_engine_Inr)
  moreover have "app_store demo_app = demo_empty" using e0 b by (simp add: app_store_def build_engine_Inr)
  moreover have "get_by_idempotency_key demo_empty k = None" for k
    by (simp add: demo_empty_def opened_store_def get_by_idempotency_key_def)
  ultimately show ?thesis by simp
qed


section \<open>A partial close\<close>

text \<open>A long position of 2 BTC, opened at 100 by order \<^verbatim>\<open>o1\<close>; the exit order \<^verbatim>\<open>o2\<close> has filled 1 of the 2.\<close>

definition demo_long :: position_snapshot where
  "demo_long = \<lparr>ps_position_id = ''p'', ps_lifecycle_state = P_FULLY_FILLED, ps_symbol = ''BTC'', ps_side = BUY, ps_intended_quantity = 2,
     ps_filled_quantity = 2, ps_remaining_quantity = 2, ps_avg_entry_price = Some 100, ps_stop_price = 90, ps_stop_d = 10,
     ps_t1_price = 110, ps_t2_price = 120, ps_conviction = None, ps_realized_pnl = 0, ps_realized_r = 0, ps_fees_paid = 0,
     ps_funding_paid = 0, ps_created_at_utc = ''t'', ps_updated_at_utc = ''t''\<rparr>"

definition demo_exit :: fill where
  "demo_exit = \<lparr>fl_fill_id = ''f2'', fl_client_order_id = ''o2'', fl_exchange_order_id = ''x2'', fl_symbol = ''BTC'', fl_side = SELL,
     fl_price = 100, fl_quantity = 1, fl_fee = 0, fl_timestamp_utc = ''t''\<rparr>"

definition demo_half :: "unit books" where
  "demo_half = demo_books\<lparr>
     bk_engine := demo_engine\<lparr>en_position_manager := (pm_init ''m'')\<lparr>pm_snapshots := [(''p'', demo_long)]\<rparr>,
       en_portfolio_manager := (pf_init ''m'' ''t'')\<lparr>pf_open_position_ids := {''p''}\<rparr>\<rparr>,
     bk_accounting := demo_accounting\<lparr>as_position_by_cid := [(''o1'', ''p'')]\<rparr>\<rparr>"

definition demo_halved :: "(exc + unit) \<times> unit books" where
  "demo_halved = book_exit demo_env demo_exit demo_half"

lemma demo_halved: "fst demo_halved = Inr () \<and> ''p'' \<in> set (ps_open_position_ids (get_snapshot (pf_view (bk_engine (snd demo_halved)))))"
  by code_simp

lemma partial_close_marked_twice_witness:
  "open_pids (snd demo_halved) = [''p'', ''p''] \<and>
   fst (total_marks plain_venue (open_pids (snd demo_halved)) (0, 0, 0) (bk_engine (snd demo_halved))) = Inr (0, 400, 40)"
proof -
  have run: "book_exit demo_env demo_exit demo_half = (Inr (), snd demo_halved)"
    using demo_halved by (simp add: demo_halved_def prod_eq_iff)
  have pos: "get_position ''p'' (en_position_manager (bk_engine demo_half)) = Inr demo_long"
    by (simp add: demo_half_def get_position_def)
  have closes: "closes (fl_symbol demo_exit) (fl_side demo_exit) demo_long"
    by (simp add: closes_def demo_exit_def demo_long_def TERMINAL_POSITION_STATES_def)
  have part: "dadd (qty_of (bk_accounting demo_half) ''p'') (fl_quantity demo_exit) < ps_filled_quantity demo_long" by code_simp
  have sums: "add_mark demo_long 100 (mp_price demo_mark) (add_mark demo_long 100 (mp_price demo_mark) (0, 0, 0)) = (0, 400, 40)" by code_simp
  have "as_position_by_cid (bk_accounting demo_half) = [(''o1'', ''p'')]" "fl_client_order_id demo_exit \<noteq> ''o1''"
    "ps_avg_entry_price demo_long = Some 100" "fl_fill_id demo_exit \<notin> as_counted_exit_fills (bk_accounting demo_half)"
    "va_get_mark_price plain_venue (ps_symbol demo_long) ad = (Inr demo_mark, ad)" for ad
    by (simp_all add: demo_half_def demo_exit_def demo_long_def demo_accounting_def plain_venue_def demo_venue_of_def)
  note twice = partial_close_marked_twice [OF run this(1,2) pos closes this(3,4) part conjunct2 [OF demo_halved] this(5), unfolded sums]
  show ?thesis by (rule conjI [OF conjunct1 [OF twice] arg_cong [OF conjunct2 [OF twice], of fst, unfolded fst_conv]])
qed

end
