(* ===== verification/Registry_Storage.thy ===== *)
theory Registry_Storage
  imports Event_Store
begin

text \<open>
  The storage of the experiment registry, \<^verbatim>\<open>alpha_engine/registry/storage.py\<close>: one JSON object per line, each with a
  checksum, appended to a file that is opened for every append and never cut back.
\<close>

section \<open>The outside world\<close>

text \<open>
  The JSON library and the hash: \<open>rj_dumps\<close> is \<open>json.dumps(..., sort_keys=True)\<close>, which is ASCII, \<open>rj_loads\<close> is
  \<open>json.loads\<close> with \<open>None\<close> for \<open>JSONDecodeError\<close>, and \<open>rj_sha\<close> the hexadecimal SHA-256 of a text.
\<close>

record json_env =
  rj_dumps :: "pyval \<Rightarrow> string"
  rj_loads :: "string \<Rightarrow> pyval option"
  rj_sha :: "string \<Rightarrow> string"

text \<open>What the calls of one append meet: is the file locked, the results of \<open>os.write\<close>, does \<open>fsync\<close> succeed.\<close>

record append_call =
  ac_locked :: bool
  ac_writes :: "int list"
  ac_fsync :: bool

text \<open>The file, if it exists.\<close>

type_synonym registry_file = "string option"

section \<open>Appending\<close>

definition CHECKSUM_KEY :: string where "CHECKSUM_KEY = ''_checksum''"

definition entry_checksum :: "json_env \<Rightarrow> dict \<Rightarrow> string" where
  "entry_checksum J entry = rj_sha J (rj_dumps J (VDict entry))"

text \<open>The keys of an entry are lower-case words, so the checksum comes first in key order.\<close>

definition checksummed :: "json_env \<Rightarrow> dict \<Rightarrow> dict" where
  "checksummed J entry = (CHECKSUM_KEY, VStr (entry_checksum J entry)) # entry"

definition entry_line :: "json_env \<Rightarrow> dict \<Rightarrow> string" where
  "entry_line J entry = rj_dumps J (VDict (checksummed J entry)) @ [CHR 0x0A]"

text \<open>\<open>_write_full\<close> on a file opened with \<open>O_APPEND\<close>: the flag says whether all was written.\<close>

fun write_line :: "int list \<Rightarrow> string \<Rightarrow> string \<Rightarrow> bool \<times> string" where
  "write_line ws line content =
     (if line = [] then (True, content)
      else case ws of
             [] \<Rightarrow> (False, content)
           | w # ws' \<Rightarrow> if w \<le> 0 then (False, content) else write_line ws' (drop (nat w) line) (content @ take (nat w) line))"

declare write_line.simps [simp del]

definition storage_append :: "json_env \<Rightarrow> append_call \<Rightarrow> dict \<Rightarrow> (registry_file, exc, unit) prog" where
  "storage_append J call entry file =
     (let content = (case file of None \<Rightarrow> [] | Some s \<Rightarrow> s) in
      if ac_locked call then (Inl RegistryLockError, Some content)
      else case write_line (ac_writes call) (entry_line J entry) content of
             (written, content') \<Rightarrow>
               if written \<and> ac_fsync call then (Inr (), Some content') else (Inl OSError, Some content'))"

section \<open>Reading\<close>

text \<open>\<open>readlines\<close> in text mode, which ends a line at any line break, and \<open>strip\<close> of each line.\<close>

definition is_newline :: "char \<Rightarrow> bool" where
  "is_newline c \<longleftrightarrow> c = CHR 0x0A \<or> c = CHR 0x0D"

fun split_lines :: "string \<Rightarrow> string \<Rightarrow> string list" where
  "split_lines cur [] = [cur]"
| "split_lines cur (c # s) = (if is_newline c then cur # split_lines [] s else split_lines (cur @ [c]) s)"

definition py_strip :: "string \<Rightarrow> string" where
  "py_strip s = rev (dropWhile is_space (rev (dropWhile is_space s)))"

definition stripped_lines :: "string \<Rightarrow> string list" where
  "stripped_lines s = map py_strip (split_lines [] s)"

text \<open>The loop over the lines; \<open>ls\<close> are the lines after the current one.\<close>

definition is_last_content_line :: "string list \<Rightarrow> bool" where
  "is_last_content_line ls = list_all (\<lambda>l. l = []) ls"

fun read_lines :: "json_env \<Rightarrow> string list \<Rightarrow> exc + pyval list" where
  "read_lines J [] = Inr []"
| "read_lines J (l # ls) =
     (if l = [] then read_lines J ls
      else case rj_loads J l of
             None \<Rightarrow> if is_last_content_line ls then Inr [] else Inl MalformedRegistryLogError
           | Some (VDict d) \<Rightarrow>
               (case map_of d CHECKSUM_KEY of
                  None \<Rightarrow> bindE (read_lines J ls) (\<lambda>es. Inr (VDict d # es))
                | Some claimed \<Rightarrow>
                    let without_checksum = filter (\<lambda>(k, _). k \<noteq> CHECKSUM_KEY) d in
                    if claimed \<noteq> VStr (entry_checksum J without_checksum)
                    then (if is_last_content_line ls then Inr [] else Inl MalformedRegistryLogError)
                    else bindE (read_lines J ls) (\<lambda>es. Inr (VDict without_checksum # es)))
           | Some v \<Rightarrow> bindE (read_lines J ls) (\<lambda>es. Inr (v # es)))"

definition read_all :: "json_env \<Rightarrow> registry_file \<Rightarrow> exc + pyval list" where
  "read_all J file = (case file of None \<Rightarrow> Inr [] | Some s \<Rightarrow> read_lines J (stripped_lines s))"

section \<open>What is written whole is read back\<close>

text \<open>
  What the storage relies on for one entry: its line is not empty, has no line break and no space at its ends, and
  \<open>json.loads\<close> gives back what was dumped.
\<close>

definition json_ok :: "json_env \<Rightarrow> dict \<Rightarrow> bool" where
  "json_ok J d \<longleftrightarrow> (let l = rj_dumps J (VDict (checksummed J d)) in
     l \<noteq> [] \<and> \<not> is_space (hd l) \<and> \<not> is_space (last l) \<and> list_all (\<lambda>c. \<not> is_newline c) l \<and>
     rj_loads J l = Some (VDict (checksummed J d)) \<and> CHECKSUM_KEY \<notin> fst ` set d)"

definition log_text :: "json_env \<Rightarrow> dict list \<Rightarrow> string" where
  "log_text J es = concat (map (entry_line J) es)"

lemma write_line_prefix:
  "write_line ws l content = (ok, content') \<Longrightarrow> \<exists>n. content' = content @ take n l \<and> (ok \<longrightarrow> content' = content @ l)"
proof (induction ws arbitrary: l content)
  case Nil
  then show ?case by (auto simp: write_line.simps split: if_splits intro: exI [of _ 0])
next
  case (Cons w ws)
  show ?case
  proof (cases "l = [] \<or> w \<le> 0")
    case True
    with Cons.prems show ?thesis by (auto simp: write_line.simps split: if_splits intro: exI [of _ 0])
  next
    case False
    with Cons.prems have "write_line ws (drop (nat w) l) (content @ take (nat w) l) = (ok, content')"
      by (simp add: write_line.simps)
    from Cons.IH [OF this] obtain n where "content' = content @ take (nat w) l @ take n (drop (nat w) l)"
      "ok \<longrightarrow> content' = content @ l" by auto
    then show ?thesis by (metis take_add)
  qed
qed

lemma append_success:
  assumes "storage_append J call entry file = (Inr (), file')"
  shows "file' = Some ((case file of None \<Rightarrow> [] | Some s \<Rightarrow> s) @ entry_line J entry)"
  using assms write_line_prefix by (fastforce simp: storage_append_def Let_def split: prod.splits if_splits)

lemma split_lines_line:
  "list_all (\<lambda>c. \<not> is_newline c) l \<Longrightarrow> split_lines cur (l @ CHR 0x0A # s) = (cur @ l) # split_lines [] s"
  by (induction l arbitrary: cur) (simp_all add: is_newline_def)

lemma split_lines_none: "list_all (\<lambda>c. \<not> is_newline c) l \<Longrightarrow> split_lines cur l = [cur @ l]"
  by (induction l arbitrary: cur) simp_all

lemma dropWhile_none: "l \<noteq> [] \<Longrightarrow> \<not> P (hd l) \<Longrightarrow> dropWhile P l = l"
  by (cases l) simp_all

lemma strip_id: "l = [] \<or> \<not> is_space (hd l) \<and> \<not> is_space (last l) \<Longrightarrow> py_strip l = l"
  using dropWhile_none [of l is_space] dropWhile_none [of "rev l" is_space] by (cases "l = []") (simp_all add: py_strip_def hd_rev)

lemma strip_tail: "l \<noteq> [] \<Longrightarrow> \<not> is_space (last l) \<Longrightarrow> py_strip (t @ l) \<noteq> []"
  by (cases l rule: rev_cases) (auto simp: py_strip_def dropWhile_append)

lemma stripped_log:
  assumes "\<forall>d\<in>set es. json_ok J d"
  shows "stripped_lines (log_text J es @ t) = map (\<lambda>d. rj_dumps J (VDict (checksummed J d))) es @ stripped_lines t"
  using assms
proof (induction es)
  case (Cons d es)
  then have "list_all (\<lambda>c. \<not> is_newline c) (rj_dumps J (VDict (checksummed J d)))" by (simp add: json_ok_def Let_def)
  from split_lines_line [OF this, of "[]" "log_text J es @ t"] Cons show ?case
    by (simp add: stripped_lines_def log_text_def entry_line_def strip_id json_ok_def Let_def)
qed (simp add: log_text_def)

lemma read_line_ok:
  assumes "json_ok J d"
  shows "read_lines J (rj_dumps J (VDict (checksummed J d)) # ls) = bindE (read_lines J ls) (\<lambda>es. Inr (VDict d # es))"
proof -
  have "filter (\<lambda>(k, _). k \<noteq> CHECKSUM_KEY) d = d" using assms by (force simp: json_ok_def Let_def filter_id_conv)
  then show ?thesis using assms by (simp add: json_ok_def Let_def checksummed_def)
qed

lemma read_log:
  assumes "\<forall>d\<in>set es. json_ok J d"
  shows "read_lines J (stripped_lines (log_text J es @ t)) =
    bindE (read_lines J (stripped_lines t)) (\<lambda>rest. Inr (map VDict es @ rest))"
proof -
  have "read_lines J (map (\<lambda>d. rj_dumps J (VDict (checksummed J d))) es @ ls) =
      bindE (read_lines J ls) (\<lambda>rest. Inr (map VDict es @ rest))" for ls
    using assms
  proof (induction es)
    case Nil
    then show ?case by (cases "read_lines J ls") simp_all
  next
    case (Cons d es)
    then show ?case using read_line_ok [of J d] by (cases "read_lines J ls") simp_all
  qed
  then show ?thesis using stripped_log [OF assms] by simp
qed

definition file_log :: "json_env \<Rightarrow> dict list \<Rightarrow> registry_file \<Rightarrow> bool" where
  "file_log J es file \<longleftrightarrow> (case file of None \<Rightarrow> es = [] | Some s \<Rightarrow> s = log_text J es)"

lemma read_all_log: "file_log J es file \<Longrightarrow> \<forall>d\<in>set es. json_ok J d \<Longrightarrow> read_all J file = Inr (map VDict es)"
  using read_log [of es J "[]"]
  by (auto simp: file_log_def read_all_def stripped_lines_def py_strip_def split: option.splits)

lemma append_log:
  "storage_append J call entry file = (Inr (), file') \<Longrightarrow> file_log J es file \<Longrightarrow> file_log J (es @ [entry]) file'"
  by (drule append_success) (auto simp: file_log_def log_text_def split: option.splits)

section \<open>A torn line\<close>

text \<open>
  A crash during an append leaves a part of the line behind, all of it but the line break at most.  The file is
  opened for appending, so the next entry continues that line.
\<close>

definition torn :: "json_env \<Rightarrow> dict \<Rightarrow> string \<Rightarrow> bool" where
  "torn J d t \<longleftrightarrow> (\<exists>n. 0 < n \<and> n < length (entry_line J d) \<and> t = take n (entry_line J d))"

lemma torn_prefix:
  assumes "torn J d t" "json_ok J d"
  shows "t \<noteq> []" "\<not> is_space (hd t)" "list_all (\<lambda>c. \<not> is_newline c) t"
proof -
  let ?l = "rj_dumps J (VDict (checksummed J d))"
  from assms(1) obtain n where n: "0 < n" "n \<le> length ?l" "t = take n ?l" by (auto simp: torn_def entry_line_def)
  with assms(2) show "t \<noteq> []" "\<not> is_space (hd t)" "list_all (\<lambda>c. \<not> is_newline c) t"
    by (auto simp: json_ok_def Let_def hd_take list_all_iff dest: in_set_takeD)
qed

text \<open>The lines of a file with a torn line in the middle.\<close>

lemma torn_lines:
  assumes "torn J d t" "json_ok J d" "json_ok J d'"
  shows "stripped_lines (t @ entry_line J d' @ s) = (t @ rj_dumps J (VDict (checksummed J d'))) # stripped_lines s"
proof -
  let ?l = "rj_dumps J (VDict (checksummed J d'))"
  note t = torn_prefix [OF assms(1,2)]
  have "list_all (\<lambda>c. \<not> is_newline c) (t @ ?l)" using t(3) assms(3) by (simp add: json_ok_def Let_def)
  from split_lines_line [OF this, of "[]" s] have "stripped_lines (t @ entry_line J d' @ s) = py_strip (t @ ?l) # stripped_lines s"
    by (simp add: stripped_lines_def entry_line_def)
  also have "py_strip (t @ ?l) = t @ ?l"
    using t(1,2) assms(3) by (intro strip_id) (simp add: json_ok_def Let_def)
  finally show ?thesis .
qed

text \<open>
  (C15) One torn write loses the next entry, and the entry after that loses the log.  A crash cuts an append short;
  reading discards the torn line, as it should.  But the next append, which is told that it has succeeded, writes its
  entry behind the torn line, and reading now discards both: the durable entry is gone.  With one more
  append, reading raises \<open>MalformedRegistryLogError\<close>, and the registry cannot be opened again.
\<close>

theorem torn_line_loses_log:
  assumes "\<forall>d\<in>{d0, d1, d2} \<union> set es. json_ok J d" "torn J d0 t" "rj_loads J (py_strip t) = None"
    and "rj_loads J (t @ rj_dumps J (VDict (checksummed J d1))) = None"
    and "storage_append J c1 d1 (Some (log_text J es @ t)) = (Inr (), f1)" "storage_append J c2 d2 f1 = (Inr (), f2)"
  shows "read_all J (Some (log_text J es @ t)) = Inr (map VDict es) \<and>
    read_all J f1 = Inr (map VDict es) \<and> read_all J f2 = Inl MalformedRegistryLogError"
proof -
  have ok: "\<forall>d\<in>set es. json_ok J d" "json_ok J d0" "json_ok J d1" "json_ok J d2" using assms(1) by simp_all
  note read = read_log [OF ok(1)]
  have empty: "stripped_lines [] = [[]]" by (simp add: stripped_lines_def py_strip_def)
  have f1: "f1 = Some (log_text J es @ t @ entry_line J d1 @ [])" using append_success [OF assms(5)] by simp
  have f2: "f2 = Some (log_text J es @ t @ entry_line J d1 @ entry_line J d2)" using append_success [OF assms(6)] f1 by simp
  have two: "stripped_lines (entry_line J d2) = [rj_dumps J (VDict (checksummed J d2)), []]"
    using stripped_log [of "[d2]" J "[]"] ok(4) empty by (simp add: log_text_def)
  have next_line: "t @ rj_dumps J (VDict (checksummed J d1)) \<noteq> []" "rj_dumps J (VDict (checksummed J d2)) \<noteq> []"
    using torn_prefix(1) [OF assms(2) ok(2)] ok(4) by (simp_all add: json_ok_def Let_def)
  have nonempty: "py_strip t \<noteq> []"
    using torn_prefix(1,2) [OF assms(2) ok(2)] by (cases t) (auto simp: py_strip_def dropWhile_eq_Nil_conv)
  have cut: "stripped_lines t = [py_strip t]"
    using torn_prefix(3) [OF assms(2) ok(2)]
    by (simp add: stripped_lines_def split_lines_none)
  have "read_lines J [py_strip t] = Inr []" using nonempty assms(3) by (simp add: is_last_content_line_def)
  moreover have "read_lines J [t @ rj_dumps J (VDict (checksummed J d1)), []] = Inr []"
    using next_line(1) assms(4) by (simp add: is_last_content_line_def)
  moreover have "read_lines J [t @ rj_dumps J (VDict (checksummed J d1)), rj_dumps J (VDict (checksummed J d2)), []] =
      Inl MalformedRegistryLogError"
    using next_line torn_prefix(1) [OF assms(2) ok(2)] assms(4) by (simp add: is_last_content_line_def)
  ultimately show ?thesis
    using read [of t] read [of "t @ entry_line J d1 @ []"] read [of "t @ entry_line J d1 @ entry_line J d2"]
      torn_lines [OF assms(2) ok(2,3), of "[]"] torn_lines [OF assms(2) ok(2,3), of "entry_line J d2"]
    by (simp add: f1 f2 read_all_def cut two empty del: read_lines.simps)
qed

end
