(* ===== verification/Registry.thy ===== *)
theory Registry
  imports Registry_Storage "HOL-Library.Char_ord" "HOL-Library.List_Lexorder" "HOL-Library.Product_Lexorder"
begin

text \<open>
  The experiment registry, \<^verbatim>\<open>alpha_engine/registry/{lifecycle,models,registry}.py\<close>: what is approved for trading and why.
  It keeps one record per experiment in memory, writes an entry for every change, and rebuilds itself from the
  entries.
\<close>

section \<open>Lifecycle\<close>

datatype lifecycle_state =
    X_PROPOSED | X_VALIDATING | X_EVIDENCE_SEALED | X_IN_REVIEW | X_APPROVED | X_REJECTED | X_DEFERRED
  | X_SHAKEDOWN | X_FULL_PRODUCTION | X_FROZEN | X_RETIRING | X_RETIRED | X_WITHDRAWN

fun lifecycle_value :: "lifecycle_state \<Rightarrow> string" where
  "lifecycle_value X_PROPOSED = ''proposed''"
| "lifecycle_value X_VALIDATING = ''validating''"
| "lifecycle_value X_EVIDENCE_SEALED = ''evidence_sealed''"
| "lifecycle_value X_IN_REVIEW = ''in_review''"
| "lifecycle_value X_APPROVED = ''approved''"
| "lifecycle_value X_REJECTED = ''rejected''"
| "lifecycle_value X_DEFERRED = ''deferred''"
| "lifecycle_value X_SHAKEDOWN = ''shakedown''"
| "lifecycle_value X_FULL_PRODUCTION = ''full_production''"
| "lifecycle_value X_FROZEN = ''frozen''"
| "lifecycle_value X_RETIRING = ''retiring''"
| "lifecycle_value X_RETIRED = ''retired''"
| "lifecycle_value X_WITHDRAWN = ''withdrawn''"

definition all_lifecycle_states :: "lifecycle_state list" where
  "all_lifecycle_states = [X_PROPOSED, X_VALIDATING, X_EVIDENCE_SEALED, X_IN_REVIEW, X_APPROVED, X_REJECTED, X_DEFERRED,
     X_SHAKEDOWN, X_FULL_PRODUCTION, X_FROZEN, X_RETIRING, X_RETIRED, X_WITHDRAWN]"

definition INITIAL_STATE :: lifecycle_state where "INITIAL_STATE = X_PROPOSED"

definition GOVERNANCE_DECISION_STATES :: "lifecycle_state set" where
  "GOVERNANCE_DECISION_STATES = {X_APPROVED, X_REJECTED, X_DEFERRED}"

definition LIVE_STATES :: "lifecycle_state set" where
  "LIVE_STATES = {X_SHAKEDOWN, X_FULL_PRODUCTION}"

definition TERMINAL_STATES :: "lifecycle_state set" where
  "TERMINAL_STATES = {X_RETIRED, X_REJECTED, X_DEFERRED, X_WITHDRAWN}"

fun ALLOWED_TRANSITIONS :: "lifecycle_state \<Rightarrow> lifecycle_state set" where
  "ALLOWED_TRANSITIONS X_PROPOSED = {X_VALIDATING, X_WITHDRAWN}"
| "ALLOWED_TRANSITIONS X_VALIDATING = {X_EVIDENCE_SEALED, X_WITHDRAWN}"
| "ALLOWED_TRANSITIONS X_EVIDENCE_SEALED = {X_IN_REVIEW}"
| "ALLOWED_TRANSITIONS X_IN_REVIEW = GOVERNANCE_DECISION_STATES"
| "ALLOWED_TRANSITIONS X_APPROVED = {X_SHAKEDOWN}"
| "ALLOWED_TRANSITIONS X_SHAKEDOWN = {X_FULL_PRODUCTION, X_FROZEN, X_RETIRING}"
| "ALLOWED_TRANSITIONS X_FULL_PRODUCTION = {X_FROZEN, X_RETIRING}"
| "ALLOWED_TRANSITIONS X_FROZEN = {X_RETIRING}"
| "ALLOWED_TRANSITIONS X_RETIRING = {X_RETIRED}"
| "ALLOWED_TRANSITIONS X_RETIRED = {}"
| "ALLOWED_TRANSITIONS X_REJECTED = {}"
| "ALLOWED_TRANSITIONS X_DEFERRED = {}"
| "ALLOWED_TRANSITIONS X_WITHDRAWN = {}"

definition is_legal_transition :: "lifecycle_state \<Rightarrow> lifecycle_state \<Rightarrow> bool" where
  "is_legal_transition from_state to_state \<longleftrightarrow> to_state \<in> ALLOWED_TRANSITIONS from_state"

section \<open>Records\<close>

text \<open>
  The record kept in memory, and the snapshot handed out.  Specification, evidence and decision are opaque JSON
  objects; copying one deeply is the identity here.
\<close>

record experiment_data =
  ex_fingerprint :: string
  ex_parent_id :: "string option"
  ex_specification :: dict
  ex_created_at_utc :: string
  ex_sealed :: bool
  ex_sealed_at_utc :: "string option"
  ex_evidence :: "dict option"
  ex_evidence_fingerprint :: "string option"
  ex_lifecycle_state :: lifecycle_state
  ex_governance_decision :: "dict option"

type_synonym experiments = "(string \<times> experiment_data) list"

record experiment_record =
  er_experiment_id :: string
  er_fingerprint :: string
  er_parent_id :: "string option"
  er_specification :: dict
  er_created_at_utc :: string
  er_sealed :: bool
  er_sealed_at_utc :: "string option"
  er_evidence_fingerprint :: "string option"
  er_lifecycle_state :: lifecycle_state

definition new_experiment :: "string \<Rightarrow> string option \<Rightarrow> dict \<Rightarrow> string \<Rightarrow> experiment_data" where
  "new_experiment fingerprint parent_id specification created_at_utc =
     \<lparr>ex_fingerprint = fingerprint, ex_parent_id = parent_id, ex_specification = specification,
      ex_created_at_utc = created_at_utc, ex_sealed = False, ex_sealed_at_utc = None, ex_evidence = None,
      ex_evidence_fingerprint = None, ex_lifecycle_state = INITIAL_STATE, ex_governance_decision = None\<rparr>"

definition experiment_snapshot :: "string \<Rightarrow> experiment_data \<Rightarrow> experiment_record" where
  "experiment_snapshot eid e =
     \<lparr>er_experiment_id = eid, er_fingerprint = ex_fingerprint e, er_parent_id = ex_parent_id e,
      er_specification = ex_specification e, er_created_at_utc = ex_created_at_utc e, er_sealed = ex_sealed e,
      er_sealed_at_utc = ex_sealed_at_utc e, er_evidence_fingerprint = ex_evidence_fingerprint e,
      er_lifecycle_state = ex_lifecycle_state e\<rparr>"

section \<open>Replay\<close>

definition ENTRY_CREATED :: string where "ENTRY_CREATED = ''experiment_created''"
definition ENTRY_SEALED :: string where "ENTRY_SEALED = ''experiment_sealed''"
definition ENTRY_EVIDENCE :: string where "ENTRY_EVIDENCE = ''evidence_attached''"
definition ENTRY_STATE :: string where "ENTRY_STATE = ''state_changed''"
definition ENTRY_DECISION :: string where "ENTRY_DECISION = ''governance_decision''"

definition malformed_if :: "bool \<Rightarrow> exc + unit" where
  "malformed_if b = (if b then Inl MalformedRegistryLogError else Inr ())"

definition known_experiment :: "experiments \<Rightarrow> string \<Rightarrow> exc + experiment_data" where
  "known_experiment rs eid = (case map_of rs eid of None \<Rightarrow> Inl MalformedRegistryLogError | Some e \<Rightarrow> Inr e)"

definition parse_lifecycle :: "string \<Rightarrow> exc + lifecycle_state" where
  "parse_lifecycle v = (case find (\<lambda>s. lifecycle_value s = v) all_lifecycle_states of
     None \<Rightarrow> Inl MalformedRegistryLogError | Some s \<Rightarrow> Inr s)"

definition opt_str :: "dict \<Rightarrow> string \<Rightarrow> exc + string option" where
  "opt_str d k = (case dget d k of VNone \<Rightarrow> Inr None | VStr s \<Rightarrow> Inr (Some s) | _ \<Rightarrow> Inl TypeError)"

definition apply_created :: "dict \<Rightarrow> experiments \<Rightarrow> exc + experiments" where
  "apply_created d rs =
     bindE (req_str d ''experiment_id'') (\<lambda>eid.
     bindE (malformed_if (eid \<in> fst ` set rs)) (\<lambda>_.
     bindE (opt_str d ''parent_id'') (\<lambda>parent_id.
     bindE (malformed_if (case parent_id of None \<Rightarrow> False | Some p \<Rightarrow> p \<notin> fst ` set rs)) (\<lambda>_.
     bindE (req_str d ''fingerprint'') (\<lambda>fingerprint.
     bindE (req_dict d ''specification'') (\<lambda>specification.
     bindE (req_str d ''created_at_utc'') (\<lambda>created_at_utc.
       Inr (rs @ [(eid, new_experiment fingerprint parent_id specification created_at_utc)]))))))))"

definition apply_sealed :: "dict \<Rightarrow> experiments \<Rightarrow> exc + experiments" where
  "apply_sealed d rs =
     bindE (req_str d ''experiment_id'') (\<lambda>eid.
     bindE (known_experiment rs eid) (\<lambda>e.
     bindE (malformed_if (ex_sealed e)) (\<lambda>_.
     bindE (req_str d ''sealed_at_utc'') (\<lambda>t.
       Inr (AList.update eid (e\<lparr>ex_sealed := True, ex_sealed_at_utc := Some t\<rparr>) rs)))))"

definition apply_evidence :: "dict \<Rightarrow> experiments \<Rightarrow> exc + experiments" where
  "apply_evidence d rs =
     bindE (req_str d ''experiment_id'') (\<lambda>eid.
     bindE (known_experiment rs eid) (\<lambda>e.
     bindE (malformed_if (\<not> ex_sealed e)) (\<lambda>_.
     bindE (malformed_if (ex_evidence e \<noteq> None)) (\<lambda>_.
     bindE (req_dict d ''evidence'') (\<lambda>evidence.
     bindE (req_str d ''evidence_fingerprint'') (\<lambda>fp.
       Inr (AList.update eid (e\<lparr>ex_evidence := Some evidence, ex_evidence_fingerprint := Some fp\<rparr>) rs)))))))"

definition apply_state :: "dict \<Rightarrow> experiments \<Rightarrow> exc + experiments" where
  "apply_state d rs =
     bindE (req_str d ''experiment_id'') (\<lambda>eid.
     bindE (known_experiment rs eid) (\<lambda>e.
     bindE (bindE (req_str d ''from_state'') parse_lifecycle) (\<lambda>from_state.
     bindE (bindE (req_str d ''to_state'') parse_lifecycle) (\<lambda>to_state.
     bindE (malformed_if (ex_lifecycle_state e \<noteq> from_state)) (\<lambda>_.
     bindE (malformed_if (\<not> is_legal_transition from_state to_state)) (\<lambda>_.
     bindE (malformed_if (to_state \<in> GOVERNANCE_DECISION_STATES \<and> ex_governance_decision e = None)) (\<lambda>_.
       Inr (AList.update eid (e\<lparr>ex_lifecycle_state := to_state\<rparr>) rs))))))))"

definition apply_decision :: "dict \<Rightarrow> experiments \<Rightarrow> exc + experiments" where
  "apply_decision d rs =
     bindE (req_str d ''experiment_id'') (\<lambda>eid.
     bindE (known_experiment rs eid) (\<lambda>e.
     bindE (malformed_if (ex_lifecycle_state e \<noteq> X_IN_REVIEW)) (\<lambda>_.
     bindE (malformed_if (ex_governance_decision e \<noteq> None)) (\<lambda>_.
     bindE (req_dict d ''decision'') (\<lambda>decision.
       Inr (AList.update eid (e\<lparr>ex_governance_decision := Some decision\<rparr>) rs))))))"

text \<open>An entry that is not an object has no \<open>get\<close>.\<close>

definition apply_entry :: "pyval \<Rightarrow> experiments \<Rightarrow> exc + experiments" where
  "apply_entry entry rs =
     (case entry of
        VDict d \<Rightarrow>
          if dget d ''type'' = VStr ENTRY_CREATED then apply_created d rs
          else if dget d ''type'' = VStr ENTRY_SEALED then apply_sealed d rs
          else if dget d ''type'' = VStr ENTRY_EVIDENCE then apply_evidence d rs
          else if dget d ''type'' = VStr ENTRY_STATE then apply_state d rs
          else if dget d ''type'' = VStr ENTRY_DECISION then apply_decision d rs
          else Inl MalformedRegistryLogError
      | _ \<Rightarrow> Inl AttributeError)"

fun registry_replay :: "pyval list \<Rightarrow> experiments \<Rightarrow> exc + experiments" where
  "registry_replay [] rs = Inr rs"
| "registry_replay (entry # es) rs =
     (case apply_entry entry rs of
        Inl x \<Rightarrow> Inl (if x = KeyError then MalformedRegistryLogError else x)
      | Inr rs' \<Rightarrow> registry_replay es rs')"

section \<open>The registry over its storage\<close>

text \<open>The two methods of \<open>RegistryStorage\<close>.\<close>

record 'f storage_api =
  st_append :: "dict \<Rightarrow> ('f, exc, unit) prog"
  st_read_all :: "'f \<Rightarrow> exc + pyval list"

record 'f registry =
  rg_storage :: 'f
  rg_records :: experiments

type_synonym ('f, 'a) reg_prog = "('f registry, exc, 'a) prog"

definition ExperimentRegistry :: "'f storage_api \<Rightarrow> 'f \<Rightarrow> exc + 'f registry" where
  "ExperimentRegistry st f =
     bindE (st_read_all st f) (\<lambda>entries.
     bindE (registry_replay entries []) (\<lambda>rs. Inr \<lparr>rg_storage = f, rg_records = rs\<rparr>))"

definition on_storage :: "('f, exc, 'a) prog \<Rightarrow> ('f, 'a) reg_prog" where
  "on_storage g w = (case g (rg_storage w) of (r, f) \<Rightarrow> (r, w\<lparr>rg_storage := f\<rparr>))"

text \<open>An assignment to the record of an experiment, and the snapshot that is returned.\<close>

definition put_experiment :: "string \<Rightarrow> experiment_data \<Rightarrow> ('f, experiment_record) reg_prog" where
  "put_experiment eid e w = (Inr (experiment_snapshot eid e), w\<lparr>rg_records := AList.update eid e (rg_records w)\<rparr>)"

text \<open>The entries, in key order.\<close>

definition created_entry :: "string \<Rightarrow> string \<Rightarrow> string option \<Rightarrow> dict \<Rightarrow> string \<Rightarrow> dict" where
  "created_entry eid fingerprint parent_id specification now =
     [(''created_at_utc'', VStr now), (''experiment_id'', VStr eid), (''fingerprint'', VStr fingerprint),
      (''parent_id'', case parent_id of None \<Rightarrow> VNone | Some p \<Rightarrow> VStr p), (''specification'', VDict specification),
      (''type'', VStr ENTRY_CREATED)]"

definition sealed_entry :: "string \<Rightarrow> string \<Rightarrow> dict" where
  "sealed_entry eid now = [(''experiment_id'', VStr eid), (''sealed_at_utc'', VStr now), (''type'', VStr ENTRY_SEALED)]"

definition evidence_entry :: "string \<Rightarrow> dict \<Rightarrow> string \<Rightarrow> dict" where
  "evidence_entry eid evidence fp =
     [(''evidence'', VDict evidence), (''evidence_fingerprint'', VStr fp), (''experiment_id'', VStr eid),
      (''type'', VStr ENTRY_EVIDENCE)]"

definition state_entry :: "string \<Rightarrow> lifecycle_state \<Rightarrow> lifecycle_state \<Rightarrow> string \<Rightarrow> dict" where
  "state_entry eid from_state to_state now =
     [(''changed_at_utc'', VStr now), (''experiment_id'', VStr eid), (''from_state'', VStr (lifecycle_value from_state)),
      (''to_state'', VStr (lifecycle_value to_state)), (''type'', VStr ENTRY_STATE)]"

definition decision_entry :: "string \<Rightarrow> dict \<Rightarrow> dict" where
  "decision_entry eid decision =
     [(''decision'', VDict decision), (''experiment_id'', VStr eid), (''type'', VStr ENTRY_DECISION)]"

definition spec_fingerprint :: "json_env \<Rightarrow> dict \<Rightarrow> string" where
  "spec_fingerprint J specification = rj_sha J (rj_dumps J (VDict specification))"

definition create_experiment :: "json_env \<Rightarrow> 'f storage_api \<Rightarrow> string \<Rightarrow> dict \<Rightarrow> string option \<Rightarrow> string \<Rightarrow>
    ('f, experiment_record) reg_prog" where
  "create_experiment J st eid spec parent_id now w =
     (if py_strip_empty eid then (Inl ValueError, w)
      else if (case parent_id of None \<Rightarrow> False | Some p \<Rightarrow> py_strip_empty p) then (Inl ValueError, w)
      else if eid \<in> fst ` set (rg_records w) then (Inl DuplicateExperimentError, w)
      else if (case parent_id of None \<Rightarrow> False | Some p \<Rightarrow> p \<notin> fst ` set (rg_records w)) then (Inl ExperimentNotFoundError, w)
      else bindP (on_storage (st_append st (created_entry eid (spec_fingerprint J spec) parent_id spec now)))
             (\<lambda>_. put_experiment eid (new_experiment (spec_fingerprint J spec) parent_id spec now)) w)"

definition seal_experiment :: "'f storage_api \<Rightarrow> string \<Rightarrow> string \<Rightarrow> ('f, experiment_record) reg_prog" where
  "seal_experiment st eid now w =
     (if py_strip_empty eid then (Inl ValueError, w)
      else case map_of (rg_records w) eid of
        None \<Rightarrow> (Inl ExperimentNotFoundError, w)
      | Some e \<Rightarrow>
          if ex_sealed e then (Inl AlreadySealedError, w)
          else bindP (on_storage (st_append st (sealed_entry eid now)))
                 (\<lambda>_. put_experiment eid (e\<lparr>ex_sealed := True, ex_sealed_at_utc := Some now\<rparr>)) w)"

definition attach_evidence :: "'f storage_api \<Rightarrow> string \<Rightarrow> dict \<Rightarrow> string \<Rightarrow> ('f, experiment_record) reg_prog" where
  "attach_evidence st eid evidence fp w =
     (if py_strip_empty eid then (Inl ValueError, w)
      else if py_strip_empty fp then (Inl ValueError, w)
      else if evidence = [] then (Inl InvalidSpecificationError, w)
      else case map_of (rg_records w) eid of
        None \<Rightarrow> (Inl ExperimentNotFoundError, w)
      | Some e \<Rightarrow>
          if \<not> ex_sealed e then (Inl ExperimentNotSealedError, w)
          else if ex_evidence e \<noteq> None then (Inl EvidenceAlreadyAttachedError, w)
          else bindP (on_storage (st_append st (evidence_entry eid evidence fp)))
                 (\<lambda>_. put_experiment eid (e\<lparr>ex_evidence := Some evidence, ex_evidence_fingerprint := Some fp\<rparr>)) w)"

definition transition_locked :: "'f storage_api \<Rightarrow> string \<Rightarrow> experiment_data \<Rightarrow> lifecycle_state \<Rightarrow> string \<Rightarrow>
    ('f, experiment_record) reg_prog" where
  "transition_locked st eid e to_state now w =
     (if \<not> is_legal_transition (ex_lifecycle_state e) to_state then (Inl IllegalLifecycleTransitionError, w)
      else if to_state = X_EVIDENCE_SEALED \<and> ex_evidence e = None then (Inl LifecycleGuardError, w)
      else bindP (on_storage (st_append st (state_entry eid (ex_lifecycle_state e) to_state now)))
             (\<lambda>_. put_experiment eid (e\<lparr>ex_lifecycle_state := to_state\<rparr>)) w)"

definition transition_experiment :: "'f storage_api \<Rightarrow> string \<Rightarrow> lifecycle_state \<Rightarrow> string \<Rightarrow> ('f, experiment_record) reg_prog" where
  "transition_experiment st eid to_state now w =
     (case map_of (rg_records w) eid of
        None \<Rightarrow> (Inl ExperimentNotFoundError, w)
      | Some e \<Rightarrow>
          if to_state \<in> GOVERNANCE_DECISION_STATES then (Inl GovernanceRequiredError, w)
          else transition_locked st eid e to_state now w)"

definition apply_governance_decision :: "'f storage_api \<Rightarrow> string \<Rightarrow> dict \<Rightarrow> lifecycle_state \<Rightarrow> string \<Rightarrow>
    ('f, experiment_record) reg_prog" where
  "apply_governance_decision st eid decision to_state now w =
     (if to_state \<notin> GOVERNANCE_DECISION_STATES then (Inl ValueError, w)
      else if decision = [] then (Inl InvalidSpecificationError, w)
      else case map_of (rg_records w) eid of
        None \<Rightarrow> (Inl ExperimentNotFoundError, w)
      | Some e \<Rightarrow>
          if ex_lifecycle_state e \<noteq> X_IN_REVIEW then (Inl LifecycleGuardError, w)
          else if ex_governance_decision e \<noteq> None then (Inl LifecycleGuardError, w)
          else bindP (on_storage (st_append st (decision_entry eid decision)))
                 (\<lambda>_ w. let e = e\<lparr>ex_governance_decision := Some decision\<rparr> in
                    transition_locked st eid e to_state now (w\<lparr>rg_records := AList.update eid e (rg_records w)\<rparr>)) w)"

section \<open>Queries\<close>

definition sorted_ids :: "experiments \<Rightarrow> (experiment_data \<Rightarrow> bool) \<Rightarrow> string list" where
  "sorted_ids rs P = map fst (sort_key (\<lambda>(eid, e). (ex_created_at_utc e, eid)) (filter (\<lambda>(_, e). P e) rs))"

definition snapshots_of :: "experiments \<Rightarrow> string list \<Rightarrow> experiment_record list" where
  "snapshots_of rs ids = map (\<lambda>eid. experiment_snapshot eid (the (map_of rs eid))) ids"

definition registry_exists :: "experiments \<Rightarrow> string \<Rightarrow> bool" where
  "registry_exists rs eid \<longleftrightarrow> eid \<in> fst ` set rs"

definition get_experiment :: "experiments \<Rightarrow> string \<Rightarrow> exc + experiment_record" where
  "get_experiment rs eid = (case map_of rs eid of None \<Rightarrow> Inl ExperimentNotFoundError | Some e \<Rightarrow> Inr (experiment_snapshot eid e))"

definition get_evidence :: "experiments \<Rightarrow> string \<Rightarrow> exc + dict option" where
  "get_evidence rs eid = (case map_of rs eid of None \<Rightarrow> Inl ExperimentNotFoundError | Some e \<Rightarrow> Inr (ex_evidence e))"

definition get_governance_decision :: "experiments \<Rightarrow> string \<Rightarrow> exc + dict option" where
  "get_governance_decision rs eid =
     (case map_of rs eid of None \<Rightarrow> Inl ExperimentNotFoundError | Some e \<Rightarrow> Inr (ex_governance_decision e))"

definition list_experiments :: "experiments \<Rightarrow> bool option \<Rightarrow> lifecycle_state option \<Rightarrow> experiment_record list" where
  "list_experiments rs sealed st =
     snapshots_of rs (sorted_ids rs (\<lambda>e. (sealed = None \<or> sealed = Some (ex_sealed e)) \<and> (st = None \<or> st = Some (ex_lifecycle_state e))))"

definition get_roots :: "experiments \<Rightarrow> experiment_record list" where
  "get_roots rs = snapshots_of rs (sorted_ids rs (\<lambda>e. ex_parent_id e = None))"

definition get_children :: "experiments \<Rightarrow> string \<Rightarrow> exc + experiment_record list" where
  "get_children rs eid =
     (if eid \<notin> fst ` set rs then Inl ExperimentNotFoundError
      else Inr (snapshots_of rs (sorted_ids rs (\<lambda>e. ex_parent_id e = Some eid))))"

definition find_by_fingerprint :: "experiments \<Rightarrow> string \<Rightarrow> exc + experiment_record list" where
  "find_by_fingerprint rs fp =
     (if py_strip_empty fp then Inl ValueError else Inr (snapshots_of rs (sorted_ids rs (\<lambda>e. ex_fingerprint e = fp))))"

definition find_by_specification_field :: "experiments \<Rightarrow> string \<Rightarrow> pyval \<Rightarrow> exc + experiment_record list" where
  "find_by_specification_field rs key v =
     (if py_strip_empty key then Inl ValueError
      else Inr (snapshots_of rs (sorted_ids rs (\<lambda>e. map_of (ex_specification e) key = Some v))))"

text \<open>The walk to the root; \<open>visited\<close> grows by a registered id with every step.\<close>

function ancestor_chain :: "experiments \<Rightarrow> string option \<Rightarrow> string list \<Rightarrow> exc + string list" where
  "ancestor_chain rs current visited =
     (case current of
        None \<Rightarrow> Inr []
      | Some c \<Rightarrow>
          if c \<in> set visited then Inl MalformedRegistryLogError
          else (case map_of rs c of
                  None \<Rightarrow> Inl MalformedRegistryLogError
                | Some e \<Rightarrow>
                    (case ancestor_chain rs (ex_parent_id e) (c # visited) of
                       Inl x \<Rightarrow> Inl x
                     | Inr chain \<Rightarrow> Inr (c # chain))))"
  by pat_completeness auto

termination
proof (relation "measure (\<lambda>(rs, _, visited). card (fst ` set rs - set visited))")
  fix rs :: experiments and current :: "string option" and visited c e
  assume c: "c \<notin> set visited" "map_of rs c = Some e"
  then have "c \<in> fst ` set rs" by (force dest: map_of_SomeD)
  with c have "fst ` set rs - set (c # visited) \<subset> fst ` set rs - set visited" by auto
  then show "((rs, ex_parent_id e, c # visited), (rs, current, visited)) \<in> measure (\<lambda>(rs, _, visited). card (fst ` set rs - set visited))"
    by (simp add: psubset_card_mono)
qed simp

declare ancestor_chain.simps [simp del]

definition get_ancestors :: "experiments \<Rightarrow> string \<Rightarrow> exc + experiment_record list" where
  "get_ancestors rs eid =
     (case map_of rs eid of
        None \<Rightarrow> Inl ExperimentNotFoundError
      | Some e \<Rightarrow> bindE (ancestor_chain rs (ex_parent_id e) [eid]) (\<lambda>chain. Inr (snapshots_of rs (rev chain))))"

text \<open>The breadth-first walk down: the inner loop, and the loop over the frontier.\<close>

fun visit_children :: "string list \<Rightarrow> string list \<Rightarrow> exc + string list" where
  "visit_children [] visited = Inr visited"
| "visit_children (c # cs) visited = (if c \<in> set visited then Inl MalformedRegistryLogError else visit_children cs (c # visited))"

lemma visit_children_Inr:
  "visit_children cs visited = Inr v \<Longrightarrow> set v = set cs \<union> set visited \<and> distinct cs \<and> set cs \<inter> set visited = {}"
proof (induction cs arbitrary: visited)
  case (Cons c cs)
  from Cons.IH [of "c # visited"] Cons.prems show ?case by (auto split: if_splits)
qed simp

lemma sorted_ids_set: "set (sorted_ids rs P) = {eid. \<exists>e. (eid, e) \<in> set rs \<and> P e}"
  by (force simp: sorted_ids_def)

function descendant_walk :: "experiments \<Rightarrow> string list \<Rightarrow> string list \<Rightarrow> exc + string list" where
  "descendant_walk rs [] visited = Inr []"
| "descendant_walk rs (current # frontier) visited =
     (let children_ids = sorted_ids rs (\<lambda>e. ex_parent_id e = Some current) in
      case visit_children children_ids visited of
        Inl x \<Rightarrow> Inl x
      | Inr visited' \<Rightarrow>
          (case descendant_walk rs (frontier @ children_ids) visited' of
             Inl x \<Rightarrow> Inl x
           | Inr result \<Rightarrow> Inr (children_ids @ result)))"
  by pat_completeness auto

termination
proof (relation "measures [\<lambda>(rs, _, visited). card (fst ` set rs - set visited), \<lambda>(_, frontier, _). length frontier]")
  fix rs :: experiments and current frontier visited children_ids visited'
  assume ch: "children_ids = sorted_ids rs (\<lambda>e. ex_parent_id e = Some current)"
    and v: "visit_children children_ids visited = Inr visited'"
  note v = visit_children_Inr [OF v]
  show "((rs, frontier @ children_ids, visited'), (rs, current # frontier, visited))
    \<in> measures [\<lambda>(rs, _, visited). card (fst ` set rs - set visited), \<lambda>(_, frontier, _). length frontier]"
  proof (cases "children_ids = []")
    case True
    with v show ?thesis by simp
  next
    case False
    then obtain c where "c \<in> set children_ids" by (meson hd_in_set)
    moreover from this have "c \<in> fst ` set rs" by (force simp: ch sorted_ids_set)
    ultimately have "fst ` set rs - set visited' \<subset> fst ` set rs - set visited" using v by auto
    then show ?thesis by (simp add: psubset_card_mono)
  qed
qed simp

definition get_descendants :: "experiments \<Rightarrow> string \<Rightarrow> exc + experiment_record list" where
  "get_descendants rs eid =
     (if eid \<notin> fst ` set rs then Inl ExperimentNotFoundError
      else bindE (descendant_walk rs [eid] [eid]) (\<lambda>result. Inr (snapshots_of rs result)))"

end
