(* ===== verification/Registry_Runs.thy ===== *)
theory Registry_Runs
  imports Registry
begin

text \<open>
  The registry in step with its storage: what the storage promises, what a call writes, and what follows for the
  records of any run.
\<close>

section \<open>The storage contract\<close>

locale registry_storage =
  fixes st :: "'f storage_api"
    and holds :: "'f \<Rightarrow> dict list \<Rightarrow> bool"
    and fine :: "dict \<Rightarrow> bool"
  assumes append_holds: "st_append st d f = (Inr (), f') \<Longrightarrow> holds f es \<Longrightarrow> holds f' (es @ [d])"
    and append_fails: "st_append st d f = (Inl x, f') \<Longrightarrow> x = OSError \<or> x = RegistryLockError \<and> (holds f es \<longrightarrow> holds f' es)"
    and read_holds: "holds f es \<Longrightarrow> \<forall>d\<in>set es. fine d \<Longrightarrow> st_read_all st f = Inr (map VDict es)"

text \<open>A file and the outcomes of the calls to come.\<close>

record file_world =
  fw_file :: registry_file
  fw_calls :: "nat \<Rightarrow> append_call"
  fw_tick :: nat

definition file_storage :: "json_env \<Rightarrow> file_world storage_api" where
  "file_storage J =
     \<lparr>st_append = (\<lambda>d w. case storage_append J (fw_calls w (fw_tick w)) d (fw_file w) of
                           (r, file) \<Rightarrow> (r, w\<lparr>fw_file := file, fw_tick := fw_tick w + 1\<rparr>)),
      st_read_all = (\<lambda>w. read_all J (fw_file w))\<rparr>"

interpretation rf: registry_storage "file_storage J" "\<lambda>(w :: file_world) es. file_log J es (fw_file w)" "json_ok J" for J
proof unfold_locales
  fix d es and f f' :: file_world
  assume "st_append (file_storage J) d f = (Inr (), f')" "file_log J es (fw_file f)"
  then show "file_log J (es @ [d]) (fw_file f')" using append_log by (auto simp: file_storage_def split: prod.splits)
next
  fix d x es and f f' :: file_world
  assume "st_append (file_storage J) d f = (Inl x, f')"
  then show "x = OSError \<or> x = RegistryLockError \<and> (file_log J es (fw_file f) \<longrightarrow> file_log J es (fw_file f'))"
    by (auto simp: file_storage_def storage_append_def Let_def file_log_def log_text_def split: prod.splits if_splits option.splits)
next
  fix es and f :: file_world
  assume "file_log J es (fw_file f)" "\<forall>d\<in>set es. json_ok J d"
  then show "st_read_all (file_storage J) f = Inr (map VDict es)" by (simp add: file_storage_def read_all_log)
qed

section \<open>What a call writes\<close>

datatype reg_request =
    RG_Create string dict "string option" string
  | RG_Seal string string
  | RG_Evidence string dict string
  | RG_Transition string lifecycle_state string
  | RG_Decide string dict lifecycle_state string

fun reg_call :: "json_env \<Rightarrow> 'f storage_api \<Rightarrow> reg_request \<Rightarrow> ('f, experiment_record) reg_prog" where
  "reg_call J st (RG_Create eid spec parent now) = create_experiment J st eid spec parent now"
| "reg_call J st (RG_Seal eid now) = seal_experiment st eid now"
| "reg_call J st (RG_Evidence eid evidence fp) = attach_evidence st eid evidence fp"
| "reg_call J st (RG_Transition eid to_state now) = transition_experiment st eid to_state now"
| "reg_call J st (RG_Decide eid decision to_state now) = apply_governance_decision st eid decision to_state now"

text \<open>The entries a request may write.\<close>

fun request_entries :: "json_env \<Rightarrow> reg_request \<Rightarrow> dict set" where
  "request_entries J (RG_Create eid spec parent now) = {created_entry eid (spec_fingerprint J spec) parent spec now}"
| "request_entries J (RG_Seal eid now) = {sealed_entry eid now}"
| "request_entries J (RG_Evidence eid evidence fp) = {evidence_entry eid evidence fp}"
| "request_entries J (RG_Transition eid to_state now) = {d. \<exists>from_state. d = state_entry eid from_state to_state now}"
| "request_entries J (RG_Decide eid decision to_state now) =
     {decision_entry eid decision, state_entry eid X_IN_REVIEW to_state now}"

text \<open>The changes of the records, each with the entry that records it.\<close>

inductive record_change :: "dict \<Rightarrow> experiments \<Rightarrow> experiments \<Rightarrow> bool" where
  created: "eid \<notin> fst ` set rs \<Longrightarrow> (\<And>p. parent = Some p \<Longrightarrow> p \<in> fst ` set rs) \<Longrightarrow>
    record_change (created_entry eid fp parent spec now) rs (rs @ [(eid, new_experiment fp parent spec now)])"
| sealed: "map_of rs eid = Some e \<Longrightarrow> \<not> ex_sealed e \<Longrightarrow>
    record_change (sealed_entry eid now) rs (AList.update eid (e\<lparr>ex_sealed := True, ex_sealed_at_utc := Some now\<rparr>) rs)"
| evidence: "map_of rs eid = Some e \<Longrightarrow> ex_sealed e \<Longrightarrow> ex_evidence e = None \<Longrightarrow>
    record_change (evidence_entry eid ev fp) rs (AList.update eid (e\<lparr>ex_evidence := Some ev, ex_evidence_fingerprint := Some fp\<rparr>) rs)"
| moved: "map_of rs eid = Some e \<Longrightarrow> is_legal_transition (ex_lifecycle_state e) to_state \<Longrightarrow>
    (to_state = X_EVIDENCE_SEALED \<Longrightarrow> ex_evidence e \<noteq> None) \<Longrightarrow>
    (to_state \<in> GOVERNANCE_DECISION_STATES \<Longrightarrow> ex_governance_decision e \<noteq> None) \<Longrightarrow>
    record_change (state_entry eid (ex_lifecycle_state e) to_state now) rs (AList.update eid (e\<lparr>ex_lifecycle_state := to_state\<rparr>) rs)"
| decided: "map_of rs eid = Some e \<Longrightarrow> ex_lifecycle_state e = X_IN_REVIEW \<Longrightarrow> ex_governance_decision e = None \<Longrightarrow>
    record_change (decision_entry eid dec) rs (AList.update eid (e\<lparr>ex_governance_decision := Some dec\<rparr>) rs)"

inductive reg_write :: "'f storage_api \<Rightarrow> dict set \<Rightarrow> 'f registry \<Rightarrow> 'f registry \<Rightarrow> bool" for st D where
  "d \<in> D \<Longrightarrow> st_append st d (rg_storage w) = (Inr (), f) \<Longrightarrow> record_change d (rg_records w) rs \<Longrightarrow>
   reg_write st D w (w\<lparr>rg_storage := f, rg_records := rs\<rparr>)"

text \<open>A call makes some such changes; after them at most one append that fails, whose error it raises.\<close>

definition call_shape :: "'f storage_api \<Rightarrow> dict set \<Rightarrow> 'f registry \<Rightarrow> exc + 'a \<Rightarrow> 'f registry \<Rightarrow> bool" where
  "call_shape st D w r w' \<longleftrightarrow> (\<exists>w1. (reg_write st D)\<^sup>*\<^sup>* w w1 \<and>
     (w' = w1 \<or> (\<exists>d x f. st_append st d (rg_storage w1) = (Inl x, f) \<and> w' = w1\<lparr>rg_storage := f\<rparr> \<and> r = Inl x)))"

lemma shape_none: "call_shape st D w r w"
  unfolding call_shape_def by blast

lemma shape_append:
  assumes "bindP (on_storage (st_append st d)) g w = (r, w')"
    and "\<And>f. st_append st d (rg_storage w) = (Inr (), f) \<Longrightarrow> g () (w\<lparr>rg_storage := f\<rparr>) = (r, w') \<Longrightarrow> call_shape st D w r w'"
  shows "call_shape st D w r w'"
proof (cases "st_append st d (rg_storage w)")
  case (Pair q f)
  show ?thesis
  proof (cases q)
    case (Inl x)
    with assms(1) Pair have "w' = w\<lparr>rg_storage := f\<rparr>" "r = Inl x" by (simp_all add: bindP_def on_storage_def)
    with Pair Inl show ?thesis unfolding call_shape_def by blast
  next
    case (Inr u)
    with assms Pair show ?thesis by (simp add: bindP_def on_storage_def)
  qed
qed

lemma shape_write:
  assumes "reg_write st D w w1" "call_shape st D w1 r w'"
  shows "call_shape st D w r w'"
proof -
  from assms(2) obtain w2 where w2: "(reg_write st D)\<^sup>*\<^sup>* w1 w2" and
    w': "w' = w2 \<or> (\<exists>d x f. st_append st d (rg_storage w2) = (Inl x, f) \<and> w' = w2\<lparr>rg_storage := f\<rparr> \<and> r = Inl x)"
    unfolding call_shape_def by blast
  from assms(1) w2 have "(reg_write st D)\<^sup>*\<^sup>* w w2" by (rule converse_rtranclp_into_rtranclp)
  with w' show ?thesis unfolding call_shape_def by blast
qed

lemma shape_put:
  assumes "d \<in> D" "st_append st d (rg_storage w) = (Inr (), f)" "record_change d (rg_records w) (AList.update eid e (rg_records w))"
    and "put_experiment eid e (w\<lparr>rg_storage := f\<rparr>) = (r, w')"
  shows "call_shape st D w r w'"
proof -
  have "w' = w\<lparr>rg_storage := f, rg_records := AList.update eid e (rg_records w)\<rparr>" using assms(4) by (simp add: put_experiment_def)
  with reg_write.intros [OF assms(1-3)] show ?thesis by (intro shape_write [OF _ shape_none]) simp
qed

lemma update_new: "k \<notin> fst ` set al \<Longrightarrow> AList.update k v al = al @ [(k, v)]"
  by (induction al) auto

lemma transition_shape:
  assumes "state_entry eid (ex_lifecycle_state e) to_state now \<in> D" "transition_locked st eid e to_state now w = (r, w')" "map_of (rg_records w) eid = Some e"
    and "to_state \<in> GOVERNANCE_DECISION_STATES \<Longrightarrow> ex_governance_decision e \<noteq> None"
  shows "call_shape st D w r w'"
proof (cases "is_legal_transition (ex_lifecycle_state e) to_state \<and> (to_state = X_EVIDENCE_SEALED \<longrightarrow> ex_evidence e \<noteq> None)")
  case True
  then have bind: "bindP (on_storage (st_append st (state_entry eid (ex_lifecycle_state e) to_state now)))
      (\<lambda>_. put_experiment eid (e\<lparr>ex_lifecycle_state := to_state\<rparr>)) w = (r, w')"
    using assms(2) by (auto simp: transition_locked_def split: if_splits)
  show ?thesis
    by (rule shape_append [OF bind], rule shape_put) (use True assms(1,3,4) in \<open>auto intro: record_change.moved\<close>)
next
  case False
  with assms(2) have "w' = w" by (auto simp: transition_locked_def split: if_splits)
  then show ?thesis by (simp add: shape_none)
qed

lemma reg_call_shape:
  assumes "reg_call J st req w = (r, w')"
  shows "call_shape st (request_entries J req) w r w'"
proof (cases req)
  case (RG_Create eid spec parent now)
  note run = assms [unfolded RG_Create reg_call.simps create_experiment_def]
  show ?thesis
  proof (cases "py_strip_empty eid \<or> (case parent of None \<Rightarrow> False | Some p \<Rightarrow> py_strip_empty p) \<or> eid \<in> fst ` set (rg_records w) \<or>
      (case parent of None \<Rightarrow> False | Some p \<Rightarrow> p \<notin> fst ` set (rg_records w))")
    case True
    with run have "w' = w" by (auto split: if_splits)
    then show ?thesis by (simp add: shape_none)
  next
    case False
    with run have bind: "bindP (on_storage (st_append st (created_entry eid (spec_fingerprint J spec) parent spec now)))
        (\<lambda>_. put_experiment eid (new_experiment (spec_fingerprint J spec) parent spec now)) w = (r, w')" by simp
    show ?thesis
      by (rule shape_append [OF bind], rule shape_put)
        (use False in \<open>auto simp: RG_Create update_new intro!: record_change.created split: option.splits\<close>)
  qed
next
  case (RG_Seal eid now)
  note run = assms [unfolded RG_Seal reg_call.simps seal_experiment_def]
  show ?thesis
  proof (cases "\<exists>e. \<not> py_strip_empty eid \<and> map_of (rg_records w) eid = Some e \<and> \<not> ex_sealed e")
    case True
    then obtain e where e: "map_of (rg_records w) eid = Some e" "\<not> ex_sealed e" "\<not> py_strip_empty eid" by blast
    with run have bind: "bindP (on_storage (st_append st (sealed_entry eid now)))
        (\<lambda>_. put_experiment eid (e\<lparr>ex_sealed := True, ex_sealed_at_utc := Some now\<rparr>)) w = (r, w')" by simp
    show ?thesis by (rule shape_append [OF bind], rule shape_put) (use e in \<open>auto simp: RG_Seal intro: record_change.sealed\<close>)
  next
    case False
    with run have "w' = w" by (auto split: if_splits option.splits)
    then show ?thesis by (simp add: shape_none)
  qed
next
  case (RG_Evidence eid evidence fp)
  note run = assms [unfolded RG_Evidence reg_call.simps attach_evidence_def]
  show ?thesis
  proof (cases "\<exists>e. \<not> py_strip_empty eid \<and> \<not> py_strip_empty fp \<and> evidence \<noteq> [] \<and> map_of (rg_records w) eid = Some e \<and>
      ex_sealed e \<and> ex_evidence e = None")
    case True
    then obtain e where e: "map_of (rg_records w) eid = Some e" "ex_sealed e" "ex_evidence e = None"
      "\<not> py_strip_empty eid" "\<not> py_strip_empty fp" "evidence \<noteq> []" by blast
    with run have bind: "bindP (on_storage (st_append st (evidence_entry eid evidence fp)))
        (\<lambda>_. put_experiment eid (e\<lparr>ex_evidence := Some evidence, ex_evidence_fingerprint := Some fp\<rparr>)) w = (r, w')" by simp
    show ?thesis by (rule shape_append [OF bind], rule shape_put) (use e in \<open>auto simp: RG_Evidence intro: record_change.evidence\<close>)
  next
    case False
    with run have "w' = w" by (auto split: if_splits option.splits)
    then show ?thesis by (simp add: shape_none)
  qed
next
  case (RG_Transition eid to_state now)
  note run = assms [unfolded RG_Transition reg_call.simps transition_experiment_def]
  show ?thesis
  proof (cases "\<exists>e. map_of (rg_records w) eid = Some e \<and> to_state \<notin> GOVERNANCE_DECISION_STATES")
    case True
    then obtain e where e: "map_of (rg_records w) eid = Some e" "to_state \<notin> GOVERNANCE_DECISION_STATES" by blast
    with run have "transition_locked st eid e to_state now w = (r, w')" by simp
    then show ?thesis by (rule transition_shape [rotated]) (use e in \<open>auto simp: RG_Transition\<close>)
  next
    case False
    with run have "w' = w" by (auto split: if_splits option.splits)
    then show ?thesis by (simp add: shape_none)
  qed
next
  case (RG_Decide eid decision to_state now)
  note run = assms [unfolded RG_Decide reg_call.simps apply_governance_decision_def]
  show ?thesis
  proof (cases "\<exists>e. to_state \<in> GOVERNANCE_DECISION_STATES \<and> decision \<noteq> [] \<and> map_of (rg_records w) eid = Some e \<and>
      ex_lifecycle_state e = X_IN_REVIEW \<and> ex_governance_decision e = None")
    case True
    then obtain e where e: "map_of (rg_records w) eid = Some e" "ex_lifecycle_state e = X_IN_REVIEW" "ex_governance_decision e = None"
      "to_state \<in> GOVERNANCE_DECISION_STATES" "decision \<noteq> []" by blast
    let ?e = "e\<lparr>ex_governance_decision := Some decision\<rparr>"
    from run e have bind: "bindP (on_storage (st_append st (decision_entry eid decision)))
        (\<lambda>_ w. transition_locked st eid ?e to_state now (w\<lparr>rg_records := AList.update eid ?e (rg_records w)\<rparr>)) w = (r, w')"
      by (simp add: Let_def)
    show ?thesis
    proof (rule shape_append [OF bind])
      fix f assume f: "st_append st (decision_entry eid decision) (rg_storage w) = (Inr (), f)"
        and go: "transition_locked st eid ?e to_state now (w\<lparr>rg_storage := f, rg_records := AList.update eid ?e (rg_records (w\<lparr>rg_storage := f\<rparr>))\<rparr>) = (r, w')"
      have "reg_write st (request_entries J req) w (w\<lparr>rg_storage := f, rg_records := AList.update eid ?e (rg_records w)\<rparr>)"
        by (rule reg_write.intros [OF _ f record_change.decided [OF e(1-3)]]) (simp add: RG_Decide)
      moreover have "transition_locked st eid ?e to_state now (w\<lparr>rg_storage := f, rg_records := AList.update eid ?e (rg_records w)\<rparr>) = (r, w')"
        using go by simp
      then have "call_shape st (request_entries J req) (w\<lparr>rg_storage := f, rg_records := AList.update eid ?e (rg_records w)\<rparr>) r w'"
        by (rule transition_shape [rotated]) (simp_all add: update_conv' RG_Decide e(2))
      ultimately show "call_shape st (request_entries J req) w r w'" by (rule shape_write)
    qed
  next
    case False
    with run have "w' = w" by (auto split: if_splits option.splits)
    then show ?thesis by (simp add: shape_none)
  qed
qed

end
