(* ===== verification/Registry_Properties.thy ===== *)
theory Registry_Properties
  imports Registry_Runs
begin

text \<open>
  What the registry guarantees: reopening its file gives back its records, nothing becomes live without the evidence and
  the decision, a record only ever grows, and the lineage queries agree with each other.  And what it does not
  guarantee when a write fails half-way.
\<close>

section \<open>Runs\<close>

fun reg_trace :: "json_env \<Rightarrow> 'f storage_api \<Rightarrow> reg_request list \<Rightarrow> 'f registry \<Rightarrow> (exc + experiment_record) list \<times> 'f registry" where
  "reg_trace J st [] w = ([], w)"
| "reg_trace J st (q # qs) w =
     (case reg_call J st q w of (r, w') \<Rightarrow> case reg_trace J st qs w' of (rs, w'') \<Rightarrow> (r # rs, w''))"

definition change_step :: "experiments \<Rightarrow> experiments \<Rightarrow> bool" where
  "change_step rs rs' \<longleftrightarrow> (\<exists>d. record_change d rs rs')"

text \<open>What every write keeps, a run keeps, whatever its calls raise.\<close>

lemma shape_records:
  assumes "call_shape st D w r w'"
  shows "change_step\<^sup>*\<^sup>* (rg_records w) (rg_records w')"
proof -
  have writes: "(reg_write st D)\<^sup>*\<^sup>* w w1 \<Longrightarrow> change_step\<^sup>*\<^sup>* (rg_records w) (rg_records w1)" for w1
  proof (induction rule: rtranclp_induct)
    case (step w1 w2)
    from step.hyps(2) have "change_step (rg_records w1) (rg_records w2)" by cases (auto simp: change_step_def)
    with step.IH show ?case by (rule rtranclp.rtrancl_into_rtrancl)
  qed simp
  from assms obtain w1 where "(reg_write st D)\<^sup>*\<^sup>* w w1" "rg_records w' = rg_records w1" unfolding call_shape_def by auto
  with writes show ?thesis by simp
qed

lemma trace_records:
  assumes "reg_trace J st qs w = (rs, w')"
  shows "change_step\<^sup>*\<^sup>* (rg_records w) (rg_records w')"
  using assms
proof (induction qs arbitrary: w rs)
  case (Cons q qs)
  obtain r w1 where call: "reg_call J st q w = (r, w1)" by fastforce
  obtain rs2 w2 where rest: "reg_trace J st qs w1 = (rs2, w2)" by fastforce
  with Cons.prems call have "reg_trace J st qs w1 = (rs2, w')" by simp
  from shape_records [OF reg_call_shape [OF call]] Cons.IH [OF this] show ?case by simp
qed simp

lemma records_invariant:
  assumes "reg_trace J st qs w = (rs, w')" "P (rg_records w)"
    and "\<And>d xs ys. record_change d xs ys \<Longrightarrow> P xs \<Longrightarrow> P ys"
  shows "P (rg_records w')"
proof -
  have "change_step\<^sup>*\<^sup>* xs ys \<Longrightarrow> P xs \<Longrightarrow> P ys" for xs ys
    by (induction rule: rtranclp_induct) (auto simp: change_step_def intro: assms(3))
  with trace_records [OF assms(1)] assms(2) show ?thesis by blast
qed

section \<open>Reopening\<close>

lemma parse_lifecycle_value [simp]: "parse_lifecycle (lifecycle_value s) = Inr s"
  by (cases s) (simp_all add: parse_lifecycle_def all_lifecycle_states_def)

lemma opt_str_Cons:
  "opt_str ((k, v) # d) k' = (if k = k' then (case v of VNone \<Rightarrow> Inr None | VStr s \<Rightarrow> Inr (Some s) | _ \<Rightarrow> Inl TypeError) else opt_str d k')"
  by (simp add: opt_str_def dget_Cons)

lemmas entry_parse =
  apply_entry_def apply_created_def apply_sealed_def apply_evidence_def apply_state_def apply_decision_def
  created_entry_def sealed_entry_def evidence_entry_def state_entry_def decision_entry_def
  ENTRY_CREATED_def ENTRY_SEALED_def ENTRY_EVIDENCE_def ENTRY_STATE_def ENTRY_DECISION_def
  malformed_if_def known_experiment_def opt_str_Cons dget_Cons

lemma change_replayed:
  assumes "record_change d rs rs'"
  shows "apply_entry (VDict d) rs = Inr rs'"
  using assms
proof cases
  case (created eid parent fp spec now)
  then show ?thesis by (cases parent) (simp_all add: entry_parse)
qed (auto simp: entry_parse)

lemma replay_append:
  "registry_replay es rs = Inr rs' \<Longrightarrow> registry_replay (es @ es') rs = registry_replay es' rs'"
  by (induction es arbitrary: rs) (auto split: sum.splits)


text \<open>The file holds entries, all of a known set, that replay to the records.\<close>

definition synced :: "('f \<Rightarrow> dict list \<Rightarrow> bool) \<Rightarrow> dict set \<Rightarrow> 'f registry \<Rightarrow> bool" where
  "synced holds D w \<longleftrightarrow>
     (\<exists>es. holds (rg_storage w) es \<and> set es \<subseteq> D \<and> registry_replay (map VDict es) [] = Inr (rg_records w))"

context registry_storage begin

lemma write_synced:
  assumes "reg_write st D' w w'" "D' \<subseteq> D" "synced holds D w"
  shows "synced holds D w'"
  using assms(1)
proof cases
  case (1 d f rs)
  from assms(3) obtain es where es: "holds (rg_storage w) es" "set es \<subseteq> D" "registry_replay (map VDict es) [] = Inr (rg_records w)"
    unfolding synced_def by blast
  have "holds f (es @ [d])" using append_holds 1(3) es(1) by blast
  moreover have "registry_replay (map VDict (es @ [d])) [] = Inr rs"
    using replay_append [OF es(3), of "[VDict d]"] change_replayed [OF 1(4)] by simp
  ultimately show ?thesis using 1(1,2) es(2) assms(2) by (auto simp: synced_def intro!: exI [of _ "es @ [d]"])
qed

lemma call_synced:
  assumes "call_shape st D' w r w'" "D' \<subseteq> D" "synced holds D w" "r \<noteq> Inl OSError"
  shows "synced holds D w'"
proof -
  from assms(1) obtain w1 where w1: "(reg_write st D')\<^sup>*\<^sup>* w w1"
    and w': "w' = w1 \<or> (\<exists>d x f. st_append st d (rg_storage w1) = (Inl x, f) \<and> w' = w1\<lparr>rg_storage := f\<rparr> \<and> r = Inl x)"
    unfolding call_shape_def by blast
  from w1 have "synced holds D w1" by (induction rule: rtranclp_induct) (use assms(2,3) write_synced in blast)+
  with w' append_fails assms(4) show ?thesis by (fastforce simp: synced_def)
qed

lemma trace_synced:
  "reg_trace J st qs w = (rs, w') \<Longrightarrow> Inl OSError \<notin> set rs \<Longrightarrow> \<forall>q\<in>set qs. request_entries J q \<subseteq> D \<Longrightarrow>
    synced holds D w \<Longrightarrow> synced holds D w'"
proof (induction qs arbitrary: w rs)
  case (Cons q qs)
  obtain r w1 where call: "reg_call J st q w = (r, w1)" by fastforce
  obtain rs2 w2 where rest: "reg_trace J st qs w1 = (rs2, w2)" by fastforce
  with Cons.prems(1) call have run: "reg_trace J st qs w1 = (rs2, w')" "rs = r # rs2" by simp_all
  with Cons.prems have "synced holds D w1" by (intro call_synced [OF reg_call_shape [OF call], of D]) auto
  with Cons.IH [OF run(1)] Cons.prems(2,3) run(2) show ?case by simp
qed simp

lemma synced_reopen:
  assumes "synced holds D w" "\<forall>d\<in>D. fine d"
  shows "ExperimentRegistry st (rg_storage w) = Inr w"
proof -
  from assms obtain es where es: "holds (rg_storage w) es" "\<forall>d\<in>set es. fine d" "registry_replay (map VDict es) [] = Inr (rg_records w)"
    unfolding synced_def by blast
  from read_holds [OF es(1,2)] es(3) show ?thesis by (simp add: ExperimentRegistry_def)
qed

lemma trace_reopen:
  assumes "ExperimentRegistry st f = Inr w" "holds f []" "reg_trace J st qs w = (rs, w')" "Inl OSError \<notin> set rs"
    and "\<forall>q\<in>set qs. \<forall>d\<in>request_entries J q. fine d"
  shows "ExperimentRegistry st (rg_storage w') = Inr w'"
proof -
  from read_holds [OF assms(2)] assms(1) have "w = \<lparr>rg_storage = f, rg_records = []\<rparr>" by (simp add: ExperimentRegistry_def)
  with assms(2) have "synced holds (\<Union>q\<in>set qs. request_entries J q) w" by (auto simp: synced_def intro!: exI [of _ "[]"])
  with trace_synced [OF assms(3,4)] have "synced holds (\<Union>q\<in>set qs. request_entries J q) w'" by blast
  then show ?thesis using assms(5) by (intro synced_reopen) auto
qed

end

text \<open>
  (C13) The file is the registry.  Start with no file and make any calls, accepted, refused or met by a locked
  file; as long as no write fails in the operating system, opening the file again gives exactly the records in
  memory.  The entries must survive \<open>json\<close>, as \<open>json_ok\<close> states.
\<close>

theorem registry_recovery:
  assumes "fw_file f = None" "ExperimentRegistry (file_storage J) f = Inr w" "reg_trace J (file_storage J) qs w = (rs, w')"
    and "Inl OSError \<notin> set rs" "\<forall>q\<in>set qs. \<forall>d\<in>request_entries J q. json_ok J d"
  shows "ExperimentRegistry (file_storage J) (rg_storage w') = Inr w'"
  by (rule rf.trace_reopen [OF assms(2) _ assms(3-5)]) (simp add: assms(1) file_log_def)

section \<open>Governance\<close>

definition past_evidence :: "lifecycle_state \<Rightarrow> bool" where
  "past_evidence s \<longleftrightarrow> s \<notin> {X_PROPOSED, X_VALIDATING, X_WITHDRAWN}"

definition past_review :: "lifecycle_state \<Rightarrow> bool" where
  "past_review s \<longleftrightarrow> past_evidence s \<and> s \<notin> {X_EVIDENCE_SEALED, X_IN_REVIEW}"

definition governed :: "experiment_data \<Rightarrow> bool" where
  "governed e \<longleftrightarrow>
     (past_evidence (ex_lifecycle_state e) \<longrightarrow> ex_evidence e \<noteq> None) \<and>
     (past_review (ex_lifecycle_state e) \<longrightarrow> ex_governance_decision e \<noteq> None) \<and>
     (ex_evidence e \<noteq> None \<longrightarrow> ex_sealed e)"

lemma governed_move:
  assumes "is_legal_transition (ex_lifecycle_state e) s" "s = X_EVIDENCE_SEALED \<Longrightarrow> ex_evidence e \<noteq> None"
    and "s \<in> GOVERNANCE_DECISION_STATES \<Longrightarrow> ex_governance_decision e \<noteq> None" "governed e"
  shows "governed (e\<lparr>ex_lifecycle_state := s\<rparr>)"
  using assms
  by (cases "ex_lifecycle_state e")
    (auto simp: is_legal_transition_def governed_def past_evidence_def past_review_def GOVERNANCE_DECISION_STATES_def)

lemma governed_change:
  assumes "record_change d rs rs'" "\<forall>eid e. map_of rs eid = Some e \<longrightarrow> governed e"
  shows "\<forall>eid e. map_of rs' eid = Some e \<longrightarrow> governed e"
  using assms(1)
proof cases
  case (created eid parent fp spec now)
  have "governed (new_experiment fp parent spec now)"
    by (simp add: governed_def new_experiment_def INITIAL_STATE_def past_evidence_def past_review_def)
  with created assms(2) show ?thesis by (auto simp: map_add_Some_iff split: if_splits)
next
  case (moved eid e s now)
  with governed_move assms(2) show ?thesis by (auto simp: update_conv')
qed (use assms(2) in \<open>auto simp: update_conv' governed_def\<close>)

text \<open>
  (C11) No trading without evidence and a decision.  In every state that any calls on an empty registry lead to,
  whatever the storage does and whatever the calls raise, a live experiment is sealed, has its evidence, and
  has a governance decision on record.
\<close>

theorem registry_governed:
  assumes "reg_trace J st qs \<lparr>rg_storage = f, rg_records = []\<rparr> = (rs, w')" "map_of (rg_records w') eid = Some e"
    and "ex_lifecycle_state e \<in> LIVE_STATES"
  shows "ex_sealed e \<and> ex_evidence e \<noteq> None \<and> ex_governance_decision e \<noteq> None"
proof -
  have "governed e"
    using records_invariant [OF assms(1), of "\<lambda>rs. \<forall>eid e. map_of rs eid = Some e \<longrightarrow> governed e"] governed_change assms(2) by auto
  with assms(3) show ?thesis by (auto simp: governed_def LIVE_STATES_def past_evidence_def past_review_def)
qed

section \<open>Records only grow\<close>

definition grown :: "experiment_data \<Rightarrow> experiment_data \<Rightarrow> bool" where
  "grown e e' \<longleftrightarrow>
     ex_fingerprint e' = ex_fingerprint e \<and> ex_parent_id e' = ex_parent_id e \<and> ex_specification e' = ex_specification e \<and>
     ex_created_at_utc e' = ex_created_at_utc e \<and>
     (ex_sealed e \<longrightarrow> ex_sealed e' \<and> ex_sealed_at_utc e' = ex_sealed_at_utc e) \<and>
     (ex_evidence e \<noteq> None \<longrightarrow> ex_evidence e' = ex_evidence e \<and> ex_evidence_fingerprint e' = ex_evidence_fingerprint e) \<and>
     (ex_governance_decision e \<noteq> None \<longrightarrow> ex_governance_decision e' = ex_governance_decision e) \<and>
     is_legal_transition\<^sup>*\<^sup>* (ex_lifecycle_state e) (ex_lifecycle_state e')"

lemma grown_refl [simp]: "grown e e"
  by (simp add: grown_def)

lemma grown_trans: "grown e e' \<Longrightarrow> grown e' e'' \<Longrightarrow> grown e e''"
  unfolding grown_def by (auto intro: rtranclp_trans)

lemma grown_change:
  assumes "record_change d rs rs'" "map_of rs eid = Some e"
  shows "\<exists>e'. map_of rs' eid = Some e' \<and> grown e e'"
  using assms(1)
proof cases
  case (created eid' parent fp spec now)
  then have "eid' \<noteq> eid" using assms(2) by (force dest: map_of_SomeD)
  with created assms(2) show ?thesis by (auto simp: map_add_Some_iff)
next
  case (moved eid' e' s now)
  then show ?thesis using assms(2) by (cases "eid' = eid") (auto simp: update_conv' grown_def)
qed (use assms(2) in \<open>auto simp: update_conv' grown_def\<close>)

text \<open>
  (C12) The record is append-only.  Whatever calls follow and however they fail, an experiment keeps its
  specification, its parent and its fingerprint; once sealed it stays sealed; evidence and decision, once
  there, never change; and its state has only moved along legal transitions.
\<close>

theorem registry_append_only:
  assumes "reg_trace J st qs w = (rs, w')" "map_of (rg_records w) eid = Some e"
  shows "\<exists>e'. map_of (rg_records w') eid = Some e' \<and> grown e e'"
proof (rule records_invariant [OF assms(1)])
  show "\<exists>e'. map_of (rg_records w) eid = Some e' \<and> grown e e'" using assms(2) by simp
next
  fix d xs ys
  assume "record_change d xs ys" "\<exists>e'. map_of xs eid = Some e' \<and> grown e e'"
  then show "\<exists>e'. map_of ys eid = Some e' \<and> grown e e'" by (meson grown_change grown_trans)
qed

section \<open>Half a decision\<close>

definition in_limbo :: "string \<Rightarrow> 'f registry \<Rightarrow> bool" where
  "in_limbo eid w \<longleftrightarrow> (\<exists>e. map_of (rg_records w) eid = Some e \<and> ex_lifecycle_state e = X_IN_REVIEW \<and> ex_governance_decision e \<noteq> None)"

lemma in_limbo_storage [simp]: "in_limbo eid (w\<lparr>rg_storage := f\<rparr>) = in_limbo eid w"
  by (simp add: in_limbo_def)

lemma in_limbo_put:
  "in_limbo eid w \<Longrightarrow> (eid' = eid \<Longrightarrow> ex_lifecycle_state e = X_IN_REVIEW \<and> ex_governance_decision e \<noteq> None) \<Longrightarrow>
    in_limbo eid (w\<lparr>rg_records := AList.update eid' e (rg_records w)\<rparr>)"
  by (auto simp: in_limbo_def update_conv')

lemma limbo_append:
  assumes "bindP (on_storage (st_append st d)) g w = (r, w')" "in_limbo eid w"
    and "\<And>w1 r w'. g () w1 = (r, w') \<Longrightarrow> in_limbo eid w1 \<Longrightarrow> in_limbo eid w'"
  shows "in_limbo eid w'"
proof (cases "st_append st d (rg_storage w)")
  case (Pair q f)
  then show ?thesis using assms by (cases q) (auto simp: bindP_def on_storage_def)
qed

lemma limbo_update:
  assumes "bindP (on_storage (st_append st d)) (\<lambda>_. put_experiment eid' e) w = (r, w')" "in_limbo eid w"
    and "eid' = eid \<Longrightarrow> ex_lifecycle_state e = X_IN_REVIEW \<and> ex_governance_decision e \<noteq> None"
  shows "in_limbo eid w'"
  by (rule limbo_append [OF assms(1,2)]) (use assms(3) in \<open>auto simp: put_experiment_def intro!: in_limbo_put\<close>)

lemma limbo_transition:
  assumes "transition_locked st eid' e s now w = (r, w')" "in_limbo eid w"
    and "eid' = eid \<Longrightarrow> ex_lifecycle_state e = X_IN_REVIEW \<and> s \<notin> GOVERNANCE_DECISION_STATES"
  shows "in_limbo eid w'"
proof (cases "is_legal_transition (ex_lifecycle_state e) s \<and> \<not> (s = X_EVIDENCE_SEALED \<and> ex_evidence e = None)")
  case True
  with assms(3) have "eid' \<noteq> eid" by (auto simp: is_legal_transition_def)
  from True assms(1) have "bindP (on_storage (st_append st (state_entry eid' (ex_lifecycle_state e) s now)))
      (\<lambda>_. put_experiment eid' (e\<lparr>ex_lifecycle_state := s\<rparr>)) w = (r, w')"
    by (auto simp: transition_locked_def split: if_splits)
  then show ?thesis by (rule limbo_update [OF _ assms(2)]) (use \<open>eid' \<noteq> eid\<close> in simp)
next
  case False
  with assms(1,2) show ?thesis by (auto simp: transition_locked_def split: if_splits)
qed

lemma limbo_call:
  assumes "reg_call J st q w = (r, w')" "in_limbo eid w"
  shows "in_limbo eid w'"
proof -
  from assms(2) obtain e where e: "map_of (rg_records w) eid = Some e" "ex_lifecycle_state e = X_IN_REVIEW" "ex_governance_decision e \<noteq> None"
    unfolding in_limbo_def by blast
  then have known: "eid \<in> fst ` set (rg_records w)" by (force dest: map_of_SomeD)
  show ?thesis
  proof (cases q)
    case (RG_Create eid' spec parent now)
    show ?thesis using assms [unfolded RG_Create reg_call.simps create_experiment_def] known
      by (auto split: if_splits elim!: limbo_update)
  next
    case (RG_Seal eid' now)
    show ?thesis using assms [unfolded RG_Seal reg_call.simps seal_experiment_def] e
      by (auto split: if_splits option.splits elim!: limbo_update)
  next
    case (RG_Evidence eid' evidence fp)
    show ?thesis using assms [unfolded RG_Evidence reg_call.simps attach_evidence_def] e
      by (auto split: if_splits option.splits elim!: limbo_update)
  next
    case (RG_Transition eid' s now)
    show ?thesis using assms [unfolded RG_Transition reg_call.simps transition_experiment_def] e
      by (auto split: if_splits option.splits elim!: limbo_transition)
  next
    case (RG_Decide eid' decision s now)
    note run = assms(1) [unfolded RG_Decide reg_call.simps apply_governance_decision_def Let_def]
    show ?thesis
    proof (cases "eid' = eid \<or> w' = w")
      case True
      with run e assms(2) show ?thesis by (auto split: if_splits)
    next
      case False
      with run obtain e' where "bindP (on_storage (st_append st (decision_entry eid' decision))) (\<lambda>_ w.
          transition_locked st eid' (e'\<lparr>ex_governance_decision := Some decision\<rparr>) s now
            (w\<lparr>rg_records := AList.update eid' (e'\<lparr>ex_governance_decision := Some decision\<rparr>) (rg_records w)\<rparr>)) w = (r, w')"
        by (auto split: if_splits option.splits)
      then show ?thesis
      proof (rule limbo_append [OF _ assms(2)])
        fix w1 r w2
        let ?e = "e'\<lparr>ex_governance_decision := Some decision\<rparr>"
        assume go: "transition_locked st eid' ?e s now (w1\<lparr>rg_records := AList.update eid' ?e (rg_records w1)\<rparr>) = (r, w2)"
          and "in_limbo eid w1"
        then have "in_limbo eid (w1\<lparr>rg_records := AList.update eid' ?e (rg_records w1)\<rparr>)"
          using False by (intro in_limbo_put) simp_all
        then show "in_limbo eid w2" using False by (intro limbo_transition [OF go]) simp_all
      qed
    qed
  qed
qed

lemma limbo_trace: "reg_trace J st qs w = (rs, w') \<Longrightarrow> in_limbo eid w \<Longrightarrow> in_limbo eid w'"
proof (induction qs arbitrary: w rs)
  case (Cons q qs)
  obtain r w1 where call: "reg_call J st q w = (r, w1)" by fastforce
  obtain rs2 w2 where rest: "reg_trace J st qs w1 = (rs2, w2)" by fastforce
  with Cons.prems(1) call have "reg_trace J st qs w1 = (rs2, w')" by simp
  with limbo_call [OF call Cons.prems(2)] Cons.IH show ?case by blast
qed simp

text \<open>
  (C17) A decision is not atomic.  It takes two appends; when the second one fails, the decision is on record and
  the experiment is still in review.  No sequence of calls gets it out of there: a decision state needs
  \<open>apply_governance_decision\<close>, which refuses an experiment that already has its decision.
\<close>

theorem decision_stuck:
  assumes "map_of (rg_records w) eid = Some e" "ex_lifecycle_state e = X_IN_REVIEW" "ex_governance_decision e = None"
    and "s \<in> GOVERNANCE_DECISION_STATES" "decision \<noteq> []"
    and "st_append st (decision_entry eid decision) (rg_storage w) = (Inr (), f)"
    and "st_append st (state_entry eid X_IN_REVIEW s now) f = (Inl x, f')"
    and "reg_trace J st (RG_Decide eid decision s now # qs) w = (rs, w')"
  shows "hd rs = Inl x \<and> map_option ex_lifecycle_state (map_of (rg_records w') eid) = Some X_IN_REVIEW"
proof -
  obtain r w1 where call: "reg_call J st (RG_Decide eid decision s now) w = (r, w1)" by fastforce
  have "is_legal_transition X_IN_REVIEW s" "s \<noteq> X_EVIDENCE_SEALED"
    using assms(4) by (auto simp: is_legal_transition_def GOVERNANCE_DECISION_STATES_def)
  with call assms(1-7) have r: "r = Inl x" and limbo: "in_limbo eid w1"
    by (auto simp: apply_governance_decision_def bindP_def on_storage_def transition_locked_def Let_def in_limbo_def update_conv')
  obtain rs2 w2 where rest: "reg_trace J st qs w1 = (rs2, w2)" by fastforce
  with call assms(8) have "rs = r # rs2" "w2 = w'" by simp_all
  with r limbo_trace [OF rest limbo] show ?thesis by (auto simp: in_limbo_def)
qed

section \<open>A failed sync\<close>

text \<open>
  (C16) A failed sync poisons the log.  The line of a seal is written whole, but \<open>fsync\<close> fails: the caller gets an
  error, and in memory the experiment is not sealed.  The retry succeeds, and the file now seals the experiment
  twice.  The registry runs on, but its file never opens again.
\<close>

theorem failed_sync_poisons_log:
  assumes "file_log J es (fw_file (rg_storage w))" "\<forall>d\<in>set es. json_ok J d" "registry_replay (map VDict es) [] = Inr (rg_records w)"
    and "json_ok J (sealed_entry eid now)" "json_ok J (sealed_entry eid now')"
    and "fw_calls (rg_storage w) (fw_tick (rg_storage w)) =
      \<lparr>ac_locked = False, ac_writes = [int (length (entry_line J (sealed_entry eid now)))], ac_fsync = False\<rparr>"
    and "map_of (rg_records w) eid = Some e" "\<not> ex_sealed e" "\<not> py_strip_empty eid"
    and "reg_trace J (file_storage J) [RG_Seal eid now, RG_Seal eid now'] w = ([r, Inr s], w')"
  shows "r = Inl OSError \<and> er_sealed s \<and> ExperimentRegistry (file_storage J) (rg_storage w') = Inl MalformedRegistryLogError"
proof -
  define d d' where d_def: "d = sealed_entry eid now" and d'_def: "d' = sealed_entry eid now'"
  let ?f = "rg_storage w"
  let ?f1 = "?f\<lparr>fw_file := Some ((case fw_file ?f of None \<Rightarrow> [] | Some c \<Rightarrow> c) @ entry_line J d), fw_tick := fw_tick ?f + 1\<rparr>"
  have "write_line [int (length l)] l c = (True, c @ l)" for l c by (simp add: write_line.simps)
  then have append1: "st_append (file_storage J) d ?f = (Inl OSError, ?f1)"
    using assms(6) by (simp add: d_def file_storage_def storage_append_def Let_def)
  have log1: "file_log J (es @ [d]) (fw_file ?f1)" using assms(1) by (auto simp: file_log_def log_text_def split: option.splits)
  have call1: "reg_call J (file_storage J) (RG_Seal eid now) w = (Inl OSError, w\<lparr>rg_storage := ?f1\<rparr>)"
    using assms(7-9) append1 by (simp add: seal_experiment_def bindP_def on_storage_def d_def)
  obtain q f2 where append2: "st_append (file_storage J) d' ?f1 = (q, f2)" by fastforce
  have call2: "reg_call J (file_storage J) (RG_Seal eid now') (w\<lparr>rg_storage := ?f1\<rparr>) =
      (case q of Inl x \<Rightarrow> (Inl x, w\<lparr>rg_storage := f2\<rparr>)
       | Inr _ \<Rightarrow> put_experiment eid (e\<lparr>ex_sealed := True, ex_sealed_at_utc := Some now'\<rparr>) (w\<lparr>rg_storage := f2\<rparr>))"
    using assms(7-9) append2 by (cases q) (simp_all add: seal_experiment_def bindP_def on_storage_def d'_def)
  from assms(10) call1 have r: "r = Inl OSError"
    and second: "reg_call J (file_storage J) (RG_Seal eid now') (w\<lparr>rg_storage := ?f1\<rparr>) = (Inr s, w')"
    by (auto split: prod.splits)
  with call2 have q: "q = Inr ()" and s: "er_sealed s" and f2: "rg_storage w' = f2"
    by (auto simp: put_experiment_def experiment_snapshot_def split: sum.splits)
  have log2: "file_log J (es @ [d, d']) (fw_file f2)" using rf.append_holds [OF append2 [unfolded q] log1] by simp
  have "apply_entry (VDict d) (rg_records w) = Inr (AList.update eid (e\<lparr>ex_sealed := True, ex_sealed_at_utc := Some now\<rparr>) (rg_records w))"
    unfolding d_def by (rule change_replayed) (use assms(7,8) in \<open>rule record_change.sealed\<close>)
  moreover have "apply_entry (VDict d') (AList.update eid (e\<lparr>ex_sealed := True, ex_sealed_at_utc := Some now\<rparr>) (rg_records w)) =
      Inl MalformedRegistryLogError"
    by (simp add: d'_def entry_parse update_conv')
  ultimately have "registry_replay (map VDict (es @ [d, d'])) [] = Inl MalformedRegistryLogError"
    using replay_append [OF assms(3), of "map VDict [d, d']"] by simp
  moreover have "st_read_all (file_storage J) f2 = Inr (map VDict (es @ [d, d']))"
    using assms(2,4,5) unfolding d_def d'_def by (intro rf.read_holds [OF log2 [unfolded d_def d'_def]]) auto
  ultimately show ?thesis using r s f2 by (simp add: ExperimentRegistry_def)
qed

end
