(* ===== verification/Registry_Lineage.thy ===== *)
theory Registry_Lineage
  imports Registry_Properties
begin

text \<open>
  The lineage queries: the walk up to the root and the breadth-first walk down terminate without an error on every
  registry that calls can build, and they are the two directions of one relation.
\<close>

section \<open>The parent relation\<close>

definition parent_of :: "experiments \<Rightarrow> string \<Rightarrow> string \<Rightarrow> bool" where
  "parent_of rs p c \<longleftrightarrow> (\<exists>e. map_of rs c = Some e \<and> ex_parent_id e = Some p)"

text \<open>Ids are unique, parents are registered, and there is no cycle.\<close>

definition ranked :: "(string \<Rightarrow> nat) \<Rightarrow> experiments \<Rightarrow> bool" where
  "ranked rank rs \<longleftrightarrow> distinct (map fst rs) \<and> (\<forall>p c. parent_of rs p c \<longrightarrow> p \<in> fst ` set rs \<and> rank p < rank c)"

lemma parent_registered: "parent_of rs p c \<Longrightarrow> c \<in> fst ` set rs"
  by (force simp: parent_of_def dest: map_of_SomeD)

lemma parent_of_update:
  assumes "map_of rs eid = Some e" "ex_parent_id e' = ex_parent_id e"
  shows "parent_of (AList.update eid e' rs) = parent_of rs"
  using assms by (auto simp: parent_of_def fun_eq_iff update_conv')

lemma ranked_update:
  assumes "ranked rank rs" "map_of rs eid = Some e" "ex_parent_id e' = ex_parent_id e"
  shows "ranked rank (AList.update eid e' rs)"
proof -
  have "eid \<in> fst ` set rs" using assms(2) by (force dest: map_of_SomeD)
  then show ?thesis using assms by (auto simp: ranked_def parent_of_update distinct_update dom_update)
qed

lemma ranked_created:
  assumes "ranked rank rs" "eid \<notin> fst ` set rs" "\<And>p. parent = Some p \<Longrightarrow> p \<in> fst ` set rs"
  shows "ranked (rank(eid := (case parent of None \<Rightarrow> 0 | Some p \<Rightarrow> Suc (rank p)))) (rs @ [(eid, new_experiment fp parent spec now)])"
proof -
  let ?ys = "rs @ [(eid, new_experiment fp parent spec now)]"
  have parent: "parent_of ?ys p c \<longleftrightarrow> (if c = eid then parent = Some p else parent_of rs p c)" for p c
    using map_of_eq_None_iff [of rs eid] assms(2) by (auto simp: parent_of_def map_add_Some_iff new_experiment_def)
  show ?thesis
    unfolding ranked_def
  proof (intro conjI allI impI)
    show "distinct (map fst ?ys)" using assms(1,2) by (auto simp: ranked_def)
  next
    fix p c assume "parent_of ?ys p c"
    with parent assms show "p \<in> fst ` set ?ys" by (auto simp: ranked_def split: if_splits)
  next
    fix p c assume pc: "parent_of ?ys p c"
    with parent assms have "p \<in> fst ` set rs" by (auto simp: ranked_def split: if_splits)
    with assms(2) have "p \<noteq> eid" by auto
    with pc parent assms(1) show "(rank(eid := (case parent of None \<Rightarrow> 0 | Some p \<Rightarrow> Suc (rank p)))) p
        < (rank(eid := (case parent of None \<Rightarrow> 0 | Some p \<Rightarrow> Suc (rank p)))) c"
      by (auto simp: ranked_def split: if_splits)
  qed
qed

lemma ranked_change:
  assumes "record_change d rs rs'" "\<exists>rank. ranked rank rs"
  shows "\<exists>rank. ranked rank rs'"
proof -
  from assms(2) obtain rank where rank: "ranked rank rs" by blast
  from assms(1) show ?thesis
  proof cases
    case (created eid parent fp spec now)
    then show ?thesis using ranked_created rank by blast
  qed (use rank in \<open>auto intro!: exI [of _ rank] ranked_update\<close>)
qed

lemma trace_ranked:
  assumes "reg_trace J st qs \<lparr>rg_storage = f, rg_records = []\<rparr> = (rs, w')"
  obtains rank where "ranked rank (rg_records w')"
  using records_invariant [OF assms, of "\<lambda>rs. \<exists>rank. ranked rank rs"] ranked_change that
  by (auto simp: ranked_def parent_of_def)

section \<open>The walk up\<close>

lemma parent_star_step: "(parent_of rs)\<^sup>*\<^sup>* p c \<longleftrightarrow> p = c \<or> (\<exists>q. parent_of rs q c \<and> (parent_of rs)\<^sup>*\<^sup>* p q)"
  by (metis rtranclp.rtrancl_into_rtrancl rtranclp.rtrancl_refl rtranclp.cases)

lemma ancestor_chain_star:
  assumes "ranked rank rs" "\<And>c. current = Some c \<Longrightarrow> c \<in> fst ` set rs \<and> (\<forall>v\<in>set visited. rank c < rank v)"
  shows "\<exists>chain. ancestor_chain rs current visited = Inr chain \<and>
    set chain = {p. \<exists>c. current = Some c \<and> (parent_of rs)\<^sup>*\<^sup>* p c} \<and> sorted_wrt (parent_of rs)\<^sup>+\<^sup>+ (rev chain)"
  using assms
proof (induction rs current visited rule: ancestor_chain.induct)
  case (1 rs current visited)
  show ?case
  proof (cases current)
    case None
    then show ?thesis by (simp add: ancestor_chain.simps)
  next
    case (Some c)
    with "1.prems"(2) have c: "c \<in> fst ` set rs" "c \<notin> set visited" "\<forall>v\<in>set visited. rank c < rank v" by auto
    then obtain e where e: "map_of rs c = Some e" by (metis map_of_eq_None_iff not_Some_eq)
    have parent: "parent_of rs q c \<longleftrightarrow> ex_parent_id e = Some q" for q by (simp add: parent_of_def e)
    have "\<exists>chain. ancestor_chain rs (ex_parent_id e) (c # visited) = Inr chain \<and>
        set chain = {p. \<exists>q. ex_parent_id e = Some q \<and> (parent_of rs)\<^sup>*\<^sup>* p q} \<and> sorted_wrt (parent_of rs)\<^sup>+\<^sup>+ (rev chain)"
    proof (rule "1.IH" [OF Some c(2) e "1.prems"(1)])
      fix q assume "ex_parent_id e = Some q"
      with parent "1.prems"(1) have "q \<in> fst ` set rs" "rank q < rank c" by (auto simp: ranked_def)
      with c(3) show "q \<in> fst ` set rs \<and> (\<forall>v\<in>set (c # visited). rank q < rank v)" by auto
    qed
    then obtain chain where chain: "ancestor_chain rs (ex_parent_id e) (c # visited) = Inr chain"
      "set chain = {p. \<exists>q. ex_parent_id e = Some q \<and> (parent_of rs)\<^sup>*\<^sup>* p q}" "sorted_wrt (parent_of rs)\<^sup>+\<^sup>+ (rev chain)" by blast
    have "ancestor_chain rs current visited = Inr (c # chain)"
      by (subst ancestor_chain.simps) (simp add: Some c(2) e chain(1))
    moreover have "set (c # chain) = {p. \<exists>c. current = Some c \<and> (parent_of rs)\<^sup>*\<^sup>* p c}"
      using Some chain(2) parent parent_star_step [of rs _ c] by auto
    moreover have "sorted_wrt (parent_of rs)\<^sup>+\<^sup>+ (rev (c # chain))"
      using chain(2,3) parent by (auto simp: sorted_wrt_append intro: rtranclp_into_tranclp1)
    ultimately show ?thesis by blast
  qed
qed

lemma snapshot_ids [simp]: "map er_experiment_id (snapshots_of rs ids) = ids"
  by (simp add: snapshots_of_def experiment_snapshot_def o_def)

lemma ancestors_plus:
  assumes "ranked rank rs" "map_of rs eid = Some e"
  obtains as where "get_ancestors rs eid = Inr as"
    "set (map er_experiment_id as) = {p. (parent_of rs)\<^sup>+\<^sup>+ p eid}" "sorted_wrt (parent_of rs)\<^sup>+\<^sup>+ (map er_experiment_id as)"
proof -
  have parent: "parent_of rs q eid \<longleftrightarrow> ex_parent_id e = Some q" for q by (simp add: parent_of_def assms(2))
  have "\<And>c. ex_parent_id e = Some c \<Longrightarrow> c \<in> fst ` set rs \<and> (\<forall>v\<in>set [eid]. rank c < rank v)"
    using assms(1) parent by (auto simp: ranked_def)
  from ancestor_chain_star [OF assms(1) this, of "ex_parent_id e"] obtain chain where chain:
    "ancestor_chain rs (ex_parent_id e) [eid] = Inr chain"
    "set chain = {p. \<exists>c. ex_parent_id e = Some c \<and> (parent_of rs)\<^sup>*\<^sup>* p c}" "sorted_wrt (parent_of rs)\<^sup>+\<^sup>+ (rev chain)" by auto
  have "(parent_of rs)\<^sup>+\<^sup>+ p eid \<longleftrightarrow> (\<exists>c. ex_parent_id e = Some c \<and> (parent_of rs)\<^sup>*\<^sup>* p c)" for p
    by (metis parent rtranclp_into_tranclp1 tranclpD tranclp.cases tranclp_into_rtranclp rtranclp.rtrancl_refl)
  with chain(2) have "set chain = {p. (parent_of rs)\<^sup>+\<^sup>+ p eid}" by simp
  with chain(1,3) assms(2) show ?thesis by (intro that [of "snapshots_of rs (rev chain)"]) (simp_all add: get_ancestors_def)
qed

section \<open>The walk down\<close>

text \<open>
  What holds before every step of the walk: a discovered experiment that is not in the queue has all its children
  discovered, and the parent of a discovered one has left the queue.
\<close>

definition walk_ok :: "experiments \<Rightarrow> string \<Rightarrow> string list \<Rightarrow> string list \<Rightarrow> bool" where
  "walk_ok rs origin frontier visited \<longleftrightarrow>
     distinct frontier \<and> set frontier \<subseteq> set visited \<and> origin \<in> set visited \<and>
     (\<forall>v\<in>set visited. (parent_of rs)\<^sup>*\<^sup>* origin v) \<and>
     (\<forall>v\<in>set visited - set frontier. \<forall>c. parent_of rs v c \<longrightarrow> c \<in> set visited) \<and>
     (\<forall>v\<in>set visited. v \<noteq> origin \<longrightarrow> (\<exists>p\<in>set visited - set frontier. parent_of rs p v))"

lemma parent_unique: "parent_of rs p c \<Longrightarrow> parent_of rs q c \<Longrightarrow> p = q"
  by (auto simp: parent_of_def)

lemma rank_star: "ranked rank rs \<Longrightarrow> (parent_of rs)\<^sup>*\<^sup>* p c \<Longrightarrow> rank p \<le> rank c"
  by (erule rtranclp_induct) (force simp: ranked_def)+

lemma children_set:
  assumes "distinct (map fst rs)"
  shows "set (sorted_ids rs (\<lambda>e. ex_parent_id e = Some p)) = {c. parent_of rs p c}"
    "distinct (sorted_ids rs P)"
proof -
  show "set (sorted_ids rs (\<lambda>e. ex_parent_id e = Some p)) = {c. parent_of rs p c}"
    using assms by (auto simp: sorted_ids_set parent_of_def map_of_eq_Some_iff)
  have "inj_on fst (set (filter (\<lambda>(_, e). P e) rs))" using assms by (auto simp: distinct_map intro: inj_on_subset)
  then show "distinct (sorted_ids rs P)" using assms by (simp add: sorted_ids_def distinct_map)
qed

lemma visit_fresh: "distinct cs \<Longrightarrow> set cs \<inter> set visited = {} \<Longrightarrow> visit_children cs visited = Inr (rev cs @ visited)"
  by (induction cs arbitrary: visited) auto

lemma descendant_walk_reach:
  assumes "ranked rank rs" "walk_ok rs origin frontier visited"
  shows "\<exists>result. descendant_walk rs frontier visited = Inr result \<and> distinct result \<and>
    set result = {c. (parent_of rs)\<^sup>*\<^sup>* origin c} - set visited"
  using assms
proof (induction rs frontier visited rule: descendant_walk.induct)
  case (1 rs visited)
  have "(parent_of rs)\<^sup>*\<^sup>* origin c \<Longrightarrow> c \<in> set visited" for c
    by (induction rule: rtranclp_induct) (use "1.prems"(2) in \<open>auto simp: walk_ok_def\<close>)
  then show ?case by auto
next
  case (2 rs current frontier visited)
  let ?cs = "sorted_ids rs (\<lambda>e. ex_parent_id e = Some current)"
  note ok = "2.prems"(2) [unfolded walk_ok_def]
  note reach = ok [THEN conjunct2, THEN conjunct2, THEN conjunct2, THEN conjunct1, rule_format]
  note closed = ok [THEN conjunct2, THEN conjunct2, THEN conjunct2, THEN conjunct2, THEN conjunct1]
  note found = ok [THEN conjunct2, THEN conjunct2, THEN conjunct2, THEN conjunct2, THEN conjunct2, rule_format]
  have queue: "current \<in> set visited" "current \<notin> set frontier" "distinct frontier" "set frontier \<subseteq> set visited" "origin \<in> set visited"
    using ok [THEN conjunct1] ok [THEN conjunct2, THEN conjunct1] ok [THEN conjunct2, THEN conjunct2, THEN conjunct1]
    by simp_all
  have distinct_ids: "distinct (map fst rs)" using "2.prems"(1) by (simp add: ranked_def)
  note cs = children_set(1) [OF distinct_ids, of current] children_set(2) [OF distinct_ids, of "\<lambda>e. ex_parent_id e = Some current"]
  have fresh: "c \<notin> set visited" if c: "parent_of rs current c" for c
  proof
    assume "c \<in> set visited"
    moreover have "rank current < rank c" using c "2.prems"(1) by (simp add: ranked_def)
    then have "c \<noteq> origin" using rank_star [OF "2.prems"(1) reach [OF queue(1)]] by auto
    ultimately obtain p where "p \<in> set visited - set (current # frontier)" "parent_of rs p c" using found by blast
    with parent_unique [OF c] show False by auto
  qed
  then have visit: "visit_children ?cs visited = Inr (rev ?cs @ visited)" using cs by (intro visit_fresh) auto
  have "walk_ok rs origin (frontier @ ?cs) (rev ?cs @ visited)"
    unfolding walk_ok_def
  proof (intro conjI ballI impI allI)
    show "distinct (frontier @ ?cs)" "set (frontier @ ?cs) \<subseteq> set (rev ?cs @ visited)" "origin \<in> set (rev ?cs @ visited)"
      using queue cs fresh by auto
  next
    fix v assume "v \<in> set (rev ?cs @ visited)"
    with reach queue(1) cs show "(parent_of rs)\<^sup>*\<^sup>* origin v" by (auto intro: rtranclp.rtrancl_into_rtrancl)
  next
    fix v c assume v: "v \<in> set (rev ?cs @ visited) - set (frontier @ ?cs)" "parent_of rs v c"
    show "c \<in> set (rev ?cs @ visited)"
    proof (cases "v = current")
      case True
      with v(2) cs(1) show ?thesis by simp
    next
      case False
      with v(1) have "v \<in> set visited - set (current # frontier)" by auto
      with closed v(2) have "c \<in> set visited" by blast
      then show ?thesis by simp
    qed
  next
    fix v assume v: "v \<in> set (rev ?cs @ visited)" "v \<noteq> origin"
    show "\<exists>p\<in>set (rev ?cs @ visited) - set (frontier @ ?cs). parent_of rs p v"
    proof (cases "v \<in> set ?cs")
      case True
      moreover have "current \<in> set (rev ?cs @ visited) - set (frontier @ ?cs)" using queue cs(1) fresh by auto
      ultimately show ?thesis using cs(1) by blast
    next
      case False
      with v have "v \<in> set visited" by simp
      with found v(2) obtain p where p: "p \<in> set visited - set (current # frontier)" "parent_of rs p v" by blast
      then have "p \<in> set (rev ?cs @ visited) - set (frontier @ ?cs)" using cs(1) fresh by auto
      with p(2) show ?thesis by blast
    qed
  qed
  from "2.IH" [OF refl visit "2.prems"(1) this] obtain result where result:
    "descendant_walk rs (frontier @ ?cs) (rev ?cs @ visited) = Inr result" "distinct result"
    "set result = {c. (parent_of rs)\<^sup>*\<^sup>* origin c} - set (rev ?cs @ visited)" by blast
  have "(parent_of rs)\<^sup>*\<^sup>* origin c" if "parent_of rs current c" for c using reach [OF queue(1)] that by (auto intro: rtranclp.rtrancl_into_rtrancl)
  then have "set (?cs @ result) = {c. (parent_of rs)\<^sup>*\<^sup>* origin c} - set visited" using result(3) cs fresh by auto
  with result cs visit show ?case by (auto simp: Let_def)
qed

lemma descendants_plus:
  assumes "ranked rank rs" "map_of rs eid = Some e"
  obtains ds where "get_descendants rs eid = Inr ds" "distinct (map er_experiment_id ds)"
    "set (map er_experiment_id ds) = {c. (parent_of rs)\<^sup>+\<^sup>+ eid c}"
proof -
  have "walk_ok rs eid [eid] [eid]" by (simp add: walk_ok_def)
  from descendant_walk_reach [OF assms(1) this] obtain result where result: "descendant_walk rs [eid] [eid] = Inr result"
    "distinct result" "set result = {c. (parent_of rs)\<^sup>*\<^sup>* eid c} - {eid}" by auto
  have "\<not> (parent_of rs)\<^sup>+\<^sup>+ eid eid"
    using rank_star [OF assms(1)] assms(1) by (fastforce simp: ranked_def dest: tranclpD)
  then have "{c. (parent_of rs)\<^sup>*\<^sup>* eid c} - {eid} = {c. (parent_of rs)\<^sup>+\<^sup>+ eid c}"
    by (auto dest: rtranclpD tranclp_into_rtranclp)
  with result assms(2) show ?thesis
    by (intro that [of "snapshots_of rs result"]) (force simp: get_descendants_def dest: map_of_SomeD)+
qed

text \<open>
  (C14) Lineage.  In every registry that calls can build, the ancestors and the descendants of an experiment are
  found without an error: the ancestors root first, the descendants once each, and \<open>p\<close> is an ancestor of \<open>c\<close>
  exactly if \<open>c\<close> is a descendant of \<open>p\<close>.
\<close>

theorem lineage_walks_agree:
  assumes "reg_trace J st qs \<lparr>rg_storage = f, rg_records = []\<rparr> = (res, w')" "rs = rg_records w'"
    and "p \<in> fst ` set rs" "c \<in> fst ` set rs"
  shows "\<exists>as ds. get_ancestors rs c = Inr as \<and> get_descendants rs p = Inr ds \<and>
    sorted_wrt (parent_of rs)\<^sup>+\<^sup>+ (map er_experiment_id as) \<and> distinct (map er_experiment_id ds) \<and>
    (p \<in> set (map er_experiment_id as) \<longleftrightarrow> c \<in> set (map er_experiment_id ds))"
proof -
  from trace_ranked [OF assms(1)] assms(2) obtain rank where rank: "ranked rank rs" by blast
  from assms(3,4) obtain ep ec where "map_of rs p = Some ep" "map_of rs c = Some ec" by (metis map_of_eq_None_iff not_Some_eq)
  with ancestors_plus [OF rank] descendants_plus [OF rank] show ?thesis by (metis mem_Collect_eq)
qed

end
