(* ===== verification/Registry_Demo.thy ===== *)
theory Registry_Demo
  imports Registry_Lineage
begin

text \<open>
  Registries on which the properties of \<^verbatim>\<open>Registry_Storage\<close>, \<^verbatim>\<open>Registry_Properties\<close> and
  \<^verbatim>\<open>Registry_Lineage\<close> are evaluated.
\<close>

section \<open>A small JSON library\<close>

text \<open>It knows three entries, each of which it writes as a line of three characters.\<close>

definition demo_created :: dict where "demo_created = created_entry ''e'' ''h'' None [] ''t''"
definition demo_sealed :: dict where "demo_sealed = sealed_entry ''e'' ''t''"
definition demo_resealed :: dict where "demo_resealed = sealed_entry ''e'' ''u''"

definition demo_lines :: "(pyval \<times> string) list" where
  "demo_lines = map (\<lambda>(d, l). (VDict ((CHECKSUM_KEY, VStr ''h'') # d), l))
     [(demo_created, ''{c}''), (demo_sealed, ''{s}''), (demo_resealed, ''{r}'')]"

definition demo_json :: json_env where
  "demo_json = \<lparr>rj_dumps = (\<lambda>v. case map_of demo_lines v of None \<Rightarrow> ''{}'' | Some l \<Rightarrow> l),
     rj_loads = map_of (map prod.swap demo_lines), rj_sha = (\<lambda>_. ''h'')\<rparr>"

lemmas demo_json_simps =
  demo_json_def demo_lines_def demo_created_def demo_sealed_def demo_resealed_def created_entry_def sealed_entry_def
  ENTRY_CREATED_def ENTRY_SEALED_def CHECKSUM_KEY_def entry_checksum_def checksummed_def

lemma demo_json_ok: "d \<in> {demo_created, demo_sealed, demo_resealed} \<Longrightarrow> json_ok demo_json d"
  by (auto simp: json_ok_def demo_json_simps is_space_def is_newline_def)

lemma demo_lines_written [simp]:
  "entry_line demo_json demo_created = ''{c}'' @ [CHR 0x0A]" "entry_line demo_json demo_sealed = ''{s}'' @ [CHR 0x0A]"
  "entry_line demo_json demo_resealed = ''{r}'' @ [CHR 0x0A]"
  by (simp_all add: entry_line_def demo_json_simps)

definition whole :: append_call where "whole = \<lparr>ac_locked = False, ac_writes = [2, 10], ac_fsync = True\<rparr>"

lemma write_two:
  assumes "0 < m" "m < int (length l)" "int (length l) \<le> n + m"
  shows "write_line [m, n] l c = (True, c @ l)"
proof -
  have "l \<noteq> []" "\<not> length l \<le> nat m" "length l \<le> nat n + nat m" using assms by auto
  then show ?thesis using assms
    by (simp add: write_line.simps [of "[m, n]"] write_line.simps [of "[n]"] write_line.simps [of _ "[]"])
qed

lemma demo_loads: "rj_loads demo_json (py_strip ''{'') = None"
  "rj_loads demo_json (''{'' @ rj_dumps demo_json (VDict (checksummed demo_json demo_sealed))) = None"
  by (simp_all add: demo_json_simps py_strip_def is_space_def)

section \<open>Writes that fail\<close>

theorem torn_line_loses_log_witness:
  "read_all demo_json (Some (log_text demo_json [demo_created] @ ''{'')) = Inr [VDict demo_created]"
  using torn_line_loses_log [of demo_sealed demo_sealed demo_resealed "[demo_created]" demo_json "''{''" whole
    "Some (log_text demo_json [demo_created] @ ''{'' @ ''{s}'' @ [CHR 0x0A])" whole
    "Some (log_text demo_json [demo_created] @ ''{'' @ ''{s}'' @ [CHR 0x0A] @ ''{r}'' @ [CHR 0x0A])"]
    demo_json_ok demo_loads
  by (simp add: torn_def storage_append_def whole_def write_two exI [of _ 1])

definition demo_new :: experiment_data where "demo_new = new_experiment ''h'' None [] ''t''"

definition demo_unsynced :: "file_world registry" where
  "demo_unsynced = \<lparr>rg_storage = \<lparr>fw_file = Some (''{c}'' @ [CHR 0x0A]),
     fw_calls = (\<lambda>n. \<lparr>ac_locked = False, ac_writes = [4], ac_fsync = 0 < n\<rparr>), fw_tick = 0\<rparr>, rg_records = [(''e'', demo_new)]\<rparr>"

lemma write_once: "0 < m \<Longrightarrow> int (length l) \<le> m \<Longrightarrow> write_line [m] l c = (True, c @ l)"
  by (simp add: write_line.simps)

definition demo_unsynced_run :: "(exc + experiment_record) list \<times> file_world registry" where
  "demo_unsynced_run = reg_trace demo_json (file_storage demo_json) [RG_Seal ''e'' ''t'', RG_Seal ''e'' ''u''] demo_unsynced"

lemma demo_unsynced_results:
  "fst demo_unsynced_run = [Inl OSError, Inr (experiment_snapshot ''e'' (demo_new\<lparr>ex_sealed := True, ex_sealed_at_utc := Some ''u''\<rparr>))]"
  using demo_lines_written(2,3)
  by (simp add: demo_unsynced_run_def demo_unsynced_def seal_experiment_def file_storage_def storage_append_def write_once bindP_def
      on_storage_def put_experiment_def demo_new_def new_experiment_def demo_sealed_def demo_resealed_def py_strip_empty_def is_space_def)

theorem failed_sync_poisons_log_witness:
  "ExperimentRegistry (file_storage demo_json) (rg_storage (snd demo_unsynced_run)) = Inl MalformedRegistryLogError"
proof -
  have "registry_replay (map VDict [demo_created]) [] = Inr (rg_records demo_unsynced)"
    by (simp add: demo_created_def entry_parse demo_unsynced_def demo_new_def)
  moreover have "file_log demo_json [demo_created] (fw_file (rg_storage demo_unsynced))"
    by (simp add: file_log_def log_text_def demo_unsynced_def)
  moreover have "reg_trace demo_json (file_storage demo_json) [RG_Seal ''e'' ''t'', RG_Seal ''e'' ''u''] demo_unsynced =
      ([Inl OSError, Inr (experiment_snapshot ''e'' (demo_new\<lparr>ex_sealed := True, ex_sealed_at_utc := Some ''u''\<rparr>))], snd demo_unsynced_run)"
    using demo_unsynced_results by (metis demo_unsynced_run_def prod.collapse)
  ultimately show ?thesis
    using failed_sync_poisons_log [of demo_json "[demo_created]" demo_unsynced "''e''" "''t''" "''u''" demo_new] demo_json_ok
      demo_lines_written(2)
    by (simp add: demo_unsynced_def demo_sealed_def demo_resealed_def demo_new_def new_experiment_def py_strip_empty_def is_space_def)
qed

section \<open>A run on a new file\<close>

definition demo_file :: file_world where
  "demo_file = \<lparr>fw_file = None, fw_calls = (\<lambda>n. whole\<lparr>ac_locked := n = 1\<rparr>), fw_tick = 0\<rparr>"

definition demo_requests :: "reg_request list" where
  "demo_requests = [RG_Create ''e'' [] None ''t'', RG_Seal ''e'' ''t'', RG_Seal ''e'' ''t'', RG_Seal ''e'' ''u'']"

definition demo_run :: "(exc + experiment_record) list \<times> file_world registry" where
  "demo_run = reg_trace demo_json (file_storage demo_json) demo_requests \<lparr>rg_storage = demo_file, rg_records = []\<rparr>"

lemma demo_run_results:
  "map (case_sum id (\<lambda>_. TypeError)) (fst demo_run) = [TypeError, RegistryLockError, TypeError, AlreadySealedError]"
  by code_simp

theorem registry_recovery_witness:
  "ExperimentRegistry (file_storage demo_json) (rg_storage (snd demo_run)) = Inr (snd demo_run)"
proof (rule registry_recovery)
  show "fw_file demo_file = None" by (simp add: demo_file_def)
  then show "ExperimentRegistry (file_storage demo_json) demo_file = Inr \<lparr>rg_storage = demo_file, rg_records = []\<rparr>"
    by (simp add: ExperimentRegistry_def file_storage_def read_all_def)
  show "reg_trace demo_json (file_storage demo_json) demo_requests \<lparr>rg_storage = demo_file, rg_records = []\<rparr> = (fst demo_run, snd demo_run)"
    by (simp add: demo_run_def)
  have "case_sum id (\<lambda>_. TypeError) (Inl OSError) \<notin> set (map (case_sum id (\<lambda>_. TypeError)) (fst demo_run))"
    unfolding demo_run_results by simp
  then show "Inl OSError \<notin> set (fst demo_run)" by (metis image_eqI list.set_map)
  have "spec_fingerprint demo_json [] = ''h''" by (simp add: spec_fingerprint_def demo_json_def)
  then show "\<forall>q\<in>set demo_requests. \<forall>d\<in>request_entries demo_json q. json_ok demo_json d"
    using demo_json_ok by (auto simp: demo_requests_def demo_created_def demo_sealed_def demo_resealed_def)
qed

section \<open>A way to the market\<close>

text \<open>A storage that counts its appends, of which the given one fails.\<close>

definition counting_storage :: "nat \<Rightarrow> nat storage_api" where
  "counting_storage bad = \<lparr>st_append = (\<lambda>_ n. (if n = bad then Inl OSError else Inr (), n + 1)), st_read_all = (\<lambda>_. Inr [])\<rparr>"

definition demo_path :: "reg_request list" where
  "demo_path =
     [RG_Create ''e'' [] None ''t'', RG_Seal ''e'' ''t'', RG_Evidence ''e'' [(''k'', VNone)] ''f'', RG_Transition ''e'' X_VALIDATING ''t'',
      RG_Transition ''e'' X_EVIDENCE_SEALED ''t'', RG_Transition ''e'' X_IN_REVIEW ''t'']"

definition demo_decision :: reg_request where
  "demo_decision = RG_Decide ''e'' [(''by'', VNone)] X_APPROVED ''t''"

definition demo_reviewed :: "nat \<Rightarrow> nat registry" where
  "demo_reviewed bad = snd (reg_trace demo_json (counting_storage bad) demo_path \<lparr>rg_storage = 0, rg_records = []\<rparr>)"

definition demo_live :: "nat registry" where
  "demo_live = snd (reg_trace demo_json (counting_storage 99) (demo_path @ [demo_decision, RG_Transition ''e'' X_SHAKEDOWN ''t''])
     \<lparr>rg_storage = 0, rg_records = []\<rparr>)"

lemma demo_live_state: "map (\<lambda>(k, e). (k, ex_lifecycle_state e)) (rg_records demo_live) = [(''e'', X_SHAKEDOWN)]"
  by code_simp

theorem registry_governed_witness:
  "\<exists>e. map_of (rg_records demo_live) ''e'' = Some e \<and> ex_lifecycle_state e = X_SHAKEDOWN \<and> ex_governance_decision e \<noteq> None"
proof -
  from demo_live_state obtain e where e: "rg_records demo_live = [(''e'', e)]" "ex_lifecycle_state e = X_SHAKEDOWN" by auto
  have "reg_trace demo_json (counting_storage 99) (demo_path @ [demo_decision, RG_Transition ''e'' X_SHAKEDOWN ''t''])
      \<lparr>rg_storage = 0, rg_records = []\<rparr> = (fst (reg_trace demo_json (counting_storage 99)
        (demo_path @ [demo_decision, RG_Transition ''e'' X_SHAKEDOWN ''t'']) \<lparr>rg_storage = 0, rg_records = []\<rparr>), demo_live)"
    by (simp add: demo_live_def)
  from registry_governed [OF this, of "''e''" e] e show ?thesis by (simp add: LIVE_STATES_def)
qed

theorem registry_append_only_witness:
  "\<exists>e'. map_of (rg_records (snd (reg_trace demo_json (counting_storage 99) [RG_Seal ''e'' ''t''] \<lparr>rg_storage = 0, rg_records = [(''e'', demo_new)]\<rparr>))) ''e'' =
     Some e' \<and> grown demo_new e'"
  by (rule registry_append_only [of demo_json "counting_storage 99" "[RG_Seal ''e'' ''t'']" "\<lparr>rg_storage = 0, rg_records = [(''e'', demo_new)]\<rparr>"
        "fst (reg_trace demo_json (counting_storage 99) [RG_Seal ''e'' ''t''] \<lparr>rg_storage = 0, rg_records = [(''e'', demo_new)]\<rparr>)"]) simp_all

lemma demo_reviewed_state:
  "rg_storage (demo_reviewed 7) = 6"
  "map (\<lambda>(k, e). (k, ex_lifecycle_state e, ex_governance_decision e)) (rg_records (demo_reviewed 7)) = [(''e'', X_IN_REVIEW, None)]"
  by code_simp+

theorem decision_stuck_witness:
  "map_option ex_lifecycle_state (map_of (rg_records (snd (reg_trace demo_json (counting_storage 7)
     (demo_decision # [demo_decision, RG_Transition ''e'' X_WITHDRAWN ''t'']) (demo_reviewed 7)))) ''e'') = Some X_IN_REVIEW"
proof -
  from demo_reviewed_state(2) obtain e where e: "rg_records (demo_reviewed 7) = [(''e'', e)]" "ex_lifecycle_state e = X_IN_REVIEW"
    "ex_governance_decision e = None" by auto
  let ?qs = "[demo_decision, RG_Transition ''e'' X_WITHDRAWN ''t'']"
  let ?run = "reg_trace demo_json (counting_storage 7) (RG_Decide ''e'' [(''by'', VNone)] X_APPROVED ''t'' # ?qs) (demo_reviewed 7)"
  have "?run = (fst ?run, snd ?run)" by simp
  from decision_stuck [OF _ e(2,3) _ _ _ _ this, of 7 OSError 8] show ?thesis
    by (simp add: e(1) demo_reviewed_state(1) counting_storage_def GOVERNANCE_DECISION_STATES_def demo_decision_def del: reg_trace.simps)
qed

definition demo_family :: "nat registry" where
  "demo_family = snd (reg_trace demo_json (counting_storage 99) [RG_Create ''p'' [] None ''t'', RG_Create ''c'' [] (Some ''p'') ''t'']
     \<lparr>rg_storage = 0, rg_records = []\<rparr>)"

lemma demo_family_ids: "map fst (rg_records demo_family) = [''p'', ''c'']"
  by code_simp

theorem lineage_walks_agree_witness:
  "\<exists>as ds. get_ancestors (rg_records demo_family) ''c'' = Inr as \<and> get_descendants (rg_records demo_family) ''p'' = Inr ds"
proof -
  have ids: "fst ` set (rg_records demo_family) = {''p'', ''c''}" using demo_family_ids by (metis empty_set list.set_map list.simps(15))
  have run: "reg_trace demo_json (counting_storage 99) [RG_Create ''p'' [] None ''t'', RG_Create ''c'' [] (Some ''p'') ''t'']
      \<lparr>rg_storage = 0, rg_records = []\<rparr> = (fst (reg_trace demo_json (counting_storage 99)
        [RG_Create ''p'' [] None ''t'', RG_Create ''c'' [] (Some ''p'') ''t''] \<lparr>rg_storage = 0, rg_records = []\<rparr>), demo_family)"
    by (simp add: demo_family_def)
  show ?thesis using lineage_walks_agree [OF run refl, of "''p''" "''c''"] ids by blast
qed

end
