(* ===== verification/Position_Demo.thy ===== *)
theory Position_Demo
  imports Position_Runs
begin

text \<open>
  A concrete run of the position manager: a position is created and filled, then leaves at its first
  target.  The properties are applied to it.
\<close>

definition demo_pm0 :: pm_world where
  "demo_pm0 = \<lparr>pw_store = demo_empty, pw_pm = pm_init ''pm''\<rparr>"

definition demo_pid :: string where "demo_pid = the_position_id ''pm'' 1"

definition demo_pm_fill :: "string \<Rightarrow> decimal \<Rightarrow> decimal \<Rightarrow> fill" where
  "demo_pm_fill fid px qty = \<lparr>fl_fill_id = fid, fl_client_order_id = ''c'', fl_exchange_order_id = ''x'',
     fl_symbol = ''BTC'', fl_side = BUY, fl_price = px, fl_quantity = qty, fl_fee = 0, fl_timestamp_utc = ''now''\<rparr>"

definition demo_pm1 :: pm_world where
  "demo_pm1 = pm_exec demo_env (PM_Create ''BTC'' BUY 2 90 10 110 120 None) demo_pm0"

definition demo_pm2 :: pm_world where
  "demo_pm2 = pm_exec demo_env (PM_Entry demo_pid (demo_pm_fill ''f1'' 100 2)) demo_pm1"

definition position_state_of :: "pm_world \<Rightarrow> string \<Rightarrow> position_state option" where
  "position_state_of w pid = map_option ps_lifecycle_state (map_of (pm_snapshots (pw_pm w)) pid)"

lemma demo_pm_start: "pm_run demo_env ''pm'' demo_pm0"
proof -
  have "replay 1 demo_empty = Inr []" "\<not> py_strip_empty ''pm''" "length ''pm'' \<le> MAX_PM_ID_LENGTH" by code_simp+
  then have "PositionManager demo_empty ''pm'' = Inr (pm_init ''pm'')" by (simp add: PositionManager_def prog_simps)
  then have "pm_start ''pm'' demo_pm0"
    using store_reach_inv [OF demo_reach(1)] by (simp add: pm_start_def demo_pm0_def demo_events)
  then show ?thesis by (auto simp: pm_run_def)
qed

lemma demo_pm_exec:
  "pm_run demo_env ''pm'' w \<Longrightarrow> pm_valid req \<Longrightarrow> pm_run demo_env ''pm'' (pm_exec demo_env req w)"
  using pm_step.call unfolding pm_run_def by (meson rtranclp.rtrancl_into_rtrancl)

lemma demo_pm_valid: "pm_valid (PM_Create ''BTC'' BUY 2 90 10 110 120 None)"
  "pm_valid (PM_Entry demo_pid (demo_pm_fill ''f1'' 100 2))"
  by code_simp+

lemma demo_pm_run: "pm_run demo_env ''pm'' demo_pm1" "pm_run demo_env ''pm'' demo_pm2"
proof -
  show 1: "pm_run demo_env ''pm'' demo_pm1" using demo_pm_exec [OF demo_pm_start demo_pm_valid(1)] by (simp add: demo_pm1_def)
  show "pm_run demo_env ''pm'' demo_pm2" using demo_pm_exec [OF 1 demo_pm_valid(2)] by (simp only: demo_pm2_def)
qed

lemma demo_pm_created: "position_state_of demo_pm1 demo_pid = Some P_NEW"
  by code_simp

definition demo_filled :: "pm_world \<Rightarrow> bool" where
  "demo_filled w \<longleftrightarrow> position_state_of w demo_pid = Some P_FULLY_FILLED \<and> ''f2'' \<notin> processed_of (pw_pm w) demo_pid \<and>
     list_ex (\<lambda>e. ev_fill e = ''f1'') (entries ''pm'' demo_pid (es_events (pw_store w)))"

lemma demo_pm_filled: "demo_filled demo_pm2"
  by code_simp

lemma demo_filledD: "position_state_of demo_pm2 demo_pid = Some P_FULLY_FILLED" "''f2'' \<notin> processed_of (pw_pm demo_pm2) demo_pid"
    "''f1'' \<in> ev_fill ` set (entries ''pm'' demo_pid (es_events (pw_store demo_pm2)))"
  using demo_pm_filled by (force simp: demo_filled_def list_ex_iff)+

lemma demo_position:
  assumes "position_state_of w pid = Some s"
  obtains sn where "map_of (pm_snapshots (pw_pm w)) pid = Some sn" "ps_lifecycle_state sn = s"
  using assms by (auto simp: position_state_of_def)

lemma pm_recovery_witness:
  "\<exists>m. PositionManager (pw_store demo_pm2) ''pm'' = Inr m \<and> pm_snapshots m = pm_snapshots (pw_pm demo_pm2)"
  using pm_recovery [OF demo_pm_run(2)] by blast

lemma position_lifecycle_witness:
  "\<exists>sn'. map_of (pm_snapshots (pw_pm demo_pm2)) demo_pid = Some sn' \<and> pm_edge\<^sup>*\<^sup>* P_NEW (ps_lifecycle_state sn')"
proof (rule demo_position [OF demo_pm_created])
  fix sn assume sn: "map_of (pm_snapshots (pw_pm demo_pm1)) demo_pid = Some sn" "ps_lifecycle_state sn = P_NEW"
  from pm_step.call [OF demo_pm_valid(2), of demo_env "''pm''" demo_pm1]
  have "(pm_step demo_env ''pm'')\<^sup>*\<^sup>* demo_pm1 demo_pm2" unfolding demo_pm2_def by (rule r_into_rtranclp)
  from position_lifecycle [OF demo_pm_run(1) this sn(1)] sn(2) show ?thesis by auto
qed

lemma position_books_witness:
  "\<exists>sn. map_of (pm_snapshots (pw_pm demo_pm2)) demo_pid = Some sn \<and> ps_lifecycle_state sn = P_FULLY_FILLED \<and>
     record_entry_fill demo_env demo_pid (demo_pm_fill ''f1'' 100 2) demo_pm2 = (Inr (Some sn), demo_pm2)"
proof (rule demo_position [OF demo_filledD(1)])
  fix sn assume sn: "map_of (pm_snapshots (pw_pm demo_pm2)) demo_pid = Some sn" "ps_lifecycle_state sn = P_FULLY_FILLED"
  have "fl_fill_id (demo_pm_fill ''f1'' 100 2) \<in> ev_fill ` set (entries ''pm'' demo_pid (es_events (pw_store demo_pm2)) @
      exits ''pm'' demo_pid (es_events (pw_store demo_pm2)))"
    using demo_filledD(3) unfolding demo_pm_fill_def by (simp add: image_Un)
  with position_books [OF demo_pm_run(2) sn(1) refl refl, THEN conjunct2, THEN conjunct2, THEN conjunct2, THEN conjunct2,
      THEN conjunct2, THEN conjunct2, THEN conjunct2, rule_format] sn show ?thesis by blast
qed

lemma demo_pm_exit: "pm_is_legal P_FULLY_FILLED PT_T1"
  by code_simp


end
