(* ===== verification/Mock_Adapter.thy ===== *)
theory Mock_Adapter
  imports Exchange_Adapter "HOL-Library.Char_ord" "HOL-Library.List_Lexorder" "HOL-Library.Code_Target_Numeral"
begin

text \<open>
  The in-memory adapter of \<^verbatim>\<open>exchange_adapter/mock_adapter.py\<close>, and the guarantees of the
  adapter interface for it, by interpretation of \<open>transmission_hooks\<close>.  Its dictionaries are
  insertion-ordered association lists where the code iterates over them.
\<close>

record mock = adapter +
  mk_signing_key_ref :: string
  mk_connected :: bool
  mk_orders :: "(string \<times> order) list"
  mk_positions :: "(string \<times> position) list"
  mk_balances :: "(string \<times> balance) list"
  mk_mark_prices :: "string \<rightharpoonup> mark_price"
  mk_funding_rates :: "string \<rightharpoonup> funding_rate"
  mk_fills :: "fill list"
  mk_next_order_seq :: nat
  mk_stale_snapshot :: bool
  mk_sequence_gap :: bool
  mk_fail_next :: "string \<rightharpoonup> exc"

type_synonym 'a mock_prog = "(mock, exc, 'a) prog"

definition DEFAULT_MOCK_CAPABILITIES :: capabilities where
  "DEFAULT_MOCK_CAPABILITIES =
     \<lparr>supports_reduce_only = True, supports_post_only = True, supports_ioc = True, supports_fok = False,
      supports_market_orders = True, supports_limit_orders = True, supports_trigger_orders = False,
      supports_partial_fill_notifications = True, supports_funding_rate = True,
      supports_cross_margin = True, supports_isolated_margin = True, cap_extra = []\<rparr>"

definition MockExchangeAdapter :: "signing_boundary \<Rightarrow> string \<Rightarrow> string \<Rightarrow> string \<Rightarrow> capabilities \<Rightarrow> exc + mock" where
  "MockExchangeAdapter sb key_ref exchange_name version caps =
     bindE (ExchangeAdapter_init sb exchange_name version caps) (\<lambda>a. Inr (adapter.extend a
       (mock.fields key_ref False [] [] [] Map.empty Map.empty [] 0 False False Map.empty)))"

section \<open>Fixtures\<close>

definition simulate_disconnect :: "mock \<Rightarrow> mock" where "simulate_disconnect m = m\<lparr>mk_connected := False\<rparr>"
definition simulate_stale_snapshot :: "bool \<Rightarrow> mock \<Rightarrow> mock" where
  "simulate_stale_snapshot stale m = m\<lparr>mk_stale_snapshot := stale\<rparr>"
definition simulate_sequence_gap :: "bool \<Rightarrow> mock \<Rightarrow> mock" where
  "simulate_sequence_gap gap m = m\<lparr>mk_sequence_gap := gap\<rparr>"
definition fail_next :: "string \<Rightarrow> exc \<Rightarrow> mock \<Rightarrow> mock" where
  "fail_next method x m = m\<lparr>mk_fail_next := (mk_fail_next m)(method \<mapsto> x)\<rparr>"
definition set_position :: "position \<Rightarrow> mock \<Rightarrow> mock" where
  "set_position p m = m\<lparr>mk_positions := AList.update (po_symbol p) p (mk_positions m)\<rparr>"
definition set_balance :: "balance \<Rightarrow> mock \<Rightarrow> mock" where
  "set_balance b m = m\<lparr>mk_balances := AList.update (ba_asset b) b (mk_balances m)\<rparr>"
definition set_mark_price :: "mark_price \<Rightarrow> mock \<Rightarrow> mock" where
  "set_mark_price p m = m\<lparr>mk_mark_prices := (mk_mark_prices m)(mp_symbol p \<mapsto> p)\<rparr>"
definition set_funding_rate :: "funding_rate \<Rightarrow> mock \<Rightarrow> mock" where
  "set_funding_rate f m = m\<lparr>mk_funding_rates := (mk_funding_rates m)(fr_symbol f \<mapsto> f)\<rparr>"

definition maybe_raise :: "string \<Rightarrow> unit mock_prog" where
  "maybe_raise method m =
     (let m' = m\<lparr>mk_fail_next := (mk_fail_next m)(method := None)\<rparr>
      in case mk_fail_next m method of Some x \<Rightarrow> (Inl x, m') | None \<Rightarrow> (Inr (), m'))"

definition require_connected :: "unit mock_prog" where
  "require_connected m = (if \<not> mk_connected m then (Inl ExchangeConnectionError, m) else (Inr (), m))"

text \<open>A signature is made and dropped: only its failure matters.\<close>

definition mock_sign :: "adapter_env \<Rightarrow> signing_purpose \<Rightarrow> bytes \<Rightarrow> unit mock_prog" where
  "mock_sign A purpose msg m =
     (case sb_sign (ax_mac A) (ad_signing m) (mk_signing_key_ref m) purpose msg of
        Inl x \<Rightarrow> (Inl x, m) | Inr _ \<Rightarrow> (Inr (), m))"

definition returnP :: "'a \<Rightarrow> ('s, 'e, 'a) prog" where "returnP x s = (Inr x, s)"
definition raiseP :: "'e \<Rightarrow> ('s, 'e, 'a) prog" where "raiseP x s = (Inl x, s)"

section \<open>Connection and queries\<close>

definition health :: "adapter_env \<Rightarrow> health_status mock_prog" where
  "health A = bindP (maybe_raise ''health'') (\<lambda>_ m.
     (Inr \<lparr>hs_connection_state = (if \<not> mk_connected m then CS_DISCONNECTED
             else if mk_sequence_gap m \<or> mk_stale_snapshot m then CS_DEGRADED else CS_CONNECTED),
           hs_websocket_connected = mk_connected m, hs_rest_reachable = mk_connected m,
           hs_last_message_age_ms = Some (if mk_stale_snapshot m then 60000 else 0),
           hs_sequence_gap_detected = mk_sequence_gap m, hs_checked_at_utc = ax_now A\<rparr>, m))"

definition connect :: "adapter_env \<Rightarrow> health_status mock_prog" where
  "connect A = bindP (maybe_raise ''connect'') (\<lambda>_.
     bindP (mock_sign A SP_AUTH (utf8 ''connect'')) (\<lambda>_ m. health A (m\<lparr>mk_connected := True\<rparr>)))"

definition disconnect :: "mock \<Rightarrow> mock" where "disconnect m = m\<lparr>mk_connected := False\<rparr>"

definition get_positions :: "position list mock_prog" where
  "get_positions = bindP (maybe_raise ''get_positions'') (\<lambda>_. bindP require_connected (\<lambda>_ m.
     if mk_stale_snapshot m then (Inl StaleSnapshotError, m)
     else if mk_sequence_gap m then (Inl SequenceGapError, m)
     else (Inr (map snd (mk_positions m)), m)))"

definition get_orders :: "order list mock_prog" where
  "get_orders = bindP (maybe_raise ''get_orders'') (\<lambda>_. bindP require_connected (\<lambda>_ m.
     (Inr (map snd (mk_orders m)), m)))"

definition get_balances :: "balance list mock_prog" where
  "get_balances = bindP (maybe_raise ''get_balances'') (\<lambda>_. bindP require_connected (\<lambda>_ m.
     (Inr (map snd (mk_balances m)), m)))"

definition get_mark_price :: "symbol \<Rightarrow> mark_price mock_prog" where
  "get_mark_price symb = bindP (maybe_raise ''get_mark_price'') (\<lambda>_. bindP require_connected (\<lambda>_ m.
     case mk_mark_prices m symb of None \<Rightarrow> (Inl ExchangeAdapterError, m) | Some p \<Rightarrow> (Inr p, m)))"

definition get_funding_rate :: "symbol \<Rightarrow> funding_rate mock_prog" where
  "get_funding_rate symb = bindP (maybe_raise ''get_funding_rate'') (\<lambda>_. bindP require_connected (\<lambda>_ m.
     if \<not> supports_funding_rate (ad_capabilities m) then (Inl ExchangeAdapterError, m)
     else case mk_funding_rates m symb of None \<Rightarrow> (Inl ExchangeAdapterError, m) | Some r \<Rightarrow> (Inr r, m)))"

definition get_order_status :: "string \<Rightarrow> order mock_prog" where
  "get_order_status oid = bindP (maybe_raise ''get_order_status'') (\<lambda>_. bindP require_connected (\<lambda>_ m.
     case map_of (mk_orders m) oid of None \<Rightarrow> (Inl OrderUnknownError, m) | Some od \<Rightarrow> (Inr od, m)))"

definition get_fills :: "string option \<Rightarrow> fill list mock_prog" where
  "get_fills since = bindP (maybe_raise ''get_fills'') (\<lambda>_. bindP require_connected (\<lambda>_ m.
     case since of None \<Rightarrow> (Inr (mk_fills m), m)
     | Some t \<Rightarrow> (Inr (filter (\<lambda>f. t \<le> fl_timestamp_utc f) (mk_fills m)), m)))"

text \<open>\<open>{p.symbol.value: p for p in ps}\<close>: the last position of a symbol wins.\<close>

definition by_symbol :: "position list \<Rightarrow> (string \<times> position) list" where
  "by_symbol ps = foldl (\<lambda>d p. AList.update (po_symbol p) p d) [] ps"

definition qty_at :: "(string \<times> position) list \<Rightarrow> string \<Rightarrow> decimal" where
  "qty_at d s = (case map_of d s of None \<Rightarrow> 0 | Some p \<Rightarrow> po_quantity p)"

text \<open>The union of the two key sets is visited once each; the order of the set is not specified.\<close>

definition discrepancies :: "(string \<times> position) list \<Rightarrow> (string \<times> position) list \<Rightarrow> (symbol \<times> decimal \<times> decimal) list" where
  "discrepancies l e =
     map (\<lambda>s. (s, qty_at l s, qty_at e s))
       (filter (\<lambda>s. qty_at l s \<noteq> qty_at e s)
         (map fst l @ filter (\<lambda>s. s \<notin> set (map fst l)) (map fst e)))"

definition reconcile :: "adapter_env \<Rightarrow> position list \<Rightarrow> reconciliation_report mock_prog" where
  "reconcile A local_ps = bindP (maybe_raise ''reconcile'') (\<lambda>_. bindP require_connected (\<lambda>_ m.
     let exchange_ps = map snd (mk_positions m);
         ds = discrepancies (by_symbol local_ps) (by_symbol exchange_ps)
     in (Inr \<lparr>rr_matches = (length ds = 0), rr_local_positions = local_ps,
              rr_exchange_positions = exchange_ps, rr_discrepancies = ds,
              rr_checked_at_utc = ax_now A\<rparr>, m)))"

section \<open>Transmission\<close>

definition next_exchange_order_id :: "string mock_prog" where
  "next_exchange_order_id m =
     (let n = mk_next_order_seq m + 1 in (Inr (''mock-order-'' @ show_nat n), m\<lparr>mk_next_order_seq := n\<rparr>))"

definition transmit_place :: "adapter_env \<Rightarrow> order_request \<Rightarrow> order mock_prog" where
  "transmit_place A r = bindP (maybe_raise ''place_order'') (\<lambda>_. bindP require_connected (\<lambda>_ m.
     if rq_order_type r = MARKET \<and> \<not> supports_market_orders (ad_capabilities m)
     then (Inl ExchangeRejectedOrderError, m)
     else if rq_order_type r = LIMIT \<and> \<not> supports_limit_orders (ad_capabilities m)
     then (Inl ExchangeRejectedOrderError, m)
     else if rq_reduce_only r \<and> \<not> supports_reduce_only (ad_capabilities m)
     then (Inl ExchangeRejectedOrderError, m)
     else bindP (mock_sign A SP_ORDER (utf8 (rq_client_order_id r @ '':'' @ rq_symbol r @ '':'' @
              side_value (rq_side r) @ '':'' @ ax_str A (rq_quantity r)))) (\<lambda>_.
          bindP next_exchange_order_id (\<lambda>oid m.
            let od = \<lparr>od_client_order_id = rq_client_order_id r, od_exchange_order_id = Some oid,
                      od_symbol = rq_symbol r, od_side = rq_side r, od_order_type = rq_order_type r,
                      od_quantity = rq_quantity r, od_filled_quantity = 0, od_limit_price = rq_limit_price r,
                      od_status = ST_ACKNOWLEDGED, od_time_in_force = rq_time_in_force r,
                      od_reduce_only = rq_reduce_only r, od_created_at_utc = ax_now A, od_updated_at_utc = ax_now A\<rparr>
            in (Inr od, m\<lparr>mk_orders := AList.update oid od (mk_orders m)\<rparr>))) m))"

text \<open>\<open>f"{x}"\<close> of an optional Decimal.\<close>

definition opt_str :: "adapter_env \<Rightarrow> decimal option \<Rightarrow> string" where
  "opt_str A x = (case x of None \<Rightarrow> ''None'' | Some d \<Rightarrow> ax_str A d)"

text \<open>\<open>existing.exchange_order_id\<close>: every order the mock holds has one.\<close>

definition stored_id :: "order \<Rightarrow> string \<Rightarrow> string" where
  "stored_id od key = (case od_exchange_order_id od of Some i \<Rightarrow> i | None \<Rightarrow> key)"

definition transmit_amend :: "adapter_env \<Rightarrow> amend_request \<Rightarrow> order mock_prog" where
  "transmit_amend A r = bindP (maybe_raise ''amend_order'') (\<lambda>_. bindP require_connected (\<lambda>_ m.
     case map_of (mk_orders m) (am_exchange_order_id r) of
       None \<Rightarrow> (Inl OrderUnknownError, m)
     | Some existing \<Rightarrow>
         bindP (mock_sign A SP_AMEND (utf8 (am_request_id r @ '':'' @ am_exchange_order_id r @ '':'' @
              opt_str A (am_new_quantity r) @ '':'' @ opt_str A (am_new_limit_price r)))) (\<lambda>_ m.
           let od = existing\<lparr>
                      od_quantity := (case am_new_quantity r of None \<Rightarrow> od_quantity existing | Some q \<Rightarrow> q),
                      od_limit_price := (case am_new_limit_price r of None \<Rightarrow> od_limit_price existing | Some p \<Rightarrow> Some p),
                      od_updated_at_utc := ax_now A\<rparr>
           in (Inr od, m\<lparr>mk_orders := AList.update (stored_id existing (am_exchange_order_id r)) od (mk_orders m)\<rparr>)) m))"

definition cancelled :: "adapter_env \<Rightarrow> order \<Rightarrow> order" where
  "cancelled A od = od\<lparr>od_status := ST_CANCELLED, od_updated_at_utc := ax_now A\<rparr>"

definition transmit_cancel :: "adapter_env \<Rightarrow> cancel_request \<Rightarrow> order mock_prog" where
  "transmit_cancel A r = bindP (maybe_raise ''cancel_order'') (\<lambda>_. bindP require_connected (\<lambda>_ m.
     case map_of (mk_orders m) (cq_exchange_order_id r) of
       None \<Rightarrow> (Inl OrderUnknownError, m)
     | Some existing \<Rightarrow>
         bindP (mock_sign A SP_CANCEL (utf8 (cq_request_id r @ '':'' @ cq_exchange_order_id r))) (\<lambda>_ m.
           (Inr (cancelled A existing),
            m\<lparr>mk_orders := AList.update (stored_id existing (cq_exchange_order_id r)) (cancelled A existing) (mk_orders m)\<rparr>)) m))"

definition cancellable :: "symbol option \<Rightarrow> order \<Rightarrow> bool" where
  "cancellable symb od \<longleftrightarrow> od_status od \<notin> {ST_CANCELLED, ST_FILLED, ST_REJECTED} \<and>
     (case symb of None \<Rightarrow> True | Some s \<Rightarrow> od_symbol od = s)"

text \<open>The loop over a copy of the items; each order hit is replaced in place.\<close>

fun cancel_loop :: "adapter_env \<Rightarrow> symbol option \<Rightarrow> (string \<times> order) list \<Rightarrow> (string \<times> order) list \<Rightarrow> (string \<times> order) list \<times> order list" where
  "cancel_loop A symb [] orders = (orders, [])"
| "cancel_loop A symb ((oid, od) # items) orders =
     (if \<not> cancellable symb od then cancel_loop A symb items orders
      else case cancel_loop A symb items (AList.update oid (cancelled A od) orders) of
             (orders', cs) \<Rightarrow> (orders', cancelled A od # cs))"

definition transmit_cancel_all_orders :: "adapter_env \<Rightarrow> cancel_all_request \<Rightarrow> order list mock_prog" where
  "transmit_cancel_all_orders A r = bindP (maybe_raise ''cancel_all'') (\<lambda>_. bindP require_connected (\<lambda>_.
     bindP (mock_sign A SP_CANCEL (utf8 (ca_request_id r @ '':'' @
         (case ca_symbol r of None \<Rightarrow> ''*'' | Some s \<Rightarrow> s)))) (\<lambda>_ m.
       case cancel_loop A (ca_symbol r) (mk_orders m) (mk_orders m) of
         (orders', cs) \<Rightarrow> (Inr cs, m\<lparr>mk_orders := orders'\<rparr>))))"

definition mock_hooks :: "adapter_env \<Rightarrow> \<lparr>mk_signing_key_ref :: string, mk_connected :: bool,
    mk_orders :: (string \<times> order) list, mk_positions :: (string \<times> position) list,
    mk_balances :: (string \<times> balance) list, mk_mark_prices :: string \<rightharpoonup> mark_price,
    mk_funding_rates :: string \<rightharpoonup> funding_rate, mk_fills :: fill list, mk_next_order_seq :: nat,
    mk_stale_snapshot :: bool, mk_sequence_gap :: bool, mk_fail_next :: string \<rightharpoonup> exc\<rparr> hooks" where
  "mock_hooks A = \<lparr>transmit_place_order = transmit_place A, transmit_amend_order = transmit_amend A,
     transmit_cancel_order = transmit_cancel A, transmit_cancel_all = transmit_cancel_all_orders A\<rparr>"

definition simulate_fill :: "adapter_env \<Rightarrow> string \<Rightarrow> decimal \<Rightarrow> decimal \<Rightarrow> order mock_prog" where
  "simulate_fill A oid fill_quantity fill_price m =
     (case map_of (mk_orders m) oid of
        None \<Rightarrow> (Inl OrderUnknownError, m)
      | Some existing \<Rightarrow>
          let new_filled = dadd (od_filled_quantity existing) fill_quantity;
              od = existing\<lparr>od_filled_quantity := new_filled,
                     od_status := (if new_filled \<ge> od_quantity existing then ST_FILLED else ST_PARTIALLY_FILLED),
                     od_updated_at_utc := ax_now A\<rparr>;
              f = \<lparr>fl_fill_id = ''mock-fill-'' @ show_nat (length (mk_fills m) + 1),
                   fl_client_order_id = od_client_order_id existing, fl_exchange_order_id = oid,
                   fl_symbol = od_symbol existing, fl_side = od_side existing, fl_price = fill_price,
                   fl_quantity = fill_quantity, fl_fee = 0, fl_timestamp_utc = ax_now A\<rparr>
          in (Inr od, m\<lparr>mk_orders := AList.update oid od (mk_orders m), mk_fills := mk_fills m @ [f]\<rparr>))"

section \<open>The mock keeps the contract of the template\<close>

text \<open>A program that leaves the cache and the audit log alone.\<close>

definition keeps :: "'a mock_prog \<Rightarrow> bool" where
  "keeps f \<longleftrightarrow> (\<forall>m. ad_idempotency (snd (f m)) = ad_idempotency m \<and> ad_audit_log (snd (f m)) = ad_audit_log m)"

lemma keeps_bindP: "keeps f \<Longrightarrow> (\<And>x. keeps (g x)) \<Longrightarrow> keeps (bindP f g)"
  by (auto simp: keeps_def bindP_def split: prod.split sum.split) (metis snd_conv)+

lemma keeps_prims: "keeps (maybe_raise n)" "keeps require_connected" "keeps (mock_sign A p msg)" "keeps next_exchange_order_id"
  by (simp_all add: keeps_def maybe_raise_def require_connected_def mock_sign_def next_exchange_order_id_def Let_def
      split: option.split sum.split)

lemma keeps_mapP: "keeps f \<Longrightarrow> keeps (mapP g f)"
  by (auto simp: keeps_def mapP_def split: prod.split sum.split) (metis snd_conv)+

lemma keepsI: "(\<And>m. ad_idempotency (snd (f m)) = ad_idempotency m \<and> ad_audit_log (snd (f m)) = ad_audit_log m) \<Longrightarrow> keeps f"
  by (simp add: keeps_def)

lemma keepsD: "keeps f \<Longrightarrow> ad_idempotency (snd (f m)) = ad_idempotency m \<and> ad_audit_log (snd (f m)) = ad_audit_log m"
  by (simp add: keeps_def)

lemma keeps_local: "(\<And>m. keeps (f m)) \<Longrightarrow> keeps (\<lambda>m. f m m)"
  by (simp add: keeps_def)

lemma keeps_transmit:
  "keeps (transmit_place A r)" "keeps (transmit_amend A r2)" "keeps (transmit_cancel A r3)"
  "keeps (transmit_cancel_all_orders A r4)"
proof -
  show "keeps (transmit_place A r)"
    unfolding transmit_place_def
    by (intro keeps_bindP keeps_prims keepsI)
      (simp add: keepsD [OF keeps_bindP, OF keeps_prims(3) keeps_bindP, OF keeps_prims(4)] keeps_def Let_def)
  show "keeps (transmit_amend A r2)"
    unfolding transmit_amend_def
    by (intro keeps_bindP keeps_prims keepsI)
      (simp add: keepsD [OF keeps_bindP, OF keeps_prims(3)] keeps_def Let_def split: option.split)
  show "keeps (transmit_cancel A r3)"
    unfolding transmit_cancel_def
    by (intro keeps_bindP keeps_prims keepsI)
      (simp add: keepsD [OF keeps_bindP, OF keeps_prims(3)] keeps_def Let_def split: option.split)
  show "keeps (transmit_cancel_all_orders A r4)"
    unfolding transmit_cancel_all_orders_def
    by (intro keeps_bindP keeps_prims keepsI) (simp split: prod.split)
qed

lemma keeps_hooks: "keeps (transmit (mock_hooks A) mu)"
  by (cases mu) (simp_all add: mock_hooks_def keeps_mapP keeps_transmit)

interpretation mock: transmission_hooks "mock_hooks A" for A
proof
  fix mu a r a'
  assume "transmit (mock_hooks A) mu a = (r, a')"
  with keepsD [OF keeps_hooks, of A mu a]
  show "ad_idempotency a' = ad_idempotency a" "ad_audit_log a' = ad_audit_log a" by simp_all
qed

end
