(* ===== verification/Mock_Guarantees.thy ===== *)
theory Mock_Guarantees
  imports Mock_Adapter
begin

text \<open>
  What the mock adapter guarantees to the order manager and to its tests: answers are remembered,
  every attempt is recorded before it is sent, a placed order never overwrites another one, a
  bulk cancellation leaves nothing alive, and a reconciliation is exact.
\<close>

section \<open>The order book of the mock\<close>

text \<open>The ids it hands out, and the book they index.\<close>

definition mock_order_id :: "nat \<Rightarrow> string" where "mock_order_id n = ''mock-order-'' @ show_nat n"

lemma mock_order_id_inj [simp]: "mock_order_id m = mock_order_id n \<longleftrightarrow> m = n"
  using read_show_nat [of m] read_show_nat [of n] by (auto simp: mock_order_id_def)

definition mock_book :: "mock \<Rightarrow> bool" where
  "mock_book m \<longleftrightarrow> distinct (map fst (mk_orders m)) \<and>
     (\<forall>(oid, od) \<in> set (mk_orders m). od_exchange_order_id od = Some oid \<and>
        (\<exists>n. 1 \<le> n \<and> n \<le> mk_next_order_seq m \<and> oid = mock_order_id n))"

lemma mock_bookI:
  assumes "distinct (map fst (mk_orders m))"
    "\<And>oid od. map_of (mk_orders m) oid = Some od \<Longrightarrow> od_exchange_order_id od = Some oid \<and>
        (\<exists>n. 1 \<le> n \<and> n \<le> mk_next_order_seq m \<and> oid = mock_order_id n)"
  shows "mock_book m"
  using assms unfolding mock_book_def by (auto simp: map_of_eq_Some_iff)

lemma mock_bookD:
  assumes "mock_book m" "map_of (mk_orders m) oid = Some od"
  shows "od_exchange_order_id od = Some oid" "\<exists>n. 1 \<le> n \<and> n \<le> mk_next_order_seq m \<and> oid = mock_order_id n"
  using assms map_of_SomeD [OF assms(2)] unfolding mock_book_def by fastforce+

lemma mock_book_distinct: "mock_book m \<Longrightarrow> distinct (map fst (mk_orders m))"
  by (simp add: mock_book_def)

lemma mock_book_update:
  assumes "mock_book m" "mk_orders m' = AList.update oid od (mk_orders m)"
    "mk_next_order_seq m \<le> mk_next_order_seq m'" "od_exchange_order_id od = Some oid"
    "\<exists>n. 1 \<le> n \<and> n \<le> mk_next_order_seq m' \<and> oid = mock_order_id n"
  shows "mock_book m'"
proof (rule mock_bookI)
  show "distinct (map fst (mk_orders m'))"
    using mock_book_distinct [OF assms(1)] by (simp add: assms(2) distinct_update)
next
  fix i d assume i: "map_of (mk_orders m') i = Some d"
  show "od_exchange_order_id d = Some i \<and> (\<exists>n. 1 \<le> n \<and> n \<le> mk_next_order_seq m' \<and> i = mock_order_id n)"
  proof (cases "i = oid")
    case True
    with i assms(2,4,5) show ?thesis by (simp add: update_Some_unfold)
  next
    case False
    with i assms(2) have "map_of (mk_orders m) i = Some d" by (simp add: update_conv)
    note mock_bookD [OF assms(1) this]
    with assms(3) show ?thesis using le_trans by blast
  qed
qed

text \<open>Programs that keep the book, and those that do not touch it.\<close>

definition keeps_book :: "'a mock_prog \<Rightarrow> bool" where
  "keeps_book f \<longleftrightarrow> (\<forall>m. mock_book m \<longrightarrow> mock_book (snd (f m)))"

lemma keeps_bookI: "(\<And>m. mock_book m \<Longrightarrow> mock_book (snd (f m))) \<Longrightarrow> keeps_book f"
  by (simp add: keeps_book_def)

lemma keeps_bookD: "keeps_book f \<Longrightarrow> mock_book m \<Longrightarrow> mock_book (snd (f m))"
  by (simp add: keeps_book_def)

lemma keeps_book_bindP: "keeps_book f \<Longrightarrow> (\<And>x. keeps_book (g x)) \<Longrightarrow> keeps_book (bindP f g)"
  by (auto simp: keeps_book_def bindP_def split: prod.split sum.split; metis snd_conv)

lemma mock_book_cong:
  "mk_orders m' = mk_orders m \<Longrightarrow> mk_next_order_seq m \<le> mk_next_order_seq m' \<Longrightarrow> mock_book m \<Longrightarrow> mock_book m'"
  unfolding mock_book_def by (fastforce intro: le_trans)

lemma keeps_book_prims:
  "keeps_book (maybe_raise n)" "keeps_book require_connected" "keeps_book (mock_sign A p msg)"
  by (rule keeps_bookI, erule mock_book_cong [rotated 2],
      simp_all add: maybe_raise_def require_connected_def mock_sign_def Let_def split: option.split sum.split)+

lemma keeps_book_mapP: "keeps_book f \<Longrightarrow> keeps_book (mapP g f)"
  by (auto simp: keeps_book_def mapP_def split: prod.split sum.split; metis snd_conv)

text \<open>The frame of the guards, for reading a run through them.\<close>

lemma guards_frame:
  "maybe_raise n m = (r, m') \<Longrightarrow> mk_orders m' = mk_orders m \<and> mk_next_order_seq m' = mk_next_order_seq m"
  "require_connected m = (r, m') \<Longrightarrow> m' = m"
  "mock_sign A p msg m = (r2, m') \<Longrightarrow> m' = m"
  by (auto simp: maybe_raise_def require_connected_def mock_sign_def Let_def split: option.splits sum.splits if_splits)

lemma keeps_book_place: "keeps_book (transmit_place A r)"
  unfolding transmit_place_def
proof (intro keeps_book_bindP keeps_book_prims keeps_bookI)
  fix m :: mock assume b: "mock_book m"
  let ?f = "\<lambda>oid m. let od = \<lparr>od_client_order_id = rq_client_order_id r, od_exchange_order_id = Some oid,
                      od_symbol = rq_symbol r, od_side = rq_side r, od_order_type = rq_order_type r,
                      od_quantity = rq_quantity r, od_filled_quantity = 0, od_limit_price = rq_limit_price r,
                      od_status = ST_ACKNOWLEDGED, od_time_in_force = rq_time_in_force r,
                      od_reduce_only = rq_reduce_only r, od_created_at_utc = ax_now A, od_updated_at_utc = ax_now A\<rparr>
            in (Inr od, m\<lparr>mk_orders := AList.update oid od (mk_orders m)\<rparr>)"
  have "keeps_book (\<lambda>m. bindP next_exchange_order_id ?f m)"
    by (rule keeps_bookI)
      (simp add: bindP_def next_exchange_order_id_def Let_def,
       rule mock_book_update, assumption, auto simp: mock_order_id_def)
  from keeps_bookD [OF keeps_book_bindP [OF keeps_book_prims(3) this] b]
  show "mock_book (snd (if rq_order_type r = MARKET \<and> \<not> supports_market_orders (ad_capabilities m)
     then (Inl ExchangeRejectedOrderError, m)
     else if rq_order_type r = LIMIT \<and> \<not> supports_limit_orders (ad_capabilities m)
     then (Inl ExchangeRejectedOrderError, m)
     else if rq_reduce_only r \<and> \<not> supports_reduce_only (ad_capabilities m)
     then (Inl ExchangeRejectedOrderError, m)
     else bindP (mock_sign A SP_ORDER (utf8 (rq_client_order_id r @ '':'' @ rq_symbol r @ '':'' @
              side_value (rq_side r) @ '':'' @ ax_str A (rq_quantity r)))) (\<lambda>_.
          bindP next_exchange_order_id ?f) m))"
    using b by simp
qed

lemma bindP_sign:
  "bindP (mock_sign A p msg) f m =
     (case sb_sign (ax_mac A) (ad_signing m) (mk_signing_key_ref m) p msg of Inl x \<Rightarrow> (Inl x, m) | Inr _ \<Rightarrow> f () m)"
  by (simp add: bindP_def mock_sign_def split: sum.split)

lemma keeps_book_replace:
  assumes "mock_book m" "map_of (mk_orders m) oid = Some od" "od_exchange_order_id od' = od_exchange_order_id od"
  shows "mock_book (m\<lparr>mk_orders := AList.update (stored_id od key) od' (mk_orders m)\<rparr>)"
  using mock_bookD [OF assms(1,2)] assms
  by (intro mock_book_update [OF assms(1), where oid = oid and od = od']) (simp_all add: stored_id_def)

lemma keeps_book_amend: "keeps_book (transmit_amend A r)"
  unfolding transmit_amend_def
  by (intro keeps_book_bindP keeps_book_prims keeps_bookI)
    (simp add: bindP_sign Let_def keeps_book_replace split: option.split sum.split)

lemma keeps_book_cancel: "keeps_book (transmit_cancel A r)"
  unfolding transmit_cancel_def
  by (intro keeps_book_bindP keeps_book_prims keeps_bookI)
    (simp add: bindP_sign cancelled_def keeps_book_replace split: option.split sum.split)

text \<open>The loop of \<open>cancel_all\<close>.\<close>

lemma cancel_loop_distinct:
  "distinct (map fst os) \<Longrightarrow> distinct (map fst (fst (cancel_loop A symb items os)))"
  by (induction A symb items os rule: cancel_loop.induct) (auto simp: distinct_update split: prod.split)

text \<open>One pass over the items: an item that is cancellable is replaced, anything else stays.\<close>

lemma cancel_loop_lookup:
  "cancel_loop A symb items os = (os', cs) \<Longrightarrow> distinct (map fst items) \<Longrightarrow>
     map_of os' k = (case map_of items k of
        Some od \<Rightarrow> if cancellable symb od then Some (cancelled A od) else map_of os k
      | None \<Rightarrow> map_of os k)"
proof (induction A symb items os arbitrary: os' cs rule: cancel_loop.induct)
  case (2 A symb oid od items os)
  have out: "map_of items oid = None" "distinct (map fst items)" using 2(4) by (simp_all add: map_of_eq_None_iff)
  show ?case
  proof (cases "cancellable symb od")
    case False
    with 2(3) have "cancel_loop A symb items os = (os', cs)" by simp
    from 2(1) [OF False this out(2)] False out(1) show ?thesis by (cases "k = oid") auto
  next
    case True
    with 2(3) obtain cs' where l: "cancel_loop A symb items (AList.update oid (cancelled A od) os) = (os', cs')"
      by (auto split: prod.splits)
    from 2(2) [OF _ l out(2)] True out(1) show ?thesis by (cases "k = oid") (auto simp: update_conv split: option.split)
  qed
qed simp

lemma cancel_loop_answer:
  "snd (cancel_loop A symb items os) = map (cancelled A) (filter (cancellable symb) (map snd items))"
  by (induction A symb items os rule: cancel_loop.induct) (auto split: prod.splits)

text \<open>After a bulk cancellation.\<close>

lemma keeps_book_cancel_all: "keeps_book (transmit_cancel_all_orders A r)"
  unfolding transmit_cancel_all_orders_def
proof (intro keeps_book_bindP keeps_book_prims keeps_bookI)
  fix x :: unit and m :: mock assume b: "mock_book m"
  obtain os' cs where l: "cancel_loop A (ca_symbol r) (mk_orders m) (mk_orders m) = (os', cs)" by (meson surj_pair)
  have "mock_book (m\<lparr>mk_orders := os'\<rparr>)"
  proof (rule mock_bookI)
    show "distinct (map fst (mk_orders (m\<lparr>mk_orders := os'\<rparr>)))"
      using cancel_loop_distinct [OF mock_book_distinct [OF b], of A "ca_symbol r" "mk_orders m"] l by simp
  next
    fix i d assume "map_of (mk_orders (m\<lparr>mk_orders := os'\<rparr>)) i = Some d"
    with cancel_loop_lookup [OF l mock_book_distinct [OF b], of i]
    obtain d0 where "map_of (mk_orders m) i = Some d0" "d = d0 \<or> d = cancelled A d0"
      by (auto split: option.splits if_splits)
    with mock_bookD [OF b this(1)]
    show "od_exchange_order_id d = Some i \<and>
        (\<exists>n. 1 \<le> n \<and> n \<le> mk_next_order_seq (m\<lparr>mk_orders := os'\<rparr>) \<and> i = mock_order_id n)"
      by (auto simp: cancelled_def)
  qed
  with l show "mock_book (snd (case cancel_loop A (ca_symbol r) (mk_orders m) (mk_orders m) of
         (orders', cs) \<Rightarrow> (Inr cs, m\<lparr>mk_orders := orders'\<rparr>)))" by simp
qed

lemma keeps_book_transmit: "keeps_book (transmit (mock_hooks A) mu)"
  by (cases mu) (simp_all add: mock_hooks_def keeps_book_mapP keeps_book_place keeps_book_amend keeps_book_cancel
      keeps_book_cancel_all)

lemma mutate_book:
  assumes "mutate (mock_hooks A) A mu m = (r, m')" "mock_book m"
  shows "mock_book m'"
proof (cases "ad_idempotency m (mutation_key mu)")
  case None
  let ?m1 = "m\<lparr>ad_audit_log := ad_audit_log m @ [audit_of A m mu]\<rparr>"
  obtain m2 where t: "transmit (mock_hooks A) mu ?m1 = (r, m2)"
      and m': "m' = m2 \<or> (\<exists>c. m' = m2\<lparr>ad_idempotency := c\<rparr>)"
    using mock.mutate_fresh [OF assms(1) None] by (cases r) fastforce+
  have "mock_book ?m1" by (rule mock_book_cong [OF _ _ assms(2)]) simp_all
  from keeps_bookD [OF keeps_book_transmit this, of A mu] t have b: "mock_book m2" by simp
  from m' show ?thesis by (auto intro: b mock_book_cong [OF _ _ b])
next
  case (Some w)
  with mock.mutate_cached [OF Some, of A] assms show ?thesis by simp
qed

lemma simulate_fill_book:
  assumes "mock_book m"
  shows "mock_book (snd (simulate_fill A oid q p m))"
proof (cases "map_of (mk_orders m) oid")
  case (Some od)
  with mock_bookD [OF assms Some] show ?thesis
    by (auto simp: simulate_fill_def Let_def intro!: mock_book_update [OF assms, where oid = oid])
qed (simp add: simulate_fill_def assms)

section \<open>Guarantees\<close>

definition run_mutations :: "adapter_env \<Rightarrow> mutation list \<Rightarrow> mock \<Rightarrow> mock" where
  "run_mutations A mus m = fold (\<lambda>mu m. snd (mutate (mock_hooks A) A mu m)) mus m"

lemma run_mutations_keep:
  "ad_idempotency m k = Some v \<Longrightarrow> ad_idempotency (run_mutations A mus m) k = Some v"
  unfolding run_mutations_def
  by (induction mus arbitrary: m) (simp_all add: mock.mutate_keeps [OF surjective_pairing])

text \<open>(C26) A mutation that was answered once is answered the same way at any later time, whatever
  other mutations (failed ones included) ran in between; the repetition sends nothing and changes
  nothing.  The key alone decides: a request of another kind under the same key gets that answer too.\<close>

theorem mutation_answered_once:
  assumes "mutate (mock_hooks A) A mu m = (Inr v, m1)" "m2 = run_mutations A mus m1"
    "mutation_key mu' = mutation_key mu"
  shows "mutate (mock_hooks A) A mu' m2 = (Inr v, m2)"
  using mock.mutate_cached [of m2 mu' v A] run_mutations_keep [OF mock.mutate_binds [OF assms(1)]] assms(2,3)
  by simp

text \<open>Every fresh mutation, accepted or refused, is on the audit log with the payload the request
  would hash, before the hook that transmits it runs; a refused one is not remembered, so that it
  can be repeated under its key.\<close>

theorem mutation_recorded_first:
  assumes "mutate (mock_hooks A) A mu m = (r, m')" "ad_idempotency m (mutation_key mu) = None"
  shows "ad_audit_log m' = ad_audit_log m @ [audit_of A m mu]
    \<and> au_payload_hash (audit_of A m mu) = hexdigest (ax_sha256 A (ax_json A (VDict (mutation_payload mu))))
    \<and> (\<exists>m2. transmit (mock_hooks A) mu (m\<lparr>ad_audit_log := ad_audit_log m'\<rparr>) = (r, m2) \<and> mk_orders m' = mk_orders m2)
    \<and> (isl r \<longrightarrow> ad_idempotency m' = ad_idempotency m)"
  using mock.mutate_fresh [OF assms]
  by (cases r; auto simp: audit_of_def compute_audit_record_def)

text \<open>The states a mock can be in, and that its book stays an index: the ids are distinct, each order
  carries its own id, and every id was handed out by the counter.\<close>

inductive mock_reach :: "adapter_env \<Rightarrow> mock \<Rightarrow> bool" for A where
  mock_start: "MockExchangeAdapter sb ref name version caps = Inr m \<Longrightarrow> mock_reach A m"
| mock_mutate: "mock_reach A m \<Longrightarrow> mock_reach A (snd (mutate (mock_hooks A) A mu m))"
| mock_fill: "mock_reach A m \<Longrightarrow> mock_reach A (snd (simulate_fill A oid q p m))"
| mock_connect: "mock_reach A m \<Longrightarrow> mock_reach A (snd (connect A m))"
| mock_disconnect: "mock_reach A m \<Longrightarrow> mock_reach A (disconnect m)"
| mock_inject: "mock_reach A m \<Longrightarrow> mock_reach A (fail_next meth x m)"

lemma mock_reach_book: "mock_reach A m \<Longrightarrow> mock_book m"
proof (induction rule: mock_reach.induct)
  case (mock_start sb ref name version caps m)
  then show ?case
    by (auto simp: MockExchangeAdapter_def ExchangeAdapter_init_def mock_book_def adapter.defs mock.defs split: if_splits)
next
  case (mock_mutate m mu)
  then show ?case using mutate_book [of A mu m] by (metis surj_pair snd_conv)
next
  case (mock_fill m oid q p)
  then show ?case by (simp add: simulate_fill_book)
next
  case (mock_connect m)
  have "keeps_book (\<lambda>m. health A (m\<lparr>mk_connected := True\<rparr>))"
    by (rule keeps_bookI, erule mock_book_cong [rotated 2])
      (simp_all add: health_def bindP_def maybe_raise_def Let_def split: option.split)
  then have "keeps_book (connect A)"
    unfolding connect_def by (intro keeps_book_bindP keeps_book_prims)
  then show ?case using mock_connect by (simp add: keeps_bookD)
qed (auto simp: disconnect_def fail_next_def elim: mock_book_cong [rotated 2])

text \<open>A run through the guards.\<close>

lemma guarded_call:
  assumes "bindP (maybe_raise n) (\<lambda>_. bindP require_connected (\<lambda>_. f)) m = (Inr v, m')"
  obtains "mk_connected m" "mk_fail_next m n = None"
    "f (m\<lparr>mk_fail_next := (mk_fail_next m)(n := None)\<rparr>) = (Inr v, m')"
  using assms that
  by (auto simp: bindP_def maybe_raise_def require_connected_def Let_def split: option.splits if_splits)

lemma bindP_pair: "bindP f g m = (Inr v, m') \<longleftrightarrow> (\<exists>x m1. f m = (Inr x, m1) \<and> g x m1 = (Inr v, m'))"
  by (auto simp: bindP_def split: prod.splits sum.splits)

lemma transmit_place_effect:
  assumes "transmit_place A r m = (Inr od, m')"
  shows "mk_next_order_seq m' = mk_next_order_seq m + 1
    \<and> mk_orders m' = AList.update (mock_order_id (mk_next_order_seq m + 1)) od (mk_orders m)
    \<and> od_client_order_id od = rq_client_order_id r \<and> od_quantity od = rq_quantity r
    \<and> od_filled_quantity od = 0 \<and> od_status od = ST_ACKNOWLEDGED
    \<and> od_exchange_order_id od = Some (mock_order_id (mk_next_order_seq m + 1))"
  using assms unfolding transmit_place_def
  by (elim guarded_call)
    (auto simp: bindP_sign bindP_pair next_exchange_order_id_def Let_def mock_order_id_def split: if_splits sum.splits)

text \<open>A placed order gets an id of its own: the book gains exactly that order, open and unfilled, and
  every order already on it stays as it was, in every state a mock can reach.\<close>

theorem placed_order_is_new:
  assumes "mock_reach A m" "place_order (mock_hooks A) A r m = (Inr (ROrder od), m')"
    "ad_idempotency m (rq_client_order_id r) = None"
  shows "map_of (mk_orders m) (mock_order_id (mk_next_order_seq m + 1)) = None
    \<and> map_of (mk_orders m') = (map_of (mk_orders m))(mock_order_id (mk_next_order_seq m + 1) \<mapsto> od)
    \<and> od_client_order_id od = rq_client_order_id r \<and> od_quantity od = rq_quantity r
    \<and> od_filled_quantity od = 0 \<and> od_status od = ST_ACKNOWLEDGED
    \<and> od_exchange_order_id od = Some (mock_order_id (mk_next_order_seq m + 1))"
proof -
  let ?m1 = "m\<lparr>ad_audit_log := ad_audit_log m @ [audit_of A m (Place r)]\<rparr>"
  have "mutate (mock_hooks A) A (Place r) m = (Inr (ROrder od), m')" using assms(2) by simp
  from mock.mutate_fresh [OF this] assms(3)
  obtain m2 where t: "transmit (mock_hooks A) (Place r) ?m1 = (Inr (ROrder od), m2)" and o: "mk_orders m' = mk_orders m2"
    by auto
  from t have "transmit_place A r ?m1 = (Inr od, m2)"
    by (simp add: mock_hooks_def mapP_def split: prod.splits sum.splits)
  from transmit_place_effect [OF this] o
  have "mk_orders m' = AList.update (mock_order_id (mk_next_order_seq m + 1)) od (mk_orders m)
    \<and> od_client_order_id od = rq_client_order_id r \<and> od_quantity od = rq_quantity r
    \<and> od_filled_quantity od = 0 \<and> od_status od = ST_ACKNOWLEDGED
    \<and> od_exchange_order_id od = Some (mock_order_id (mk_next_order_seq m + 1))" by simp
  moreover have "map_of (mk_orders m) (mock_order_id (mk_next_order_seq m + 1)) = None"
    using mock_bookD(2) [OF mock_reach_book [OF assms(1)]] by (cases "map_of (mk_orders m) (mock_order_id (mk_next_order_seq m + 1))") fastforce+
  ultimately show ?thesis by (simp add: update_conv')
qed

text \<open>After a bulk cancellation that succeeds, every order in scope is final, every order that was
  final or out of scope is untouched, and the answer is the list of the cancelled orders.\<close>

theorem cancel_all_complete:
  assumes "mock_reach A m" "cancel_all (mock_hooks A) A r m = (Inr (ROrders cs), m')"
    "ad_idempotency m (ca_request_id r) = None"
  shows "(\<forall>od \<in> set (map snd (mk_orders m')). \<not> cancellable (ca_symbol r) od)
    \<and> (\<forall>oid. map_of (mk_orders m') oid = map_option (\<lambda>od. if cancellable (ca_symbol r) od then cancelled A od else od)
          (map_of (mk_orders m) oid))
    \<and> cs = map (cancelled A) (filter (cancellable (ca_symbol r)) (map snd (mk_orders m)))"
proof -
  let ?m1 = "m\<lparr>ad_audit_log := ad_audit_log m @ [audit_of A m (CancelAll r)]\<rparr>"
  have mu: "mutate (mock_hooks A) A (CancelAll r) m = (Inr (ROrders cs), m')" using assms(2) by simp
  have book: "mock_book m" by (rule mock_reach_book [OF assms(1)])
  from mock.mutate_fresh [OF mu] assms(3)
  obtain m2 where t: "transmit (mock_hooks A) (CancelAll r) ?m1 = (Inr (ROrders cs), m2)" and o: "mk_orders m' = mk_orders m2"
    by auto
  from t have "transmit_cancel_all_orders A r ?m1 = (Inr cs, m2)"
    by (simp add: mock_hooks_def mapP_def split: prod.splits sum.splits)
  then have loop: "cancel_loop A (ca_symbol r) (mk_orders m) (mk_orders m) = (mk_orders m', cs)"
    unfolding transmit_cancel_all_orders_def
    by (elim guarded_call) (auto simp: bindP_sign o split: sum.splits prod.splits)
  have look: "map_of (mk_orders m') oid = map_option (\<lambda>od. if cancellable (ca_symbol r) od then cancelled A od else od)
          (map_of (mk_orders m) oid)" for oid
    using cancel_loop_lookup [OF loop mock_book_distinct [OF book], of oid] by (auto split: option.split)
  have "mock_book m'" by (rule mutate_book [OF mu book])
  have dead: "\<not> cancellable (ca_symbol r) od" if "(oid, od) \<in> set (mk_orders m')" for oid od
  proof -
    from mock_book_distinct [OF \<open>mock_book m'\<close>] that have "map_of (mk_orders m') oid = Some od"
      by (simp add: map_of_is_SomeI)
    with look [of oid] obtain od0 where "od = (if cancellable (ca_symbol r) od0 then cancelled A od0 else od0)"
      by (cases "map_of (mk_orders m) oid") auto
    then show ?thesis by (cases "cancellable (ca_symbol r) od0") (simp_all add: cancelled_def cancellable_def)
  qed
  moreover have "cs = map (cancelled A) (filter (cancellable (ca_symbol r)) (map snd (mk_orders m)))"
    using cancel_loop_answer [of A "ca_symbol r" "mk_orders m" "mk_orders m"] by (simp add: loop)
  ultimately show ?thesis using look dead by fastforce
qed

text \<open>The quantity a list of positions says is held: the last entry of the symbol, or nothing.\<close>

definition held :: "position list \<Rightarrow> symbol \<Rightarrow> decimal" where
  "held ps s = (let qs = filter (\<lambda>p. po_symbol p = s) ps in if qs = [] then 0 else po_quantity (last qs))"

lemma by_symbol_snoc: "by_symbol (ps @ [p]) = AList.update (po_symbol p) p (by_symbol ps)"
  by (simp add: by_symbol_def)

lemma qty_at_by_symbol: "qty_at (by_symbol ps) s = held ps s"
proof (induction ps rule: rev_induct)
  case Nil
  show ?case by (simp add: by_symbol_def qty_at_def held_def)
next
  case (snoc p ps)
  then show ?case
    by (cases "po_symbol p = s")
      (auto simp: by_symbol_snoc qty_at_def held_def update_conv Let_def)
qed

lemma qty_at_absent: "s \<notin> set (map fst d) \<Longrightarrow> qty_at d s = 0"
  by (simp add: qty_at_def map_of_eq_None_iff [THEN iffD2])

lemma discrepancies_set:
  "set (discrepancies l e) = (\<lambda>s. (s, qty_at l s, qty_at e s)) ` {s. qty_at l s \<noteq> qty_at e s}"
proof -
  let ?K = "map fst l @ filter (\<lambda>s. s \<notin> set (map fst l)) (map fst e)"
  have "{s \<in> set ?K. qty_at l s \<noteq> qty_at e s} = {s. qty_at l s \<noteq> qty_at e s}"
  proof -
    have "s \<in> set ?K" if "qty_at l s \<noteq> qty_at e s" for s
    proof (rule ccontr)
      assume "s \<notin> set ?K"
      then have "s \<notin> set (map fst l)" "s \<notin> set (map fst e)" by auto
      then have "qty_at l s = 0 \<and> qty_at e s = 0" by (intro conjI qty_at_absent)
      with that show False by simp
    qed
    then show ?thesis by blast
  qed
  then show ?thesis unfolding discrepancies_def set_map set_filter by (rule arg_cong)
qed

text \<open>(C27) A reconciliation is exact: it matches if and only if both sides hold the same quantity of every
  symbol, and it lists precisely the symbols on which they differ, with both quantities.\<close>

theorem reconcile_exact:
  assumes "reconcile A local_ps m = (Inr rep, m')"
  shows "(rr_matches rep \<longleftrightarrow> (\<forall>s. held local_ps s = held (map snd (mk_positions m)) s))
    \<and> set (rr_discrepancies rep) = {(s, held local_ps s, held (map snd (mk_positions m)) s) | s.
          held local_ps s \<noteq> held (map snd (mk_positions m)) s}
    \<and> mk_positions m' = mk_positions m"
proof -
  let ?e = "map snd (mk_positions m)"
  let ?d = "discrepancies (by_symbol local_ps) (by_symbol ?e)"
  have "rr_discrepancies rep = ?d \<and> (rr_matches rep \<longleftrightarrow> length ?d = 0) \<and> mk_positions m' = mk_positions m"
    using assms [unfolded reconcile_def]
  proof (rule guarded_call)
    assume "(\<lambda>m. let exchange_ps = map snd (mk_positions m);
         ds = discrepancies (by_symbol local_ps) (by_symbol exchange_ps)
       in (Inr \<lparr>rr_matches = (length ds = 0), rr_local_positions = local_ps,
              rr_exchange_positions = exchange_ps, rr_discrepancies = ds,
              rr_checked_at_utc = ax_now A\<rparr>, m)) (m\<lparr>mk_fail_next := (mk_fail_next m)(''reconcile'' := None)\<rparr>) = (Inr rep, m')"
    then show ?thesis unfolding Let_def by (simp del: length_0_conv) (elim conjE, hypsubst, simp)
  qed
  moreover have "length ?d = 0 \<longleftrightarrow> set ?d = {}" by simp
  ultimately show ?thesis by (auto simp add: discrepancies_set qty_at_by_symbol)
qed

section \<open>Witnesses\<close>

definition demo_ax :: adapter_env where
  "demo_ax = \<lparr>ax_sha256 = (\<lambda>_. [7]), ax_mac = (\<lambda>k msg. k), ax_json = (\<lambda>_. []), ax_str = (\<lambda>_. ''1''),
     ax_now = ''2026-01-01T00:00:00Z''\<rparr>"

definition demo_mock :: mock where
  "demo_mock = (case MockExchangeAdapter demo_boundary ''key_v1'' ''mock'' ''1.0.0'' DEFAULT_MOCK_CAPABILITIES of
     Inr m \<Rightarrow> snd (connect demo_ax m))"

definition demo_rq :: order_request where
  "demo_rq = \<lparr>rq_client_order_id = ''c1'', rq_symbol = ''BTC'', rq_side = BUY, rq_order_type = MARKET,
     rq_quantity = 2, rq_limit_price = None, rq_time_in_force = GTC, rq_reduce_only = False\<rparr>"

definition demo_caq :: cancel_all_request where
  "demo_caq = \<lparr>ca_request_id = ''ca1'', ca_symbol = None\<rparr>"

lemma demo_mock_built:
  "\<not> isl (MockExchangeAdapter demo_boundary ''key_v1'' ''mock'' ''1.0.0'' DEFAULT_MOCK_CAPABILITIES)"
  by code_simp

lemma demo_reached: "mock_reach demo_ax demo_mock"
proof -
  obtain m where m: "MockExchangeAdapter demo_boundary ''key_v1'' ''mock'' ''1.0.0'' DEFAULT_MOCK_CAPABILITIES = Inr m"
    using demo_mock_built
    by (cases "MockExchangeAdapter demo_boundary ''key_v1'' ''mock'' ''1.0.0'' DEFAULT_MOCK_CAPABILITIES") simp_all
  from mock_connect [OF mock_start [OF m]] show ?thesis by (simp add: demo_mock_def m)
qed

lemma demo_placed:
  "\<exists>od m1. place_order (mock_hooks demo_ax) demo_ax demo_rq demo_mock = (Inr (ROrder od), m1)
    \<and> ad_idempotency demo_mock ''c1'' = None \<and> ad_idempotency m1 ''ca1'' = None \<and> mk_next_order_seq demo_mock = 0"
proof -
  have "case place_order (mock_hooks demo_ax) demo_ax demo_rq demo_mock of
      (Inr (ROrder od), m1) \<Rightarrow> ad_idempotency demo_mock ''c1'' = None \<and> ad_idempotency m1 ''ca1'' = None
        \<and> mk_next_order_seq demo_mock = 0 | _ \<Rightarrow> False"
    by code_simp
  then show ?thesis by (auto split: prod.splits sum.splits adapter_result.splits)
qed

lemma mutation_answered_once_witness:
  "\<exists>od m1. mutate (mock_hooks demo_ax) demo_ax (Place demo_rq) demo_mock = (Inr (ROrder od), m1) \<and>
     (let m2 = run_mutations demo_ax [CancelAll demo_caq] m1
      in mutate (mock_hooks demo_ax) demo_ax (Place demo_rq) m2 = (Inr (ROrder od), m2))"
proof -
  obtain od m1 where p: "mutate (mock_hooks demo_ax) demo_ax (Place demo_rq) demo_mock = (Inr (ROrder od), m1)"
    using demo_placed by auto
  from mutation_answered_once [OF p refl refl] p show ?thesis by (auto simp: Let_def)
qed

lemma mutation_recorded_first_witness:
  "\<exists>r m1. mutate (mock_hooks demo_ax) demo_ax (Place demo_rq) demo_mock = (r, m1) \<and>
     ad_audit_log m1 = ad_audit_log demo_mock @ [audit_of demo_ax demo_mock (Place demo_rq)]"
proof -
  obtain od m1 where p: "mutate (mock_hooks demo_ax) demo_ax (Place demo_rq) demo_mock = (Inr (ROrder od), m1)"
    and n: "ad_idempotency demo_mock (mutation_key (Place demo_rq)) = None"
    using demo_placed by (auto simp: demo_rq_def)
  from mutation_recorded_first [OF p n] p show ?thesis by blast
qed

lemma placed_order_is_new_witness:
  "\<exists>od m1. place_order (mock_hooks demo_ax) demo_ax demo_rq demo_mock = (Inr (ROrder od), m1) \<and>
     map_of (mk_orders m1) = (map_of (mk_orders demo_mock))(mock_order_id 1 \<mapsto> od) \<and> od_status od = ST_ACKNOWLEDGED"
proof -
  obtain od m1 where p: "place_order (mock_hooks demo_ax) demo_ax demo_rq demo_mock = (Inr (ROrder od), m1)"
    and n: "ad_idempotency demo_mock (rq_client_order_id demo_rq) = None" and s: "mk_next_order_seq demo_mock = 0"
    using demo_placed by (auto simp: demo_rq_def)
  from placed_order_is_new [OF demo_reached p n] p s show ?thesis by auto
qed

lemma cancel_all_complete_witness:
  "\<exists>cs m2. cancel_all (mock_hooks demo_ax) demo_ax demo_caq
       (snd (place_order (mock_hooks demo_ax) demo_ax demo_rq demo_mock)) = (Inr (ROrders cs), m2) \<and>
     length cs = 1 \<and> (\<forall>od \<in> set (map snd (mk_orders m2)). \<not> cancellable None od)"
proof -
  let ?m1 = "snd (place_order (mock_hooks demo_ax) demo_ax demo_rq demo_mock)"
  have "case cancel_all (mock_hooks demo_ax) demo_ax demo_caq ?m1 of
      (Inr (ROrders cs), m2) \<Rightarrow> length cs = 1 \<and> ad_idempotency ?m1 ''ca1'' = None | _ \<Rightarrow> False" by code_simp
  then obtain cs m2 where c: "cancel_all (mock_hooks demo_ax) demo_ax demo_caq ?m1 = (Inr (ROrders cs), m2)" "length cs = 1"
    and n: "ad_idempotency ?m1 (ca_request_id demo_caq) = None"
    by (auto simp: demo_caq_def split: prod.splits sum.splits adapter_result.splits)
  have "mock_reach demo_ax ?m1" using mock_mutate [OF demo_reached, of "Place demo_rq"] by simp
  from cancel_all_complete [OF this c(1) n] c show ?thesis by (auto simp: demo_caq_def)
qed

definition demo_position :: position where
  "demo_position = \<lparr>po_symbol = ''BTC'', po_quantity = 2, po_entry_price = 10, po_mark_price = 11,
     po_unrealized_pnl = 2, po_liquidation_price = None\<rparr>"

lemma reconcile_exact_witness:
  "\<exists>rep m'. reconcile demo_ax [demo_position] demo_mock = (Inr rep, m') \<and> \<not> rr_matches rep \<and>
     (''BTC'', 2, 0) \<in> set (rr_discrepancies rep)"
proof -
  have "case reconcile demo_ax [demo_position] demo_mock of (Inr rep, m') \<Rightarrow> mk_positions demo_mock = [] | _ \<Rightarrow> False"
    by code_simp
  then obtain rep m' where r: "reconcile demo_ax [demo_position] demo_mock = (Inr rep, m')" "mk_positions demo_mock = []"
    by (auto split: prod.splits sum.splits)
  have h: "held [demo_position] ''BTC'' = 2" "held [] ''BTC'' = 0" by (simp_all add: held_def demo_position_def)
  then have ne: "held [demo_position] ''BTC'' \<noteq> held (map snd (mk_positions demo_mock)) ''BTC''" using r(2) by simp
  note e = reconcile_exact [OF r(1)]
  from e ne have "\<not> rr_matches rep" by blast
  moreover from e ne have "(''BTC'', held [demo_position] ''BTC'', held (map snd (mk_positions demo_mock)) ''BTC'') \<in> set (rr_discrepancies rep)"
    by blast
  ultimately show ?thesis using r h by auto
qed

end
