(* ===== verification/Order_Demo.thy ===== *)
theory Order_Demo
  imports Order_Submission Mock_Guarantees
begin

text \<open>
  The order manager on the mock exchange: the record of adapter methods the manager is given, filled
  in with the methods of \<open>MockExchangeAdapter\<close>, and concrete runs of the two together.
\<close>

section \<open>The mock as the manager's adapter\<close>

text \<open>The mutating methods of the base class return the cached answer of that very method.\<close>

definition one_order :: "adapter_result \<Rightarrow> exc + order" where
  "one_order r = (case r of ROrder od \<Rightarrow> Inr od | ROrders _ \<Rightarrow> Inl AttributeError)"

definition order_list :: "adapter_result \<Rightarrow> exc + order list" where
  "order_list r = (case r of ROrders ods \<Rightarrow> Inr ods | ROrder _ \<Rightarrow> Inl TypeError)"

definition narrow :: "('a \<Rightarrow> exc + 'b) \<Rightarrow> ('s, exc, 'a) prog \<Rightarrow> ('s, exc, 'b) prog" where
  "narrow g f = bindP f (\<lambda>v s. (g v, s))"

definition mock_api :: "adapter_env \<Rightarrow> mock adapter_api" where
  "mock_api A =
     \<lparr>api_place_order = (\<lambda>r. narrow one_order (place_order (mock_hooks A) A r)),
      api_amend_order = (\<lambda>r. narrow one_order (amend_order (mock_hooks A) A r)),
      api_cancel_order = (\<lambda>r. narrow one_order (cancel_order (mock_hooks A) A r)),
      api_cancel_all = (\<lambda>r. narrow order_list (cancel_all (mock_hooks A) A r)),
      api_find_order = find_order get_orders,
      api_get_order_status = get_order_status,
      api_get_fills = get_fills None,
      api_exc_str = (\<lambda>_. ''failed'')\<rparr>"

section \<open>A concrete run\<close>

definition demo_om0 :: "mock om_world" where
  "demo_om0 = \<lparr>ow_store = demo_empty, ow_esm = demo_esm, ow_adapter = demo_mock, ow_om = om_init ''om''\<rparr>"

definition demo_place :: om_request where
  "demo_place = OM_Place ''BTC'' BUY LIMIT 2 (Some 5) GTC False"

definition demo_om1 :: "mock om_world" where
  "demo_om1 = om_exec demo_env (mock_api demo_ax) demo_place demo_om0"

definition demo_fill :: fill where
  "demo_fill = \<lparr>fl_fill_id = ''f1'', fl_client_order_id = make_id ''om'' 1 ''place'', fl_exchange_order_id = ''mock-order-1'',
     fl_symbol = ''BTC'', fl_side = BUY, fl_price = 5, fl_quantity = 2, fl_fee = 0, fl_timestamp_utc = ''now''\<rparr>"

definition demo_om2 :: "mock om_world" where
  "demo_om2 = om_exec demo_env (mock_api demo_ax) (OM_Fill (make_id ''om'' 1 ''place'') demo_fill) demo_om1"

lemma demo_om_run: "om_run demo_env (mock_api demo_ax) ''om'' ''BTC'' demo_om0"
proof -
  have "replay 1 demo_empty = Inr []" "\<not> py_strip_empty ''om''" "length ''om'' \<le> MAX_OM_ID_LENGTH" by code_simp+
  then have "OrderManager demo_empty ''om'' = Inr (om_init ''om'')" by (simp add: OrderManager_def prog_simps)
  then have "om_start ''om'' ''BTC'' demo_om0"
    using demo_esm_boot store_reach_inv [OF demo_reach(1)] by (simp add: om_start_def demo_om0_def demo_events)
  then show ?thesis by (auto simp: om_run_def)
qed

lemma demo_om_exec:
  assumes "om_run demo_env (mock_api demo_ax) ''om'' ''BTC'' w" "valid_request req"
  shows "om_run demo_env (mock_api demo_ax) ''om'' ''BTC'' (om_exec demo_env (mock_api demo_ax) req w)"
  using assms om_step.call [OF assms(2)] unfolding om_run_def by (meson rtranclp.rtrancl_into_rtrancl)

lemma demo_om_run1: "om_run demo_env (mock_api demo_ax) ''om'' ''BTC'' demo_om1"
proof -
  have "valid_request demo_place" by code_simp
  with demo_om_exec [OF demo_om_run this] show ?thesis by (simp add: demo_om1_def)
qed

lemma demo_om_run2: "om_run demo_env (mock_api demo_ax) ''om'' ''BTC'' demo_om2"
  using demo_om_exec [OF demo_om_run1, of "OM_Fill (make_id ''om'' 1 ''place'') demo_fill"] by (simp add: demo_om2_def)

lemma demo_acknowledged: "order_state_of demo_om1 (make_id ''om'' 1 ''place'') = Some L_ACKNOWLEDGED"
  by code_simp


section \<open>Witnesses\<close>

lemma demo_known: "\<exists>sn. map_of (om_snapshots (ow_om demo_om1)) (make_id ''om'' 1 ''place'') = Some sn \<and>
    os_lifecycle_state sn = L_ACKNOWLEDGED"
  using demo_acknowledged by (auto simp: order_state_of_def)

lemma om_recovery_witness:
  "\<exists>m. OrderManager (ow_store demo_om1) ''om'' = Inr m \<and> om_snapshots m = om_snapshots (ow_om demo_om1)"
  using om_recovery [OF demo_om_run1] by blast

lemma order_lifecycle_witness:
  "\<exists>sn'. map_of (om_snapshots (ow_om demo_om2)) (make_id ''om'' 1 ''place'') = Some sn' \<and>
     order_edge\<^sup>*\<^sup>* L_ACKNOWLEDGED (os_lifecycle_state sn')"
proof -
  have "valid_request (OM_Fill (make_id ''om'' 1 ''place'') demo_fill)" by simp
  from r_into_rtranclp [of "om_step demo_env (mock_api demo_ax) ''om'' ''BTC''", OF om_step.call [OF this, of _ _ _ _ demo_om1]]
  have "(om_step demo_env (mock_api demo_ax) ''om'' ''BTC'')\<^sup>*\<^sup>* demo_om1 demo_om2" by (simp only: demo_om2_def)
  with demo_known order_lifecycle [OF demo_om_run1 this] show ?thesis by fastforce
qed

lemma fills_counted_once_witness:
  "\<exists>sn. map_of (om_snapshots (ow_om demo_om2)) (make_id ''om'' 1 ''place'') = Some sn \<and> os_lifecycle_state sn = L_FILLED \<and>
     report_fill demo_env (make_id ''om'' 1 ''place'') demo_fill demo_om2 = (Inr (Some sn), demo_om2)"
proof -
  have "order_state_of demo_om2 (make_id ''om'' 1 ''place'') = Some L_FILLED" by code_simp
  then obtain sn where sn: "map_of (om_snapshots (ow_om demo_om2)) (make_id ''om'' 1 ''place'') = Some sn"
    "os_lifecycle_state sn = L_FILLED" by (auto simp: order_state_of_def)
  have "fl_fill_id demo_fill \<in> fst ` set (order_fills ''om'' (make_id ''om'' 1 ''place'') (es_events (ow_store demo_om2)))"
    by code_simp
  with fills_counted_once [OF demo_om_run2 sn(1)] sn show ?thesis by blast
qed

definition demo_sent :: order_request where
  "demo_sent = \<lparr>rq_client_order_id = make_id ''om'' 1 ''place'', rq_symbol = ''BTC'', rq_side = BUY, rq_order_type = LIMIT,
     rq_quantity = 2, rq_limit_price = Some 5, rq_time_in_force = GTC, rq_reduce_only = False\<rparr>"

lemma demo_first: "om_next_seq (ow_om demo_om0) = 1" "\<not> py_strip_empty ''BTC''"
  by code_simp+

lemma submit_before_send_witness:
  "\<exists>w1. submitted ''om'' ''BTC'' (make_id ''om'' 1 ''place'') w1 \<and> extends w1 demo_om1 \<and> ow_adapter w1 = demo_mock \<and>
     snd (api_place_order (mock_api demo_ax) demo_sent demo_mock) = ow_adapter demo_om1"
proof -
  obtain r where r: "om_place_order demo_env (mock_api demo_ax) ''BTC'' BUY LIMIT 2 (Some 5) GTC False demo_om0 = (r, demo_om1)"
    by (metis demo_om1_def demo_place_def om_exec.simps(1) prod.collapse)
  have "\<not> isl (fst (om_place_order demo_env (mock_api demo_ax) ''BTC'' BUY LIMIT 2 (Some 5) GTC False demo_om0))" by code_simp
  then have "\<not> isl r" by (simp add: r)
  moreover have "ow_adapter demo_om0 = demo_mock" by (simp add: demo_om0_def)
  ultimately show ?thesis
    using submit_before_send [OF demo_om_run demo_first(2) r, unfolded demo_first(1), OF refl demo_sent_def] by fastforce
qed

definition demo_bad :: "(exc + order_snapshot option) \<times> mock om_world" where
  "demo_bad = om_place_order demo_env (mock_api demo_ax) ''BTC'' BUY LIMIT 0 (Some 5) GTC False demo_om0"


text \<open>Another client cancels the order at the venue.\<close>

definition demo_om3 :: "mock om_world" where
  "demo_om3 = demo_om1\<lparr>ow_adapter := snd (cancel_order (mock_hooks demo_ax) demo_ax
     \<lparr>cq_request_id = ''other'', cq_exchange_order_id = ''mock-order-1''\<rparr> (ow_adapter demo_om1))\<rparr>"

definition demo_seen :: "(exc + order) \<times> mock" where
  "demo_seen = api_get_order_status (mock_api demo_ax) ''mock-order-1'' (ow_adapter demo_om3)"

lemma unsolicited_cancel_refused_witness:
  "resync_order demo_env (mock_api demo_ax) (make_id ''om'' 1 ''place'') demo_om3 =
     (Inl OrderStateInconsistencyError, demo_om3\<lparr>ow_adapter := snd demo_seen\<rparr>)"
proof -
  have "case map_of (om_snapshots (ow_om demo_om3)) (make_id ''om'' 1 ''place'') of None \<Rightarrow> False
    | Some sn \<Rightarrow> os_lifecycle_state sn = L_ACKNOWLEDGED \<and> os_exchange_order_id sn = Some ''mock-order-1''"
    by code_simp
  then obtain sn where sn: "map_of (om_snapshots (ow_om demo_om3)) (make_id ''om'' 1 ''place'') = Some sn"
    "os_lifecycle_state sn = L_ACKNOWLEDGED" "os_exchange_order_id sn = Some ''mock-order-1''" by (auto split: option.splits)
  have "case fst demo_seen of Inl _ \<Rightarrow> False | Inr od \<Rightarrow> od_status od = ST_CANCELLED" by code_simp
  then obtain od where od: "fst demo_seen = Inr od" "od_status od = ST_CANCELLED" by (auto split: sum.splits)
  then have seen: "api_get_order_status (mock_api demo_ax) ''mock-order-1'' (ow_adapter demo_om3) = (Inr od, snd demo_seen)"
    by (simp add: demo_seen_def prod_eq_iff)
  have "\<not> om_terminal L_ACKNOWLEDGED" by code_simp
  with unsolicited_cancel_refused [OF sn(1) _ od(2) sn(3) seen refl] sn(2) show ?thesis by simp
qed

end
