(* ===== verification/Execution_Demo.thy ===== *)
theory Execution_Demo
  imports Execution Order_Demo
begin

text \<open>An approved trade on the mock exchange, through quantization and the order manager.\<close>

definition demo_trade :: trade_request where
  "demo_trade = \<lparr>tr_symbol = ''BTC'', tr_side = BUY, tr_order_type = LIMIT, tr_time_in_force = GTC, tr_reduce_only = False,
     tr_quantity = 12345 / 10000, tr_entry_price = 100001 / 1000, tr_stop_price = 90, tr_proposed_risk_amount = 10,
     tr_proposed_notional = 100, tr_proposed_margin_required = 100, tr_leverage = 1, tr_estimated_liquidation_price = Some 1\<rparr>"

definition demo_approval :: risk_decision where
  "demo_approval = \<lparr>rd_decision = APPROVED, rd_reason_codes = [OK_REASON], rd_violated_limits = [], rd_calculated_exposure = None,
     rd_calculated_heat = None, rd_leverage = None, rd_liquidation_buffer = None, rd_funding_estimate = None,
     rd_timestamp_utc = ''t'', rd_audit_metadata = []\<rparr>"

definition demo_rules :: quantization_rules where
  "demo_rules = [''BTC'' \<mapsto> \<lparr>sz_decimals = 2\<rparr>]"

lemma demo_executed: "\<not> isl (fst (execute_place demo_env (mock_api demo_ax) demo_trade demo_approval (Some demo_rules) demo_om0))"
  by code_simp

lemma executed_within_approval_witness:
  "\<exists>quantity p. 0 < quantity \<and> quantity \<le> 12345 / 10000 \<and> venue_size \<lparr>sz_decimals = 2\<rparr> quantity \<and>
     venue_price \<lparr>sz_decimals = 2\<rparr> p \<and> p \<le> 100001 / 1000 \<and>
     snd (execute_place demo_env (mock_api demo_ax) demo_trade demo_approval (Some demo_rules) demo_om0) =
       snd (om_place_order demo_env (mock_api demo_ax) ''BTC'' BUY LIMIT quantity (Some p) GTC False demo_om0)"
proof -
  obtain q w' where run: "execute_place demo_env (mock_api demo_ax) demo_trade demo_approval (Some demo_rules) demo_om0 = (q, w')"
    by (meson surj_pair)
  have trade: "tr_symbol demo_trade = ''BTC''" "tr_side demo_trade = BUY" "tr_order_type demo_trade = LIMIT"
    "tr_time_in_force demo_trade = GTC" "\<not> tr_reduce_only demo_trade" "tr_quantity demo_trade = 12345 / 10000"
    "tr_entry_price demo_trade = 100001 / 1000"
    by (simp_all add: demo_trade_def)
  have rules: "demo_rules ''BTC'' = Some \<lparr>sz_decimals = 2\<rparr>" by (simp add: demo_rules_def)
  have pos: "0 < tr_quantity demo_trade" "0 < tr_entry_price demo_trade"
    "\<forall>s. demo_rules (tr_symbol demo_trade) = Some s \<longrightarrow> SymbolRules_post_init s = Inr s"
    by (simp_all add: demo_trade_def rules SymbolRules_post_init_def PRICE_MAX_DECIMALS_def)
  have "\<not> isl q" using demo_executed by (simp add: run)
  with executed_within_approval [OF run pos] run show ?thesis
    by (auto simp: trade rules split: option.splits)
qed

end
