(* ===== verification/Spec2Isabelle.thy ===== *)
theory Spec2Isabelle
  imports App_Demo Registry_Demo Portfolio_Ledger Position_Demo Trading_Demo Execution_Demo
begin

text \<open>
  Verification of the Turtle execution engine.

  The engine keeps one durable, append-only event log (\<^verbatim>\<open>event_store\<close>).  Every other component
  keeps its state in memory, appends an event before it changes that state, and rebuilds the state
  by folding its own events over the log when the process starts.

  \<^item> \<open>Prelude\<close>: exceptions as values, programs with state and exceptions, payload values,
    dictionaries, strings, and the fold over a log that every component uses to recover.
  \<^item> \<open>Decimals\<close>: Python's \<open>Decimal\<close> arithmetic in the default context.
  \<^item> \<open>Codec\<close>, \<open>Event_Store\<close>, \<open>Event_Log\<close>: record framing, the store and its properties.
  \<^item> \<open>Ledger\<close>: the contract between the store and the components.
\<close>

end
